(* ===== verification/BTB_Prelude.thy ===== *)
theory BTB_Prelude
  imports Complex_Main "HOL-Library.Monad_Syntax" "HOL-Library.Multiset"
begin

text \<open>
  Shared automation of the development: the collections of simplification rules, the
  lemmas on lists, options and association lists that several components use, and the
  conventions for code that may raise.

  Conventions. A Python call that may raise returns an \<open>option\<close> where the code never
  looks at which exception it was (\<open>None\<close> is "raises"), and a sum \<open>error + 'a\<close> of a
  datatype of the component where callers tell the exceptions apart.
\<close>

named_theorems step_defs \<open>definitions of the steps of the state machines\<close>
named_theorems frame_simps \<open>what an operation leaves unchanged\<close>
named_theorems clean_iff \<open>when a list of collected problems is empty\<close>

section \<open>Lists\<close>

text \<open>Mapping a function that may raise over a list, from left to right.\<close>

fun mapM :: "('a \<Rightarrow> 'b option) \<Rightarrow> 'a list \<Rightarrow> 'b list option" where
  "mapM f [] = Some []"
| "mapM f (x # xs) =
     (case f x of None \<Rightarrow> None
      | Some y \<Rightarrow> (case mapM f xs of None \<Rightarrow> None | Some ys \<Rightarrow> Some (y # ys)))"

lemma mapM_Some_iff: "mapM f xs = Some ys \<longleftrightarrow> list_all2 (\<lambda>x y. f x = Some y) xs ys"
proof (induction xs arbitrary: ys)
  case Nil
  then show ?case by auto
next
  case (Cons x xs)
  then show ?case
    by (cases "mapM f xs") (auto simp: list_all2_Cons1 split: option.splits)
qed

lemma mapM_map: "(\<And>x. x \<in> set xs \<Longrightarrow> f x = Some (g x)) \<Longrightarrow> mapM f xs = Some (map g xs)"
  by (induction xs) auto

lemma mapM_Some_const [simp]: "mapM (\<lambda>x. Some (g x)) xs = Some (map g xs)"
  by (rule mapM_map) simp

text \<open>A fold whose step may raise.\<close>

fun foldM :: "('s \<Rightarrow> 'a \<Rightarrow> 's option) \<Rightarrow> 's \<Rightarrow> 'a list \<Rightarrow> 's option" where
  "foldM f s [] = Some s"
| "foldM f s (x # xs) = (case f s x of None \<Rightarrow> None | Some s' \<Rightarrow> foldM f s' xs)"

lemma foldM_total:
  "(\<And>s x. x \<in> set xs \<Longrightarrow> \<exists>s'. f s x = Some s') \<Longrightarrow> \<exists>s'. foldM f s xs = Some s'"
proof (induction xs arbitrary: s)
  case Nil
  then show ?case by simp
next
  case (Cons x xs)
  then obtain s' where "f s x = Some s'" by fastforce
  with Cons show ?case by simp
qed

lemma foldM_map: "(\<And>s x. x \<in> set xs \<Longrightarrow> f s x = Some (g s x)) \<Longrightarrow> foldM f s xs = Some (foldl g s xs)"
  by (induction xs arbitrary: s) auto

lemma foldM_rows: "foldM f c (map g xs) = foldM (\<lambda>c x. f c (g x)) c xs"
  by (induction xs arbitrary: c) (auto split: option.splits)

text \<open>An invariant of the steps is one of the fold.\<close>

lemma foldM_invariant:
  assumes "foldM f s xs = Some t" and "P s"
    and "\<And>s x s'. x \<in> set xs \<Longrightarrow> P s \<Longrightarrow> f s x = Some s' \<Longrightarrow> P s'"
  shows "P t"
  using assms
proof (induction xs arbitrary: s)
  case Nil
  then show ?case by simp
next
  case (Cons x xs)
  then obtain u where "f s x = Some u" "foldM f u xs = Some t"
    by (auto split: option.splits)
  with Cons show ?case by (metis list.set_intros)
qed

text \<open>Joining strings with a separator, and splitting at the first occurrence of a character.\<close>

fun join :: "string \<Rightarrow> string list \<Rightarrow> string" where
  "join sep [] = []"
| "join sep [s] = s"
| "join sep (s # t # us) = s @ sep @ join sep (t # us)"

definition before_char :: "char \<Rightarrow> string \<Rightarrow> string" where
  "before_char c s = takeWhile (\<lambda>x. x \<noteq> c) s"

definition starts_with :: "string \<Rightarrow> string \<Rightarrow> bool" where
  "starts_with p s \<longleftrightarrow> take (length p) s = p"

lemma starts_with_append [simp]: "starts_with p (p @ s)"
  by (simp add: starts_with_def)

text \<open>
  The positive integers \<open>1, 2, \<dots>, n\<close>, as Python's \<open>list(range(1, n + 1))\<close>, and when a
  list is that list.
\<close>

definition upto1 :: "nat \<Rightarrow> int list" where
  "upto1 n = map (\<lambda>i. int i + 1) [0..<n]"

lemma length_upto1 [simp]: "length (upto1 n) = n"
  by (simp add: upto1_def)

lemma upto1_0 [simp]: "upto1 0 = []"
  by (simp add: upto1_def)

lemma upto1_Suc [simp]: "upto1 (Suc n) = upto1 n @ [int n + 1]"
  by (simp add: upto1_def)

lemma set_upto1 [simp]: "set (upto1 n) = {1..int n}"
proof -
  have "x \<in> (\<lambda>i. int i + 1) ` {0..<n}" if "1 \<le> x" "x \<le> int n" for x
    using that by (intro image_eqI [where x = "nat (x - 1)"]) auto
  then show ?thesis by (auto simp: upto1_def)
qed

lemma sorted_upto1: "sorted (upto1 n)"
  by (auto simp: upto1_def sorted_iff_nth_mono)

lemma distinct_upto1: "distinct (upto1 n)"
  by (auto simp: upto1_def distinct_map inj_on_def)

lemma sorted_distinct_upto1:
  assumes "sorted xs" and "distinct xs" and "set xs = {1..int n}"
  shows "xs = upto1 n"
  by (rule sorted_distinct_set_unique)
    (simp_all add: assms sorted_upto1 distinct_upto1)

text \<open>Association lists: the rows of an update in place.\<close>

lemma map_of_append_None [simp]: "map_of xs k = None \<Longrightarrow> map_of (xs @ ys) k = map_of ys k"
  by (simp add: map_add_def split: option.splits)

lemma map_of_append_Some [simp]: "map_of ys k = None \<Longrightarrow> map_of (xs @ ys) k = map_of xs k"
  by (simp add: map_add_def split: option.splits)

text \<open>\<open>find\<close> over lists keyed by distinct identifiers.\<close>

lemma find_distinct:
  "distinct (map f xs) \<Longrightarrow> x \<in> set xs \<Longrightarrow> find (\<lambda>y. f y = f x) xs = Some x"
  by (induction xs) (auto simp: image_iff)

lemma find_key_None: "find (\<lambda>y. f y = k) xs = None \<longleftrightarrow> k \<notin> f ` set xs"
  by (auto simp: find_None_iff)

section \<open>Tickets\<close>

text \<open>
  The numbers a counter that starts at 1 has handed out when it stands at \<open>n\<close>, and how the
  books stay balanced when one holder among several moves on.
\<close>

definition drawn :: "nat \<Rightarrow> nat multiset" where
  "drawn n = mset [1..<n]"

lemma drawn_1 [simp]: "drawn (Suc 0) = {#}"
  by (simp add: drawn_def)

lemma drawn_Suc [simp]: "1 \<le> n \<Longrightarrow> drawn (Suc n) = add_mset n (drawn n)"
  by (simp add: drawn_def del: mset_upt)

lemma tickets_balance:
  assumes "A + (X + (H + Y)) = D" and "A' + L + D = A + H + D'"
  shows "A' + (X + (L + Y)) = (D' :: 'a multiset)"
proof (rule multiset_eqI)
  fix x
  from assms have "count (A + (X + (H + Y))) x = count D x"
    and "count (A' + L + D) x = count (A + H + D') x" by simp_all
  then show "count (A' + (X + (L + Y))) x = count D' x" by simp
qed

lemma sorted_tickets:
  assumes "mset (map f xs) = drawn n"
  shows "map f (sort_key f xs) = [1..<n]"
proof -
  have "mset (map f (sort_key f xs)) = mset [1..<n]"
    using assms by (simp add: drawn_def mset_map)
  moreover have "sorted (map f (sort_key f xs))" by simp
  moreover have "sorted [1..<n]" by simp
  ultimately show ?thesis by (metis properties_for_sort)
qed

lemma size_drawn [simp]: "size (drawn n) = n - 1"
  by (simp add: drawn_def)

lemma set_drawn [simp]: "set_mset (drawn n) = {1..<n}"
  by (auto simp: drawn_def)

end
