(* ===== verification/Py_Value.thy ===== *)
theory Py_Value
  imports BTB_Prelude "HOL-Library.List_Lexorder" "HOL-Library.Char_ord"
begin

text \<open>
  Python values as the harness handles them: what \<open>json.loads\<close> returns, what
  \<open>dict(sqlite3.Row)\<close> holds, and what the f-strings of the code render.

  A string is the list of the bytes of its UTF-8 encoding, so equality, prefixes,
  concatenation and the code point order of \<open>sorted\<close> are those of Python. A dict is an
  association list in insertion order; the code never stores a key twice, which is
  \<open>dict_wf\<close>. A finite float is its exact rational value; infinities and NaN are not
  modelled. \<open>py_eq\<close> is Python's \<open>==\<close>: numbers compare by value whatever their type
  (\<open>True == 1 == 1.0\<close>), dicts compare without regard to order.
\<close>

datatype pyval =
    PNone
  | PBool bool
  | PInt int
  | PFloat rat
  | PStr string
  | PList "pyval list"
  | PDict "(string \<times> pyval) list"

type_synonym pydict = "(string \<times> pyval) list"

section \<open>Type tests, truth and hashing\<close>

fun is_str :: "pyval \<Rightarrow> bool" where
  "is_str (PStr _) = True" | "is_str _ = False"

fun is_bool :: "pyval \<Rightarrow> bool" where
  "is_bool (PBool _) = True" | "is_bool _ = False"

text \<open>\<open>isinstance(v, int)\<close> holds of booleans too.\<close>

fun is_int :: "pyval \<Rightarrow> bool" where
  "is_int (PInt _) = True" | "is_int (PBool _) = True" | "is_int _ = False"

fun is_list :: "pyval \<Rightarrow> bool" where
  "is_list (PList _) = True" | "is_list _ = False"

fun is_dict :: "pyval \<Rightarrow> bool" where
  "is_dict (PDict _) = True" | "is_dict _ = False"

text \<open>\<open>isinstance(v, int) and not isinstance(v, bool)\<close>.\<close>

fun is_strict_int :: "pyval \<Rightarrow> bool" where
  "is_strict_int (PInt _) = True" | "is_strict_int _ = False"

fun int_of_py :: "pyval \<Rightarrow> int" where
  "int_of_py (PInt i) = i" | "int_of_py (PBool b) = (if b then 1 else 0)" | "int_of_py _ = 0"

fun truthy :: "pyval \<Rightarrow> bool" where
  "truthy PNone = False"
| "truthy (PBool b) = b"
| "truthy (PInt i) = (i \<noteq> 0)"
| "truthy (PFloat q) = (q \<noteq> 0)"
| "truthy (PStr s) = (s \<noteq> [])"
| "truthy (PList xs) = (xs \<noteq> [])"
| "truthy (PDict d) = (d \<noteq> [])"

text \<open>Lists and dicts are unhashable: a set or dict key of theirs raises \<open>TypeError\<close>.\<close>

fun hashable :: "pyval \<Rightarrow> bool" where
  "hashable (PList _) = False" | "hashable (PDict _) = False" | "hashable _ = True"

section \<open>Equality\<close>

fun num_of :: "pyval \<Rightarrow> rat option" where
  "num_of (PBool b) = Some (if b then 1 else 0)"
| "num_of (PInt i) = Some (of_int i)"
| "num_of (PFloat q) = Some q"
| "num_of _ = None"

function (sequential) py_eq :: "pyval \<Rightarrow> pyval \<Rightarrow> bool"
  and py_eqs :: "pyval list \<Rightarrow> pyval list \<Rightarrow> bool"
  and py_eqd :: "pydict \<Rightarrow> pydict \<Rightarrow> bool" where
  "py_eq PNone PNone = True"
| "py_eq (PStr s) (PStr t) = (s = t)"
| "py_eq (PList xs) (PList ys) = py_eqs xs ys"
| "py_eq (PDict d) (PDict e) = (length d = length e \<and> py_eqd d e)"
| "py_eq v w = (case num_of v of None \<Rightarrow> False
     | Some a \<Rightarrow> (case num_of w of None \<Rightarrow> False | Some b \<Rightarrow> a = b))"
| "py_eqs [] [] = True"
| "py_eqs (x # xs) (y # ys) = (py_eq x y \<and> py_eqs xs ys)"
| "py_eqs _ _ = False"
| "py_eqd [] e = True"
| "py_eqd ((k, v) # d) e = ((case map_of e k of None \<Rightarrow> False | Some w \<Rightarrow> py_eq v w) \<and> py_eqd d e)"
  by pat_completeness auto
termination by size_change

text \<open>Membership in a list, tuple or set of values, which goes by \<open>==\<close>.\<close>

definition py_in :: "pyval \<Rightarrow> pyval list \<Rightarrow> bool" where
  "py_in v vs \<longleftrightarrow> list_ex (py_eq v) vs"

text \<open>Dicts without repeated keys, at every level.\<close>

fun dict_wf :: "pyval \<Rightarrow> bool" where
  "dict_wf (PList xs) = (\<forall>x \<in> set xs. dict_wf x)"
| "dict_wf (PDict d) = (distinct (map fst d) \<and> (\<forall>(k, v) \<in> set d. dict_wf v))"
| "dict_wf _ = True"

lemma py_eq_PStr [simp]: "py_eq v (PStr s) \<longleftrightarrow> v = PStr s" "py_eq (PStr s) v \<longleftrightarrow> v = PStr s"
  by (cases v; auto)+

lemma py_eq_PNone [simp]: "py_eq v PNone \<longleftrightarrow> v = PNone" "py_eq PNone v \<longleftrightarrow> v = PNone"
  by (cases v; auto)+

lemma py_eq_PInt [simp]: "py_eq (PInt i) (PInt j) \<longleftrightarrow> i = j"
  by simp

lemma py_eqd_sub: "(\<And>k v. (k, v) \<in> set d \<Longrightarrow> \<exists>w. map_of e k = Some w \<and> py_eq v w) \<Longrightarrow> py_eqd d e"
  by (induction d) (auto, fastforce)

lemma py_eqs_refl: "(\<And>x. x \<in> set xs \<Longrightarrow> py_eq x x) \<Longrightarrow> py_eqs xs xs"
  by (induction xs) auto

lemma py_eq_refl: "dict_wf v \<Longrightarrow> py_eq v v"
proof (induction v)
  case (PList xs)
  then show ?case by (auto intro: py_eqs_refl)
next
  case (PDict d)
  have "\<exists>w. map_of d k = Some w \<and> py_eq v w" if "(k, v) \<in> set d" for k v
    using that PDict by (fastforce simp: snds.simps)
  then show ?case by (auto intro: py_eqd_sub)
qed auto

text \<open>Values made of text, integers, booleans and \<open>None\<close> of one type compare structurally.\<close>

lemma py_eq_PBool_PBool [simp]: "py_eq (PBool a) (PBool b) \<longleftrightarrow> a = b"
  by (cases a; cases b) auto

lemma py_eqs_length: "py_eqs xs ys \<Longrightarrow> length xs = length ys"
proof (induction xs arbitrary: ys)
  case Nil
  then show ?case by (cases ys) auto
next
  case (Cons x xs)
  then show ?case by (cases ys) auto
qed

lemma py_eqs_map_PStr [simp]: "py_eqs (map PStr xs) (map PStr ys) \<longleftrightarrow> xs = ys"
proof (induction xs arbitrary: ys)
  case Nil
  then show ?case by (cases ys) auto
next
  case (Cons x xs)
  then show ?case by (cases ys) auto
qed

lemma py_eqs_map_PInt [simp]: "py_eqs (map PInt xs) (map PInt ys) \<longleftrightarrow> xs = ys"
proof (induction xs arbitrary: ys)
  case Nil
  then show ?case by (cases ys) auto
next
  case (Cons x xs)
  then show ?case by (cases ys) auto
qed

section \<open>Dicts\<close>

text \<open>\<open>d.get(k)\<close>, \<open>k in d\<close>, and the coercion \<open>v if isinstance(v, dict) else {}\<close>.\<close>

definition dget :: "pydict \<Rightarrow> string \<Rightarrow> pyval" where
  "dget d k = (case map_of d k of None \<Rightarrow> PNone | Some v \<Rightarrow> v)"

definition dhas :: "pydict \<Rightarrow> string \<Rightarrow> bool" where
  "dhas d k \<longleftrightarrow> k \<in> set (map fst d)"

fun as_dict :: "pyval \<Rightarrow> pydict" where
  "as_dict (PDict d) = d"
| "as_dict _ = []"

fun as_list :: "pyval \<Rightarrow> pyval list" where
  "as_list (PList xs) = xs"
| "as_list _ = []"

lemma dget_Nil [simp]: "dget [] k = PNone"
  by (simp add: dget_def)

lemma dget_Cons [simp]: "dget ((k', v) # d) k = (if k = k' then v else dget d k)"
  by (simp add: dget_def)

lemma dget_append: "dget (d @ e) k = (if dhas d k then dget d k else dget e k)"
  by (induction d) (force simp: dhas_def)+

text \<open>The dicts of a list, as \<open>[x for x in xs if isinstance(x, dict)]\<close>.\<close>

definition dicts_of :: "pyval list \<Rightarrow> pydict list" where
  "dicts_of xs = map as_dict (filter is_dict xs)"

lemma dicts_of_PDict [simp]: "dicts_of (map PDict ds) = ds"
  by (simp add: dicts_of_def comp_def)

lemma dicts_of_map_PDict [simp]:
  "dicts_of (map (\<lambda>x. PDict (f x)) xs) = map f xs" "dicts_of (map (PDict \<circ> f) xs) = map f xs"
  by (induction xs) (simp_all add: dicts_of_def)

section \<open>Rendering\<close>

fun digit :: "nat \<Rightarrow> char" where
  "digit n = ''0123456789'' ! (n mod 10)"

fun nat_str :: "nat \<Rightarrow> string" where
  "nat_str n = (if n < 10 then [digit n] else nat_str (n div 10) @ [digit n])"

declare nat_str.simps [simp del]

definition int_str :: "int \<Rightarrow> string" where
  "int_str i = (if i < 0 then CHR ''-'' # nat_str (nat (- i)) else nat_str (nat i))"

definition hex_digit :: "nat \<Rightarrow> char" where
  "hex_digit n = ''0123456789abcdef'' ! (n mod 16)"

definition repr_char :: "char \<Rightarrow> char \<Rightarrow> string" where
  "repr_char q c =
     (let n = of_char c :: nat in
      if c = q \<or> n = 92 then [char_of (92::nat), c]
      else if n = 9 then [char_of (92::nat), CHR ''t'']
      else if n = 10 then [char_of (92::nat), CHR ''n'']
      else if n = 13 then [char_of (92::nat), CHR ''r'']
      else if n < 32 \<or> n = 127
        then [char_of (92::nat), CHR ''x'', hex_digit (n div 16), hex_digit (n mod 16)]
      else [c])"

text \<open>\<open>repr\<close> of a string: single quotes unless it holds one and no double quote.\<close>

definition str_repr :: "string \<Rightarrow> string" where
  "str_repr s =
     (let sq = char_of (39::nat); dq = char_of (34::nat);
          q = (if sq \<in> set s \<and> dq \<notin> set s then dq else sq)
      in q # concat (map (repr_char q) s) @ [q])"

text \<open>
  \<open>repr\<close> of a value. A float is rendered as its exact quotient where Python prints the
  shortest decimal that reads back; no decision of the code depends on that text.
\<close>

definition float_repr :: "rat \<Rightarrow> string" where
  "float_repr q = (case quotient_of q of (n, d) \<Rightarrow>
     if d = 1 then int_str n @ ''.0'' else int_str n @ ''/'' @ int_str d)"

fun py_repr :: "pyval \<Rightarrow> string"
  and py_repr_list :: "pyval list \<Rightarrow> string list"
  and py_repr_dict :: "pydict \<Rightarrow> string list" where
  "py_repr PNone = ''None''"
| "py_repr (PBool b) = (if b then ''True'' else ''False'')"
| "py_repr (PInt i) = int_str i"
| "py_repr (PFloat q) = float_repr q"
| "py_repr (PStr s) = str_repr s"
| "py_repr (PList xs) = ''['' @ join '', '' (py_repr_list xs) @ '']''"
| "py_repr (PDict d) = ''{'' @ join '', '' (py_repr_dict d) @ ''}''"
| "py_repr_list [] = []"
| "py_repr_list (x # xs) = py_repr x # py_repr_list xs"
| "py_repr_dict [] = []"
| "py_repr_dict ((k, v) # d) = (str_repr k @ '': '' @ py_repr v) # py_repr_dict d"

text \<open>\<open>str\<close> of a value, which is what an f-string without a conversion renders.\<close>

fun py_str :: "pyval \<Rightarrow> string" where
  "py_str (PStr s) = s"
| "py_str v = py_repr v"

end
