(* ===== verification/Fixture_Db.thy ===== *)
theory Fixture_Db
  imports Py_Value
begin

text \<open>
  The authoritative SQLite layer of the fixture, \<open>src/btb/app/db.py\<close>: the four tables as
  lists of rows in primary key order, the constraints of \<open>_SCHEMA\<close> as checks of the insert
  statements, and one definition per function of the module. An operation returns its
  result and the durable state; an operation that raises leaves the state it was given,
  which is what closing a connection with an uncommitted transaction does.

  The clock (\<open>_now\<close>) and the fresh identifier of \<open>new_send_uid\<close> are arguments. Rowids grow
  by one from the largest, as SQLite chooses them below its largest 64-bit rowid.
\<close>

section \<open>Tables\<close>

record user_row =
  u_id :: int
  u_name :: string

record draft_row =
  d_id :: int
  d_user :: int
  d_subject :: string
  d_body :: string
  d_status :: string
  d_created :: rat
  d_updated :: rat

record message_row =
  m_id :: int
  m_user :: int
  m_draft :: "int option"
  m_subject :: string
  m_body :: string
  m_uid :: string
  m_sent :: rat

record attempt_row =
  a_id :: int
  a_draft :: int
  a_uid :: string
  a_outcome :: string
  a_created :: rat

record db =
  users :: "user_row list"
  drafts :: "draft_row list"
  messages :: "message_row list"
  attempts :: "attempt_row list"

datatype integrity_error = SqliteUnique | SqlitePrimaryKey | SqliteForeignKey | SqliteCheck

datatype db_error =
    KeyError int
  | DraftNotSaved int string
  | Integrity integrity_error
  | AssertionError

definition empty_db :: db where
  "empty_db = \<lparr>users = [], drafts = [], messages = [], attempts = []\<rparr>"

text \<open>The rowid SQLite gives a row inserted without one.\<close>

definition next_rowid :: "int list \<Rightarrow> int" where
  "next_rowid ids = (case ids of [] \<Rightarrow> 1 | i # is \<Rightarrow> fold max is i + 1)"

section \<open>Insert statements and their constraints\<close>

definition insert_user :: "db \<Rightarrow> string \<Rightarrow> db" where
  "insert_user s name =
     s\<lparr>users := users s @ [\<lparr>u_id = next_rowid (map u_id (users s)), u_name = name\<rparr>]\<rparr>"

definition insert_draft :: "db \<Rightarrow> int option \<Rightarrow> int \<Rightarrow> string \<Rightarrow> string \<Rightarrow> string \<Rightarrow> rat
    \<Rightarrow> integrity_error + db \<times> int" where
  "insert_draft s draft_id user_id subject body status t =
     (let did = (case draft_id of Some i \<Rightarrow> i | None \<Rightarrow> next_rowid (map d_id (drafts s)));
          row = \<lparr>d_id = did, d_user = user_id, d_subject = subject, d_body = body,
                 d_status = status, d_created = t, d_updated = t\<rparr>
      in if status \<notin> {''new'', ''saved''} then Inl SqliteCheck
         else if did \<in> d_id ` set (drafts s) then Inl SqlitePrimaryKey
         else if user_id \<notin> u_id ` set (users s) then Inl SqliteForeignKey
         else Inr (s\<lparr>drafts := insort_key d_id row (drafts s)\<rparr>, did))"

definition insert_message :: "db \<Rightarrow> int \<Rightarrow> int \<Rightarrow> string \<Rightarrow> string \<Rightarrow> string \<Rightarrow> rat
    \<Rightarrow> integrity_error + db \<times> int" where
  "insert_message s user_id draft_id subject body uid t =
     (let mid = next_rowid (map m_id (messages s));
          row = \<lparr>m_id = mid, m_user = user_id, m_draft = Some draft_id, m_subject = subject,
                 m_body = body, m_uid = uid, m_sent = t\<rparr>
      in if uid \<in> m_uid ` set (messages s) then Inl SqliteUnique
         else if user_id \<notin> u_id ` set (users s) \<or> draft_id \<notin> d_id ` set (drafts s)
           then Inl SqliteForeignKey
         else Inr (s\<lparr>messages := messages s @ [row]\<rparr>, mid))"

definition insert_attempt :: "db \<Rightarrow> int \<Rightarrow> string \<Rightarrow> string \<Rightarrow> rat \<Rightarrow> db" where
  "insert_attempt s draft_id uid outcome t =
     s\<lparr>attempts := attempts s @
        [\<lparr>a_id = next_rowid (map a_id (attempts s)), a_draft = draft_id, a_uid = uid,
          a_outcome = outcome, a_created = t\<rparr>]\<rparr>"

section \<open>Setup\<close>

definition init_db :: "db \<Rightarrow> string option \<Rightarrow> db" where
  "init_db s seed_user =
     (case seed_user of
        Some name \<Rightarrow> if users s = [] then insert_user s name else s
      | None \<Rightarrow> s)"

definition reset :: "db \<Rightarrow> string \<Rightarrow> db" where
  "reset s seed_user = insert_user empty_db seed_user"

definition seed_draft :: "db \<Rightarrow> rat \<Rightarrow> string \<Rightarrow> string \<Rightarrow> string \<Rightarrow> int \<Rightarrow> int option
    \<Rightarrow> (db_error + int) \<times> db" where
  "seed_draft s t subject body status user_id draft_id =
     (case insert_draft s draft_id user_id subject body status t of
        Inl e \<Rightarrow> (Inl (Integrity e), s)
      | Inr (s', did) \<Rightarrow> (Inr did, s'))"

section \<open>Reading\<close>

definition find_draft :: "db \<Rightarrow> int \<Rightarrow> draft_row option" where
  "find_draft s i = find (\<lambda>d. d_id d = i) (drafts s)"

definition find_message :: "db \<Rightarrow> int \<Rightarrow> message_row option" where
  "find_message s i = find (\<lambda>m. m_id m = i) (messages s)"

definition count_sent :: "db \<Rightarrow> int \<Rightarrow> nat" where
  "count_sent s user_id = length (filter (\<lambda>m. m_user m = user_id) (messages s))"

definition draft_status :: "db \<Rightarrow> int \<Rightarrow> string option" where
  "draft_status s i = map_option d_status (find_draft s i)"

definition was_sent_once :: "db \<Rightarrow> string \<Rightarrow> bool" where
  "was_sent_once s uid \<longleftrightarrow> list_ex (\<lambda>m. m_uid m = uid) (messages s)"

definition duplicate_attempts :: "db \<Rightarrow> attempt_row list" where
  "duplicate_attempts s = filter (\<lambda>a. a_outcome a = ''duplicate_rejected'') (attempts s)"

definition sends :: "db \<Rightarrow> (int \<times> string \<times> string) list" where
  "sends s = map (\<lambda>a. (a_draft a, a_uid a, a_outcome a)) (attempts s)"

section \<open>Durable effects\<close>

definition create_draft :: "db \<Rightarrow> rat \<Rightarrow> int \<Rightarrow> string \<Rightarrow> string \<Rightarrow> string
    \<Rightarrow> (db_error + draft_row) \<times> db" where
  "create_draft s t user_id subject body status =
     (case insert_draft s None user_id subject body status t of
        Inl e \<Rightarrow> (Inl (Integrity e), s)
      | Inr (s', did) \<Rightarrow>
          (case find_draft s' did of None \<Rightarrow> (Inl AssertionError, s') | Some d \<Rightarrow> (Inr d, s')))"

definition save_draft :: "db \<Rightarrow> rat \<Rightarrow> int \<Rightarrow> (db_error + draft_row) \<times> db" where
  "save_draft s t draft_id =
     (let s' = s\<lparr>drafts := map (\<lambda>d. if d_id d = draft_id
                   then d\<lparr>d_status := ''saved'', d_updated := t\<rparr> else d) (drafts s)\<rparr>
      in case find_draft s' draft_id of
           None \<Rightarrow> (Inl (KeyError draft_id), s')
         | Some d \<Rightarrow> (Inr d, s'))"

datatype send_result = Committed message_row | DuplicateRejected string

text \<open>
  \<open>send_message\<close> in two parts, as its two visits to the database: reading and checking the
  draft, then the transaction of the two inserts. Other connections may run in between.
\<close>

definition send_uid_of :: "string option \<Rightarrow> string \<Rightarrow> string" where
  "send_uid_of send_uid fresh =
     (case send_uid of None \<Rightarrow> fresh | Some u \<Rightarrow> if u = [] then fresh else u)"

definition send_check :: "db \<Rightarrow> int \<Rightarrow> db_error + draft_row" where
  "send_check s draft_id =
     (case find_draft s draft_id of
        None \<Rightarrow> Inl (KeyError draft_id)
      | Some d \<Rightarrow> if d_status d \<noteq> ''saved'' then Inl (DraftNotSaved draft_id (d_status d))
                 else Inr d)"

definition send_commit :: "db \<Rightarrow> draft_row \<Rightarrow> int \<Rightarrow> string \<Rightarrow> rat
    \<Rightarrow> (db_error + send_result) \<times> db" where
  "send_commit s d draft_id uid t =
     (case insert_message s (d_user d) draft_id (d_subject d) (d_body d) uid t of
        Inl e \<Rightarrow>
          if e \<noteq> SqliteUnique \<or> \<not> was_sent_once s uid then (Inl (Integrity e), s)
          else (Inr (DuplicateRejected uid), insert_attempt s draft_id uid ''duplicate_rejected'' t)
      | Inr (s', mid) \<Rightarrow>
          (let s'' = insert_attempt s' draft_id uid ''committed'' t
           in case find_message s'' mid of
                None \<Rightarrow> (Inl AssertionError, s'')
              | Some m \<Rightarrow> (Inr (Committed m), s'')))"

definition send_message :: "db \<Rightarrow> rat \<Rightarrow> string \<Rightarrow> int \<Rightarrow> string option
    \<Rightarrow> (db_error + send_result) \<times> db" where
  "send_message s t fresh draft_id send_uid =
     (case send_check s draft_id of
        Inl e \<Rightarrow> (Inl e, s)
      | Inr d \<Rightarrow> send_commit s d draft_id (send_uid_of send_uid fresh) t)"

section \<open>Rows as dicts, and the atomic snapshot\<close>

definition user_dict :: "user_row \<Rightarrow> pydict" where
  "user_dict u = [(''id'', PInt (u_id u)), (''name'', PStr (u_name u))]"

definition draft_dict :: "draft_row \<Rightarrow> pydict" where
  "draft_dict d =
     [(''id'', PInt (d_id d)), (''user_id'', PInt (d_user d)), (''subject'', PStr (d_subject d)),
      (''body'', PStr (d_body d)), (''status'', PStr (d_status d)),
      (''created_at'', PFloat (d_created d)), (''updated_at'', PFloat (d_updated d))]"

definition opt_int :: "int option \<Rightarrow> pyval" where
  "opt_int i = (case i of None \<Rightarrow> PNone | Some n \<Rightarrow> PInt n)"

definition message_dict :: "message_row \<Rightarrow> pydict" where
  "message_dict m =
     [(''id'', PInt (m_id m)), (''user_id'', PInt (m_user m)), (''draft_id'', opt_int (m_draft m)),
      (''subject'', PStr (m_subject m)), (''body'', PStr (m_body m)),
      (''send_uid'', PStr (m_uid m)), (''sent_at'', PFloat (m_sent m))]"

definition attempt_dict :: "attempt_row \<Rightarrow> pydict" where
  "attempt_dict a =
     [(''id'', PInt (a_id a)), (''draft_id'', PInt (a_draft a)), (''send_uid'', PStr (a_uid a)),
      (''outcome'', PStr (a_outcome a)), (''created_at'', PFloat (a_created a))]"

definition full_snapshot :: "db \<Rightarrow> (string \<times> pydict list) list" where
  "full_snapshot s =
     [(''users'', map user_dict (users s)), (''drafts'', map draft_dict (drafts s)),
      (''messages'', map message_dict (messages s)),
      (''send_attempts'', map attempt_dict (attempts s))]"

text \<open>The results as the JSON objects the application returns.\<close>

fun send_result_dict :: "send_result \<Rightarrow> pydict" where
  "send_result_dict (Committed m) =
     [(''committed'', PBool True), (''duplicate_rejected'', PBool False),
      (''message'', PDict (message_dict m))]"
| "send_result_dict (DuplicateRejected uid) =
     [(''committed'', PBool False), (''duplicate_rejected'', PBool True), (''send_uid'', PStr uid)]"

section \<open>The invariant of the store\<close>

text \<open>
  \<open>db_wf\<close>: every table is in strictly increasing key order; foreign keys resolve; no
  \<open>send_uid\<close> is used twice; the messages and the committed attempts are the same ledger,
  counted with multiplicity; every message is a copy of a saved draft; every logged attempt
  names the uid of some message.
\<close>

definition keyed :: "db \<Rightarrow> bool" where
  "keyed s \<longleftrightarrow> sorted_wrt (<) (map u_id (users s)) \<and> sorted_wrt (<) (map d_id (drafts s)) \<and>
     sorted_wrt (<) (map m_id (messages s)) \<and> sorted_wrt (<) (map a_id (attempts s))"

definition saved_source :: "db \<Rightarrow> draft_row \<Rightarrow> int \<Rightarrow> bool" where
  "saved_source s d i \<longleftrightarrow> (\<exists>d' \<in> set (drafts s). d_id d' = i \<and> d_status d' = ''saved'' \<and>
     d_user d' = d_user d \<and> d_subject d' = d_subject d \<and> d_body d' = d_body d)"

definition copies_source :: "db \<Rightarrow> message_row \<Rightarrow> bool" where
  "copies_source s m \<longleftrightarrow> (\<exists>d \<in> set (drafts s). m_draft m = Some (d_id d) \<and> d_status d = ''saved'' \<and>
     m_user m = d_user d \<and> m_subject m = d_subject d \<and> m_body m = d_body d)"

definition message_ledger :: "db \<Rightarrow> (int option \<times> string) multiset" where
  "message_ledger s = mset (map (\<lambda>m. (m_draft m, m_uid m)) (messages s))"

definition attempt_ledger :: "db \<Rightarrow> (int option \<times> string) multiset" where
  "attempt_ledger s = mset (map (\<lambda>a. (Some (a_draft a), a_uid a))
     (filter (\<lambda>a. a_outcome a = ''committed'') (attempts s)))"

definition db_wf :: "db \<Rightarrow> bool" where
  "db_wf s \<longleftrightarrow> keyed s \<and>
     (\<forall>d \<in> set (drafts s). d_user d \<in> u_id ` set (users s) \<and> d_status d \<in> {''new'', ''saved''}) \<and>
     distinct (map m_uid (messages s)) \<and>
     (\<forall>m \<in> set (messages s). copies_source s m) \<and>
     message_ledger s = attempt_ledger s \<and>
     (\<forall>a \<in> set (attempts s). a_outcome a \<in> {''committed'', ''duplicate_rejected''} \<and>
        a_uid a \<in> m_uid ` set (messages s))"

lemma fold_max_ge: "i \<le> fold max xs i \<and> (\<forall>x \<in> set xs. x \<le> fold max xs (i::int))"
proof (induction xs arbitrary: i)
  case Nil
  then show ?case by simp
next
  case (Cons x xs)
  from Cons [of "max x i"] show ?case by auto
qed

lemma next_rowid_greater: "i \<in> set ids \<Longrightarrow> i < next_rowid ids"
  using fold_max_ge by (fastforce simp: next_rowid_def split: list.splits)

lemma next_rowid_fresh: "next_rowid ids \<notin> set ids"
  using next_rowid_greater by blast

lemma next_rowid_Nil [simp]: "next_rowid [] = 1"
  by (simp add: next_rowid_def)

lemma insort_key_strict:
  assumes "sorted_wrt (<) (map f xs)" and "f x \<notin> f ` set xs"
  shows "sorted_wrt (<) (map f (insort_key f x xs))"
  using assms by (induction xs) (auto simp: set_insort_key)

lemma keyed_distinct:
  assumes "keyed s"
  shows "distinct (map u_id (users s))" "distinct (map d_id (drafts s))"
    "distinct (map m_id (messages s))" "distinct (map a_id (attempts s))"
  using assms by (auto simp: keyed_def strict_sorted_iff)

text \<open>What the inserts do when they succeed.\<close>

lemma insert_draft_Inr:
  assumes "insert_draft s i u subj body status t = Inr (s', did)"
  shows "did \<notin> d_id ` set (drafts s)" "u \<in> u_id ` set (users s)"
    "status \<in> {''new'', ''saved''}"
    "s' = s\<lparr>drafts := insort_key d_id \<lparr>d_id = did, d_user = u, d_subject = subj, d_body = body,
       d_status = status, d_created = t, d_updated = t\<rparr> (drafts s)\<rparr>"
  using assms by (auto simp: insert_draft_def Let_def split: if_splits)

lemma find_draft_inserted:
  "insert_draft s i u subj body status t = Inr (s', did) \<Longrightarrow> \<exists>d. find_draft s' did = Some d"
  by (cases "find_draft s' did")
    (auto dest!: insert_draft_Inr(4) simp: find_draft_def find_key_None set_insort_key)

lemma insert_message_Inr:
  assumes "insert_message s u i subj body uid t = Inr (s', mid)"
  shows "uid \<notin> m_uid ` set (messages s)" "mid = next_rowid (map m_id (messages s))"
    "s' = s\<lparr>messages := messages s @ [\<lparr>m_id = mid, m_user = u, m_draft = Some i,
       m_subject = subj, m_body = body, m_uid = uid, m_sent = t\<rparr>]\<rparr>"
  using assms by (auto simp: insert_message_def Let_def split: if_splits)

lemma insert_message_Unique:
  "insert_message s u i subj body uid t = Inl SqliteUnique \<longleftrightarrow> was_sent_once s uid"
  by (auto simp: insert_message_def Let_def was_sent_once_def list_ex_iff)

lemma insert_draft_wf:
  assumes "db_wf s" and "insert_draft s i u subj body status t = Inr (s', did)"
  shows "db_wf s'"
proof -
  note ins = insert_draft_Inr [OF assms(2)]
  have keyed': "keyed s'"
    using assms(1) ins by (auto simp: db_wf_def keyed_def intro!: insort_key_strict)
  from assms(1) keyed' ins(2,3) show ?thesis
    by (auto simp: db_wf_def ins(4) set_insort_key copies_source_def message_ledger_def
        attempt_ledger_def)
qed

lemma insert_draft_saved_source:
  assumes "insert_draft s i u subj body status t = Inr (s', did)" and "saved_source s d j"
  shows "saved_source s' d j"
  using assms insert_draft_Inr [OF assms(1)] by (auto simp: saved_source_def set_insort_key)

text \<open>Saving touches the status and the timestamp of one draft.\<close>

abbreviation mark_saved :: "db \<Rightarrow> rat \<Rightarrow> int \<Rightarrow> db" where
  "mark_saved s t i \<equiv> s\<lparr>drafts := map (\<lambda>d. if d_id d = i
     then d\<lparr>d_status := ''saved'', d_updated := t\<rparr> else d) (drafts s)\<rparr>"

lemma mark_saved_mem:
  "d \<in> set (drafts s) \<Longrightarrow>
   (if d_id d = i then d\<lparr>d_status := ''saved'', d_updated := t\<rparr> else d) \<in> set (drafts (mark_saved s t i))"
  by simp

lemma mark_saved_copies: "copies_source s m \<Longrightarrow> copies_source (mark_saved s t i) m"
  unfolding copies_source_def
  by (erule bexE, rule bexI [OF _ mark_saved_mem]) auto

lemma mark_saved_source: "saved_source s d j \<Longrightarrow> saved_source (mark_saved s t i) d j"
  unfolding saved_source_def
  by (erule bexE, rule bexI [OF _ mark_saved_mem]) auto

lemma mark_saved_keyed: "keyed (mark_saved s t i) = keyed s"
proof -
  have "map d_id (drafts (mark_saved s t i)) = map d_id (drafts s)" by simp
  then show ?thesis by (simp add: keyed_def del: map_map)
qed

lemma mark_saved_wf: "db_wf s \<Longrightarrow> db_wf (mark_saved s t i)"
  unfolding db_wf_def mark_saved_keyed
  by (auto simp: message_ledger_def attempt_ledger_def intro: mark_saved_copies)

lemma mark_saved_absent: "i \<notin> d_id ` set (drafts s) \<Longrightarrow> mark_saved s t i = s"
  by (auto intro!: db.equality map_idI)

text \<open>The transaction of a send whose draft was saved when it was read.\<close>

lemma find_message_new:
  "keyed s \<Longrightarrow> find_message (s\<lparr>messages := messages s @
     [\<lparr>m_id = next_rowid (map m_id (messages s)), m_user = u, m_draft = d, m_subject = subj,
       m_body = body, m_uid = uid, m_sent = t\<rparr>], attempts := xs\<rparr>) (next_rowid (map m_id (messages s)))
   = Some \<lparr>m_id = next_rowid (map m_id (messages s)), m_user = u, m_draft = d, m_subject = subj,
       m_body = body, m_uid = uid, m_sent = t\<rparr>"
  using next_rowid_fresh [of "map m_id (messages s)"]
  by (auto simp: find_message_def find_Some_iff nth_append intro!: exI [of _ "length (messages s)"])
    (metis image_eqI nth_mem set_map)

definition sent_row :: "db \<Rightarrow> draft_row \<Rightarrow> int \<Rightarrow> string \<Rightarrow> rat \<Rightarrow> message_row" where
  "sent_row s d i uid t =
     \<lparr>m_id = next_rowid (map m_id (messages s)), m_user = d_user d, m_draft = Some i,
      m_subject = d_subject d, m_body = d_body d, m_uid = uid, m_sent = t\<rparr>"

lemma send_commit_duplicate:
  "was_sent_once s uid \<Longrightarrow> send_commit s d i uid t =
     (Inr (DuplicateRejected uid), insert_attempt s i uid ''duplicate_rejected'' t)"
  by (simp add: send_commit_def insert_message_Unique [THEN iffD2])

lemma send_commit_fresh:
  assumes "db_wf s" and "saved_source s d i" and "\<not> was_sent_once s uid"
  shows "send_commit s d i uid t =
     (Inr (Committed (sent_row s d i uid t)),
      insert_attempt (s\<lparr>messages := messages s @ [sent_row s d i uid t]\<rparr>) i uid ''committed'' t)"
proof -
  have "d_user d \<in> u_id ` set (users s)" "i \<in> d_id ` set (drafts s)"
    using assms(1,2) by (force simp: db_wf_def saved_source_def)+
  moreover have "uid \<notin> m_uid ` set (messages s)"
    using assms(3) by (auto simp: was_sent_once_def list_ex_iff)
  ultimately have "insert_message s (d_user d) i (d_subject d) (d_body d) uid t =
      Inr (s\<lparr>messages := messages s @ [sent_row s d i uid t]\<rparr>,
           next_rowid (map m_id (messages s)))"
    by (auto simp: insert_message_def sent_row_def Let_def)
  with assms(1) show ?thesis
    by (simp add: send_commit_def sent_row_def insert_attempt_def db_wf_def find_message_new Let_def)
qed

lemma insert_attempt_simps [simp]:
  "users (insert_attempt s i uid x t) = users s"
  "drafts (insert_attempt s i uid x t) = drafts s"
  "messages (insert_attempt s i uid x t) = messages s"
  "saved_source (insert_attempt s i uid x t) d j = saved_source s d j"
  "copies_source (insert_attempt s i uid x t) m = copies_source s m"
  "message_ledger (insert_attempt s i uid x t) = message_ledger s"
  "attempt_ledger (insert_attempt s i uid x t) =
     attempt_ledger s + (if x = ''committed'' then {#(Some i, uid)#} else {#})"
  by (simp_all add: insert_attempt_def saved_source_def copies_source_def message_ledger_def
      attempt_ledger_def)

lemma ledger_add_message:
  "message_ledger (s\<lparr>messages := messages s @ [m]\<rparr>) = add_mset (m_draft m, m_uid m) (message_ledger s)"
  "attempt_ledger (s\<lparr>messages := ms\<rparr>) = attempt_ledger s"
  by (simp_all add: message_ledger_def attempt_ledger_def)

lemma keyed_insert_attempt [simp]: "keyed (insert_attempt s i uid x t) = keyed s"
  using next_rowid_greater [of _ "map a_id (attempts s)"]
  by (auto simp: insert_attempt_def keyed_def sorted_wrt_append)

lemma keyed_add_message:
  "m_id m = next_rowid (map m_id (messages s)) \<Longrightarrow>
   keyed (s\<lparr>messages := messages s @ [m]\<rparr>) = keyed s"
  using next_rowid_greater [of _ "map m_id (messages s)"]
  by (auto simp: keyed_def sorted_wrt_append)

lemma attempts_insert_attempt:
  "set (attempts (insert_attempt s i uid x t)) = insert
     \<lparr>a_id = next_rowid (map a_id (attempts s)), a_draft = i, a_uid = uid, a_outcome = x,
      a_created = t\<rparr> (set (attempts s))"
  by (auto simp: insert_attempt_def)

lemma send_commit_wf:
  assumes wf: "db_wf s" and src: "saved_source s d i" and run: "send_commit s d i uid t = (r, s')"
  shows "db_wf s'"
proof (cases "was_sent_once s uid")
  case True
  then have "uid \<in> m_uid ` set (messages s)"
    by (auto simp: was_sent_once_def list_ex_iff)
  with wf run True show ?thesis
    by (auto simp: send_commit_duplicate db_wf_def attempts_insert_attempt)
next
  case False
  let ?m = "sent_row s d i uid t"
  from run False wf src have s': "s' = insert_attempt (s\<lparr>messages := messages s @ [?m]\<rparr>) i uid ''committed'' t"
    by (simp add: send_commit_fresh)
  have "keyed s'"
    using wf by (simp add: s' keyed_add_message sent_row_def db_wf_def)
  moreover have "message_ledger s' = attempt_ledger s'"
    using wf by (simp add: s' db_wf_def ledger_add_message) (simp add: sent_row_def)
  moreover have "\<forall>m \<in> set (messages s'). copies_source s' m"
    using wf src by (auto simp: s' db_wf_def copies_source_def saved_source_def sent_row_def)
  moreover have "distinct (map m_uid (messages s'))"
    using wf False by (auto simp: s' db_wf_def sent_row_def was_sent_once_def list_ex_iff)
  ultimately show ?thesis
    using wf by (auto simp: db_wf_def s' attempts_insert_attempt sent_row_def)
qed

lemma send_commit_saved_source:
  assumes "db_wf s" "saved_source s d i" "send_commit s d i uid t = (r, s')"
  shows "saved_source s' d' j = saved_source s d' j"
proof (cases "was_sent_once s uid")
  case False
  with assms show ?thesis by (auto simp: send_commit_fresh saved_source_def)
qed (use assms in \<open>auto simp: send_commit_duplicate\<close>)

lemma find_draft_SomeD: "find_draft s i = Some d \<Longrightarrow> d \<in> set (drafts s) \<and> d_id d = i"
  by (auto simp: find_draft_def find_Some_iff)

lemma send_check_saved: "send_check s i = Inr d \<Longrightarrow> saved_source s d i"
  by (auto simp: send_check_def saved_source_def dest!: find_draft_SomeD split: option.splits if_splits)

section \<open>Interleaved connections\<close>

text \<open>
  The server answers requests on several threads, each with its own connection, so a send
  that has read its draft may find other requests' writes between its check and its
  transaction. \<open>waiting\<close> holds the sends that are past the check: the row they read, the
  draft they name, their uid and their time.
\<close>

record fixture =
  store :: db
  waiting :: "(draft_row \<times> int \<times> string \<times> rat) list"

inductive fixture_step :: "fixture \<Rightarrow> fixture \<Rightarrow> bool" where
  seed: "seed_draft (store f) t subj body st u i = (r, s') \<Longrightarrow> fixture_step f (f\<lparr>store := s'\<rparr>)"
| create: "create_draft (store f) t u subj body st = (r, s') \<Longrightarrow> fixture_step f (f\<lparr>store := s'\<rparr>)"
| save: "save_draft (store f) t i = (r, s') \<Longrightarrow> fixture_step f (f\<lparr>store := s'\<rparr>)"
| check: "send_check (store f) i = Inr d \<Longrightarrow>
     fixture_step f (f\<lparr>waiting := waiting f @ [(d, i, send_uid_of send_uid fresh, t)]\<rparr>)"
| commit: "waiting f = ps @ (d, i, uid, t) # qs \<Longrightarrow> send_commit (store f) d i uid t = (r, s') \<Longrightarrow>
     fixture_step f (f\<lparr>store := s', waiting := ps @ qs\<rparr>)"

inductive fixture_reachable :: "string \<Rightarrow> fixture \<Rightarrow> bool" for user :: string where
  start: "fixture_reachable user \<lparr>store = reset s user, waiting = []\<rparr>"
| step: "fixture_reachable user f \<Longrightarrow> fixture_step f g \<Longrightarrow> fixture_reachable user g"

definition fixture_inv :: "fixture \<Rightarrow> bool" where
  "fixture_inv f \<longleftrightarrow> db_wf (store f) \<and>
     (\<forall>(d, i, uid, t) \<in> set (waiting f). saved_source (store f) d i)"

lemma reset_wf: "db_wf (reset s user)"
  by (simp add: reset_def insert_user_def empty_db_def db_wf_def keyed_def message_ledger_def
      attempt_ledger_def)

lemma create_draft_cases:
  assumes "create_draft s t u subj body st = (r, s')"
  shows "s' = s \<or> (\<exists>did. insert_draft s None u subj body st t = Inr (s', did))"
  using assms by (auto simp: create_draft_def split: sum.splits option.splits)

lemma seed_draft_cases:
  assumes "seed_draft s t subj body st u i = (r, s')"
  shows "s' = s \<or> (\<exists>did. insert_draft s i u subj body st t = Inr (s', did))"
  using assms by (auto simp: seed_draft_def split: sum.splits)

lemma save_draft_state: "snd (save_draft s t i) = mark_saved s t i"
  by (simp add: save_draft_def Let_def split: option.splits)

lemma fixture_step_inv: "fixture_step f g \<Longrightarrow> fixture_inv f \<Longrightarrow> fixture_inv g"
proof (induction rule: fixture_step.induct)
  case (seed f t subj body st u i r s')
  then show ?case
    by (auto dest!: seed_draft_cases simp: fixture_inv_def intro: insert_draft_wf insert_draft_saved_source)
next
  case (create f t u subj body st r s')
  then show ?case
    by (auto dest!: create_draft_cases simp: fixture_inv_def intro: insert_draft_wf insert_draft_saved_source)
next
  case (save f t i r s')
  then have "s' = mark_saved (store f) t i"
    using save_draft_state by (metis snd_conv)
  with save.prems show ?case
    by (auto simp: fixture_inv_def intro!: mark_saved_wf mark_saved_source)
next
  case (check f i d send_uid fresh t)
  then show ?case by (auto simp: fixture_inv_def dest: send_check_saved)
next
  case (commit f ps d i uid t qs r s')
  then have src: "db_wf (store f)" "saved_source (store f) d i"
    by (auto simp: fixture_inv_def)
  have "saved_source s' d' j = saved_source (store f) d' j" for d' j
    using send_commit_saved_source [OF src commit.hyps(2)] .
  with commit send_commit_wf [OF src commit.hyps(2)] show ?case
    by (auto simp: fixture_inv_def)
qed

lemma fixture_reachable_inv: "fixture_reachable user f \<Longrightarrow> fixture_inv f"
proof (induction rule: fixture_reachable.induct)
  case (start s)
  then show ?case by (simp add: fixture_inv_def reset_wf)
next
  case (step f g)
  then show ?case by (blast intro: fixture_step_inv)
qed

section \<open>The contract of a durable log\<close>

text \<open>
  What the rest of the system relies on: the store keeps a log that is only ever extended
  and whose entries have distinct keys. The consequences are proved once, for any such
  store, and hold of the messages table (keyed by \<open>send_uid\<close>) and of the attempt log
  (keyed by row id).
\<close>

locale durable_log =
  fixes next_state :: "'s \<Rightarrow> 's \<Rightarrow> bool"
    and inv :: "'s \<Rightarrow> bool"
    and log :: "'s \<Rightarrow> 'e list"
    and key :: "'e \<Rightarrow> 'k"
  assumes next_inv: "next_state s t \<Longrightarrow> inv s \<Longrightarrow> inv t"
    and next_log: "next_state s t \<Longrightarrow> inv s \<Longrightarrow> \<exists>new. log t = log s @ new"
    and distinct_keys: "inv s \<Longrightarrow> distinct (map key (log s))"
begin

lemma steps_inv: "next_state\<^sup>*\<^sup>* s t \<Longrightarrow> inv s \<Longrightarrow> inv t"
  by (induction rule: rtranclp_induct) (auto intro: next_inv)

lemma steps_log: "next_state\<^sup>*\<^sup>* s t \<Longrightarrow> inv s \<Longrightarrow> \<exists>new. log t = log s @ new"
proof (induction rule: rtranclp_induct)
  case base
  then show ?case by simp
next
  case (step t u)
  then obtain xs where xs: "log t = log s @ xs" by blast
  from step have "inv t" by (blast intro: steps_inv)
  with step obtain ys where "log u = log t @ ys" using next_log by blast
  with xs show ?case by simp
qed

lemma entry_survives: "next_state\<^sup>*\<^sup>* s t \<Longrightarrow> inv s \<Longrightarrow> e \<in> set (log s) \<Longrightarrow> e \<in> set (log t)"
  using steps_log by fastforce

lemma key_count_le_1: "inv s \<Longrightarrow> length (filter (\<lambda>e. key e = k) (log s)) \<le> 1"
proof -
  assume "inv s"
  then have d: "distinct (map key (log s))" by (rule distinct_keys)
  have "distinct (map key xs) \<Longrightarrow> length (filter (\<lambda>e. key e = k) xs) \<le> 1" for xs
    by (induction xs) (auto simp: filter_empty_conv image_iff)
  with d show ?thesis by blast
qed

end

lemma send_commit_messages:
  assumes "db_wf s" "saved_source s d i" "send_commit s d i uid t = (r, s')"
  shows "\<exists>new. messages s' = messages s @ new"
proof (cases "was_sent_once s uid")
  case False
  with assms show ?thesis by (auto simp: send_commit_fresh)
qed (use assms in \<open>auto simp: send_commit_duplicate\<close>)

lemma send_commit_attempts:
  assumes "db_wf s" "saved_source s d i" "send_commit s d i uid t = (r, s')"
  shows "\<exists>new. attempts s' = attempts s @ new"
proof (cases "was_sent_once s uid")
  case False
  with assms show ?thesis by (auto simp: send_commit_fresh insert_attempt_def)
qed (use assms in \<open>auto simp: send_commit_duplicate insert_attempt_def\<close>)

lemma fixture_step_drafting:
  assumes "fixture_step f g" and "fixture_inv f"
  shows "(\<exists>new. messages (store g) = messages (store f) @ new) \<and>
    (\<exists>new. attempts (store g) = attempts (store f) @ new)"
  using assms
proof cases
  case (seed t subj body st u i r s')
  then show ?thesis by (auto dest!: seed_draft_cases insert_draft_Inr(4))
next
  case (create t u subj body st r s')
  then show ?thesis by (auto dest!: create_draft_cases insert_draft_Inr(4))
next
  case (save t i r s')
  then have "s' = mark_saved (store f) t i" using save_draft_state by (metis snd_conv)
  with save show ?thesis by auto
next
  case (commit ps d i uid t qs r s')
  then show ?thesis
    using assms(2) send_commit_messages [OF _ _ commit(3)] send_commit_attempts [OF _ _ commit(3)]
    by (auto simp: fixture_inv_def)
qed auto

lemma fixture_inv_keys:
  assumes "fixture_inv f"
  shows "distinct (map m_uid (messages (store f)))" "distinct (map a_id (attempts (store f)))"
  using assms by (simp_all add: fixture_inv_def db_wf_def keyed_distinct)

interpretation msg_log: durable_log fixture_step fixture_inv "\<lambda>f. messages (store f)" m_uid
  by unfold_locales (blast intro: fixture_step_inv fixture_inv_keys dest: fixture_step_drafting)+

interpretation att_log: durable_log fixture_step fixture_inv "\<lambda>f. attempts (store f)" a_id
  by unfold_locales (blast intro: fixture_step_inv fixture_inv_keys dest: fixture_step_drafting)+

section \<open>Properties of the store\<close>

text \<open>
  A run with an interleaving, used by the witnesses: one saved draft, two sends of it with
  the same uid that both pass the check before either commits.
\<close>

definition demo_draft :: draft_row where
  "demo_draft = \<lparr>d_id = 1, d_user = 1, d_subject = ''hi'', d_body = ''there'', d_status = ''saved'',
     d_created = 1, d_updated = 1\<rparr>"

definition demo_db :: db where
  "demo_db = \<lparr>users = [\<lparr>u_id = 1, u_name = ''alice''\<rparr>], drafts = [demo_draft],
     messages = [], attempts = []\<rparr>"

definition demo_sent :: db where
  "demo_sent = demo_db\<lparr>messages := [\<lparr>m_id = 1, m_user = 1, m_draft = Some 1, m_subject = ''hi'',
       m_body = ''there'', m_uid = ''u'', m_sent = 2\<rparr>],
     attempts := [\<lparr>a_id = 1, a_draft = 1, a_uid = ''u'', a_outcome = ''committed'', a_created = 2\<rparr>]\<rparr>"

lemmas demo_defs = demo_draft_def demo_db_def demo_sent_def

lemma demo_seed: "seed_draft (reset s ''alice'') 1 ''hi'' ''there'' ''saved'' 1 (Some 1) = (Inr 1, demo_db)"
  by (simp add: seed_draft_def insert_draft_def reset_def insert_user_def empty_db_def demo_defs)

lemma demo_check: "send_check demo_db 1 = Inr demo_draft"
  by (simp add: send_check_def find_draft_def demo_defs)

lemma demo_commit: "send_commit demo_db demo_draft 1 ''u'' 2 =
    (Inr (Committed \<lparr>m_id = 1, m_user = 1, m_draft = Some 1, m_subject = ''hi'',
       m_body = ''there'', m_uid = ''u'', m_sent = 2\<rparr>), demo_sent)"
  by (simp add: send_commit_def insert_message_def insert_attempt_def find_message_def demo_defs)

lemma demo_reachable: "fixture_reachable ''alice'' \<lparr>store = demo_db, waiting = []\<rparr>"
  using fixture_reachable.step [OF fixture_reachable.start fixture_step.seed]
    demo_seed by fastforce

lemma demo_two_waiting:
  "fixture_reachable ''alice''
     \<lparr>store = demo_db, waiting = [(demo_draft, 1, ''u'', 2), (demo_draft, 1, ''u'', 3)]\<rparr>"
proof -
  have "fixture_step \<lparr>store = demo_db, waiting = []\<rparr>
      \<lparr>store = demo_db, waiting = [(demo_draft, 1, ''u'', 2)]\<rparr>"
    using fixture_step.check [of "\<lparr>store = demo_db, waiting = []\<rparr>" 1 demo_draft "Some ''u''" _ 2]
    by (simp add: demo_check send_uid_of_def)
  moreover have "fixture_step \<lparr>store = demo_db, waiting = [(demo_draft, 1, ''u'', 2)]\<rparr>
      \<lparr>store = demo_db, waiting = [(demo_draft, 1, ''u'', 2), (demo_draft, 1, ''u'', 3)]\<rparr>"
    using fixture_step.check [of "\<lparr>store = demo_db, waiting = [(demo_draft, 1, ''u'', 2)]\<rparr>" 1
        demo_draft "Some ''u''" _ 3]
    by (simp add: demo_check send_uid_of_def)
  ultimately show ?thesis
    using demo_reachable fixture_reachable.step by blast
qed

lemma demo_commit_step:
  "fixture_step \<lparr>store = demo_db, waiting = [(demo_draft, 1, ''u'', 2), (demo_draft, 1, ''u'', 3)]\<rparr>
     \<lparr>store = demo_sent, waiting = [(demo_draft, 1, ''u'', 3)]\<rparr>"
  using fixture_step.commit [of
      "\<lparr>store = demo_db, waiting = [(demo_draft, 1, ''u'', 2), (demo_draft, 1, ''u'', 3)]\<rparr>"
      "[]" demo_draft 1 "''u''" 2 "[(demo_draft, 1, ''u'', 3)]"]
  by (simp add: demo_commit)

text \<open>C1: however the requests interleave, in every reachable state of the fixture no
  \<open>send_uid\<close> has two messages, the committed attempts are exactly the messages (with
  multiplicity, by draft and uid), every logged attempt names the uid of a message, and every
  message is a copy of a draft that was saved.\<close>

theorem reachable_store_integrity:
  assumes "fixture_reachable user f"
  shows "distinct (map m_uid (messages (store f))) \<and>
    message_ledger (store f) = attempt_ledger (store f) \<and>
    (\<forall>a \<in> set (attempts (store f)). was_sent_once (store f) (a_uid a)) \<and>
    (\<forall>m \<in> set (messages (store f)). copies_source (store f) m)"
  using fixture_reachable_inv [OF assms]
  by (fastforce simp: fixture_inv_def db_wf_def was_sent_once_def list_ex_iff)

theorem reachable_store_integrity_witness:
  "fixture_reachable ''alice'' \<lparr>store = demo_sent, waiting = [(demo_draft, 1, ''u'', 3)]\<rparr> \<and>
   message_ledger demo_sent = attempt_ledger demo_sent \<and> messages demo_sent \<noteq> [] \<and>
   was_sent_once demo_sent (a_uid (hd (attempts demo_sent))) \<and>
   copies_source demo_sent (hd (messages demo_sent))"
proof -
  note r = fixture_reachable.step [OF demo_two_waiting demo_commit_step]
  have "messages demo_sent \<noteq> []" "attempts demo_sent \<noteq> []" by (simp_all add: demo_defs)
  with reachable_store_integrity [OF r] r show ?thesis by simp
qed

lemma send_message_eq:
  assumes "db_wf s"
  shows "send_message s t fresh i u =
    (case find_draft s i of
       None \<Rightarrow> (Inl (KeyError i), s)
     | Some d \<Rightarrow>
         if d_status d \<noteq> ''saved'' then (Inl (DraftNotSaved i (d_status d)), s)
         else if was_sent_once s (send_uid_of u fresh)
           then (Inr (DuplicateRejected (send_uid_of u fresh)),
                 insert_attempt s i (send_uid_of u fresh) ''duplicate_rejected'' t)
         else (Inr (Committed (sent_row s d i (send_uid_of u fresh) t)),
               insert_attempt (s\<lparr>messages := messages s @ [sent_row s d i (send_uid_of u fresh) t]\<rparr>)
                 i (send_uid_of u fresh) ''committed'' t))"
proof (cases "send_check s i")
  case (Inl e)
  then show ?thesis
    by (auto simp: send_message_def send_check_def split: option.splits if_splits)
next
  case (Inr d)
  note src = send_check_saved [OF Inr]
  from Inr have d: "find_draft s i = Some d" "d_status d = ''saved''"
    by (auto simp: send_check_def split: option.splits if_splits)
  show ?thesis
    by (simp add: send_message_def Inr d send_commit_duplicate send_commit_fresh [OF assms src])
qed

text \<open>\<open>send_message\<close> on a consistent store, on every branch. An absent or unsaved draft is
  refused with nothing written, not even an attempt; a used uid logs one rejected attempt and
  leaves the messages alone; otherwise exactly one message, a copy of the draft under the
  next row id, and one committed attempt are appended. No other exception can happen.\<close>

theorem send_message_spec:
  assumes "db_wf s"
  shows "send_message s t fresh i u =
    (case find_draft s i of
       None \<Rightarrow> (Inl (KeyError i), s)
     | Some d \<Rightarrow>
         if d_status d \<noteq> ''saved'' then (Inl (DraftNotSaved i (d_status d)), s)
         else if was_sent_once s (send_uid_of u fresh)
           then (Inr (DuplicateRejected (send_uid_of u fresh)),
                 insert_attempt s i (send_uid_of u fresh) ''duplicate_rejected'' t)
         else (Inr (Committed (sent_row s d i (send_uid_of u fresh) t)),
               insert_attempt (s\<lparr>messages := messages s @ [sent_row s d i (send_uid_of u fresh) t]\<rparr>)
                 i (send_uid_of u fresh) ''committed'' t))"
  by (rule send_message_eq [OF assms])

theorem send_message_spec_witness:
  "db_wf demo_db \<and> fst (send_message demo_db 2 ''f'' 1 (Some ''u'')) =
     Inr (Committed (sent_row demo_db demo_draft 1 ''u'' 2))"
proof -
  have wf: "db_wf demo_db"
    using fixture_reachable_inv [OF demo_reachable] by (simp add: fixture_inv_def)
  have "find_draft demo_db 1 = Some demo_draft" by (simp add: find_draft_def demo_defs)
  then show ?thesis
    using send_message_spec [OF wf, of 2 "''f''" 1 "Some ''u''"] wf
    by (simp add: send_uid_of_def was_sent_once_def demo_defs)
qed

text \<open>C11: sends are idempotent by uid. Once a uid has been sent in a reachable state, then
  after any further steps of any requests a send with that uid of a saved draft is answered
  \<open>duplicate_rejected\<close> and adds no message, and the uid still has exactly one message.\<close>

theorem resend_is_rejected:
  assumes "fixture_reachable user f" and "was_sent_once (store f) uid" and "uid \<noteq> []"
    and "fixture_step\<^sup>*\<^sup>* f g" and "draft_status (store g) i = Some ''saved''"
  shows "fst (send_message (store g) t fresh i (Some uid)) = Inr (DuplicateRejected uid) \<and>
    messages (snd (send_message (store g) t fresh i (Some uid))) = messages (store g) \<and>
    length (filter (\<lambda>m. m_uid m = uid) (messages (store g))) = 1"
proof (intro conjI)
  have inv: "fixture_inv g" "fixture_inv f"
    using assms(1,4) fixture_reachable_inv msg_log.steps_inv by blast+
  then have wf: "db_wf (store g)" by (simp add: fixture_inv_def)
  from assms(2) obtain m where "m \<in> set (messages (store f))" "m_uid m = uid"
    by (auto simp: was_sent_once_def list_ex_iff)
  with msg_log.entry_survives [OF assms(4) inv(2)] have m: "m \<in> set (messages (store g))" "m_uid m = uid"
    by auto
  then have sent: "was_sent_once (store g) uid" by (auto simp: was_sent_once_def list_ex_iff)
  from assms(5) obtain d where d: "find_draft (store g) i = Some d" "d_status d = ''saved''"
    by (auto simp: draft_status_def)
  have uid: "send_uid_of (Some uid) fresh = uid" using assms(3) by (simp add: send_uid_of_def)
  show "fst (send_message (store g) t fresh i (Some uid)) = Inr (DuplicateRejected uid)"
    and "messages (snd (send_message (store g) t fresh i (Some uid))) = messages (store g)"
    by (simp_all add: send_message_eq [OF wf] d uid sent)
  have "filter (\<lambda>m. m_uid m = uid) (messages (store g)) \<noteq> []"
    using m by (auto simp: filter_empty_conv)
  with msg_log.key_count_le_1 [OF inv(1), of uid]
  show "length (filter (\<lambda>m. m_uid m = uid) (messages (store g))) = 1"
    by (cases "filter (\<lambda>m. m_uid m = uid) (messages (store g))") auto
qed

theorem resend_is_rejected_witness:
  "fst (send_message demo_sent 9 ''f'' 1 (Some ''u'')) = Inr (DuplicateRejected ''u'') \<and>
   length (filter (\<lambda>m. m_uid m = ''u'') (messages demo_sent)) = 1"
proof -
  let ?f = "\<lparr>store = demo_sent, waiting = [(demo_draft, 1, ''u'', 3)]\<rparr>"
  have "was_sent_once (store ?f) ''u''" "draft_status (store ?f) 1 = Some ''saved''"
    by (simp_all add: was_sent_once_def draft_status_def find_draft_def demo_defs)
  with resend_is_rejected [OF fixture_reachable.step [OF demo_two_waiting demo_commit_step],
      of "''u''" ?f 1 9 "''f''"]
  show ?thesis by simp
qed

text \<open>C15: an operation on drafts or messages that raises leaves the store as it was, the
  seeding of a draft included, and one that returns never removes or rewrites a message; a
  seeded draft is one new row, under an id no draft had, with the values it was given.\<close>

theorem errors_write_nothing:
  assumes "db_wf s"
  shows "(case create_draft s t u subj body st of (Inl e, s') \<Rightarrow> s' = s | (Inr d, s') \<Rightarrow> messages s' = messages s) \<and>
    (case save_draft s t i of (Inl e, s') \<Rightarrow> s' = s | (Inr d, s') \<Rightarrow> messages s' = messages s) \<and>
    (case send_message s t fresh i uid of (Inl e, s') \<Rightarrow> s' = s
       | (Inr (DuplicateRejected _), s') \<Rightarrow> messages s' = messages s
       | (Inr (Committed m), s') \<Rightarrow> messages s' = messages s @ [m]) \<and>
    (case seed_draft s t subj body st u did of (Inl e, s') \<Rightarrow> s' = s
       | (Inr d, s') \<Rightarrow> d \<notin> d_id ` set (drafts s) \<and>
           s' = s\<lparr>drafts := insort_key d_id \<lparr>d_id = d, d_user = u, d_subject = subj, d_body = body,
             d_status = st, d_created = t, d_updated = t\<rparr> (drafts s)\<rparr>)"
proof (intro conjI)
  show "case seed_draft s t subj body st u did of (Inl e, s') \<Rightarrow> s' = s
       | (Inr d, s') \<Rightarrow> d \<notin> d_id ` set (drafts s) \<and>
           s' = s\<lparr>drafts := insort_key d_id \<lparr>d_id = d, d_user = u, d_subject = subj, d_body = body,
             d_status = st, d_created = t, d_updated = t\<rparr> (drafts s)\<rparr>"
  proof (cases "insert_draft s did u subj body st t")
    case (Inr r)
    then obtain s' d where r: "insert_draft s did u subj body st t = Inr (s', d)"
      by (cases r) auto
    from insert_draft_Inr(1,4) [OF r] show ?thesis by (simp add: seed_draft_def r)
  qed (simp add: seed_draft_def)
  show "case create_draft s t u subj body st of (Inl e, s') \<Rightarrow> s' = s | (Inr d, s') \<Rightarrow> messages s' = messages s"
  proof (cases "insert_draft s None u subj body st t")
    case (Inr r)
    then obtain s' did where r: "insert_draft s None u subj body st t = Inr (s', did)"
      by (cases r) auto
    from find_draft_inserted [OF r] obtain d where "find_draft s' did = Some d" by blast
    with insert_draft_Inr(4) [OF r] show ?thesis by (simp add: create_draft_def r)
  qed (simp add: create_draft_def)
  have "i \<notin> d_id ` set (drafts s)" if none: "find_draft (mark_saved s t i) i = None"
  proof
    assume "i \<in> d_id ` set (drafts s)"
    then obtain d where "d \<in> set (drafts s)" "d_id d = i" by auto
    from mark_saved_mem [OF this(1), of i t]
    have "d_id (if d_id d = i then d\<lparr>d_status := ''saved'', d_updated := t\<rparr> else d)
        \<in> d_id ` set (drafts (mark_saved s t i))" by (rule imageI)
    with \<open>d_id d = i\<close> have "i \<in> d_id ` set (drafts (mark_saved s t i))" by simp
    with none show False by (simp add: find_draft_def find_key_None)
  qed
  then show "case save_draft s t i of (Inl e, s') \<Rightarrow> s' = s | (Inr d, s') \<Rightarrow> messages s' = messages s"
    using mark_saved_absent [of i s t]
    by (cases "find_draft (mark_saved s t i) i") (simp_all add: save_draft_def Let_def)
  show "case send_message s t fresh i uid of (Inl e, s') \<Rightarrow> s' = s
       | (Inr (DuplicateRejected _), s') \<Rightarrow> messages s' = messages s
       | (Inr (Committed m), s') \<Rightarrow> messages s' = messages s @ [m]"
    by (simp add: send_message_eq [OF assms] split: option.splits)
qed

theorem errors_write_nothing_witness:
  "save_draft demo_db 5 7 = (Inl (KeyError 7), demo_db) \<and> db_wf demo_db \<and>
   seed_draft demo_db 5 ''s'' ''b'' ''sent'' 1 None = (Inl (Integrity SqliteCheck), demo_db) \<and>
   (case save_draft demo_db 5 7 of (Inl e, s') \<Rightarrow> s' = demo_db | (Inr d, s') \<Rightarrow> messages s' = messages demo_db)"
proof -
  have wf: "db_wf demo_db"
    using fixture_reachable_inv [OF demo_reachable] by (simp add: fixture_inv_def)
  show ?thesis
    using errors_write_nothing [OF wf, of 5 1 "''s''" "''b''" "''sent''" 7 "[]" None None] wf
    by (simp add: save_draft_def find_draft_def seed_draft_def insert_draft_def demo_defs)
qed

end
