(* ===== verification/Fixture_Server.thy ===== *)
theory Fixture_Server
  imports Fixture_Db
begin

text \<open>
  The HTTP application of the fixture, \<open>src/btb/app/server.py\<close>. FastAPI's routing and
  pydantic's parsing are outside the repository: a request is the endpoint it was routed to
  with its parsed payload, and the value of the \<open>X-BTB-UI-Token\<close> header. A handler takes
  the database and returns the response and the new database. An exception no handler
  catches is answered with status 500, as the ASGI server does.
\<close>

section \<open>The application and its requests\<close>

record app =
  app_db_path :: string
  app_run_id :: "string option"
  app_token :: string
  app_template :: string

datatype request =
    Health
  | Index
  | ListDrafts
  | CreateDraft string string
  | SaveDraft int
  | ListMessages
  | SendMessage int "string option"

datatype response =
    Json int pyval
  | Html string
  | InternalError

fun status_of :: "response \<Rightarrow> int" where
  "status_of (Json n _) = n" | "status_of (Html _) = 200" | "status_of InternalError = 500"

fun json_of :: "response \<Rightarrow> pyval" where
  "json_of (Json _ v) = v" | "json_of _ = PNone"

definition create_app :: "string \<Rightarrow> string option \<Rightarrow> string option \<Rightarrow> string \<Rightarrow> string \<Rightarrow> string option + app" where
  "create_app path run_id ui_token fresh_token template =
     (let token = (case ui_token of None \<Rightarrow> fresh_token | Some u \<Rightarrow> if u = [] then fresh_token else u)
      in if token = [] then Inl (Some ''ui_token must not be empty'')
         else Inr \<lparr>app_db_path = path, app_run_id = run_id, app_token = token,
                   app_template = template\<rparr>)"

text \<open>\<open>lifespan\<close>: the schema and the seed user exist before the server reports ready.\<close>

definition app_startup :: "db \<Rightarrow> db" where
  "app_startup s = init_db s (Some ''alice'')"

section \<open>The capability token\<close>

datatype token_check = TokenOk | TokenForbidden | TokenTypeError

text \<open>
  \<open>secrets.compare_digest\<close> raises \<open>TypeError\<close> on a string that is not ASCII; otherwise it
  is equality. The server's own token is ASCII unless the caller chose another.
\<close>

definition ascii :: "string \<Rightarrow> bool" where
  "ascii s \<longleftrightarrow> (\<forall>c \<in> set s. (of_char c :: nat) < 128)"

definition require_visible_control :: "app \<Rightarrow> string option \<Rightarrow> token_check" where
  "require_visible_control a supplied =
     (let s = (case supplied of None \<Rightarrow> [] | Some x \<Rightarrow> x)
      in if \<not> ascii s \<or> \<not> ascii (app_token a) then TokenTypeError
         else if s = app_token a then TokenOk else TokenForbidden)"

section \<open>Handlers\<close>

definition http_exception :: "int \<Rightarrow> string \<Rightarrow> response" where
  "http_exception n detail = Json n (PDict [(''detail'', PStr detail)])"

text \<open>\<open>str.replace\<close>: every occurrence, from the left, without overlaps.\<close>

function str_replace :: "string \<Rightarrow> string \<Rightarrow> string \<Rightarrow> string" where
  "str_replace old new s =
     (if s = [] \<or> old = [] then s
      else if starts_with old s then new @ str_replace old new (drop (length old) s)
      else hd s # str_replace old new (tl s))"
  by pat_completeness auto
termination
  by (relation "measure (\<lambda>(old, new, s). length s)") auto

declare str_replace.simps [simp del]

definition health_handler :: "app \<Rightarrow> response" where
  "health_handler a = Json 200 (PDict [(''ok'', PBool True), (''db'', PStr (app_db_path a)),
     (''run_id'', case app_run_id a of None \<Rightarrow> PNone | Some r \<Rightarrow> PStr r)])"

definition index_handler :: "app \<Rightarrow> response" where
  "index_handler a = Html (str_replace ''__BTB_UI_TOKEN__'' (app_token a) (app_template a))"

definition list_drafts_handler :: "db \<Rightarrow> response" where
  "list_drafts_handler s = Json 200 (PList (map (\<lambda>d. PDict (draft_dict d)) (drafts s)))"

definition list_messages_handler :: "db \<Rightarrow> response" where
  "list_messages_handler s = Json 200 (PList (map (\<lambda>m. PDict (message_dict m)) (messages s)))"

definition create_draft_handler :: "db \<Rightarrow> rat \<Rightarrow> string \<Rightarrow> string \<Rightarrow> response \<times> db" where
  "create_draft_handler s t subject body =
     (case create_draft s t 1 subject body ''new'' of
        (Inl e, s') \<Rightarrow> (InternalError, s')
      | (Inr d, s') \<Rightarrow> (Json 200 (PDict (draft_dict d)), s'))"

definition save_draft_handler :: "db \<Rightarrow> rat \<Rightarrow> int \<Rightarrow> response \<times> db" where
  "save_draft_handler s t draft_id =
     (case save_draft s t draft_id of
        (Inl (KeyError _), s') \<Rightarrow> (http_exception 404 ''draft not found'', s')
      | (Inl e, s') \<Rightarrow> (InternalError, s')
      | (Inr d, s') \<Rightarrow> (Json 200 (PDict (draft_dict d)), s'))"

definition send_message_handler :: "db \<Rightarrow> rat \<Rightarrow> string \<Rightarrow> int \<Rightarrow> string option \<Rightarrow> response \<times> db" where
  "send_message_handler s t fresh draft_id send_uid =
     (case send_message s t fresh draft_id send_uid of
        (Inl (KeyError _), s') \<Rightarrow> (http_exception 404 ''draft not found'', s')
      | (Inl (DraftNotSaved i _), s') \<Rightarrow>
          (http_exception 409 (''draft '' @ int_str i @ '' must be saved before sending''), s')
      | (Inl e, s') \<Rightarrow> (InternalError, s')
      | (Inr r, s') \<Rightarrow> (Json 200 (PDict (send_result_dict r)), s'))"

text \<open>The routes declared with \<open>dependencies=[Depends(require_visible_control)]\<close>.\<close>

fun guarded :: "request \<Rightarrow> bool" where
  "guarded Health = False" | "guarded Index = False" | "guarded _ = True"

definition handle_request :: "app \<Rightarrow> db \<Rightarrow> rat \<Rightarrow> string \<Rightarrow> string option \<Rightarrow> request \<Rightarrow> response \<times> db" where
  "handle_request a s t fresh token req =
     (case (if guarded req then require_visible_control a token else TokenOk) of
        TokenTypeError \<Rightarrow> (InternalError, s)
      | TokenForbidden \<Rightarrow>
          (http_exception 403 ''fixture API is available only through visible page controls'', s)
      | TokenOk \<Rightarrow>
          (case req of
             Health \<Rightarrow> (health_handler a, s)
           | Index \<Rightarrow> (index_handler a, s)
           | ListDrafts \<Rightarrow> (list_drafts_handler s, s)
           | CreateDraft subject body \<Rightarrow> create_draft_handler s t subject body
           | SaveDraft i \<Rightarrow> save_draft_handler s t i
           | ListMessages \<Rightarrow> (list_messages_handler s, s)
           | SendMessage i u \<Rightarrow> send_message_handler s t fresh i u))"

section \<open>Lemmas\<close>

lemma send_handler_cases:
  assumes "db_wf s"
  obtains (missing) "find_draft s i = None" "send_message_handler s t fresh i u =
      (http_exception 404 ''draft not found'', s)"
  | (unsaved) d where "find_draft s i = Some d" "d_status d \<noteq> ''saved''"
      "send_message_handler s t fresh i u =
        (http_exception 409 (''draft '' @ int_str i @ '' must be saved before sending''), s)"
  | (duplicate) d where "find_draft s i = Some d" "was_sent_once s (send_uid_of u fresh)"
      "send_message_handler s t fresh i u =
        (Json 200 (PDict (send_result_dict (DuplicateRejected (send_uid_of u fresh)))),
         insert_attempt s i (send_uid_of u fresh) ''duplicate_rejected'' t)"
  | (committed) d where "find_draft s i = Some d" "\<not> was_sent_once s (send_uid_of u fresh)"
      "send_message_handler s t fresh i u =
        (Json 200 (PDict (send_result_dict (Committed (sent_row s d i (send_uid_of u fresh) t)))),
         insert_attempt (s\<lparr>messages := messages s @ [sent_row s d i (send_uid_of u fresh) t]\<rparr>)
           i (send_uid_of u fresh) ''committed'' t)"
proof (cases "find_draft s i")
  case None
  then show ?thesis
    by (intro missing) (simp_all add: send_message_handler_def send_message_eq [OF assms])
next
  case (Some d)
  note eq = send_message_handler_def send_message_eq [OF assms] Some
  consider "d_status d \<noteq> ''saved''" | "d_status d = ''saved''" "was_sent_once s (send_uid_of u fresh)"
    | "d_status d = ''saved''" "\<not> was_sent_once s (send_uid_of u fresh)" by blast
  then show ?thesis
  proof cases
    case 1
    then show ?thesis by (intro unsaved [OF Some]) (simp_all add: eq)
  next
    case 2
    then show ?thesis by (intro duplicate [OF Some]) (simp_all add: eq)
  next
    case 3
    then show ?thesis by (intro committed [OF Some]) (simp_all add: eq)
  qed
qed

lemma send_handler_wf:
  assumes "db_wf s"
  shows "db_wf (snd (send_message_handler s t fresh i u))"
proof -
  have "db_wf (snd (send_message s t fresh i u))"
  proof (cases "send_check s i")
    case (Inr d)
    then show ?thesis
      using send_commit_wf [OF assms send_check_saved [OF Inr]]
      by (cases "send_commit s d i (send_uid_of u fresh) t") (simp add: send_message_def)
  qed (simp add: send_message_def assms)
  then show ?thesis
    by (auto simp: send_message_handler_def split: prod.splits sum.splits db_error.splits)
qed

lemma create_handler_wf:
  assumes "db_wf s"
  shows "db_wf (snd (create_draft_handler s t subj body))"
proof (cases "create_draft s t 1 subj body ''new''")
  case (Pair r s')
  with create_draft_cases [OF Pair] assms show ?thesis
    by (auto simp: create_draft_handler_def split: sum.splits intro: insert_draft_wf)
qed

lemma save_handler_wf:
  assumes "db_wf s"
  shows "db_wf (snd (save_draft_handler s t i))"
proof (cases "save_draft s t i")
  case (Pair r s')
  with save_draft_state [of s t i] mark_saved_wf [OF assms] show ?thesis
    by (auto simp: save_draft_handler_def split: sum.splits db_error.splits)
qed

lemma handle_request_wf: "db_wf s \<Longrightarrow> db_wf (snd (handle_request a s t fresh token req))"
  by (auto simp: handle_request_def send_handler_wf create_handler_wf save_handler_wf
      split: token_check.splits request.splits)

section \<open>Properties\<close>

text \<open>C14: every request but those to \<open>/health\<close> and \<open>/\<close> that does not carry the capability token
  neither changes the database nor learns anything about it: the answer is 403, or 500 where
  the token comparison itself raises, whatever the database holds.\<close>

theorem api_requires_token:
  assumes "req \<noteq> Health" and "req \<noteq> Index"
    and "token \<noteq> Some (app_token a)" and "app_token a \<noteq> []"
  shows "snd (handle_request a s t fresh token req) = s \<and>
    fst (handle_request a s t fresh token req) = fst (handle_request a s' t' fresh' token req) \<and>
    status_of (fst (handle_request a s t fresh token req)) \<in> {403, 500}"
proof -
  have "require_visible_control a token \<noteq> TokenOk"
    using assms(3,4) by (auto simp: require_visible_control_def Let_def split: option.splits)
  moreover have "guarded req" using assms(1,2) by (cases req) simp_all
  ultimately show ?thesis
    by (cases "require_visible_control a token") (auto simp: handle_request_def http_exception_def)
qed

theorem api_requires_token_witness:
  "snd (handle_request \<lparr>app_db_path = ''p'', app_run_id = None, app_token = ''t'', app_template = []\<rparr>
     demo_db 1 ''f'' (Some ''x'') (SendMessage 1 None)) = demo_db"
  using api_requires_token [of "SendMessage 1 None" "Some ''x''"
      "\<lparr>app_db_path = ''p'', app_run_id = None, app_token = ''t'', app_template = []\<rparr>" demo_db 1 "''f''"]
  by simp

text \<open>An authorised send answers 200 with \<open>committed\<close> true exactly when this request wrote
  a message, and then reports the id and uid of that message; 404 and 409 write nothing; a
  rejected duplicate answers 200 with \<open>committed\<close> false.\<close>

theorem send_response_tells_the_effect:
  assumes "db_wf s" and "send_message_handler s t fresh i u = (resp, s')"
  shows "(status_of resp \<in> {404, 409} \<and> s' = s) \<or>
    (status_of resp = 200 \<and> messages s' = messages s \<and>
      dget (as_dict (json_of resp)) ''committed'' = PBool False \<and>
      dget (as_dict (json_of resp)) ''duplicate_rejected'' = PBool True) \<or>
    (\<exists>m. status_of resp = 200 \<and> messages s' = messages s @ [m] \<and>
      dget (as_dict (json_of resp)) ''committed'' = PBool True \<and>
      dget (as_dict (json_of resp)) ''duplicate_rejected'' = PBool False \<and>
      dget (as_dict (json_of resp)) ''message'' = PDict (message_dict m) \<and>
      m_uid m = send_uid_of u fresh \<and> m_draft m = Some i)"
  by (rule send_handler_cases [OF assms(1), of i t fresh u])
    (use assms(2) in \<open>auto simp: http_exception_def sent_row_def\<close>)

theorem send_response_tells_the_effect_witness:
  "status_of (fst (send_message_handler demo_db 2 ''f'' 1 (Some ''u''))) = 200 \<and>
   messages (snd (send_message_handler demo_db 2 ''f'' 1 (Some ''u''))) = messages demo_sent"
proof -
  have wf: "db_wf demo_db"
    using fixture_reachable_inv [OF demo_reachable] by (simp add: fixture_inv_def)
  have run: "send_message_handler demo_db 2 ''f'' 1 (Some ''u'') =
      (Json 200 (PDict (send_result_dict (Committed (hd (messages demo_sent))))), demo_sent)"
    by (simp add: send_message_handler_def send_message_def demo_check send_uid_of_def demo_commit)
      (simp add: demo_defs)
  show ?thesis
    using send_response_tells_the_effect [OF wf run] run by simp
qed

end
