(* ===== verification/Inject_Proxy.thy ===== *)
theory Inject_Proxy
  imports Py_Value
begin

text \<open>
  The reverse proxy that drops acknowledgements, \<open>src/btb/harness/inject.py\<close>. Its shared
  state is a record, every method that takes the lock is one atomic operation on it, and
  \<open>_dispatch\<close> is a state machine of one handler thread, whose phases are the points between
  its atomic operations. \<open>proxy_step\<close> interleaves any number of handlers.

  Outside the repository are the network (the reply to a forwarded request is an argument),
  the clock, SHA-256 (\<open>sha\<close>) and \<open>json.loads\<close> on bytes (\<open>loads\<close>), whose outcome is a value,
  one of the two exceptions the proxy catches (a syntax error or undecodable bytes), or any
  other exception: the plain \<open>ValueError\<close> of an over-long integer literal, the
  \<open>RecursionError\<close> of deep nesting. The last kind escapes from the proxy's own code; where it
  goes from there is part of the model.
\<close>

section \<open>Reading JSON\<close>

datatype json_outcome = JsonValue pyval | JsonCaught | JsonEscapes

type_synonym json_loads = "string \<Rightarrow> json_outcome"

section \<open>Upstream results\<close>

datatype classification = ClsCommitted | ClsDuplicateRejected | ClsRejected | ClsNetworkError

fun cls_str :: "classification \<Rightarrow> string" where
  "cls_str ClsCommitted = ''committed''"
| "cls_str ClsDuplicateRejected = ''duplicate_rejected''"
| "cls_str ClsRejected = ''rejected''"
| "cls_str ClsNetworkError = ''network_error''"

datatype treatment = TNone | TForwarded | TDisconnected | TDropped

fun treatment_str :: "treatment \<Rightarrow> string" where
  "treatment_str TNone = ''none''"
| "treatment_str TForwarded = ''response_forwarded''"
| "treatment_str TDisconnected = ''downstream_disconnected_before_response''"
| "treatment_str TDropped = ''connection_dropped_after_commit''"

record upstream_result =
  up_status :: "int option"
  up_body :: string
  up_content_type :: "string option"
  up_completed :: rat
  up_class :: classification
  up_message_id :: pyval
  up_send_uid :: pyval
  up_error :: "string option"

definition is_verified_commit :: "upstream_result \<Rightarrow> bool" where
  "is_verified_commit u \<longleftrightarrow> up_class u = ClsCommitted"

text \<open>\<open>None\<close> where the exception escapes; inside, the object or Python's \<open>None\<close>.\<close>

definition parse_json_object :: "json_loads \<Rightarrow> string \<Rightarrow> pydict option option" where
  "parse_json_object loads body =
     (case loads body of
        JsonValue (PDict d) \<Rightarrow> Some (Some d)
      | JsonValue _ \<Rightarrow> Some None
      | JsonCaught \<Rightarrow> Some None
      | JsonEscapes \<Rightarrow> None)"

text \<open>\<open>d.get(k, default)\<close>: the default only where the key is absent.\<close>

definition dget_or :: "pydict \<Rightarrow> string \<Rightarrow> pyval \<Rightarrow> pyval" where
  "dget_or d k dflt = (case map_of d k of None \<Rightarrow> dflt | Some v \<Rightarrow> v)"

definition committed_identity :: "pydict option \<Rightarrow> pyval \<times> pyval" where
  "committed_identity payload =
     (case payload of
        None \<Rightarrow> (PNone, PNone)
      | Some p \<Rightarrow>
          (let message = as_dict (dget p ''message'');
               message_id = dget_or message ''id'' (dget p ''message_id'');
               send_uid = dget_or message ''send_uid'' (dget p ''send_uid'');
               mid = (case message_id of
                        PInt i \<Rightarrow> PInt i
                      | PStr s \<Rightarrow> if s = [] then PNone else PStr s
                      | _ \<Rightarrow> PNone);
               uid = (case send_uid of PStr s \<Rightarrow> if s = [] then PNone else PStr s | _ \<Rightarrow> PNone)
           in (mid, uid)))"

datatype upstream_reply = RequestError string | Reply int string "string option"

text \<open>
  The part of \<open>_forward\<close> that follows the network call. A reply whose body makes the parser
  raise anything else than the two caught exceptions has no result: the exception leaves
  \<open>_forward\<close>.
\<close>

definition classified :: "rat \<Rightarrow> int \<Rightarrow> string \<Rightarrow> string option \<Rightarrow> pydict option \<Rightarrow> upstream_result" where
  "classified now status body content_type payload =
     (let (message_id, send_uid) = committed_identity payload;
          claims = (case payload of None \<Rightarrow> False | Some p \<Rightarrow> dget p ''committed'' = PBool True);
          cls = (if (case payload of None \<Rightarrow> False
                       | Some p \<Rightarrow> dget p ''duplicate_rejected'' = PBool True)
                 then ClsDuplicateRejected
                 else if 200 \<le> status \<and> status < 300 \<and> claims \<and>
                         message_id \<noteq> PNone \<and> send_uid \<noteq> PNone
                 then ClsCommitted else ClsRejected)
      in \<lparr>up_status = Some status, up_body = body, up_content_type = content_type,
          up_completed = now, up_class = cls,
          up_message_id = (if claims then message_id else PNone),
          up_send_uid = (if claims then send_uid else PNone), up_error = None\<rparr>)"

definition network_failure :: "rat \<Rightarrow> string \<Rightarrow> upstream_result" where
  "network_failure now error =
     \<lparr>up_status = None, up_body = ''upstream network error: '' @ error,
      up_content_type = Some ''text/plain; charset=utf-8'', up_completed = now,
      up_class = ClsNetworkError, up_message_id = PNone, up_send_uid = PNone,
      up_error = Some error\<rparr>"

fun classify_reply :: "json_loads \<Rightarrow> rat \<Rightarrow> upstream_reply \<Rightarrow> upstream_result option" where
  "classify_reply loads now (RequestError error) = Some (network_failure now error)"
| "classify_reply loads now (Reply status body content_type) =
     map_option (classified now status body content_type) (parse_json_object loads body)"

section \<open>Requests and receipts\<close>

record request_head =
  rq_seq :: nat
  rq_method :: string
  rq_path :: string
  rq_started :: rat

record request_receipt = request_head +
  rq_completed :: "rat option"
  rq_status :: "int option"
  rq_treatment :: treatment
  rq_finished :: rat

record attempt_head =
  at_seq :: nat
  at_request :: nat
  at_method :: string
  at_path :: string
  at_started :: rat
  at_committed :: "nat option"

record attempt_receipt = attempt_head +
  at_body_sha :: string
  at_draft_id :: pyval
  at_req_uid :: pyval
  at_completed :: "rat option"
  at_status :: "int option"
  at_class :: classification
  at_message_id :: pyval
  at_message_uid :: pyval
  at_treatment :: treatment
  at_finished :: rat
  at_upstream_error :: "string option"
  at_close_error :: "string option"

record proxy =
  inject_send :: bool
  inject_after :: nat
  send_path :: string
  in_flight :: int
  next_sequence :: nat
  next_request_sequence :: nat
  committed_count :: nat
  send_forwards :: nat
  p_attempts :: "attempt_receipt list"
  p_requests :: "request_receipt list"

definition send_path_default :: string where
  "send_path_default = ''/api/messages/send''"

definition new_proxy :: "bool \<Rightarrow> int \<Rightarrow> string \<Rightarrow> string + proxy" where
  "new_proxy inject after path =
     (if after < 1 then Inl ''inject_after_committed must be at least 1''
      else Inr \<lparr>inject_send = inject, inject_after = nat after, send_path = path, in_flight = 0,
                next_sequence = 1, next_request_sequence = 1, committed_count = 0,
                send_forwards = 0, p_attempts = [], p_requests = []\<rparr>)"

section \<open>The operations under the lock\<close>

definition request_accepted :: "proxy \<Rightarrow> proxy" where
  "request_accepted p = p\<lparr>in_flight := in_flight p + 1\<rparr>"

definition request_finished :: "proxy \<Rightarrow> bool \<times> proxy" where
  "request_finished p =
     (let p' = p\<lparr>in_flight := in_flight p - 1\<rparr> in (0 \<le> in_flight p', p'))"

definition quiescent :: "proxy \<Rightarrow> bool" where
  "quiescent p \<longleftrightarrow> in_flight p = 0"

definition new_request :: "proxy \<Rightarrow> string \<Rightarrow> string \<Rightarrow> rat \<Rightarrow> request_head \<times> proxy" where
  "new_request p method path now =
     (\<lparr>rq_seq = next_request_sequence p, rq_method = method, rq_path = path, rq_started = now\<rparr>,
      p\<lparr>next_request_sequence := Suc (next_request_sequence p)\<rparr>)"

definition new_attempt :: "proxy \<Rightarrow> request_head \<Rightarrow> attempt_head \<times> proxy" where
  "new_attempt p r =
     (\<lparr>at_seq = next_sequence p, at_request = rq_seq r, at_method = rq_method r,
       at_path = rq_path r, at_started = rq_started r, at_committed = None\<rparr>,
      p\<lparr>next_sequence := Suc (next_sequence p)\<rparr>)"

definition register_verified_commit :: "proxy \<Rightarrow> nat \<times> proxy" where
  "register_verified_commit p =
     (let p' = p\<lparr>committed_count := Suc (committed_count p)\<rparr> in (committed_count p', p'))"

definition should_inject :: "proxy \<Rightarrow> nat \<Rightarrow> bool" where
  "should_inject p committed_sequence \<longleftrightarrow> inject_send p \<and> committed_sequence = inject_after p"

definition begin_forward :: "proxy \<Rightarrow> bool \<Rightarrow> proxy" where
  "begin_forward p is_send = (if is_send then p\<lparr>send_forwards := Suc (send_forwards p)\<rparr> else p)"

definition attempt_receipt_of :: "pydict option \<Rightarrow> (string \<Rightarrow> string) \<Rightarrow> attempt_head \<Rightarrow>
    string \<Rightarrow> upstream_result option \<Rightarrow> treatment \<Rightarrow> string option \<Rightarrow> rat \<Rightarrow> attempt_receipt" where
  "attempt_receipt_of payload sha h body upstream trt close_error now =
     (let draft_id = (case payload of None \<Rightarrow> PNone | Some p \<Rightarrow> dget p ''draft_id'');
          send_uid = (case payload of None \<Rightarrow> PNone | Some p \<Rightarrow> dget p ''send_uid'')
      in \<lparr>at_seq = at_seq h, at_request = at_request h, at_method = at_method h,
          at_path = at_path h, at_started = at_started h, at_committed = at_committed h,
          at_body_sha = sha body,
          at_draft_id = (if is_strict_int draft_id then draft_id else PNone),
          at_req_uid = (if is_str send_uid then send_uid else PNone),
          at_completed = map_option up_completed upstream,
          at_status = Option.bind upstream up_status,
          at_class = (case upstream of None \<Rightarrow> ClsNetworkError | Some u \<Rightarrow> up_class u),
          at_message_id = (case upstream of None \<Rightarrow> PNone | Some u \<Rightarrow> up_message_id u),
          at_message_uid = (case upstream of None \<Rightarrow> PNone | Some u \<Rightarrow> up_send_uid u),
          at_treatment = trt, at_finished = now,
          at_upstream_error = Option.bind upstream up_error, at_close_error = close_error\<rparr>)"

text \<open>\<open>None\<close> where reading the request body raises: then no receipt is appended.\<close>

definition record_attempt :: "json_loads \<Rightarrow> (string \<Rightarrow> string) \<Rightarrow> proxy \<Rightarrow> attempt_head \<Rightarrow>
    string \<Rightarrow> upstream_result option \<Rightarrow> treatment \<Rightarrow> string option \<Rightarrow> rat \<Rightarrow> proxy option" where
  "record_attempt loads sha p h body upstream trt close_error now =
     (case parse_json_object loads body of
        None \<Rightarrow> None
      | Some payload \<Rightarrow>
          Some (p\<lparr>p_attempts := p_attempts p @
                   [attempt_receipt_of payload sha h body upstream trt close_error now]\<rparr>))"

definition request_receipt_of :: "request_head \<Rightarrow> upstream_result option \<Rightarrow> treatment \<Rightarrow> rat
    \<Rightarrow> request_receipt" where
  "request_receipt_of r upstream trt now =
     \<lparr>rq_seq = rq_seq r, rq_method = rq_method r, rq_path = rq_path r, rq_started = rq_started r,
      rq_completed = map_option up_completed upstream, rq_status = Option.bind upstream up_status,
      rq_treatment = trt, rq_finished = now\<rparr>"

definition record_request :: "proxy \<Rightarrow> request_head \<Rightarrow> upstream_result option \<Rightarrow> treatment \<Rightarrow> rat
    \<Rightarrow> proxy" where
  "record_request p r upstream trt now =
     p\<lparr>p_requests := p_requests p @ [request_receipt_of r upstream trt now]\<rparr>"

section \<open>Recognising a send\<close>

text \<open>
  \<open>urlsplit(raw_path).path\<close> for the request targets of HTTP: surrounding control
  characters and blanks go, then the scheme, the authority, the fragment and the query.
  Bracketed hosts, on which \<open>urlsplit\<close> may raise, are treated as any other host.
\<close>

definition scheme_char :: "char \<Rightarrow> bool" where
  "scheme_char c \<longleftrightarrow> c \<in> set ''abcdefghijklmnopqrstuvwxyzABCDEFGHIJKLMNOPQRSTUVWXYZ0123456789+-.''"

definition letter_char :: "char \<Rightarrow> bool" where
  "letter_char c \<longleftrightarrow> c \<in> set ''abcdefghijklmnopqrstuvwxyzABCDEFGHIJKLMNOPQRSTUVWXYZ''"

definition drop_scheme :: "string \<Rightarrow> string" where
  "drop_scheme url =
     (let scheme = before_char (CHR '':'') url
      in if scheme \<noteq> url \<and> scheme \<noteq> [] \<and> letter_char (hd scheme) \<and> list_all scheme_char scheme
         then drop (length scheme + 1) url else url)"

definition drop_authority :: "string \<Rightarrow> string" where
  "drop_authority url =
     (if take 2 url = ''//'' then dropWhile (\<lambda>c. c \<notin> set ''/?#'') (drop 2 url) else url)"

definition clean_url :: "string \<Rightarrow> string" where
  "clean_url url =
     filter (\<lambda>c. (of_char c :: nat) \<notin> {9, 10, 13}) (dropWhile (\<lambda>c. (of_char c :: nat) \<le> 32) url)"

definition url_path :: "string \<Rightarrow> string" where
  "url_path url =
     before_char (CHR ''?'') (before_char (CHR ''#'') (drop_authority (drop_scheme (clean_url url))))"

definition is_send :: "proxy \<Rightarrow> 'a request_head_scheme \<Rightarrow> bool" where
  "is_send p r \<longleftrightarrow> rq_method r = ''POST'' \<and> url_path (rq_path r) = send_path p"

section \<open>A handler thread\<close>

text \<open>
  The phases of one accepted request between its atomic operations. From \<open>HTreated\<close> on the
  handler is in the \<open>finally\<close> block of \<open>_dispatch\<close>; \<open>HDone\<close> has left it.
\<close>

datatype handler =
    HAccepted string string
  | HSequenced request_head
  | HReady request_head "attempt_head option"
  | HForwarding request_head "attempt_head option" string
  | HReplied request_head "attempt_head option" string upstream_result
  | HCommitted request_head attempt_head string upstream_result
  | HTreated request_head "attempt_head option" string "upstream_result option" treatment "string option"
  | HLogged request_head "attempt_head option" string "upstream_result option" treatment "string option"
  | HDone

text \<open>
  What the environment contributes to a step: the time, the request body or the failure to
  read it, the upstream reply or an exception of the client that \<open>_forward\<close> does not catch, and
  how the socket operations towards the client end: without error, with the text of an
  \<open>OSError\<close>, or with another exception. \<open>EvSpawnFails\<close> ends a request before \<open>_dispatch\<close> has
  drawn its number: no thread could start, or the request line is malformed.
\<close>

datatype relay = RelaySent | RelayFailed string | RelayRaises

datatype event =
    EvTime rat
  | EvSpawnFails
  | EvGo
  | EvBody string
  | EvReadFails
  | EvReply rat upstream_reply
  | EvForwardRaises
  | EvDownstream relay

fun relay_treatment :: "relay \<Rightarrow> treatment" where
  "relay_treatment RelaySent = TForwarded"
| "relay_treatment (RelayFailed e) = TDisconnected"
| "relay_treatment RelayRaises = TNone"

lemma relay_treatment_not_dropped [simp]: "relay_treatment e \<noteq> TDropped" "TDropped \<noteq> relay_treatment e"
  by (cases e; simp)+

fun relay_error :: "relay \<Rightarrow> string option" where
  "relay_error (RelayFailed e) = Some e"
| "relay_error _ = None"

fun handler_next :: "json_loads \<Rightarrow> (string \<Rightarrow> string) \<Rightarrow> proxy \<Rightarrow> handler \<Rightarrow> event
    \<Rightarrow> (proxy \<times> handler option) option" where
  "handler_next loads sha p (HAccepted m path) (EvTime now) =
     (case new_request p m path now of (r, p') \<Rightarrow> Some (p', Some (HSequenced r)))"
| "handler_next loads sha p (HAccepted m path) EvSpawnFails = Some (snd (request_finished p), None)"
| "handler_next loads sha p (HSequenced r) EvGo =
     (if is_send p r
      then (case new_attempt p r of (a, p') \<Rightarrow> Some (p', Some (HReady r (Some a))))
      else Some (p, Some (HReady r None)))"
| "handler_next loads sha p (HReady r a) EvReadFails =
     Some (p, Some (HTreated r a [] None TNone None))"
| "handler_next loads sha p (HReady r a) (EvBody body) =
     Some (begin_forward p (a \<noteq> None), Some (HForwarding r a body))"
| "handler_next loads sha p (HForwarding r a body) EvForwardRaises =
     Some (p, Some (HTreated r a body None TNone None))"
| "handler_next loads sha p (HForwarding r a body) (EvReply now reply) =
     (case classify_reply loads now reply of
        None \<Rightarrow> Some (p, Some (HTreated r a body None TNone None))
      | Some u \<Rightarrow> Some (p, Some (HReplied r a body u)))"
| "handler_next loads sha p (HReplied r a body u) EvGo =
     (case a of
        Some h \<Rightarrow>
          if is_verified_commit u
          then (case register_verified_commit p of
                  (n, p') \<Rightarrow> Some (p', Some (HCommitted r (h\<lparr>at_committed := Some n\<rparr>) body u)))
          else None
      | None \<Rightarrow> None)"
| "handler_next loads sha p (HReplied r a body u) (EvDownstream e) =
     (if a \<noteq> None \<and> is_verified_commit u then None
      else Some (p, Some (HTreated r a body (Some u) (relay_treatment e) (relay_error e))))"
| "handler_next loads sha p (HCommitted r h body u) (EvDownstream e) =
     (if (case at_committed h of None \<Rightarrow> False | Some n \<Rightarrow> should_inject p n)
      then Some (p, Some (HTreated r (Some h) body (Some u) TDropped (relay_error e)))
      else Some (p, Some (HTreated r (Some h) body (Some u) (relay_treatment e) (relay_error e))))"
| "handler_next loads sha p (HTreated r a body u trt e) (EvTime now) =
     Some (record_request p r u trt now, Some (HLogged r a body u trt e))"
| "handler_next loads sha p (HLogged r a body u trt e) (EvTime now) =
     (case a of
        None \<Rightarrow> Some (p, Some HDone)
      | Some h \<Rightarrow>
          (case record_attempt loads sha p h body u trt e now of
             None \<Rightarrow> Some (p, Some HDone)
           | Some p' \<Rightarrow> Some (p', Some HDone)))"
| "handler_next loads sha p HDone EvGo = Some (snd (request_finished p), None)"
| "handler_next loads sha p _ _ = None"

section \<open>Any number of handlers\<close>

datatype move = Accept string string | Run nat event

fun proxy_next :: "json_loads \<Rightarrow> (string \<Rightarrow> string) \<Rightarrow> proxy \<times> handler list \<Rightarrow> move
    \<Rightarrow> (proxy \<times> handler list) option" where
  "proxy_next loads sha (p, hs) (Accept m path) = Some (request_accepted p, hs @ [HAccepted m path])"
| "proxy_next loads sha (p, hs) (Run i e) =
     (if i < length hs
      then (case handler_next loads sha p (hs ! i) e of
              None \<Rightarrow> None
            | Some (p', None) \<Rightarrow> Some (p', take i hs @ drop (Suc i) hs)
            | Some (p', Some h) \<Rightarrow> Some (p', hs[i := h]))
      else None)"

definition proxy_run :: "json_loads \<Rightarrow> (string \<Rightarrow> string) \<Rightarrow> proxy \<times> handler list \<Rightarrow> move list
    \<Rightarrow> (proxy \<times> handler list) option" where
  "proxy_run loads sha = foldM (proxy_next loads sha)"

text \<open>
  The states the proxy can reach, with the sends that left no receipt on the way: an attempt
  is lost in the step that would have recorded it, with its head, the body it carried and the
  treatment its handler had applied. \<open>wait_for_quiescence\<close> returns true exactly when it sees no
  accepted request in flight.
\<close>

type_synonym lost = "attempt_head \<times> string \<times> treatment"

fun lost_by :: "json_loads \<Rightarrow> handler \<Rightarrow> event \<Rightarrow> lost list" where
  "lost_by loads (HLogged r (Some h) body u trt e) (EvTime now) =
     (if parse_json_object loads body = None then [(h, body, trt)] else [])"
| "lost_by loads _ _ = []"

fun lost_in :: "json_loads \<Rightarrow> handler list \<Rightarrow> move \<Rightarrow> lost list" where
  "lost_in loads hs (Accept m path) = []"
| "lost_in loads hs (Run i e) = (if i < length hs then lost_by loads (hs ! i) e else [])"

inductive proxy_history ::
    "json_loads \<Rightarrow> (string \<Rightarrow> string) \<Rightarrow> proxy \<Rightarrow> handler list \<Rightarrow> lost list \<Rightarrow> bool"
  for loads :: json_loads and sha :: "string \<Rightarrow> string" where
  start: "new_proxy sends n path = Inr p \<Longrightarrow> proxy_history loads sha p [] []"
| step: "proxy_history loads sha p hs ls \<Longrightarrow> proxy_next loads sha (p, hs) mv = Some (p', hs') \<Longrightarrow>
     proxy_history loads sha p' hs' (ls @ lost_in loads hs mv)"

fun lost_run :: "json_loads \<Rightarrow> (string \<Rightarrow> string) \<Rightarrow> proxy \<times> handler list \<Rightarrow> move list \<Rightarrow> lost list" where
  "lost_run loads sha s [] = []"
| "lost_run loads sha s (mv # mvs) =
     lost_in loads (snd s) mv @
     (case proxy_next loads sha s mv of None \<Rightarrow> [] | Some s' \<Rightarrow> lost_run loads sha s' mvs)"

lemma proxy_run_history:
  "proxy_history loads sha p hs ls \<Longrightarrow> proxy_run loads sha (p, hs) mvs = Some (p', hs') \<Longrightarrow>
   proxy_history loads sha p' hs' (ls @ lost_run loads sha (p, hs) mvs)"
proof (induction mvs arbitrary: p hs ls)
  case Nil
  then show ?case by (simp add: proxy_run_def)
next
  case (Cons mv mvs)
  then obtain q gs where "proxy_next loads sha (p, hs) mv = Some (q, gs)"
    and "proxy_run loads sha (q, gs) mvs = Some (p', hs')"
    by (auto simp: proxy_run_def split: option.splits)
  with Cons.IH [OF proxy_history.step [OF Cons.prems(1)]] show ?case by simp
qed

section \<open>The report\<close>

definition opt_str :: "string option \<Rightarrow> pyval" where
  "opt_str s = (case s of None \<Rightarrow> PNone | Some x \<Rightarrow> PStr x)"

definition opt_float :: "rat option \<Rightarrow> pyval" where
  "opt_float q = (case q of None \<Rightarrow> PNone | Some x \<Rightarrow> PFloat x)"

definition opt_status :: "int option \<Rightarrow> pyval" where
  "opt_status i = (case i of None \<Rightarrow> PNone | Some n \<Rightarrow> PInt n)"

definition opt_seq :: "nat option \<Rightarrow> pyval" where
  "opt_seq i = (case i of None \<Rightarrow> PNone | Some n \<Rightarrow> PInt (int n))"

definition attempt_json :: "attempt_receipt \<Rightarrow> pydict" where
  "attempt_json a =
     [(''sequence'', PInt (int (at_seq a))), (''request_sequence'', PInt (int (at_request a))),
      (''method'', PStr (at_method a)), (''path'', PStr (at_path a)),
      (''started_at'', PFloat (at_started a)), (''committed_sequence'', opt_seq (at_committed a)),
      (''request_body_sha256'', PStr (at_body_sha a)), (''request_draft_id'', at_draft_id a),
      (''request_send_uid'', at_req_uid a), (''upstream_completed_at'', opt_float (at_completed a)),
      (''upstream_status'', opt_status (at_status a)),
      (''upstream_classification'', PStr (cls_str (at_class a))),
      (''committed_message_id'', at_message_id a), (''committed_send_uid'', at_message_uid a),
      (''treatment'', PStr (treatment_str (at_treatment a))),
      (''finished_at'', PFloat (at_finished a))] @
     (case at_upstream_error a of None \<Rightarrow> [] | Some e \<Rightarrow> [(''upstream_error'', PStr e)]) @
     (case at_close_error a of None \<Rightarrow> [] | Some e \<Rightarrow> [(''downstream_close_error'', PStr e)])"

definition request_json :: "request_receipt \<Rightarrow> pydict" where
  "request_json r =
     [(''sequence'', PInt (int (rq_seq r))), (''method'', PStr (rq_method r)),
      (''path'', PStr (rq_path r)), (''started_at'', PFloat (rq_started r)),
      (''upstream_completed_at'', opt_float (rq_completed r)),
      (''upstream_status'', opt_status (rq_status r)),
      (''treatment'', PStr (treatment_str (rq_treatment r))),
      (''finished_at'', PFloat (rq_finished r))]"

definition all_treatments :: "treatment list" where
  "all_treatments = [TNone, TForwarded, TDisconnected, TDropped]"

definition count_treatment :: "attempt_receipt list \<Rightarrow> treatment \<Rightarrow> nat" where
  "count_treatment as t = length (filter (\<lambda>a. at_treatment a = t) as)"

definition sorted_attempts :: "proxy \<Rightarrow> attempt_receipt list" where
  "sorted_attempts p = sort_key at_seq (p_attempts p)"

definition sorted_requests :: "proxy \<Rightarrow> request_receipt list" where
  "sorted_requests p = sort_key rq_seq (p_requests p)"

definition treatment_delivered :: "proxy \<Rightarrow> bool" where
  "treatment_delivered p \<longleftrightarrow> 0 < count_treatment (sorted_attempts p) TDropped"

definition report :: "proxy \<Rightarrow> pydict" where
  "report p =
     (let as = sorted_attempts p;
          statuses = map (\<lambda>a. opt_status (at_status a)) as
      in [(''injection'', PStr ''disconnect_after_possible_send''),
          (''injection_enabled'', PBool (inject_send p)),
          (''inject_after_committed'', PInt (int (inject_after p))),
          (''forwarded'', PBool (0 < send_forwards p)),
          (''forwarded_status'', if statuses = [] then PNone else last statuses),
          (''upstream_statuses'', PList statuses),
          (''aborted_response'', PBool (treatment_delivered p)),
          (''treatment_delivered'', PBool (treatment_delivered p)),
          (''send_forwards'', PInt (int (send_forwards p))),
          (''in_flight'', PInt (in_flight p)),
          (''treatment_summary'',
            PDict (map (\<lambda>t. (treatment_str t, PInt (int (count_treatment as t)))) all_treatments)),
          (''attempts'', PList (map (\<lambda>a. PDict (attempt_json a)) as)),
          (''requests'', PList (map (\<lambda>r. PDict (request_json r)) (sorted_requests p)))])"

section \<open>The invariant of the proxy\<close>

text \<open>
  What each phase still owes to the receipts: the sequence numbers it has drawn and not yet
  recorded. Together with the recorded ones they are exactly the numbers drawn so far.
\<close>

fun open_requests :: "handler \<Rightarrow> nat multiset" where
  "open_requests (HAccepted _ _) = {#}"
| "open_requests (HSequenced r) = {#rq_seq r#}"
| "open_requests (HReady r _) = {#rq_seq r#}"
| "open_requests (HForwarding r _ _) = {#rq_seq r#}"
| "open_requests (HReplied r _ _ _) = {#rq_seq r#}"
| "open_requests (HCommitted r _ _ _) = {#rq_seq r#}"
| "open_requests (HTreated r _ _ _ _ _) = {#rq_seq r#}"
| "open_requests (HLogged _ _ _ _ _ _) = {#}"
| "open_requests HDone = {#}"

definition head_of :: "attempt_head option \<Rightarrow> nat multiset" where
  "head_of a = (case a of None \<Rightarrow> {#} | Some h \<Rightarrow> {#at_seq h#})"

definition commit_of :: "nat option \<Rightarrow> nat multiset" where
  "commit_of n = (case n of None \<Rightarrow> {#} | Some k \<Rightarrow> {#k#})"

definition head_commit :: "attempt_head option \<Rightarrow> nat multiset" where
  "head_commit a = (case a of None \<Rightarrow> {#} | Some h \<Rightarrow> commit_of (at_committed h))"

fun open_attempts :: "handler \<Rightarrow> nat multiset" where
  "open_attempts (HReady _ a) = head_of a"
| "open_attempts (HForwarding _ a _) = head_of a"
| "open_attempts (HReplied _ a _ _) = head_of a"
| "open_attempts (HCommitted _ h _ _) = {#at_seq h#}"
| "open_attempts (HTreated _ a _ _ _ _) = head_of a"
| "open_attempts (HLogged _ a _ _ _ _) = head_of a"
| "open_attempts _ = {#}"

fun open_commits :: "handler \<Rightarrow> nat multiset" where
  "open_commits (HCommitted _ h _ _) = commit_of (at_committed h)"
| "open_commits (HTreated _ a _ _ _ _) = head_commit a"
| "open_commits (HLogged _ a _ _ _ _) = head_commit a"
| "open_commits _ = {#}"

text \<open>The send whose request is recorded and whose attempt is not yet.\<close>

fun open_bindings :: "handler \<Rightarrow> nat multiset" where
  "open_bindings (HLogged _ (Some h) _ _ _ _) = {#at_request h#}"
| "open_bindings _ = {#}"

text \<open>Attempts that have certainly been forwarded, and those that have not.\<close>

fun certain_forward :: "handler \<Rightarrow> nat" where
  "certain_forward (HForwarding _ a _) = size (head_of a)"
| "certain_forward (HReplied _ a _ _) = size (head_of a)"
| "certain_forward (HCommitted _ _ _ _) = 1"
| "certain_forward (HTreated _ a _ u _ _) = (if u = None then 0 else size (head_of a))"
| "certain_forward (HLogged _ a _ u _ _) = (if u = None then 0 else size (head_of a))"
| "certain_forward _ = 0"

fun no_forward :: "handler \<Rightarrow> nat" where
  "no_forward (HReady _ a) = size (head_of a)"
| "no_forward _ = 0"

text \<open>What a handler knows of the attempt it is working on.\<close>

definition linked :: "request_head \<Rightarrow> attempt_head \<Rightarrow> bool" where
  "linked r h \<longleftrightarrow> at_request h = rq_seq r \<and> at_method h = rq_method r \<and> at_path h = rq_path r"

definition fresh_attempt :: "proxy \<Rightarrow> request_head \<Rightarrow> attempt_head option \<Rightarrow> bool" where
  "fresh_attempt p r a \<longleftrightarrow> (a \<noteq> None \<longleftrightarrow> is_send p r) \<and>
     (\<forall>h. a = Some h \<longrightarrow> linked r h \<and> at_committed h = None)"

definition verdict_ok :: "proxy \<Rightarrow> attempt_head \<Rightarrow> upstream_result option \<Rightarrow> treatment \<Rightarrow> bool" where
  "verdict_ok p h u trt \<longleftrightarrow>
     (at_committed h \<noteq> None \<longleftrightarrow> (\<exists>u'. u = Some u' \<and> is_verified_commit u')) \<and>
     (trt = TDropped \<longleftrightarrow> inject_send p \<and> at_committed h = Some (inject_after p))"

definition verified_ok :: "upstream_result \<Rightarrow> bool" where
  "verified_ok u \<longleftrightarrow> (is_verified_commit u \<longrightarrow>
     (\<exists>n. up_status u = Some n \<and> 200 \<le> n \<and> n < 300) \<and> up_message_id u \<noteq> PNone \<and> up_send_uid u \<noteq> PNone)"

definition request_logged :: "proxy \<Rightarrow> request_head \<Rightarrow> treatment \<Rightarrow> bool" where
  "request_logged p r trt \<longleftrightarrow> (\<exists>q \<in> set (p_requests p). rq_seq q = rq_seq r \<and>
     rq_method q = rq_method r \<and> rq_path q = rq_path r \<and> rq_treatment q = trt)"

fun handler_ok :: "proxy \<Rightarrow> handler \<Rightarrow> bool" where
  "handler_ok p (HReady r a) = fresh_attempt p r a"
| "handler_ok p (HForwarding r a _) = fresh_attempt p r a"
| "handler_ok p (HReplied r a _ u) = (verified_ok u \<and> fresh_attempt p r a)"
| "handler_ok p (HCommitted r h _ u) =
     (is_send p r \<and> linked r h \<and> is_verified_commit u \<and> verified_ok u \<and> at_committed h \<noteq> None)"
| "handler_ok p (HTreated r a _ u trt _) =
     ((a \<noteq> None \<longleftrightarrow> is_send p r) \<and> (\<forall>u'. u = Some u' \<longrightarrow> verified_ok u') \<and>
      (\<forall>h. a = Some h \<longrightarrow> linked r h \<and> verdict_ok p h u trt))"
| "handler_ok p (HLogged r a _ u trt _) =
     (request_logged p r trt \<and> (\<forall>u'. u = Some u' \<longrightarrow> verified_ok u') \<and>
      (\<forall>h. a = Some h \<longrightarrow> linked r h \<and> verdict_ok p h u trt))"
| "handler_ok p _ = True"

definition attempt_ok :: "proxy \<Rightarrow> attempt_receipt \<Rightarrow> bool" where
  "attempt_ok p a \<longleftrightarrow>
     (\<exists>q \<in> set (p_requests p). rq_seq q = at_request a \<and> rq_method q = at_method a \<and>
        rq_path q = at_path a \<and> rq_treatment q = at_treatment a) \<and>
     (at_committed a \<noteq> None \<longleftrightarrow> at_class a = ClsCommitted) \<and>
     (at_class a = ClsCommitted \<longrightarrow> (\<exists>n. at_status a = Some n \<and> 200 \<le> n \<and> n < 300) \<and>
        at_message_id a \<noteq> PNone \<and> at_message_uid a \<noteq> PNone) \<and>
     (at_treatment a = TDropped \<longleftrightarrow> inject_send p \<and> at_committed a = Some (inject_after p))"

text \<open>What is known of a lost attempt: its body made the parser raise, its request is recorded.\<close>

fun lost_ok :: "json_loads \<Rightarrow> proxy \<Rightarrow> lost \<Rightarrow> bool" where
  "lost_ok loads p (h, body, trt) \<longleftrightarrow>
     loads body = JsonEscapes \<and>
     (\<exists>q \<in> set (p_requests p). rq_seq q = at_request h \<and> rq_method q = at_method h \<and>
        rq_path q = at_path h \<and> rq_treatment q = trt) \<and>
     (trt = TDropped \<longleftrightarrow> inject_send p \<and> at_committed h = Some (inject_after p))"

definition finished_heads :: "proxy \<Rightarrow> lost list \<Rightarrow> attempt_head list" where
  "finished_heads p ls = map attempt_head.truncate (p_attempts p) @ map fst ls"

definition spent_attempts :: "proxy \<Rightarrow> lost list \<Rightarrow> nat multiset" where
  "spent_attempts p ls = mset (map at_seq (finished_heads p ls))"

definition spent_bindings :: "proxy \<Rightarrow> lost list \<Rightarrow> nat multiset" where
  "spent_bindings p ls = mset (map at_request (finished_heads p ls))"

definition spent_commits :: "proxy \<Rightarrow> lost list \<Rightarrow> nat multiset" where
  "spent_commits p ls = sum_list (map (\<lambda>h. commit_of (at_committed h)) (finished_heads p ls))"

definition recorded_sends :: "proxy \<Rightarrow> nat multiset" where
  "recorded_sends p = mset (map rq_seq (filter (is_send p) (p_requests p)))"

definition forwarded_attempts :: "attempt_receipt list \<Rightarrow> nat" where
  "forwarded_attempts as = length (filter (\<lambda>a. at_completed a \<noteq> None) as)"

definition proxy_inv :: "json_loads \<Rightarrow> proxy \<Rightarrow> handler list \<Rightarrow> lost list \<Rightarrow> bool" where
  "proxy_inv loads p hs ls \<longleftrightarrow>
     in_flight p = int (length hs) \<and>
     1 \<le> inject_after p \<and> 1 \<le> next_request_sequence p \<and> 1 \<le> next_sequence p \<and>
     mset (map rq_seq (p_requests p)) + sum_list (map open_requests hs) = drawn (next_request_sequence p) \<and>
     spent_attempts p ls + sum_list (map open_attempts hs) = drawn (next_sequence p) \<and>
     spent_bindings p ls + sum_list (map open_bindings hs) = recorded_sends p \<and>
     spent_commits p ls + sum_list (map open_commits hs) = drawn (Suc (committed_count p)) \<and>
     forwarded_attempts (p_attempts p) + sum_list (map certain_forward hs) \<le> send_forwards p \<and>
     send_forwards p + sum_list (map no_forward hs) < next_sequence p \<and>
     (\<forall>h \<in> set hs. handler_ok p h) \<and>
     (\<forall>a \<in> set (p_attempts p). attempt_ok p a) \<and>
     (\<forall>l \<in> set ls. lost_ok loads p l)"

lemma classified_verified: "verified_ok (classified now status body content_type payload)"
  by (auto simp: verified_ok_def classified_def is_verified_commit_def Let_def
      split: prod.splits option.splits if_splits)

lemma classify_verified: "classify_reply loads now reply = Some u \<Longrightarrow> verified_ok u"
proof (cases reply)
  case (RequestError error)
  then show "classify_reply loads now reply = Some u \<Longrightarrow> verified_ok u"
    by (auto simp: network_failure_def verified_ok_def is_verified_commit_def)
qed (auto simp: classified_verified)

text \<open>The handlers a step leaves in the place of the one that moved.\<close>

definition left_over :: "handler option \<Rightarrow> handler list" where
  "left_over ho = (case ho of None \<Rightarrow> [] | Some h \<Rightarrow> [h])"

lemma left_over_simps [simp]: "left_over None = []" "left_over (Some h) = [h]"
  by (simp_all add: left_over_def)

lemmas op_defs = new_request_def new_attempt_def register_verified_commit_def begin_forward_def
  record_attempt_def record_request_def request_finished_def request_accepted_def Let_def

lemmas spent_defs = spent_attempts_def spent_bindings_def spent_commits_def finished_heads_def
  attempt_head.truncate_def

lemma handler_next_frame:
  assumes "handler_next loads sha p h e = Some (p', ho)"
  shows "inject_send p' = inject_send p" "inject_after p' = inject_after p"
    "send_path p' = send_path p" "set (p_requests p) \<subseteq> set (p_requests p')"
  using assms
  by (induction loads sha p h e rule: handler_next.induct)
    (auto simp: op_defs split: if_splits option.splits)

lemma handler_next_in_flight:
  assumes "handler_next loads sha p h e = Some (p', ho)"
  shows "in_flight p' = in_flight p - 1 + int (length (left_over ho))"
  using assms
  by (induction loads sha p h e rule: handler_next.induct)
    (auto simp: op_defs split: if_splits option.splits)

lemma handler_next_requests:
  assumes "handler_next loads sha p h e = Some (p', ho)" and "1 \<le> next_request_sequence p"
  shows "1 \<le> next_request_sequence p' \<and>
    mset (map rq_seq (p_requests p')) + sum_list (map open_requests (left_over ho)) + drawn (next_request_sequence p) =
    mset (map rq_seq (p_requests p)) + open_requests h + drawn (next_request_sequence p')"
  using assms
  by (induction loads sha p h e rule: handler_next.induct)
    (auto simp: op_defs request_receipt_of_def split: if_splits option.splits)

lemma handler_next_attempts:
  assumes "handler_next loads sha p h e = Some (p', ho)" and "1 \<le> next_sequence p"
  shows "1 \<le> next_sequence p' \<and>
    spent_attempts p' (ls @ lost_by loads h e) + sum_list (map open_attempts (left_over ho)) + drawn (next_sequence p) =
    spent_attempts p ls + open_attempts h + drawn (next_sequence p')"
  using assms
  by (induction loads sha p h e rule: handler_next.induct)
    (auto simp: op_defs spent_defs head_of_def attempt_receipt_of_def split: if_splits option.splits)

lemma handler_next_commits:
  assumes "handler_next loads sha p h e = Some (p', ho)" and "handler_ok p h"
  shows "spent_commits p' (ls @ lost_by loads h e) + sum_list (map open_commits (left_over ho)) + drawn (Suc (committed_count p)) =
    spent_commits p ls + open_commits h + drawn (Suc (committed_count p'))"
  using assms
  by (induction loads sha p h e rule: handler_next.induct)
    (auto simp: op_defs spent_defs head_commit_def commit_of_def attempt_receipt_of_def fresh_attempt_def
      split: if_splits option.splits)

lemma handler_next_bindings:
  assumes "handler_next loads sha p h e = Some (p', ho)" and "handler_ok p h"
  shows "spent_bindings p' (ls @ lost_by loads h e) + sum_list (map open_bindings (left_over ho)) + recorded_sends p =
    spent_bindings p ls + open_bindings h + recorded_sends p'"
  using assms
  by (induction loads sha p h e rule: handler_next.induct)
    (auto simp: op_defs spent_defs recorded_sends_def is_send_def attempt_receipt_of_def
      request_receipt_of_def linked_def split: if_splits option.splits)

lemma handler_next_forwards:
  assumes "handler_next loads sha p h e = Some (p', ho)"
  shows "forwarded_attempts (p_attempts p') + sum_list (map certain_forward (left_over ho)) + send_forwards p
      \<le> forwarded_attempts (p_attempts p) + certain_forward h + send_forwards p'"
    and "send_forwards p' + sum_list (map no_forward (left_over ho)) + next_sequence p
      \<le> send_forwards p + no_forward h + next_sequence p'"
  using assms
  by (induction loads sha p h e rule: handler_next.induct)
    (auto simp: op_defs forwarded_attempts_def head_of_def attempt_receipt_of_def
      split: if_splits option.splits)

lemma is_send_mono: "send_path p' = send_path p \<Longrightarrow> is_send p' r = is_send p r"
  by (simp add: is_send_def)

lemma handler_ok_mono:
  assumes "handler_ok p h" and "set (p_requests p) \<subseteq> set (p_requests p')"
    and "inject_send p' = inject_send p" "inject_after p' = inject_after p" "send_path p' = send_path p"
  shows "handler_ok p' h"
  using assms by (cases h) (auto simp: verdict_ok_def request_logged_def fresh_attempt_def is_send_def)

lemma attempt_ok_mono:
  assumes "attempt_ok p a" and "set (p_requests p) \<subseteq> set (p_requests p')"
    and "inject_send p' = inject_send p" "inject_after p' = inject_after p"
  shows "attempt_ok p' a"
  using assms by (auto simp: attempt_ok_def)

lemma lost_ok_mono:
  assumes "lost_ok loads p l" and "set (p_requests p) \<subseteq> set (p_requests p')"
    and "inject_send p' = inject_send p" "inject_after p' = inject_after p"
  shows "lost_ok loads p' l"
  using assms by (cases l) auto

lemma handler_next_ok:
  assumes "handler_next loads sha p h e = Some (p', Some h')" and "handler_ok p h"
  shows "handler_ok p' h'"
  using assms
  by (induction loads sha p h e rule: handler_next.induct)
    (auto simp: op_defs linked_def verdict_ok_def classify_verified fresh_attempt_def
      should_inject_def request_logged_def request_receipt_of_def is_send_def
      split: if_splits option.splits)

lemma attempt_receipt_ok:
  assumes "request_logged p r trt" and "\<forall>u'. u = Some u' \<longrightarrow> verified_ok u'" and "linked r h"
    and "verdict_ok p h u trt"
  shows "attempt_ok p (attempt_receipt_of payload sha h body u trt e now)"
proof (cases u)
  case None
  with assms show ?thesis
    by (auto simp: attempt_ok_def attempt_receipt_of_def linked_def verdict_ok_def request_logged_def Let_def)
next
  case (Some u')
  with assms show ?thesis
    by (auto simp: attempt_ok_def attempt_receipt_of_def linked_def verdict_ok_def verified_ok_def
        request_logged_def is_verified_commit_def Let_def)
qed

lemma attempt_ok_append [simp]: "attempt_ok (p\<lparr>p_attempts := as\<rparr>) a = attempt_ok p a"
  by (simp add: attempt_ok_def)

lemma handler_next_attempt_ok:
  assumes "handler_next loads sha p h e = Some (p', ho)" and "handler_ok p h"
    and "a \<in> set (p_attempts p') - set (p_attempts p)"
  shows "attempt_ok p' a"
  using assms
  by (induction loads sha p h e rule: handler_next.induct)
    (auto simp: op_defs intro: attempt_receipt_ok split: if_splits option.splits)

lemma lost_by_ok:
  assumes "handler_ok p h" and "l \<in> set (lost_by loads h e)"
  shows "lost_ok loads p l"
  using assms
  by (induction loads h e rule: lost_by.induct)
    (auto simp: parse_json_object_def verdict_ok_def linked_def request_logged_def
      split: if_splits json_outcome.splits pyval.splits)

lemma handler_next_inv:
  assumes inv: "proxy_inv loads p (xs @ h # ys) ls"
    and stp: "handler_next loads sha p h e = Some (p', ho)"
  shows "proxy_inv loads p' (xs @ left_over ho @ ys) (ls @ lost_by loads h e)"
proof -
  have ok: "handler_ok p h" and one: "1 \<le> next_request_sequence p" "1 \<le> next_sequence p"
    using inv by (auto simp: proxy_inv_def)
  note fr = handler_next_frame [OF stp]
  have oks: "\<forall>k \<in> set (xs @ left_over ho @ ys). handler_ok p' k"
    using inv handler_ok_mono [OF _ fr(4) fr(1) fr(2) fr(3)] handler_next_ok [of loads sha p h e p'] stp ok
    by (auto simp: proxy_inv_def left_over_def split: option.splits)
  have aoks: "\<forall>a \<in> set (p_attempts p'). attempt_ok p' a"
    using inv attempt_ok_mono [OF _ fr(4) fr(1) fr(2)] handler_next_attempt_ok [OF stp ok]
    by (auto simp: proxy_inv_def)
  have loks: "\<forall>l \<in> set (ls @ lost_by loads h e). lost_ok loads p' l"
    using inv lost_ok_mono [OF _ fr(4) fr(1) fr(2)] lost_by_ok [OF ok]
    by (auto simp: proxy_inv_def simp del: lost_ok.simps)
  note balances = handler_next_requests [OF stp one(1)] handler_next_attempts [OF stp one(2), of ls]
    handler_next_commits [OF stp ok, of ls] handler_next_bindings [OF stp ok, of ls]
  have "mset (map rq_seq (p_requests p')) + sum_list (map open_requests (xs @ left_over ho @ ys))
      = drawn (next_request_sequence p')"
    "spent_attempts p' (ls @ lost_by loads h e) + sum_list (map open_attempts (xs @ left_over ho @ ys))
      = drawn (next_sequence p')"
    "spent_commits p' (ls @ lost_by loads h e) + sum_list (map open_commits (xs @ left_over ho @ ys))
      = drawn (Suc (committed_count p'))"
    "spent_bindings p' (ls @ lost_by loads h e) + sum_list (map open_bindings (xs @ left_over ho @ ys))
      = recorded_sends p'"
    using inv balances unfolding proxy_inv_def map_append sum_list.append list.map sum_list.Cons
    by (blast intro: tickets_balance)+
  with oks aoks loks show ?thesis
    using inv balances(1,2) fr(2) handler_next_in_flight [OF stp] handler_next_forwards [OF stp]
    unfolding proxy_inv_def by (simp add: algebra_simps)
qed

lemma proxy_inv_start: "new_proxy sends n path = Inr p \<Longrightarrow> proxy_inv loads p [] []"
  by (auto simp: new_proxy_def proxy_inv_def spent_defs recorded_sends_def forwarded_attempts_def
      split: if_splits)

lemma proxy_inv_accept:
  "proxy_inv loads p hs ls \<Longrightarrow> proxy_inv loads (request_accepted p) (hs @ [HAccepted m path]) ls"
proof -
  assume inv: "proxy_inv loads p hs ls"
  have "handler_ok (request_accepted p) h" if "handler_ok p h" for h
    using that by (rule handler_ok_mono) (simp_all add: request_accepted_def)
  moreover have "attempt_ok (request_accepted p) a" if "attempt_ok p a" for a
    using that by (rule attempt_ok_mono) (simp_all add: request_accepted_def)
  moreover have "lost_ok loads (request_accepted p) l" if "lost_ok loads p l" for l
    using that by (rule lost_ok_mono) (simp_all add: request_accepted_def)
  ultimately show ?thesis
    using inv by (auto simp: proxy_inv_def request_accepted_def spent_defs recorded_sends_def is_send_def
        simp del: lost_ok.simps)
qed

lemma proxy_next_inv:
  assumes "proxy_next loads sha (p, hs) mv = Some (p', hs')" and "proxy_inv loads p hs ls"
  shows "proxy_inv loads p' hs' (ls @ lost_in loads hs mv)"
proof (cases mv)
  case (Accept m path)
  with assms show ?thesis by (auto intro: proxy_inv_accept)
next
  case (Run i e)
  with assms(1) obtain ho where i: "i < length hs"
    and stp: "handler_next loads sha p (hs ! i) e = Some (p', ho)"
    and hs': "hs' = take i hs @ left_over ho @ drop (Suc i) hs"
    by (auto simp: left_over_def upd_conv_take_nth_drop split: if_splits option.splits)
  from i have "hs = take i hs @ (hs ! i) # drop (Suc i) hs" by (rule id_take_nth_drop)
  with assms(2) handler_next_inv [OF _ stp] hs' Run i show ?thesis by (metis lost_in.simps(2))
qed

lemma proxy_history_inv: "proxy_history loads sha p hs ls \<Longrightarrow> proxy_inv loads p hs ls"
  by (induction rule: proxy_history.induct) (auto intro: proxy_inv_start proxy_next_inv)

section \<open>Consequences for the receipts\<close>

text \<open>The numbers of the verified commits whose attempt is over, recorded or lost.\<close>

definition commit_numbers :: "proxy \<Rightarrow> lost list \<Rightarrow> nat list" where
  "commit_numbers p ls =
     map the (filter (\<lambda>c. c \<noteq> None) (map at_committed (p_attempts p) @ map (\<lambda>(h, _, _). at_committed h) ls))"

definition dropped_attempts :: "proxy \<Rightarrow> lost list \<Rightarrow> nat" where
  "dropped_attempts p ls =
     length (filter (\<lambda>a. at_treatment a = TDropped) (p_attempts p)) +
     length (filter (\<lambda>(h, body, trt). trt = TDropped) ls)"

lemma mset_commits: "sum_list (map commit_of cs) = mset (map the (filter (\<lambda>c. c \<noteq> None) cs))"
  by (induction cs) (auto simp: commit_of_def)

lemma finished_commits:
  "map at_committed (finished_heads p ls) =
   map at_committed (p_attempts p) @ map (\<lambda>(h, _, _). at_committed h) ls"
  by (auto simp: finished_heads_def attempt_head.truncate_def split: prod.splits)

lemma mset_commit_numbers: "mset (commit_numbers p ls) = spent_commits p ls"
proof -
  have "spent_commits p ls = sum_list (map commit_of (map at_committed (finished_heads p ls)))"
    by (simp add: spent_commits_def o_def)
  then show ?thesis unfolding finished_commits mset_commits by (simp only: commit_numbers_def)
qed

lemma drawn_subset: "A + B = drawn n \<Longrightarrow> A \<subseteq># mset [1..<n]"
  unfolding drawn_def by (metis mset_subset_eq_add_left)

lemma distinct_drawn:
  assumes "mset xs \<subseteq># mset [a..<b]"
  shows "distinct xs"
proof -
  from assms obtain ys where "mset [a..<b] = mset (xs @ ys)"
    by (metis ex_mset mset_append mset_subset_eq_exists_conv)
  then have "distinct (xs @ ys)" by (metis distinct_upt mset_eq_imp_distinct_iff)
  then show ?thesis by simp
qed

lemma commit_numbers_drawn:
  assumes "proxy_inv loads p hs ls"
  shows "mset (commit_numbers p ls) \<subseteq># mset [1..<Suc (committed_count p)]"
  using assms drawn_subset unfolding proxy_inv_def mset_commit_numbers by blast

lemma commit_numbers_distinct:
  assumes "proxy_inv loads p hs ls"
  shows "distinct (commit_numbers p ls)" and "set (commit_numbers p ls) \<subseteq> {1..committed_count p}"
proof -
  note sub = commit_numbers_drawn [OF assms]
  show "set (commit_numbers p ls) \<subseteq> {1..committed_count p}"
    using set_mset_mono [OF sub] by (auto simp del: upt_Suc)
  show "distinct (commit_numbers p ls)" by (rule distinct_drawn [OF sub])
qed

lemma count_numbers:
  "length (filter (\<lambda>a. at_committed a = Some n) (p_attempts p)) +
   length (filter (\<lambda>(h, _, _). at_committed h = Some n) ls) = count (mset (commit_numbers p ls)) n"
proof -
  have eq: "count (mset (map the (filter (\<lambda>c. c \<noteq> None) cs))) n = length (filter (\<lambda>c. c = Some n) cs)" for cs
    by (induction cs) auto
  show ?thesis
    unfolding commit_numbers_def eq by (simp add: filter_map o_def case_prod_unfold)
qed

text \<open>The attempts that were dropped are those that carry the configured commit number.\<close>

lemma dropped_count:
  assumes "proxy_inv loads p hs ls"
  shows "dropped_attempts p ls =
    (if inject_send p then count (mset (commit_numbers p ls)) (inject_after p) else 0)"
proof -
  have "filter (\<lambda>a. at_treatment a = TDropped) (p_attempts p) =
      filter (\<lambda>a. inject_send p \<and> at_committed a = Some (inject_after p)) (p_attempts p)"
    using assms by (intro filter_cong) (auto simp: proxy_inv_def attempt_ok_def)
  moreover have "filter (\<lambda>(h, body, trt). trt = TDropped) ls =
      filter (\<lambda>(h, body, trt). inject_send p \<and> at_committed h = Some (inject_after p)) ls"
    using assms by (intro filter_cong) (auto simp: proxy_inv_def)
  ultimately show ?thesis
    using count_numbers [of "inject_after p" p ls]
    by (cases "inject_send p") (simp_all add: dropped_attempts_def)
qed

lemma dropped_at_most_one:
  assumes "proxy_inv loads p hs ls"
  shows "dropped_attempts p ls \<le> 1"
  using dropped_count [OF assms] commit_numbers_distinct(1) [OF assms]
  by (simp add: distinct_count_atmost_1)

lemma dropped_length:
  assumes "proxy_inv loads p hs ls"
  shows "length (filter (\<lambda>a. at_treatment a = TDropped) (p_attempts p)) \<le> 1"
  using dropped_at_most_one [OF assms] by (simp add: dropped_attempts_def)

lemma quiescent_no_handlers:
  assumes "proxy_inv loads p hs ls" and "quiescent p"
  shows "hs = []"
  using assms by (simp add: proxy_inv_def quiescent_def)

lemma set_sorted_attempts [simp]: "set (sorted_attempts p) = set (p_attempts p)"
  by (simp add: sorted_attempts_def)

lemma set_sorted_requests [simp]: "set (sorted_requests p) = set (p_requests p)"
  by (simp add: sorted_requests_def)

lemma mset_sorted_attempts [simp]: "mset (sorted_attempts p) = mset (p_attempts p)"
  by (simp add: sorted_attempts_def)

lemma mset_sorted_requests [simp]: "mset (sorted_requests p) = mset (p_requests p)"
  by (simp add: sorted_requests_def)

lemma length_sorted_attempts [simp]: "length (sorted_attempts p) = length (p_attempts p)"
  by (simp add: sorted_attempts_def)

lemma delivered_iff: "treatment_delivered p \<longleftrightarrow> (\<exists>a \<in> set (p_attempts p). at_treatment a = TDropped)"
  by (auto simp: treatment_delivered_def count_treatment_def length_greater_0_conv filter_empty_conv
      simp del: length_greater_0_conv)

text \<open>With no request in flight every number drawn is a receipt, or a lost attempt.\<close>

lemma quiescent_numbers:
  assumes "proxy_inv loads p [] ls"
  shows "map rq_seq (sorted_requests p) = [1..<next_request_sequence p]"
    and "spent_attempts p ls = drawn (next_sequence p)"
    and "spent_bindings p ls = recorded_sends p"
    and "set (commit_numbers p ls) = {1..committed_count p}"
proof -
  from assms have m: "mset (map rq_seq (p_requests p)) = drawn (next_request_sequence p)"
    by (simp add: proxy_inv_def)
  have "spent_commits p ls = drawn (Suc (committed_count p))"
    using assms by (simp add: proxy_inv_def)
  then have c: "mset (commit_numbers p ls) = mset [1..<Suc (committed_count p)]"
    by (simp only: mset_commit_numbers drawn_def)
  show "map rq_seq (sorted_requests p) = [1..<next_request_sequence p]"
    unfolding sorted_requests_def by (rule sorted_tickets [OF m(1)])
  show "spent_attempts p ls = drawn (next_sequence p)" "spent_bindings p ls = recorded_sends p"
    using assms by (simp_all add: proxy_inv_def)
  show "set (commit_numbers p ls) = {1..committed_count p}"
    unfolding mset_eq_setD [OF c] by (auto simp del: upt_Suc)
qed

lemma spent_attempts_sorted:
  "mset (map at_seq (sorted_attempts p)) + mset (map (\<lambda>(h, _, _). at_seq h) ls) = spent_attempts p ls"
  by (simp add: spent_defs o_def case_prod_unfold mset_map)

lemma spent_bindings_sorted:
  "mset (map at_request (sorted_attempts p)) + mset (map (\<lambda>(h, _, _). at_request h) ls) = spent_bindings p ls"
  by (simp add: spent_defs o_def case_prod_unfold mset_map)

lemma attempts_strictly_sorted:
  assumes "proxy_inv loads p hs ls"
  shows "sorted_wrt (<) (map at_seq (sorted_attempts p))"
proof -
  have "spent_attempts p ls + sum_list (map open_attempts hs) = drawn (next_sequence p)"
    using assms by (simp add: proxy_inv_def)
  then have "mset (map at_seq (sorted_attempts p)) \<subseteq># mset [1..<next_sequence p]"
    unfolding spent_attempts_sorted [symmetric] add.assoc by (rule drawn_subset)
  then have "distinct (map at_seq (sorted_attempts p))" by (rule distinct_drawn)
  moreover have "sorted (map at_seq (sorted_attempts p))" by (simp add: sorted_attempts_def)
  ultimately show ?thesis by (simp add: strict_sorted_iff)
qed

lemma attempts_gapless:
  assumes "proxy_inv loads p [] []"
  shows "map at_seq (sorted_attempts p) = [1..<next_sequence p]"
  unfolding sorted_attempts_def
  by (rule sorted_tickets) (use quiescent_numbers(2) [OF assms] in \<open>simp add: spent_defs o_def mset_map\<close>)

section \<open>Reading the report\<close>

lemma dget_report [simp]:
  "dget (report p) ''injection'' = PStr ''disconnect_after_possible_send''"
  "dget (report p) ''injection_enabled'' = PBool (inject_send p)"
  "dget (report p) ''inject_after_committed'' = PInt (int (inject_after p))"
  "dget (report p) ''forwarded'' = PBool (0 < send_forwards p)"
  "dget (report p) ''upstream_statuses'' = PList (map (\<lambda>a. opt_status (at_status a)) (sorted_attempts p))"
  "dget (report p) ''forwarded_status'' =
     (let st = map (\<lambda>a. opt_status (at_status a)) (sorted_attempts p) in if st = [] then PNone else last st)"
  "dget (report p) ''aborted_response'' = PBool (treatment_delivered p)"
  "dget (report p) ''treatment_delivered'' = PBool (treatment_delivered p)"
  "dget (report p) ''send_forwards'' = PInt (int (send_forwards p))"
  "dget (report p) ''in_flight'' = PInt (in_flight p)"
  "dget (report p) ''treatment_summary'' = PDict (map (\<lambda>t. (treatment_str t,
     PInt (int (count_treatment (sorted_attempts p) t)))) all_treatments)"
  "dget (report p) ''attempts'' = PList (map (\<lambda>a. PDict (attempt_json a)) (sorted_attempts p))"
  "dget (report p) ''requests'' = PList (map (\<lambda>r. PDict (request_json r)) (sorted_requests p))"
  by (simp_all add: report_def Let_def)

lemma quiescent_delivered:
  assumes "proxy_inv loads p [] ls"
  shows "treatment_delivered p \<longleftrightarrow> inject_send p \<and> inject_after p \<le> committed_count p \<and>
    (\<forall>(h, body, trt) \<in> set ls. at_committed h \<noteq> Some (inject_after p))"
proof -
  have ok: "\<forall>a \<in> set (p_attempts p). attempt_ok p a" and after: "1 \<le> inject_after p"
    using assms by (simp_all add: proxy_inv_def)
  let ?here = "\<exists>a \<in> set (p_attempts p). at_committed a = Some (inject_after p)"
  let ?gone = "\<exists>(h, body, trt) \<in> set ls. at_committed h = Some (inject_after p)"
  have "inject_after p \<in> set (commit_numbers p ls) \<longleftrightarrow> ?here \<or> ?gone"
    by (force simp: commit_numbers_def image_iff)
  moreover have "inject_after p \<in> set (commit_numbers p ls) \<longleftrightarrow> inject_after p \<le> committed_count p"
    using quiescent_numbers(4) [OF assms] after by simp
  moreover have "\<not> (?here \<and> ?gone)"
  proof
    assume "?here \<and> ?gone"
    then have "0 < length (filter (\<lambda>a. at_committed a = Some (inject_after p)) (p_attempts p))"
      and "0 < length (filter (\<lambda>(h, _, _). at_committed h = Some (inject_after p)) ls)"
      by (auto simp: filter_empty_conv simp flip: length_greater_0_conv)
    moreover have "count (mset (commit_numbers p ls)) (inject_after p) \<le> 1"
      using commit_numbers_distinct(1) [OF assms] by (simp add: distinct_count_atmost_1)
    ultimately show False using count_numbers [of "inject_after p" p ls] by linarith
  qed
  moreover have "treatment_delivered p \<longleftrightarrow> inject_send p \<and> ?here"
    using ok by (auto simp: delivered_iff attempt_ok_def)
  ultimately show ?thesis by auto
qed

section \<open>Properties of the proxy\<close>

text \<open>
  Runs and their environment, for the witnesses. Two interleaved sends, both forwarded and
  committed upstream, of which the second commits first; one send alone; and one send whose
  body, an integer literal too long for the parser, makes the recording of its attempt raise
  after its acknowledgement was dropped.
\<close>

definition demo_loads :: json_loads where
  "demo_loads s =
     (if s = ''1'' then JsonValue (PDict [(''committed'', PBool True), (''duplicate_rejected'', PBool False),
        (''message'', PDict [(''id'', PInt 1), (''send_uid'', PStr ''u'')])])
      else if s = ''2'' then JsonValue (PDict [(''committed'', PBool True), (''duplicate_rejected'', PBool False),
        (''message'', PDict [(''id'', PInt 2), (''send_uid'', PStr ''v'')])])
      else if s = ''long'' then JsonEscapes
      else JsonValue (PDict [(''draft_id'', PInt 1)]))"

definition demo_proxy :: proxy where
  "demo_proxy = \<lparr>inject_send = True, inject_after = 1, send_path = send_path_default, in_flight = 0,
     next_sequence = 1, next_request_sequence = 1, committed_count = 0, send_forwards = 0,
     p_attempts = [], p_requests = []\<rparr>"

definition demo_send :: "string \<Rightarrow> move list" where
  "demo_send body =
     [Accept ''POST'' ''/api/messages/send'', Run 0 (EvTime 1), Run 0 EvGo, Run 0 (EvBody body),
      Run 0 (EvReply 2 (Reply 200 ''1'' None)), Run 0 EvGo, Run 0 (EvDownstream RelaySent),
      Run 0 (EvTime 3), Run 0 (EvTime 4), Run 0 EvGo]"

definition demo_serial :: "move list" where
  "demo_serial = demo_send ''b''"

definition demo_losing :: "move list" where
  "demo_losing = demo_send ''long''"

definition demo_overtaking :: "move list" where
  "demo_overtaking =
     [Accept ''POST'' ''/api/messages/send'', Run 0 (EvTime 1), Run 0 EvGo, Run 0 (EvBody ''b''),
      Accept ''POST'' ''/api/messages/send'', Run 1 (EvTime 1), Run 1 EvGo, Run 1 (EvBody ''b''),
      Run 1 (EvReply 2 (Reply 200 ''1'' None)), Run 1 EvGo, Run 1 (EvDownstream RelaySent),
      Run 1 (EvTime 3), Run 1 (EvTime 4), Run 1 EvGo,
      Run 0 (EvReply 5 (Reply 200 ''2'' None)), Run 0 EvGo, Run 0 (EvDownstream RelaySent),
      Run 0 (EvTime 6), Run 0 (EvTime 7), Run 0 EvGo]"

definition demo_final :: "move list \<Rightarrow> proxy" where
  "demo_final mvs = (case proxy_run demo_loads id (demo_proxy, []) mvs of Some (p, []) \<Rightarrow> p)"

definition demo_lost :: "move list \<Rightarrow> lost list" where
  "demo_lost mvs = lost_run demo_loads id (demo_proxy, []) mvs"

lemmas demo_run_defs = demo_final_def demo_lost_def proxy_run_def demo_proxy_def demo_loads_def
  demo_serial_def demo_losing_def demo_send_def demo_overtaking_def op_defs
  classified_def parse_json_object_def committed_identity_def dget_or_def is_verified_commit_def
  should_inject_def attempt_receipt_of_def request_receipt_of_def

lemma demo_is_send: "url_path ''/api/messages/send'' = send_path_default"
  by code_simp

lemma demo_history:
  assumes "proxy_run demo_loads id (demo_proxy, []) mvs = Some (demo_final mvs, [])"
  shows "proxy_history demo_loads id (demo_final mvs) [] (demo_lost mvs)"
proof -
  have "proxy_history demo_loads id demo_proxy [] []"
    by (rule proxy_history.start [of True 1 send_path_default]) (simp add: new_proxy_def demo_proxy_def)
  from proxy_run_history [OF this assms] show ?thesis by (simp add: demo_lost_def)
qed

lemma demo_serial_run:
  "proxy_run demo_loads id (demo_proxy, []) demo_serial = Some (demo_final demo_serial, [])"
  "map at_treatment (p_attempts (demo_final demo_serial)) = [TDropped]"
  "demo_lost demo_serial = []"
  by (simp_all add: demo_run_defs is_send_def demo_is_send)

lemma demo_losing_run:
  "proxy_run demo_loads id (demo_proxy, []) demo_losing = Some (demo_final demo_losing, [])"
  "p_attempts (demo_final demo_losing) = []"
  "map rq_treatment (p_requests (demo_final demo_losing)) = [TDropped]"
  "map (\<lambda>(h, body, trt). (at_committed h, body, trt)) (demo_lost demo_losing) = [(Some 1, ''long'', TDropped)]"
  by (simp_all add: demo_run_defs is_send_def demo_is_send)

lemma demo_overtaking_run:
  "proxy_run demo_loads id (demo_proxy, []) demo_overtaking = Some (demo_final demo_overtaking, [])"
  "map at_committed (p_attempts (demo_final demo_overtaking)) = [Some 1, Some 2]"
  "map at_treatment (p_attempts (demo_final demo_overtaking)) = [TDropped, TForwarded]"
  "demo_lost demo_overtaking = []"
  by (simp_all add: demo_run_defs is_send_def demo_is_send)

text \<open>C6: in every state of the proxy, whatever the interleaving of the handlers, the
  acknowledgement of an attempt was dropped if and only if injection is enabled and the attempt
  is the configured Nth verified commit; this holds of every finished attempt, of the lost
  ones too. A recorded attempt carries a commit number exactly when the upstream reply proved
  its commit (a 2xx status, a message id and a uid), the commit numbers are distinct and lie
  between 1 and the number of commits so far, so at most one attempt was dropped, and with no
  request in flight exactly one was if injection is enabled and there were N commits.\<close>

theorem drop_only_the_nth_commit:
  assumes "proxy_history loads sha p hs ls"
  shows "(\<forall>a \<in> set (p_attempts p).
       (at_treatment a = TDropped \<longleftrightarrow> inject_send p \<and> at_committed a = Some (inject_after p)) \<and>
       (at_committed a \<noteq> None \<longleftrightarrow> at_class a = ClsCommitted) \<and>
       (at_class a = ClsCommitted \<longrightarrow> (\<exists>n. at_status a = Some n \<and> 200 \<le> n \<and> n < 300) \<and>
          at_message_id a \<noteq> PNone \<and> at_message_uid a \<noteq> PNone)) \<and>
    (\<forall>(h, body, trt) \<in> set ls.
       trt = TDropped \<longleftrightarrow> inject_send p \<and> at_committed h = Some (inject_after p)) \<and>
    distinct (commit_numbers p ls) \<and> set (commit_numbers p ls) \<subseteq> {1..committed_count p} \<and>
    dropped_attempts p ls \<le> 1 \<and>
    (quiescent p \<longrightarrow> (dropped_attempts p ls = 1 \<longleftrightarrow> inject_send p \<and> inject_after p \<le> committed_count p))"
proof -
  from assms have inv: "proxy_inv loads p hs ls" by (rule proxy_history_inv)
  have ok: "\<forall>a \<in> set (p_attempts p). attempt_ok p a" and lok: "\<forall>l \<in> set ls. lost_ok loads p l"
    and after: "1 \<le> inject_after p"
    using inv by (simp_all add: proxy_inv_def)
  note numbers = commit_numbers_distinct [OF inv]
  have "dropped_attempts p ls = 1 \<longleftrightarrow> inject_send p \<and> inject_after p \<le> committed_count p" if "quiescent p"
  proof -
    have "set (commit_numbers p ls) = {1..committed_count p}"
      using quiescent_numbers(4) quiescent_no_handlers [OF inv that] inv by blast
    then show ?thesis
      using numbers(1) after by (simp add: dropped_count [OF inv] distinct_count_atmost_1)
  qed
  moreover have "\<forall>a \<in> set (p_attempts p).
       (at_treatment a = TDropped \<longleftrightarrow> inject_send p \<and> at_committed a = Some (inject_after p)) \<and>
       (at_committed a \<noteq> None \<longleftrightarrow> at_class a = ClsCommitted) \<and>
       (at_class a = ClsCommitted \<longrightarrow> (\<exists>n. at_status a = Some n \<and> 200 \<le> n \<and> n < 300) \<and>
          at_message_id a \<noteq> PNone \<and> at_message_uid a \<noteq> PNone)"
    using ok by (auto simp: attempt_ok_def)
  moreover have "\<forall>(h, body, trt) \<in> set ls.
       trt = TDropped \<longleftrightarrow> inject_send p \<and> at_committed h = Some (inject_after p)"
    using lok by fastforce
  ultimately show ?thesis using numbers dropped_at_most_one [OF inv] by blast
qed

theorem drop_only_the_nth_commit_witness:
  "proxy_history demo_loads id (demo_final demo_overtaking) [] (demo_lost demo_overtaking) \<and>
   map at_committed (p_attempts (demo_final demo_overtaking)) = [Some 1, Some 2] \<and>
   map at_treatment (p_attempts (demo_final demo_overtaking)) = [TDropped, TForwarded] \<and>
   dropped_attempts (demo_final demo_overtaking) (demo_lost demo_overtaking) \<le> 1"
proof -
  have h: "proxy_history demo_loads id (demo_final demo_overtaking) [] (demo_lost demo_overtaking)"
    by (rule demo_history [OF demo_overtaking_run(1)])
  with drop_only_the_nth_commit [OF h] demo_overtaking_run(2,3) show ?thesis by blast
qed

text \<open>C8: what the report holds once no request is in flight. It lists every request, numbered
  1, 2, ... without gap; the recorded attempts, in the order of their numbers, and the lost
  ones together are exactly the attempts begun, one for each recorded send; an attempt is lost
  only where its body makes the parser raise, so with no such body the attempts are gapless
  too. Every attempt is bound to a recorded request of the same method, path and treatment. The
  reported treatment was delivered if and only if injection is enabled, there were at least N
  verified commits, and the attempt of the Nth is not a lost one.\<close>

theorem quiescent_receipts_complete:
  assumes "proxy_history loads sha p hs ls" and "quiescent p"
  shows "\<exists>rs as.
    dget (report p) ''requests'' = PList (map (\<lambda>r. PDict (request_json r)) rs) \<and>
    dget (report p) ''attempts'' = PList (map (\<lambda>a. PDict (attempt_json a)) as) \<and>
    dget (report p) ''in_flight'' = PInt 0 \<and>
    map rq_seq rs = [1..<next_request_sequence p] \<and>
    sorted_wrt (<) (map at_seq as) \<and>
    mset (map at_seq as) + mset (map (\<lambda>(h, _, _). at_seq h) ls) = mset [1..<next_sequence p] \<and>
    mset (map at_request as) + mset (map (\<lambda>(h, _, _). at_request h) ls) =
      mset (map rq_seq (filter (is_send p) rs)) \<and>
    (\<forall>(h, body, trt) \<in> set ls. loads body = JsonEscapes) \<and>
    (ls = [] \<longrightarrow> map at_seq as = [1..<next_sequence p]) \<and>
    (\<forall>a \<in> set as. \<exists>r \<in> set rs. rq_seq r = at_request a \<and>
       rq_method r = at_method a \<and> rq_path r = at_path a \<and> rq_treatment r = at_treatment a) \<and>
    dget (report p) ''treatment_delivered'' =
      PBool (inject_send p \<and> inject_after p \<le> committed_count p \<and>
             (\<forall>(h, body, trt) \<in> set ls. at_committed h \<noteq> Some (inject_after p)))"
proof -
  from assms have inv: "proxy_inv loads p [] ls"
    using proxy_history_inv quiescent_no_handlers by blast
  note q = quiescent_numbers [OF inv]
  have ok: "\<forall>a \<in> set (p_attempts p). attempt_ok p a" and after: "1 \<le> inject_after p"
    and flight: "in_flight p = 0" and lok: "\<forall>l \<in> set ls. lost_ok loads p l"
    using inv by (simp_all add: proxy_inv_def)
  have sends: "mset (map rq_seq (filter (is_send p) (sorted_requests p))) = recorded_sends p"
    by (simp add: recorded_sends_def mset_map mset_filter)
  have gapless: "ls = [] \<longrightarrow> map at_seq (sorted_attempts p) = [1..<next_sequence p]"
    using inv attempts_gapless by blast
  have bound: "\<forall>a \<in> set (sorted_attempts p). \<exists>r \<in> set (sorted_requests p). rq_seq r = at_request a \<and>
       rq_method r = at_method a \<and> rq_path r = at_path a \<and> rq_treatment r = at_treatment a"
    using ok by (auto simp: attempt_ok_def)
  have raised: "\<forall>(h, body, trt) \<in> set ls. loads body = JsonEscapes"
    using lok by fastforce
  note reported = quiescent_delivered [OF inv]
  show ?thesis
    by (rule exI [of _ "sorted_requests p"], rule exI [of _ "sorted_attempts p"])
      (use q(1) attempts_strictly_sorted [OF inv] raised gapless bound flight reported in
        \<open>simp only: dget_report spent_attempts_sorted spent_bindings_sorted sends q(2,3) drawn_def
          simp_thms\<close>)
qed

theorem quiescent_receipts_complete_witness:
  "proxy_history demo_loads id (demo_final demo_serial) [] [] \<and>
   dget (report (demo_final demo_serial)) ''treatment_delivered'' = PBool True \<and>
   proxy_history demo_loads id (demo_final demo_losing) [] (demo_lost demo_losing) \<and>
   map rq_treatment (p_requests (demo_final demo_losing)) = [TDropped] \<and>
   dget (report (demo_final demo_losing)) ''attempts'' = PList [] \<and>
   dget (report (demo_final demo_losing)) ''treatment_delivered'' = PBool False"
proof -
  have h: "proxy_history demo_loads id (demo_final demo_serial) [] []"
    "proxy_history demo_loads id (demo_final demo_losing) [] (demo_lost demo_losing)"
    using demo_history [OF demo_serial_run(1)] demo_history [OF demo_losing_run(1)] demo_serial_run(3)
    by simp_all
  have quiet: "quiescent (demo_final demo_serial)" "quiescent (demo_final demo_losing)"
    using proxy_history_inv [OF h(1)] proxy_history_inv [OF h(2)] by (simp_all add: proxy_inv_def quiescent_def)
  have "inject_send (demo_final demo_serial)"
    "inject_after (demo_final demo_serial) \<le> committed_count (demo_final demo_serial)"
    by (simp_all add: demo_run_defs is_send_def demo_is_send)
  with quiescent_receipts_complete [OF h(1) quiet(1)]
  have "dget (report (demo_final demo_serial)) ''treatment_delivered'' = PBool True" by auto
  moreover have "\<exists>l \<in> set (demo_lost demo_losing). at_committed (fst l) = Some 1"
    using demo_losing_run(4) by (auto simp: map_eq_Cons_conv)
  then have "dget (report (demo_final demo_losing)) ''treatment_delivered'' = PBool False"
    using quiescent_receipts_complete [OF h(2) quiet(2)]
    by (auto simp: demo_run_defs is_send_def demo_is_send)
  ultimately show ?thesis
    using h demo_losing_run(2,3) by (simp add: sorted_attempts_def)
qed

end
