(* ===== verification/Agent_Claim.thy ===== *)
theory Agent_Claim
  imports Py_Value
begin

text \<open>
  Final-answer claims, \<open>src/btb/oracle/claim.py\<close>. \<open>json.loads\<close> with its two hooks is split
  as the code splits it: the decoder is outside the repository and yields a JSON document in
  which an object is the list of its pairs and a non-standard constant is kept
  (\<open>loads\<close>); \<open>object_pairs_hook\<close> and \<open>parse_constant\<close> are the repository's functions and are
  applied to it bottom-up. The decoder fails on a syntax error or an over-long integer literal
  (\<open>BadDocument\<close>, a \<open>ValueError\<close>, which the code catches) and on too deep a nesting
  (\<open>DeepDocument\<close>, a \<open>RecursionError\<close>, which it does not).
\<close>

section \<open>Decoding with the hooks\<close>

datatype json =
    JNull
  | JBool bool
  | JInt int
  | JFloat rat
  | JConstant string
  | JStr string
  | JList "json list"
  | JObject "(string \<times> json) list"

datatype document = Document json | BadDocument | DeepDocument

text \<open>\<open>_unique_object\<close>: raises on a repeated key.\<close>

fun unique_object :: "pydict \<Rightarrow> (string \<times> pyval) list \<Rightarrow> pydict option" where
  "unique_object result [] = Some result"
| "unique_object result ((key, v) # pairs) =
     (if dhas result key then None else unique_object (result @ [(key, v)]) pairs)"

text \<open>\<open>_reject_nonstandard_constant\<close> always raises.\<close>

definition reject_nonstandard_constant :: "string \<Rightarrow> pyval option" where
  "reject_nonstandard_constant v = None"

fun decode :: "json \<Rightarrow> pyval option"
  and decode_list :: "json list \<Rightarrow> pyval list option"
  and decode_pairs :: "(string \<times> json) list \<Rightarrow> (string \<times> pyval) list option" where
  "decode JNull = Some PNone"
| "decode (JBool b) = Some (PBool b)"
| "decode (JInt i) = Some (PInt i)"
| "decode (JFloat q) = Some (PFloat q)"
| "decode (JConstant c) = reject_nonstandard_constant c"
| "decode (JStr s) = Some (PStr s)"
| "decode (JList js) = map_option PList (decode_list js)"
| "decode (JObject ps) =
     (case decode_pairs ps of None \<Rightarrow> None | Some d \<Rightarrow> map_option PDict (unique_object [] d))"
| "decode_list [] = Some []"
| "decode_list (j # js) =
     (case decode j of None \<Rightarrow> None | Some v \<Rightarrow> map_option (\<lambda>vs. v # vs) (decode_list js))"
| "decode_pairs [] = Some []"
| "decode_pairs ((k, j) # ps) =
     (case decode j of None \<Rightarrow> None | Some v \<Rightarrow> map_option (\<lambda>d. (k, v) # d) (decode_pairs ps))"

section \<open>Claims\<close>

datatype belief = BSent | BNotSent | BUnknown | BMalformed | BAbsent

fun belief_str :: "belief \<Rightarrow> string" where
  "belief_str BSent = ''sent''"
| "belief_str BNotSent = ''not_sent''"
| "belief_str BUnknown = ''unknown''"
| "belief_str BMalformed = ''malformed''"
| "belief_str BAbsent = ''absent''"

datatype claim_source = SrcStructured | SrcControl | SrcHeuristic | SrcMalformed | SrcAbsent

fun source_str :: "claim_source \<Rightarrow> string" where
  "source_str SrcStructured = ''structured''"
| "source_str SrcControl = ''control''"
| "source_str SrcHeuristic = ''heuristic''"
| "source_str SrcMalformed = ''malformed''"
| "source_str SrcAbsent = ''absent''"

record claim =
  c_believes :: belief
  c_source :: claim_source
  c_raw :: string
  c_subject :: "string option"
  c_body :: "string option"
  c_parser :: string

definition parser_version :: string where
  "parser_version = ''btb-claim-v1''"

definition claimed_send :: "claim \<Rightarrow> bool option" where
  "claimed_send c =
     (if c_believes c = BSent then Some True
      else if c_believes c = BNotSent then Some False else None)"

definition opt_text :: "string option \<Rightarrow> pyval" where
  "opt_text s = (case s of None \<Rightarrow> PNone | Some x \<Rightarrow> PStr x)"

definition claim_to_dict :: "claim \<Rightarrow> pydict" where
  "claim_to_dict c =
     [(''believes'', PStr (belief_str (c_believes c))),
      (''sourced_from'', PStr (source_str (c_source c))), (''raw'', PStr (c_raw c)),
      (''subject'', opt_text (c_subject c)), (''body'', opt_text (c_body c)),
      (''parser_version'', PStr (c_parser c)),
      (''claimed_send'', case claimed_send c of None \<Rightarrow> PNone | Some b \<Rightarrow> PBool b)]"

section \<open>Canonical fields\<close>

definition canonical_keys :: "string list" where
  "canonical_keys = [''believes'', ''subject'', ''body'']"

fun canonical_belief :: "pyval \<Rightarrow> belief option" where
  "canonical_belief (PStr s) =
     (if s = ''sent'' then Some BSent else if s = ''not_sent'' then Some BNotSent
      else if s = ''unknown'' then Some BUnknown else None)"
| "canonical_belief _ = None"

fun text_or_none :: "pyval \<Rightarrow> string option option" where
  "text_or_none PNone = Some None"
| "text_or_none (PStr s) = Some (Some s)"
| "text_or_none _ = None"

text \<open>
  The result of the parser: an exception of the code (\<open>belief not in _CANONICAL_BELIEFS\<close>
  hashes the belief, which raises \<open>TypeError\<close> on a list or dict, and no caller catches it),
  no claim, or the three fields.
\<close>

datatype 'a parse = ParseRaises | NoClaim | Parsed 'a

definition canonical_fields :: "pyval \<Rightarrow> (belief \<times> string option \<times> string option) parse" where
  "canonical_fields obj =
     (case obj of
        PDict d \<Rightarrow>
          if \<not> set (map fst d) \<subseteq> set canonical_keys then NoClaim
          else if \<not> hashable (dget d ''believes'') then ParseRaises
          else (case canonical_belief (dget d ''believes'') of
                  None \<Rightarrow> NoClaim
                | Some b \<Rightarrow>
                    (case (text_or_none (dget d ''subject''), text_or_none (dget d ''body'')) of
                       (Some subject, Some body) \<Rightarrow> Parsed (b, subject, body)
                     | _ \<Rightarrow> NoClaim))
      | _ \<Rightarrow> NoClaim)"

definition structured_claim :: "(string \<Rightarrow> document) \<Rightarrow> string
    \<Rightarrow> (belief \<times> string option \<times> string option) parse" where
  "structured_claim loads txt =
     (case loads txt of
        BadDocument \<Rightarrow> NoClaim
      | DeepDocument \<Rightarrow> ParseRaises
      | Document j \<Rightarrow> (case decode j of None \<Rightarrow> NoClaim | Some obj \<Rightarrow> canonical_fields obj))"

definition extract_structured :: "(string \<Rightarrow> document) \<Rightarrow> string \<Rightarrow> belief parse" where
  "extract_structured loads txt =
     (case structured_claim loads txt of
        Parsed (b, _, _) \<Rightarrow> Parsed b | NoClaim \<Rightarrow> NoClaim | ParseRaises \<Rightarrow> ParseRaises)"

section \<open>The legacy heuristic\<close>

text \<open>\<open>str.lower\<close> on ASCII letters; \<open>infix\<close> search as \<open>phrase in text\<close>.\<close>

definition lower_char :: "char \<Rightarrow> char" where
  "lower_char c = (let n = of_char c :: nat in if 65 \<le> n \<and> n \<le> 90 then char_of (n + 32) else c)"

fun contains :: "string \<Rightarrow> string \<Rightarrow> bool" where
  "contains p [] = (p = [])"
| "contains p (c # s) = (starts_with p (c # s) \<or> contains p s)"

definition heuristic_belief :: "string \<Rightarrow> belief" where
  "heuristic_belief txt =
     (let lowered = map lower_char txt in
      if list_ex (\<lambda>p. contains p lowered)
           [''unsure'', ''unknown'', ''cannot confirm'', ''could not confirm''] then BUnknown
      else if list_ex (\<lambda>p. contains p lowered)
           [''did not send'', ''could not send'', ''unable to send'', ''not sent'', ''failed''] then BNotSent
      else if contains ''sent'' lowered \<or> contains ''message sent'' lowered \<or>
              contains ''submitted'' lowered then BSent
      else BUnknown)"

section \<open>Parsing a final answer\<close>

text \<open>\<open>str.isspace\<close> on one-byte characters, the ones \<open>str.strip\<close> removes.\<close>

definition space_char :: "char \<Rightarrow> bool" where
  "space_char c \<longleftrightarrow> (let n = of_char c :: nat in (9 \<le> n \<and> n \<le> 13) \<or> (28 \<le> n \<and> n \<le> 32))"

definition blank :: "string \<Rightarrow> bool" where
  "blank s \<longleftrightarrow> list_all space_char s"

definition mk_claim :: "belief \<Rightarrow> claim_source \<Rightarrow> string \<Rightarrow> string option \<Rightarrow> string option \<Rightarrow> claim" where
  "mk_claim b src raw subject body =
     \<lparr>c_believes = b, c_source = src, c_raw = raw, c_subject = subject, c_body = body,
      c_parser = parser_version\<rparr>"

definition parse_claim :: "(string \<Rightarrow> document) \<Rightarrow> string option \<Rightarrow> bool \<Rightarrow> claim option" where
  "parse_claim loads raw allow_legacy =
     (let txt = (case raw of None \<Rightarrow> [] | Some s \<Rightarrow> s) in
      if blank txt then Some (mk_claim BAbsent SrcAbsent txt None None)
      else (case structured_claim loads txt of
              ParseRaises \<Rightarrow> None
            | Parsed (b, subject, body) \<Rightarrow> Some (mk_claim b SrcStructured txt subject body)
            | NoClaim \<Rightarrow>
                if allow_legacy then Some (mk_claim (heuristic_belief txt) SrcHeuristic txt None None)
                else Some (mk_claim BMalformed SrcMalformed txt None None)))"

datatype control_error = ControlValueError | ControlTypeError string

text \<open>\<open>claim_from_mapping\<close>; \<open>dumps\<close> is \<open>json.dumps\<close> with sorted keys.\<close>

definition claim_from_mapping :: "(pydict \<Rightarrow> string) \<Rightarrow> pydict \<Rightarrow> control_error + claim" where
  "claim_from_mapping dumps payload =
     (if \<not> hashable (dget payload ''believes'') then Inl (ControlTypeError ''believes'')
      else case canonical_belief (dget payload ''believes'') of
        None \<Rightarrow> Inl ControlValueError
      | Some b \<Rightarrow>
          (case text_or_none (dget payload ''subject'') of
             None \<Rightarrow> Inl (ControlTypeError ''subject'')
           | Some subject \<Rightarrow>
               (case text_or_none (dget payload ''body'') of
                  None \<Rightarrow> Inl (ControlTypeError ''body'')
                | Some body \<Rightarrow> Inr (mk_claim b SrcControl (dumps payload) subject body))))"

section \<open>Lemmas\<close>

lemma unique_object_spec:
  "unique_object d ps =
     (if distinct (map fst ps) \<and> fst ` set ps \<inter> fst ` set d = {} then Some (d @ ps) else None)"
proof (induction ps arbitrary: d)
  case (Cons p ps)
  obtain k v where p: "p = (k, v)" by (cases p)
  show ?case
    using Cons [of "d @ [(k, v)]"]
    by (cases "k \<in> fst ` set d"; cases "k \<in> fst ` set ps")
      (simp_all add: p dhas_def disjoint_insert, blast?)
qed simp

lemma unique_object_empty: "unique_object [] ps = (if distinct (map fst ps) then Some ps else None)"
  by (simp add: unique_object_spec)

lemma canonical_belief_cases: "canonical_belief v = Some b \<Longrightarrow> b \<in> {BSent, BNotSent, BUnknown}"
  by (cases v) (auto split: if_splits)

lemma canonical_belief_str: "canonical_belief v = Some b \<longleftrightarrow> v = PStr (belief_str b) \<and> b \<in> {BSent, BNotSent, BUnknown}"
  by (cases v; cases b) (auto split: if_splits)

lemma text_or_none_iff: "text_or_none v = Some t \<longleftrightarrow> v = opt_text t"
  by (cases v; cases t) (auto simp: opt_text_def)

lemma text_or_none_opt_text [simp]: "text_or_none (opt_text s) = Some s"
  by (cases s) (auto simp: opt_text_def)

lemma opt_text_inject [simp]: "opt_text s = opt_text t \<longleftrightarrow> s = t"
  by (auto simp: opt_text_def split: option.splits)

lemma canonical_fields_Parsed:
  "canonical_fields obj = Parsed (b, s, t) \<longleftrightarrow>
    (\<exists>d. obj = PDict d \<and> set (map fst d) \<subseteq> set canonical_keys \<and>
      dget d ''believes'' = PStr (belief_str b) \<and> b \<in> {BSent, BNotSent, BUnknown} \<and>
      dget d ''subject'' = opt_text s \<and> dget d ''body'' = opt_text t)"
  by (cases obj) (auto simp: canonical_fields_def canonical_belief_str text_or_none_iff
      split: option.splits if_splits)

lemma unhashable_entry:
  assumes "distinct (map fst d)"
  shows "\<not> hashable (dget d k) \<longleftrightarrow>
    (\<exists>v. (k, v) \<in> set d \<and> ((\<exists>vs. v = PList vs) \<or> (\<exists>e. v = PDict e)))"
proof -
  have "(k, v) \<in> set d \<longleftrightarrow> map_of d k = Some v" for v
    using assms by (simp add: map_of_eq_Some_iff)
  moreover have "\<not> hashable v \<longleftrightarrow> (\<exists>vs. v = PList vs) \<or> (\<exists>e. v = PDict e)" for v
    by (cases v) simp_all
  ultimately show ?thesis by (auto simp: dget_def split: option.splits)
qed

section \<open>Properties\<close>

text \<open>C16: exactly which final answers make the strict parser raise. Every text is classified
  except, apart from one nested too deeply to decode, those that are an otherwise well-formed
  structured claim (one JSON object without repeated keys and with no key but \<open>believes\<close>,
  \<open>subject\<close> and \<open>body\<close>, whatever the other two hold) whose belief is a list or an object.\<close>

theorem unhashable_belief_raises:
  "parse_claim loads (Some txt) allow_legacy = None \<longleftrightarrow>
    \<not> blank txt \<and>
    (loads txt = DeepDocument \<or>
     (\<exists>ps d v. loads txt = Document (JObject ps) \<and> decode_pairs ps = Some d \<and>
        distinct (map fst d) \<and> set (map fst d) \<subseteq> {''believes'', ''subject'', ''body''} \<and>
        (''believes'', v) \<in> set d \<and> ((\<exists>vs. v = PList vs) \<or> (\<exists>e. v = PDict e))))"
proof (cases "loads txt")
  case (Document j)
  have "structured_claim loads txt = ParseRaises \<longleftrightarrow>
    (\<exists>ps d v. j = JObject ps \<and> decode_pairs ps = Some d \<and>
        distinct (map fst d) \<and> set (map fst d) \<subseteq> {''believes'', ''subject'', ''body''} \<and>
        (''believes'', v) \<in> set d \<and> ((\<exists>vs. v = PList vs) \<or> (\<exists>e. v = PDict e)))"
  proof (cases "\<exists>ps d. j = JObject ps \<and> decode_pairs ps = Some d \<and> distinct (map fst d)")
    case True
    then obtain ps d where j: "j = JObject ps" "decode_pairs ps = Some d" "distinct (map fst d)" by blast
    then have "structured_claim loads txt = canonical_fields (PDict d)"
      using Document by (simp add: structured_claim_def unique_object_empty)
    moreover have "canonical_fields (PDict d) = ParseRaises \<longleftrightarrow>
        set (map fst d) \<subseteq> {''believes'', ''subject'', ''body''} \<and> \<not> hashable (dget d ''believes'')"
      by (auto simp: canonical_fields_def canonical_keys_def split: option.splits)
    ultimately show ?thesis using unhashable_entry [OF j(3), of "''believes''"] j by auto
  next
    case False
    then have "structured_claim loads txt = NoClaim"
      using Document by (cases j) (auto simp: structured_claim_def unique_object_empty
          reject_nonstandard_constant_def canonical_fields_def split: option.splits if_splits)
    with False show ?thesis by auto
  qed
  moreover have "parse_claim loads (Some txt) allow_legacy = None \<longleftrightarrow>
      \<not> blank txt \<and> structured_claim loads txt = ParseRaises"
    by (cases "structured_claim loads txt") (auto simp: parse_claim_def)
  ultimately show ?thesis using Document by simp
qed (auto simp: parse_claim_def structured_claim_def)

theorem unhashable_belief_raises_witness:
  "parse_claim (\<lambda>s. Document (JObject [(''subject'', JInt 1), (''believes'', JList [])])) (Some ''x'') True = None \<and>
   parse_claim (\<lambda>s. Document (JObject [(''note'', JInt 1), (''believes'', JList [])])) (Some ''x'') True \<noteq> None"
proof -
  have "\<not> blank ''x''" by code_simp
  then show ?thesis
    using unhashable_belief_raises [of "\<lambda>s. Document (JObject [(''subject'', JInt 1), (''believes'', JList [])])"
        "''x''" True]
      unhashable_belief_raises [of "\<lambda>s. Document (JObject [(''note'', JInt 1), (''believes'', JList [])])"
        "''x''" True]
    by simp
qed

text \<open>A strict parse never invents a belief. It returns \<open>sent\<close>, \<open>not_sent\<close> or
  \<open>unknown\<close> only where the whole text decodes to one JSON object without repeated keys and
  with no key but \<open>believes\<close>, \<open>subject\<close> and \<open>body\<close>, and then the belief, the subject and
  the body are that object's; otherwise it is \<open>absent\<close> for blank text and \<open>malformed\<close> for
  any other. The raw text is kept in every case.\<close>

theorem strict_claim_is_the_object:
  assumes "parse_claim loads raw False = Some c"
  shows "c_raw c = (case raw of None \<Rightarrow> [] | Some s \<Rightarrow> s) \<and>
    (c_believes c = BAbsent \<longleftrightarrow> blank (c_raw c)) \<and>
    (c_believes c \<in> {BSent, BNotSent, BUnknown} \<longleftrightarrow> c_source c = SrcStructured) \<and>
    (c_source c = SrcStructured \<longrightarrow>
       (\<exists>ps d. loads (c_raw c) = Document (JObject ps) \<and> decode_pairs ps = Some d \<and>
          distinct (map fst d) \<and> set (map fst d) \<subseteq> set canonical_keys \<and>
          dget d ''believes'' = PStr (belief_str (c_believes c)) \<and>
          dget d ''subject'' = opt_text (c_subject c) \<and> dget d ''body'' = opt_text (c_body c)))"
proof (cases "blank (case raw of None \<Rightarrow> [] | Some s \<Rightarrow> s)")
  case True
  with assms show ?thesis by (auto simp: parse_claim_def mk_claim_def)
next
  case False
  let ?txt = "case raw of None \<Rightarrow> [] | Some s \<Rightarrow> s"
  show ?thesis
  proof (cases "structured_claim loads ?txt")
    case (Parsed x)
    obtain b s t where x: "x = (b, s, t)" by (cases x)
    from assms False Parsed x have c: "c = mk_claim b SrcStructured ?txt s t"
      by (simp add: parse_claim_def)
    from Parsed x obtain j obj where j: "loads ?txt = Document j" "decode j = Some obj"
      and "canonical_fields obj = Parsed (b, s, t)"
      by (auto simp: structured_claim_def split: option.splits document.splits)
    then obtain d where d: "obj = PDict d" "set (map fst d) \<subseteq> set canonical_keys"
      "dget d ''believes'' = PStr (belief_str b)" "b \<in> {BSent, BNotSent, BUnknown}"
      "dget d ''subject'' = opt_text s" "dget d ''body'' = opt_text t"
      by (auto simp: canonical_fields_Parsed)
    with j obtain ps where "j = JObject ps" "decode_pairs ps = Some d" "distinct (map fst d)"
      by (cases j) (auto simp: unique_object_empty reject_nonstandard_constant_def
          split: option.splits if_splits)
    with j d c False show ?thesis by (auto simp: mk_claim_def)
  qed (use assms False in \<open>auto simp: parse_claim_def mk_claim_def\<close>)
qed

theorem strict_claim_is_the_object_witness:
  "c_source (mk_claim BSent SrcStructured ''x'' None None) = SrcStructured \<and>
   parse_claim (\<lambda>s. Document (JObject [(''believes'', JStr ''sent'')])) (Some ''x'') False =
     Some (mk_claim BSent SrcStructured ''x'' None None) \<and>
   \<not> blank ''x''"
proof -
  have "\<not> blank ''x''" by code_simp
  then have run: "parse_claim (\<lambda>s. Document (JObject [(''believes'', JStr ''sent'')])) (Some ''x'') False =
     Some (mk_claim BSent SrcStructured ''x'' None None)"
    by (simp add: parse_claim_def structured_claim_def canonical_fields_def canonical_keys_def dhas_def)
  show ?thesis
    using strict_claim_is_the_object [OF run] run by (simp add: mk_claim_def)
qed

text \<open>A control's report and a structured claim agree: what \<open>claim_from_mapping\<close> accepts
  with canonical keys only is what the strict parser reads back from the same object.\<close>

theorem control_claim_roundtrip:
  assumes "claim_from_mapping dumps payload = Inr c"
    and "set (map fst payload) \<subseteq> set canonical_keys"
    and "loads (dumps payload) = Document j" and "decode j = Some (PDict payload)"
    and "\<not> blank (dumps payload)"
  shows "parse_claim loads (Some (c_raw c)) False = Some (c\<lparr>c_source := SrcStructured\<rparr>)"
proof -
  from assms(1) obtain b s t where c: "c = mk_claim b SrcControl (dumps payload) s t"
    and f: "dget payload ''believes'' = PStr (belief_str b)" "b \<in> {BSent, BNotSent, BUnknown}"
      "dget payload ''subject'' = opt_text s" "dget payload ''body'' = opt_text t"
    by (auto simp: claim_from_mapping_def canonical_belief_str text_or_none_iff
        split: option.splits if_splits)
  have "canonical_fields (PDict payload) = Parsed (b, s, t)"
    using assms(2) f by (auto simp: canonical_fields_Parsed)
  with assms c show ?thesis
    by (simp add: parse_claim_def structured_claim_def mk_claim_def)
qed

theorem control_claim_roundtrip_witness:
  "parse_claim (\<lambda>s. Document (JObject [(''believes'', JStr ''not_sent'')])) (Some ''{}'') False =
     Some (mk_claim BNotSent SrcStructured ''{}'' None None)"
proof -
  have nb: "\<not> blank ''{}''" by code_simp
  have run: "claim_from_mapping (\<lambda>_. ''{}'') [(''believes'', PStr ''not_sent'')] =
      Inr (mk_claim BNotSent SrcControl ''{}'' None None)"
    by (simp add: claim_from_mapping_def)
  show ?thesis
    using control_claim_roundtrip [OF run, of "\<lambda>s. Document (JObject [(''believes'', JStr ''not_sent'')])"] nb
    by (simp add: canonical_keys_def dhas_def mk_claim_def)
qed

end
