(* ===== verification/Receipt_Base.thy ===== *)
theory Receipt_Base
  imports Oracle_Score
begin

text \<open>
  The ground of the receipt validator, \<open>src/btb/harness/validate_manifest.py\<close>: issues and
  their order, the coercions and table reads it makes of untrusted JSON, and canonical JSON.
  A check returns the issues it appends; where its code can raise on some JSON value (a list
  or dict used as a dict key or set element) the result is an option and \<open>None\<close> is the
  exception. SHA-256 and the decimal rendering of floats are arguments.
\<close>

section \<open>Issues\<close>

datatype issue = Issue (issue_path: string) (issue_message: string)

text \<open>\<open>@dataclass(order=True)\<close>: issues compare as the pair of path and message.\<close>

instantiation issue :: linorder
begin

definition less_eq_issue :: "issue \<Rightarrow> issue \<Rightarrow> bool" where
  "less_eq_issue i j \<longleftrightarrow> (issue_path i, issue_message i) \<le> (issue_path j, issue_message j)"

definition less_issue :: "issue \<Rightarrow> issue \<Rightarrow> bool" where
  "less_issue i j \<longleftrightarrow> (issue_path i, issue_message i) < (issue_path j, issue_message j)"

instance
proof
  fix i j k :: issue
  show "i < j \<longleftrightarrow> i \<le> j \<and> \<not> j \<le> i" unfolding less_eq_issue_def less_issue_def by auto
  show "i \<le> i" unfolding less_eq_issue_def by simp
  show "i \<le> j \<Longrightarrow> j \<le> k \<Longrightarrow> i \<le> k" unfolding less_eq_issue_def by (rule order_trans)
  show "i \<le> j \<Longrightarrow> j \<le> i \<Longrightarrow> i = j"
    unfolding less_eq_issue_def by (cases i; cases j) (auto dest: antisym)
  show "i \<le> j \<or> j \<le> i" unfolding less_eq_issue_def by (rule linear)
qed

end

definition issue_if :: "bool \<Rightarrow> string \<Rightarrow> string \<Rightarrow> issue list" where
  "issue_if b path message = (if b then [Issue path message] else [])"

lemma issue_if_Nil [simp, clean_iff]: "issue_if b p m = [] \<longleftrightarrow> \<not> b"
  by (simp add: issue_if_def)

lemma issue_if_False [simp]: "issue_if False p m = []"
  by (simp add: issue_if_def)

text \<open>\<open>sorted(set(issues))\<close>.\<close>

definition stable_issues :: "issue list \<Rightarrow> issue list" where
  "stable_issues issues = sort (remdups issues)"

section \<open>Coercions and table reads\<close>

text \<open>\<open>x != y\<close> on JSON values.\<close>

abbreviation py_ne :: "pyval \<Rightarrow> pyval \<Rightarrow> bool" where
  "py_ne v w \<equiv> \<not> py_eq v w"

definition as_rows :: "pyval \<Rightarrow> string \<Rightarrow> pydict list" where
  "as_rows snapshot table =
     (case dget (as_dict snapshot) table of PList xs \<Rightarrow> dicts_of xs | _ \<Rightarrow> [])"

text \<open>\<open>row.get("id")\<close> as an element of a set or a key of a dict.\<close>

definition id_key :: "pydict \<Rightarrow> pyval option" where
  "id_key row = (if hashable (dget row ''id'') then Some (dget row ''id'') else None)"

definition v_new_rows :: "pyval \<Rightarrow> pyval \<Rightarrow> string \<Rightarrow> pydict list option" where
  "v_new_rows before after table = do {
     before_ids \<leftarrow> mapM id_key (as_rows before table);
     after_ids \<leftarrow> mapM id_key (as_rows after table);
     Some (map snd (filter (\<lambda>(k, _). \<not> py_in k before_ids) (zip after_ids (as_rows after table))))
   }"

definition rows_by_id :: "pyval \<Rightarrow> string \<Rightarrow> keyed_rows option" where
  "rows_by_id snapshot table =
     foldM (\<lambda>m row. map_option (\<lambda>k. put_row m k row) (id_key row)) [] (as_rows snapshot table)"

definition v_existing_rows_changed :: "pyval \<Rightarrow> pyval \<Rightarrow> string \<Rightarrow> bool option" where
  "v_existing_rows_changed before after table = do {
     before_rows \<leftarrow> rows_by_id before table;
     after_rows \<leftarrow> rows_by_id after table;
     Some (list_ex (\<lambda>(k, row). row_differs (find_row after_rows k) row) before_rows)
   }"

definition v_cardinality :: "nat \<Rightarrow> string" where
  "v_cardinality n = (if n = 0 then ''zero'' else if n = 1 then ''exactly_one'' else ''multiple'')"

definition row_contains :: "pydict option \<Rightarrow> pydict \<Rightarrow> bool" where
  "row_contains actual expected =
     (case actual of None \<Rightarrow> False
      | Some a \<Rightarrow> list_all (\<lambda>(key, v). py_eq (dget a key) v) expected)"

definition task_definition :: "pydict \<Rightarrow> pydict" where
  "task_definition receipt = as_dict (dget (as_dict (dget receipt ''task'')) ''definition'')"

definition succeeded :: "pydict \<Rightarrow> bool" where
  "succeeded receipt \<longleftrightarrow> dget receipt ''status'' = PStr ''success''"

text \<open>\<open>v in {s, t, ...}\<close> for a set of strings, which hashes \<open>v\<close>.\<close>

definition in_strings :: "pyval \<Rightarrow> string list \<Rightarrow> bool option" where
  "in_strings v ss = (if hashable v then Some (py_in v (map PStr ss)) else None)"

section \<open>Canonical JSON\<close>

text \<open>
  \<open>json.dumps(value, ensure_ascii=False, allow_nan=False, sort_keys=True,
  separators=(",", ":"))\<close>, as UTF-8.
\<close>

definition json_char :: "char \<Rightarrow> string" where
  "json_char c =
     (let n = of_char c :: nat; bs = char_of (92::nat) in
      if n = 34 \<or> n = 92 then [bs, c]
      else if n = 8 then [bs, CHR ''b'']
      else if n = 9 then [bs, CHR ''t'']
      else if n = 10 then [bs, CHR ''n'']
      else if n = 12 then [bs, CHR ''f'']
      else if n = 13 then [bs, CHR ''r'']
      else if n < 32 then [bs, CHR ''u'', CHR ''0'', CHR ''0'', hex_digit (n div 16), hex_digit (n mod 16)]
      else [c])"

text \<open>A character that JSON renders as it is, told by its bits; this makes evaluation fast.\<close>

fun plain_char :: "char \<Rightarrow> bool" where
  "plain_char (Char b0 b1 b2 b3 b4 b5 b6 b7) \<longleftrightarrow>
     (b5 \<or> b6 \<or> b7) \<and> (b0 \<or> \<not> b1 \<or> b2 \<or> b3 \<or> b4 \<or> b6 \<or> b7) \<and> (b0 \<or> b1 \<or> \<not> b2 \<or> \<not> b3 \<or> \<not> b4 \<or> b5 \<or> b7)"

lemma plain_json_char: "plain_char c \<Longrightarrow> json_char c = [c]"
proof (cases c)
  case (Char b0 b1 b2 b3 b4 b5 b6 b7)
  assume "plain_char c"
  then have "32 \<le> (of_char c :: nat)" "(of_char c :: nat) \<noteq> 34" "(of_char c :: nat) \<noteq> 92"
    unfolding Char plain_char.simps of_char_Char
    by (cases b0; cases b1; cases b2; cases b3; cases b4; cases b5; cases b6; cases b7; simp)+
  then show ?thesis by (simp add: json_char_def Let_def)
qed

lemma json_char_code [code]:
  "json_char c =
     (if plain_char c then [c]
      else let n = of_char c :: nat; bs = char_of (92::nat) in
      if n = 34 \<or> n = 92 then [bs, c]
      else if n = 8 then [bs, CHR ''b'']
      else if n = 9 then [bs, CHR ''t'']
      else if n = 10 then [bs, CHR ''n'']
      else if n = 12 then [bs, CHR ''f'']
      else if n = 13 then [bs, CHR ''r'']
      else if n < 32 then [bs, CHR ''u'', CHR ''0'', CHR ''0'', hex_digit (n div 16), hex_digit (n mod 16)]
      else [c])"
  using plain_json_char [of c] by (simp add: json_char_def)

definition json_string :: "string \<Rightarrow> string" where
  "json_string s = (let q = char_of (34::nat) in q # concat (map json_char s) @ [q])"

text \<open>The inside of \<open>json.dumps(text)\<close> in its ASCII form: UTF-8 sequences become UTF-16 escapes.\<close>

definition u_escape :: "nat \<Rightarrow> string" where
  "u_escape n = [char_of (92::nat), CHR ''u'', hex_digit (n div 4096), hex_digit (n div 256 mod 16),
     hex_digit (n div 16 mod 16), hex_digit (n mod 16)]"

definition code_point_escape :: "nat \<Rightarrow> string" where
  "code_point_escape n =
     (if n < 65536 then u_escape n
      else u_escape (55296 + (n - 65536) div 1024) @ u_escape (56320 + (n - 65536) mod 1024))"

fun ascii_json :: "string \<Rightarrow> string" where
  "ascii_json [] = []"
| "ascii_json (a # s) =
     (let x = (of_char a :: nat); low = (\<lambda>c. (of_char c :: nat) mod 64) in
      if x = 127 then u_escape 127 @ ascii_json s
      else if x < 128 then json_char a @ ascii_json s
      else if x < 224 then (case s of
          b # r \<Rightarrow> code_point_escape ((x mod 32) * 64 + low b) @ ascii_json r | _ \<Rightarrow> [])
      else if x < 240 then (case s of
          b # c # r \<Rightarrow> code_point_escape ((x mod 16) * 4096 + low b * 64 + low c) @ ascii_json r | _ \<Rightarrow> [])
      else (case s of
          b # c # d # r \<Rightarrow>
            code_point_escape ((x mod 8) * 262144 + low b * 4096 + low c * 64 + low d) @ ascii_json r
        | _ \<Rightarrow> []))"

fun canonical_json :: "(rat \<Rightarrow> string) \<Rightarrow> pyval \<Rightarrow> string"
  and canonical_items :: "(rat \<Rightarrow> string) \<Rightarrow> pyval list \<Rightarrow> string list"
  and canonical_pairs :: "(rat \<Rightarrow> string) \<Rightarrow> pydict \<Rightarrow> (string \<times> string) list" where
  "canonical_json ft PNone = ''null''"
| "canonical_json ft (PBool b) = (if b then ''true'' else ''false'')"
| "canonical_json ft (PInt i) = int_str i"
| "canonical_json ft (PFloat q) = ft q"
| "canonical_json ft (PStr s) = json_string s"
| "canonical_json ft (PList xs) = ''['' @ join '','' (canonical_items ft xs) @ '']''"
| "canonical_json ft (PDict d) =
     ''{'' @ join '','' (map (\<lambda>(k, t). json_string k @ '':'' @ t) (sort_key fst (canonical_pairs ft d))) @ ''}''"
| "canonical_items ft [] = []"
| "canonical_items ft (x # xs) = canonical_json ft x # canonical_items ft xs"
| "canonical_pairs ft [] = []"
| "canonical_pairs ft ((k, v) # d) = (k, canonical_json ft v) # canonical_pairs ft d"

section \<open>The digests the validator recomputes\<close>

text \<open>
  What the validator takes from outside the repository: SHA-256 in hexadecimal and the
  decimal text of a float.
\<close>

record digests =
  hex_sha256 :: "string \<Rightarrow> string"
  float_text :: "rat \<Rightarrow> string"

definition canonical_json_sha256 :: "digests \<Rightarrow> pyval \<Rightarrow> string" where
  "canonical_json_sha256 D v = hex_sha256 D (canonical_json (float_text D) v)"

definition prompt_sha256 :: "digests \<Rightarrow> string \<Rightarrow> string" where
  "prompt_sha256 D text = hex_sha256 D text"

section \<open>Paths\<close>

text \<open>The parts of a \<open>pathlib\<close> path, and \<open>as_posix\<close> of a relative one.\<close>

fun split_at :: "char \<Rightarrow> string \<Rightarrow> string list" where
  "split_at c [] = [[]]"
| "split_at c (x # s) =
     (if x = c then [] # split_at c s
      else (case split_at c s of [] \<Rightarrow> [[x]] | p # ps \<Rightarrow> (x # p) # ps))"

definition path_parts :: "string \<Rightarrow> string list" where
  "path_parts s = filter (\<lambda>p. p \<noteq> [] \<and> p \<noteq> ''.'') (split_at (CHR ''/'') s)"

definition is_absolute :: "string \<Rightarrow> bool" where
  "is_absolute s \<longleftrightarrow> starts_with ''/'' s"

definition as_posix :: "string \<Rightarrow> string" where
  "as_posix s = (if path_parts s = [] then ''.'' else join ''/'' (path_parts s))"

text \<open>\<open>_safe_artifact_path\<close>: the name of a file directly under \<open>artifacts\<close>.\<close>

definition safe_artifact_path :: "pyval \<Rightarrow> string option" where
  "safe_artifact_path v = (case v of
     PStr s \<Rightarrow>
       (let parts = path_parts s in
        if is_absolute s \<or> take 1 parts \<noteq> [''artifacts''] \<or> length parts \<noteq> 2 \<or>
           list_ex (\<lambda>p. p \<in> {[], ''.'', ''..''}) parts \<or> as_posix s \<noteq> s
        then None else Some (parts ! 1))
   | _ \<Rightarrow> None)"

definition safe_inventory_path :: "pyval \<Rightarrow> bool" where
  "safe_inventory_path v = (case v of
     PStr s \<Rightarrow> s \<noteq> [] \<and> \<not> is_absolute s \<and> char_of (92::nat) \<notin> set s \<and>
       \<not> list_ex (\<lambda>p. p \<in> {[], ''.'', ''..''}) (path_parts s) \<and> as_posix s = s
   | _ \<Rightarrow> False)"

text \<open>\<open>[0-9a-f]{n}\<close> in full.\<close>

definition hex_text :: "nat \<Rightarrow> string \<Rightarrow> bool" where
  "hex_text n s \<longleftrightarrow> length s = n \<and> list_all (\<lambda>c. c \<in> set ''0123456789abcdef'') s"

end
