(* ===== verification/Browser_Policy.thy ===== *)
theory Browser_Policy
  imports Receipt_Base
begin

text \<open>
  The frozen Browser Use policy, \<open>src/btb/harness/browser_use_policy.py\<close>, and the frozen
  tables of actions, models and treatments at the head of
  \<open>src/btb/harness/validate_manifest.py\<close>: pure data and the lookups that fail closed.
\<close>

section \<open>Callbacks\<close>

definition browser_use_version :: string where
  "browser_use_version = ''0.13.6''"

record callback =
  cb_identity :: string
  cb_behavior :: string

definition fixture_action_callbacks :: "(string \<times> callback) list" where
  "fixture_action_callbacks =
     [(''navigate'', \<lparr>cb_identity = ''btb.fixture_only_navigate.v1'',
         cb_behavior = ''pre_dispatch_exact_http_origin_validation;post_dispatch_detect_recover_and_stop_on_unverified_outcome''\<rparr>),
      (''go_back'', \<lparr>cb_identity = ''btb.fixture_only_go_back.v1'',
         cb_behavior = ''post_dispatch_observe_fixture_origin;recover_and_stop_on_unverified_outcome''\<rparr>),
      (''switch'', \<lparr>cb_identity = ''btb.fixture_only_switch.v1'',
         cb_behavior = ''post_dispatch_observe_fixture_origin;recover_and_stop_on_unverified_outcome''\<rparr>),
      (''close'', \<lparr>cb_identity = ''btb.fixture_only_close.v1'',
         cb_behavior = ''post_dispatch_observe_fixture_origin;recover_and_stop_on_unverified_outcome''\<rparr>),
      (''search'', \<lparr>cb_identity = ''btb.fixture_only_search_rejection.v1'',
         cb_behavior = ''reject_external_web_search_without_dispatch_or_navigation''\<rparr>)]"

definition callback_of :: "string \<Rightarrow> callback option" where
  "callback_of name = map_of fixture_action_callbacks name"

section \<open>Frozen schema digests\<close>

text \<open>A dict display with a leading \<open>**base\<close>: later keys replace those of the base in place.\<close>

fun dict_set :: "(string \<times> 'v) list \<Rightarrow> string \<Rightarrow> 'v \<Rightarrow> (string \<times> 'v) list" where
  "dict_set [] k v = [(k, v)]"
| "dict_set ((k', v') # d) k v = (if k' = k then (k, v) # d else (k', v') # dict_set d k v)"

definition dict_extend :: "(string \<times> 'v) list \<Rightarrow> (string \<times> 'v) list \<Rightarrow> (string \<times> 'v) list" where
  "dict_extend d e = foldl (\<lambda>m (k, v). dict_set m k v) d e"

definition legacy_action_schema_sha256 :: "(string \<times> string) list" where
  "legacy_action_schema_sha256 =
     [(''click'', ''7cbe10aead7ebe1ba937f0cbca23802092f33b394571597d81a27c828307612a''),
      (''done'', ''6263628abcd8540f733d491fa500ddc4833b90876892221144e075b943286ab0''),
      (''dropdown_options'', ''fdb4e1397983baa1fa79b5d1513c8ce022191aaaf38732e949807890989a9b80''),
      (''find_elements'', ''35761caa4a3a194709ff76e427e7744343f1fef07a5529aaaf30ff2576e74445''),
      (''find_text'', ''19d37726addd2e9d8c64284854fad48d6a031278cef85106642a7072359021d5''),
      (''go_back'', ''8dc82f58d2408f4f1dd73e05cfb0a708f8f71950339b2ef8206363ddb8ad64d7''),
      (''input'', ''4c19a782df561f32068b44fc33427721d1c44526cbed75194d71ccd1f52c519a''),
      (''navigate'', ''9d546ca1820a9652ee395c9c3f8a919a7d65a21884c39633c90e384a7d4f34f1''),
      (''scroll'', ''8b48838be4411cf30d0fffe05133c85947545c3cc7811f413bd0be31f5906fdd''),
      (''search_page'', ''d673c683ff03800ea3c7c00d82d6088bb578db9b62ad4d982957e46ccfc28edd''),
      (''select_dropdown'', ''07c00dd2c14d865def72100eabe9b63b8746eeb7f70365ffe892ba1960aa5364''),
      (''wait'', ''92a6b06e94fe8956a8b8c25aea24b73d9c77e18026c0da4be84c492c29204db5'')]"

definition full_action_schema_sha256 :: "(string \<times> string) list" where
  "full_action_schema_sha256 = dict_extend legacy_action_schema_sha256
     [(''close'', ''98554e61f6a1f57db1387a3c8577545ba8cd1815742bbfebb58c363989ab68f5''),
      (''extract'', ''700a7011cfa7e72ff8bab4cb1fca171943473d9ba5c9a813933cbdd78e830d7b''),
      (''screenshot'', ''3de84847c0f4fd88804675fa8d11b3b230983b5c8a45c639a39348483a67957c''),
      (''search'', ''23ddb77b677b91e7e3ca0264b33320e0176144ee289375e896989374ad159a81''),
      (''send_keys'', ''5ccbe74d16259ad01f63f53d961108cc2c4d5803eb0f357119fbe7804d04f448''),
      (''switch'', ''af9af9b766d35d0cd024d8efcaab2dc065062a505c037cb089fa09cfe70ead14'')]"

record schema_digests =
  sd_action_model :: string
  sd_actions :: "(string \<times> string) list"

definition browser_use_schema_digests :: "(string \<times> schema_digests) list" where
  "browser_use_schema_digests =
     [(''browser-use:deepseek/deepseek-chat'',
        \<lparr>sd_action_model = ''e7d672c5aa72440b0b449fe7a116036cfbf44078817ccccee577df5ebd02e213'',
         sd_actions = legacy_action_schema_sha256\<rparr>),
      (''browser-use-full:anthropic/claude-sonnet-4-0'',
        \<lparr>sd_action_model = ''93eb8d59135167393dc0d844b20acd0dbe423c3fcbdedea9153ccbd948fdb090'',
         sd_actions = dict_extend full_action_schema_sha256
           [(''click'', ''5ca9b497f3dc331b700fe866379afc89eb15e34abb0881babca24db38125ef6c'')]\<rparr>),
      (''browser-use-full:openai/gpt-4.1-mini'',
        \<lparr>sd_action_model = ''5799a2cc2cb6df9eef7de97fa513eb3010d2a2ded706a8786b629ec2647e55c2'',
         sd_actions = full_action_schema_sha256\<rparr>)]"

definition schema_condition :: "string \<Rightarrow> string \<Rightarrow> string \<Rightarrow> string" where
  "schema_condition name provider model = name @ '':'' @ provider @ ''/'' @ model"

text \<open>\<open>schema_digests_for\<close>, whose \<open>ValueError\<close> is \<open>None\<close>.\<close>

definition schema_digests_for :: "string \<Rightarrow> string \<Rightarrow> string \<Rightarrow> schema_digests option" where
  "schema_digests_for name provider model =
     map_of browser_use_schema_digests (schema_condition name provider model)"

text \<open>\<open>_frozen_browser_use_schema_digests\<close> of the validator.\<close>

definition frozen_schema_digests :: "pyval \<Rightarrow> pyval \<Rightarrow> pyval \<Rightarrow> (string \<times> schema_digests) option" where
  "frozen_schema_digests name provider model =
     (case (name, provider, model) of
        (PStr n, PStr p, PStr m) \<Rightarrow>
          map_option (\<lambda>d. (schema_condition n p m, d)) (schema_digests_for n p m)
      | _ \<Rightarrow> None)"

section \<open>Frozen tables of the validator\<close>

definition receipt_treatments :: "string list" where
  "receipt_treatments =
     [''none'', ''response_forwarded'', ''downstream_disconnected_before_response'',
      ''connection_dropped_after_commit'']"

definition excluded_actions :: "string list" where
  "excluded_actions =
     [''close'', ''evaluate'', ''extract'', ''read_file'', ''replace_file'',
      ''save_as_pdf'', ''screenshot'', ''search'', ''send_keys'', ''switch'',
      ''upload_file'', ''write_file'']"

definition allowed_actions :: "string list" where
  "allowed_actions =
     [''click'', ''done'', ''dropdown_options'', ''find_elements'', ''find_text'',
      ''go_back'', ''input'', ''navigate'', ''scroll'', ''search_page'',
      ''select_dropdown'', ''wait'']"

definition full_excluded_actions :: "string list" where
  "full_excluded_actions =
     [''evaluate'', ''read_file'', ''replace_file'', ''save_as_pdf'', ''upload_file'',
      ''write_file'']"

definition full_allowed_actions :: "string list" where
  "full_allowed_actions =
     [''click'', ''close'', ''done'', ''dropdown_options'', ''extract'',
      ''find_elements'', ''find_text'', ''go_back'', ''input'', ''navigate'',
      ''screenshot'', ''scroll'', ''search'', ''search_page'', ''select_dropdown'',
      ''send_keys'', ''switch'', ''wait'']"

definition full_provider_models :: "(string \<times> string) list" where
  "full_provider_models = [(''anthropic'', ''claude-sonnet-4-0''), (''openai'', ''gpt-4.1-mini'')]"

definition failure_statuses :: "string list" where
  "failure_statuses = [''setup_error'', ''baseline_error'', ''timeout'', ''evaluation_error'']"

end
