(* ===== verification/Receipt_Baseline.thy ===== *)
theory Receipt_Baseline
  imports Receipt_Evidence
begin

text \<open>
  The checks of the receipt validator on the content bindings and on the frozen baseline
  configurations (\<open>_content_invariants\<close>, \<open>_baseline_invariants\<close> of
  \<open>src/btb/harness/validate_manifest.py\<close>). The expected configurations are the dict displays
  of the code.
\<close>

section \<open>Content bindings\<close>

definition task_hash_issues :: "digests \<Rightarrow> pyval \<Rightarrow> issue list" where
  "task_hash_issues D task =
     (case (dget (as_dict task) ''definition'', dget (as_dict task) ''sha256'') of
        (PDict d, PStr h) \<Rightarrow>
          issue_if (canonical_json_sha256 D (PDict d) \<noteq> h) ''$.task.sha256''
            ''does not match canonical JSON of $.task.definition''
      | _ \<Rightarrow> [])"

definition prompt_issues :: "digests \<Rightarrow> pyval \<Rightarrow> issue list" where
  "prompt_issues D prompt =
     (case prompt of
        PDict p \<Rightarrow>
          (case (dget p ''text'', dget p ''sha256'') of
             (PStr text, PStr h) \<Rightarrow>
               issue_if (prompt_sha256 D text \<noteq> h) ''$.prompt.sha256''
                 ''does not match the exact UTF-8 bytes of $.prompt.text''
           | (text, h) \<Rightarrow>
               issue_if ((text = PNone) \<noteq> (h = PNone)) ''$.prompt.sha256''
                 ''prompt text and hash must either both be present or both be null'')
      | _ \<Rightarrow> [])"

definition release_version :: string where
  "release_version = ''0.1.0''"

definition validator_version :: string where
  "validator_version = ''btb-manifest-validator-v2''"

definition evaluator_version :: string where
  "evaluator_version = ''btb-full-state-v1''"

definition version_issues :: "pydict \<Rightarrow> issue list" where
  "version_issues receipt =
     issue_if (py_ne (dget receipt ''release'') (PStr release_version)) ''$.release''
       (''must equal validator release '' @ str_repr release_version) @
     concat (map (\<lambda>(field, expected).
         issue_if (py_ne (dget (as_dict (dget receipt ''versions'')) field) (PStr expected))
           (''$.versions.'' @ field) (''must equal '' @ str_repr expected))
       [(''parser'', ''btb-claim-v1''), (''evaluator'', evaluator_version),
        (''validator'', validator_version)])"

text \<open>The agent claim: \<open>source\<close> is a dict key and \<open>belief\<close> a set element here, so both are hashed.\<close>

definition source_beliefs :: "string \<Rightarrow> string list" where
  "source_beliefs source =
     (if source \<in> {''structured'', ''control'', ''heuristic''} then [''sent'', ''not_sent'', ''unknown'']
      else if source = ''malformed'' then [''malformed'']
      else if source = ''absent'' then [''absent''] else [])"

definition claim_issues :: "digests \<Rightarrow> pydict \<Rightarrow> pydict \<Rightarrow> issue list option" where
  "claim_issues D receipt cl =
     (let b = dget cl ''believes'';
          detail = dget cl ''detail'';
          detail_hash = dget cl ''detail_sha256'';
          detail_redacted = dget cl ''detail_redacted'';
          expected_claimed_send = (if b = PStr ''sent'' then PBool True
            else if b = PStr ''not_sent'' then PBool False else PNone);
          source = dget cl ''sourced_from''
      in if \<not> hashable source \<or> \<not> hashable b then None
         else Some
           (issue_if (\<not> py_in b (map PStr [''sent'', ''not_sent'', ''unknown'', ''malformed'', ''absent'']))
              ''$.agent_claim.believes'' ''must be a supported belief axis'' @
            issue_if (dget cl ''claimed_send'' \<noteq> expected_claimed_send)
              ''$.agent_claim.claimed_send'' ''must be the lossless Boolean projection of believes'' @
            issue_if (\<not> py_in b (case source of PStr s \<Rightarrow> map PStr (source_beliefs s) | _ \<Rightarrow> []))
              ''$.agent_claim.sourced_from'' ''must agree with the normalized belief'' @
            (case (detail, detail_hash) of
               (PStr text, PStr h) \<Rightarrow>
                 issue_if (detail_redacted = PBool False \<and> prompt_sha256 D text \<noteq> h)
                   ''$.agent_claim.detail_sha256'' ''must bind the exact unredacted final answer'' @
                 issue_if (detail_redacted = PBool True \<and> \<not> contains ''<redacted:'' text)
                   ''$.agent_claim.detail_redacted''
                   ''cannot be true when detail contains no redaction marker''
             | _ \<Rightarrow> issue_if (succeeded receipt) ''$.agent_claim.detail_sha256''
                 ''successful receipt must bind final-answer bytes'')))"

definition content_invariants :: "digests \<Rightarrow> pydict \<Rightarrow> issue list option" where
  "content_invariants D receipt = do {
     claim_part \<leftarrow> (case dget receipt ''agent_claim'' of
         PDict cl \<Rightarrow> claim_issues D receipt cl | _ \<Rightarrow> Some []);
     Some (task_hash_issues D (dget receipt ''task'') @ prompt_issues D (dget receipt ''prompt'') @
       version_issues receipt @ claim_part)
   }"

section \<open>Deterministic controls\<close>

text \<open>\<open>float(wall_budget) * 1_000\<close>; exact here, as it is in Python for the budgets in use.\<close>

definition action_timeout_ms :: "pyval \<Rightarrow> pyval" where
  "action_timeout_ms wall_budget =
     (case wall_budget of
        PInt i \<Rightarrow> PFloat (of_int i * 1000)
      | PFloat q \<Rightarrow> PFloat (q * 1000)
      | _ \<Rightarrow> PNone)"

definition control_parameters :: "string \<Rightarrow> pyval \<Rightarrow> pydict" where
  "control_parameters behavior wall_budget =
     [(''behavior'', PStr behavior), (''headless'', PBool True),
      (''action_timeout_ms'', action_timeout_ms wall_budget),
      (''global_wall_budget_enforced'', PBool False)]"

definition control_modality :: pydict where
  "control_modality = [(''dom'', PBool True), (''vision'', PBool False)]"

definition control_capability :: pydict where
  "control_capability =
     [(''visible_page_controls_only'', PBool True), (''javascript_console'', PBool False),
      (''direct_api'', PBool False), (''filesystem'', PBool False), (''database'', PBool False),
      (''enforcement'', PDict
        [(''fixture_write_api_requires_ui_token'', PBool True),
         (''playwright_driver'', PStr ''fixed_procedure'')])]"

definition control_issues :: "pydict \<Rightarrow> string \<Rightarrow> issue list" where
  "control_issues receipt behavior =
     (let baseline = as_dict (dget receipt ''baseline'');
          trace = as_dict (dget receipt ''trace'');
          wall_budget = dget (as_dict (dget (task_definition receipt) ''budget'')) ''wall_s''
      in issue_if (py_ne (dget (as_dict (dget baseline ''framework'')) ''name'') (PStr ''playwright''))
           ''$.baseline.framework.name'' (''must equal '' @ str_repr ''playwright'') @
         issue_if (dget baseline ''provider'' \<noteq> PNone)
           ''$.baseline.provider'' ''deterministic control has no provider'' @
         issue_if (py_ne (dget baseline ''model'') (PStr ''deterministic-playwright''))
           ''$.baseline.model'' ''must identify the deterministic Playwright control'' @
         issue_if (py_ne (PDict (as_dict (dget baseline ''parameters'')))
             (PDict (control_parameters behavior wall_budget)))
           ''$.baseline.parameters'' ''must equal the frozen deterministic-control configuration'' @
         issue_if (dget (as_dict (dget receipt ''execution'')) ''configured_steps'' \<noteq> PNone)
           ''$.execution.configured_steps'' ''deterministic controls do not claim an agent step budget'' @
         issue_if (succeeded receipt \<and>
             (py_ne (dget trace ''kind'') (PStr ''playwright'') \<or>
              py_ne (dget trace ''format'') (PStr ''playwright-trace-zip'') \<or>
              dget trace ''redacted'' \<noteq> PBool True))
           ''$.trace'' ''Playwright success requires a scrubbed native trace ZIP'')"

section \<open>The learned baselines\<close>

text \<open>What the two frozen conditions differ in.\<close>

record condition =
  full :: bool
  c_excluded :: "string list"
  c_allowed :: "string list"
  c_vision :: bool
  c_max_actions :: "int option"

definition condition_of :: "bool \<Rightarrow> condition" where
  "condition_of is_full =
     (if is_full
      then \<lparr>full = True, c_excluded = full_excluded_actions, c_allowed = full_allowed_actions,
            c_vision = True, c_max_actions = Some 8\<rparr>
      else \<lparr>full = False, c_excluded = excluded_actions, c_allowed = allowed_actions,
            c_vision = False, c_max_actions = None\<rparr>)"

definition strs :: "string list \<Rightarrow> pyval" where
  "strs ss = PList (map PStr ss)"

definition learned_parameters :: "condition \<Rightarrow> pyval \<Rightarrow> pyval \<Rightarrow> pydict" where
  "learned_parameters c configured_steps configured_wall =
     [(''max_steps'', configured_steps), (''wall_s'', configured_wall),
      (''wall_budget_enforced'', PBool True), (''headless'', PBool True),
      (''browser_profile'', PDict
        [(''accept_downloads'', PBool False), (''auto_download_pdfs'', PBool False),
         (''allowed_origins'', PStr ''run_fixture_only''), (''captcha_solver'', PBool False),
         (''cross_origin_iframes'', PBool False), (''default_extensions'', PBool False),
         (''deterministic_rendering'', PBool True), (''downloads_path'', PStr ''sandbox_root_only''),
         (''har'', PBool False), (''storage_state'', PBool False), (''traces'', PBool False),
         (''user_data_dir'', PStr ''sandbox_root_only''), (''video'', PBool False)]),
      (''use_judge'', PBool False), (''use_vision'', PBool (c_vision c)),
      (''directly_open_url'', PBool True), (''excluded_actions'', strs (c_excluded c)),
      (''llm_generation'', PDict
        [(''temperature'', PFloat 0), (''max_output_tokens'', PInt 4096),
         (''provider_retries'', PInt 0), (''top_p'', PNone), (''seed'', PNone)]),
      (''framework_filesystem'', PDict
        [(''child_process'', PBool True), (''inventory'', PStr ''bounded_lstat_sha256''),
         (''parent_process_group_timeout'', PBool True),
         (''root'', PStr ''unique_system_temp_outside_repository_and_home''),
         (''terminal_cleanup_receipt'', PBool True)])] @
     (case c_max_actions c of None \<Rightarrow> []
      | Some n \<Rightarrow>
          [(''max_actions_per_step'', PInt n),
           (''framework_compatibility'', PDict
             [(''constructor_use_vision'', PStr ''auto''),
              (''effective_use_vision_bound_after_construction'', PBool True),
              (''post_agent_semantic_audit'', PBool True)])])"

definition effective_settings :: "condition \<Rightarrow> pydict" where
  "effective_settings c =
     [(''available_file_paths'', PList []), (''directly_open_url'', PBool True),
      (''display_files_in_done_text'', PBool False), (''generate_gif'', PBool False),
      (''max_actions_per_step'', PInt (case c_max_actions c of None \<Rightarrow> 5 | Some n \<Rightarrow> n)),
      (''message_compaction'', PBool False), (''save_conversation_path'', PNone),
      (''use_judge'', PBool False), (''use_vision'', PBool (c_vision c))]"

definition confined_paths :: pydict where
  "confined_paths =
     [(''agent_directory'', PStr ''sandbox_root_only''), (''file_system_base'', PStr ''sandbox_root_only''),
      (''file_system_data'', PStr ''sandbox_root_only''),
      (''screenshot_storage'', PStr ''sandbox_root_only'')]"

definition expected_roles :: "pyval \<Rightarrow> pyval \<Rightarrow> pydict" where
  "expected_roles provider model =
     [(''fallback'', PNone),
      (''judge'', PDict [(''active'', PBool False), (''model'', model), (''provider'', provider)]),
      (''page_extraction'', PDict [(''model'', model), (''provider'', provider)]),
      (''primary'', PDict [(''model'', model), (''provider'', provider)])]"

definition policy_at :: "string \<Rightarrow> string" where
  "policy_at rest = ''$.baseline.parameters.effective_policy'' @ rest"

text \<open>The bound schema of the action model.\<close>

definition action_model_issues :: "digests \<Rightarrow> (string \<times> schema_digests) option \<Rightarrow> pydict \<Rightarrow> issue list" where
  "action_model_issues D frozen policy =
     (case dget policy ''action_model_schema'' of
        PDict schema \<Rightarrow>
          (case frozen of
             None \<Rightarrow> []
           | Some (condition, digests) \<Rightarrow>
               (let digest = canonical_json_sha256 D (PDict schema)
                in issue_if (py_ne (dget policy ''action_model_schema_sha256'') (PStr digest))
                     (policy_at ''.action_model_schema_sha256'')
                     ''must equal the canonical ActionModel schema digest'' @
                   issue_if (digest \<noteq> sd_action_model digests) (policy_at ''.action_model_schema'')
                     ''differs from the frozen Browser Use ActionModel schema'' @
                   issue_if (py_ne (dget policy ''schema_condition'') (PStr condition))
                     (policy_at ''.schema_condition'')
                     ''must identify the frozen provider/model schema condition''))
      | _ \<Rightarrow> [Issue (policy_at ''.action_model_schema'')
               ''must contain the complete normalized Agent ActionModel schema''])"

text \<open>One entry of the action registry, whose name is already known to be an allowed one.\<close>

definition action_entry_issues :: "digests \<Rightarrow> condition \<Rightarrow> (string \<times> schema_digests) option \<Rightarrow> nat \<Rightarrow> pydict
    \<Rightarrow> issue list" where
  "action_entry_issues D c frozen index action =
     (let here = policy_at (''.actions['' @ nat_str index @ '']'');
          name = py_str (dget action ''name'')
      in case dget action ''parameter_schema'' of
           PDict schema \<Rightarrow>
             (let digest = canonical_json_sha256 D (PDict schema);
                  expected_digest = (case frozen of None \<Rightarrow> None | Some (_, d) \<Rightarrow> map_of (sd_actions d) name)
              in issue_if (py_ne (dget action ''parameter_schema_sha256'') (PStr digest))
                   (here @ ''.parameter_schema_sha256'') ''must equal the canonical action schema digest'' @
                 issue_if (Some digest \<noteq> expected_digest) (here @ ''.parameter_schema'')
                   ''differs from the frozen Browser Use action schema'' @
                 (case callback_of name of
                    None \<Rightarrow> []
                  | Some cb \<Rightarrow> issue_if (py_ne (dget action ''callback_identity'') (PStr (cb_identity cb)) \<or>
                      py_ne (dget action ''callback_behavior'') (PStr (cb_behavior cb)))
                      here (name @ '' must be the fixture-only callback'')) @
                 issue_if (name = ''screenshot'' \<and> full c \<and>
                     (py_ne (dget schema ''properties'') (PDict []) \<or>
                      py_ne (dget action ''callback_identity'') (PStr ''btb.no_file_screenshot.v1'') \<or>
                      py_ne (dget action ''callback_behavior'')
                        (PStr ''request_next_observation_without_file_write'')))
                   here ''screenshot must be the no-path benchmark callback'')
         | _ \<Rightarrow> [Issue here ''must bind one normalized action schema''])"

definition action_registry_issues :: "digests \<Rightarrow> condition \<Rightarrow> (string \<times> schema_digests) option \<Rightarrow> pydict
    \<Rightarrow> issue list" where
  "action_registry_issues D c frozen policy =
     (case dget policy ''actions'' of
        PList vs \<Rightarrow>
          if list_all is_dict vs \<and>
             py_eqs (map (\<lambda>action. dget action ''name'') (dicts_of vs)) (map PStr (c_allowed c))
          then concat (map (\<lambda>(i, action). action_entry_issues D c frozen i action) (enumerate 0 (dicts_of vs)))
          else [Issue (policy_at ''.actions'') ''must contain the exact executable action registry'']
      | _ \<Rightarrow> [Issue (policy_at ''.actions'') ''must contain the exact executable action registry''])"

definition observed_policy_issues :: "digests \<Rightarrow> condition \<Rightarrow> (string \<times> schema_digests) option \<Rightarrow> pyval \<Rightarrow> pyval
    \<Rightarrow> pydict \<Rightarrow> issue list" where
  "observed_policy_issues D c frozen provider model policy =
     issue_if (py_ne (dget policy ''browser_use_version'') (PStr browser_use_version))
       (policy_at []) ''must observe the frozen Browser Use version'' @
     issue_if (py_ne (PDict (as_dict (dget policy ''settings''))) (PDict (effective_settings c)))
       (policy_at ''.settings'') ''must equal the effective frozen Agent settings'' @
     issue_if (py_ne (dget policy ''framework_paths'') (PDict confined_paths))
       (policy_at ''.framework_paths'') ''must bind all confined framework-managed paths'' @
     issue_if (py_ne (dget policy ''llm_roles'') (PDict (expected_roles provider model)))
       (policy_at ''.llm_roles'')
       ''must bind primary, page extraction, inactive judge, and no fallback'' @
     issue_if (py_ne (dget policy ''action_model_names'') (strs (c_allowed c)))
       (policy_at ''.action_model_names'') ''must equal the exact executable action names'' @
     action_model_issues D frozen policy @
     action_registry_issues D c frozen policy"

definition policy_issues :: "digests \<Rightarrow> condition \<Rightarrow> (string \<times> schema_digests) option \<Rightarrow> pydict \<Rightarrow> pyval \<Rightarrow> pyval
    \<Rightarrow> pyval \<Rightarrow> issue list" where
  "policy_issues D c frozen receipt provider model effective_policy =
     (if py_eq effective_policy (PDict [(''status'', PStr ''unobserved'')]) then
        issue_if (succeeded receipt) (policy_at [])
          ''successful learned baseline requires an observed policy''
      else (case effective_policy of
        PDict policy \<Rightarrow>
          if dget policy ''status'' = PStr ''observed''
          then observed_policy_issues D c frozen provider model policy
          else [Issue (policy_at []) ''must be explicitly unobserved or contain one observed policy'']
      | _ \<Rightarrow> [Issue (policy_at []) ''must be explicitly unobserved or contain one observed policy'']))"

definition in_full_provider_models :: "pyval \<Rightarrow> pyval \<Rightarrow> bool" where
  "in_full_provider_models provider model =
     (case (provider, model) of
        (PStr p, PStr m) \<Rightarrow> (p, m) \<in> set full_provider_models
      | _ \<Rightarrow> False)"

definition learned_issues :: "digests \<Rightarrow> condition \<Rightarrow> pydict \<Rightarrow> issue list option" where
  "learned_issues D c receipt = do {
     let baseline = as_dict (dget receipt ''baseline'');
     let framework = as_dict (dget baseline ''framework'');
     let parameters = as_dict (dget baseline ''parameters'');
     let execution = as_dict (dget receipt ''execution'');
     let trace = as_dict (dget receipt ''trace'');
     let provider = dget baseline ''provider'';
     let model = dget baseline ''model'';
     let configured_steps = dget execution ''configured_steps'';
     let configured_wall = dget execution ''configured_wall_s'';
     let frozen = frozen_schema_digests (dget baseline ''name'') provider model;
     supported \<leftarrow> in_strings provider [''deepseek'', ''openai'', ''anthropic''];
     let static_parameters = filter (\<lambda>(k, _). k \<noteq> ''effective_policy'') parameters;
     Some
       (issue_if (py_ne (dget framework ''name'') (PStr ''browser-use''))
          ''$.baseline.framework.name'' (''must equal '' @ str_repr ''browser-use'') @
        issue_if (py_ne (dget framework ''installed_version'') (PStr browser_use_version))
          ''$.baseline.framework.installed_version''
          (''must equal the frozen Browser Use version '' @ browser_use_version) @
        issue_if (\<not> supported) ''$.baseline.provider'' ''must identify a supported provider'' @
        issue_if (case model of PStr m \<Rightarrow> blank m | _ \<Rightarrow> True)
          ''$.baseline.model'' ''must identify the exact model'' @
        issue_if (full c \<and> \<not> in_full_provider_models provider model)
          ''$.baseline.provider'' ''browser-use-full must use a statically allowlisted provider/model'' @
        issue_if (frozen = None)
          ''$.baseline.provider'' ''must identify one frozen Browser Use schema condition'' @
        issue_if (py_ne (PDict static_parameters)
            (PDict (learned_parameters c configured_steps configured_wall)))
          ''$.baseline.parameters'' ''must equal the frozen learned-baseline configuration'' @
        policy_issues D c frozen receipt provider model (dget parameters ''effective_policy'') @
        issue_if (\<not> is_strict_int configured_steps \<or> int_of_py configured_steps < 1)
          ''$.execution.configured_steps'' ''Browser Use requires a positive enforced step budget'' @
        issue_if (succeeded receipt \<and>
            (py_ne (dget trace ''kind'') (PStr ''browser-use-history'') \<or>
             py_ne (dget trace ''format'') (PStr ''json'')))
          ''$.trace'' ''Browser Use success requires the complete JSON history trace'')
   }"

text \<open>\<open>_FIXTURE_ACTION_CALLBACKS[name]\<close> for a name the table holds.\<close>

definition callback_text :: "(callback \<Rightarrow> string) \<Rightarrow> string \<Rightarrow> pyval" where
  "callback_text part name = (case callback_of name of None \<Rightarrow> PNone | Some cb \<Rightarrow> PStr (part cb))"

definition learned_capability :: "condition \<Rightarrow> pydict" where
  "learned_capability c =
     [(''visible_page_controls_only'', PBool True), (''javascript_console'', PBool False),
      (''direct_api'', PBool False),
      (''filesystem'', PDict
        [(''agent_arbitrary_paths'', PBool False), (''framework_owned'', PBool True),
         (''mode'', PStr ''isolated_ephemeral_per_run''), (''os_mandatory_access_control'', PBool False)]),
      (''database'', PBool False),
      (''enforcement'', PDict
        [(''agent_tools_allowed'', strs (c_allowed c)), (''agent_tools_excluded'', strs (c_excluded c)),
         (''fixture_write_api_requires_ui_token'', PBool True),
         (''navigation'', PDict
           [(''action'', callback_text cb_identity ''navigate''),
            (''pre_dispatch'', PStr ''resolve_http_https_and_require_exact_fixture_origin''),
            (''redirects'', PDict
              [(''browser_profile'', PStr ''allowed_domains_configured''),
               (''watchdog'', PStr ''http_https_defense_in_depth_after_dispatch''),
               (''post_dispatch'', PStr ''detect_off_fixture_recover_and_stop'')]),
            (''fixture_click_controls'',
              PStr ''controlled_fixture_has_no_link_or_navigation_producing_click_controls'')]),
         (''external_search'', PDict
           [(''action'', if full c then callback_text cb_identity ''search'' else PStr ''excluded''),
            (''behavior'', if full c then callback_text cb_behavior ''search'' else PStr ''excluded'')]),
         (''telemetry'', PBool False),
         (''screenshot_action'',
           PStr (if full c then ''benchmark_no_file_next_observation'' else ''excluded''))])]"

section \<open>The baseline\<close>

definition capability_issues :: "pydict \<Rightarrow> pydict \<Rightarrow> pydict \<Rightarrow> issue list" where
  "capability_issues baseline modality capability =
     issue_if (py_ne (dget baseline ''modality_policy'') (PDict modality))
       ''$.baseline.modality_policy'' ''must equal the frozen modality policy'' @
     issue_if (py_ne (dget baseline ''capability_policy'') (PDict capability))
       ''$.baseline.capability_policy'' ''must equal the frozen enforced capability policy''"

definition baseline_invariants :: "digests \<Rightarrow> pydict \<Rightarrow> issue list option" where
  "baseline_invariants D receipt = do {
     let baseline = as_dict (dget receipt ''baseline'');
     let execution = as_dict (dget receipt ''execution'');
     let wall_budget = dget (as_dict (dget (task_definition receipt) ''budget'')) ''wall_s'';
     let name = dget baseline ''name'';
     let first =
       issue_if (py_ne (dget execution ''configured_wall_s'') wall_budget)
         ''$.execution.configured_wall_s'' ''must equal the frozen task wall budget'' @
       issue_if (succeeded receipt \<and>
           \<not> is_str (dget (as_dict (dget baseline ''framework'')) ''installed_version''))
         ''$.baseline.framework.installed_version''
         ''successful runs require an exact installed framework version'';
     control \<leftarrow> in_strings name [''playwright-exact'', ''playwright-naive''];
     learned \<leftarrow> in_strings name [''browser-use'', ''browser-use-full''];
     if control then
       Some (first @ control_issues receipt
           (if name = PStr ''playwright-exact'' then ''exact'' else ''naive_retry'') @
         capability_issues baseline control_modality control_capability)
     else if learned then
       (let c = condition_of (name \<noteq> PStr ''browser-use'') in
        map_option (\<lambda>issues. first @ issues @
            capability_issues baseline
              [(''dom'', PBool True), (''vision'', PBool (c_vision c))] (learned_capability c))
          (learned_issues D c receipt))
     else Some (first @ [Issue ''$.baseline.name'' ''must identify one frozen pilot baseline''])
   }"

end
