(* ===== verification/Score_Tables.thy ===== *)
theory Score_Tables
  imports Fixture_Db Oracle_Score
begin

text \<open>
  The evaluator's table operations on the rows of the store. The evaluator works on dicts;
  the store's rows are records with distinct integer keys. \<open>keyed_table\<close> is the interface
  between them: a rendering of rows as dicts that keeps the key under \<open>id\<close> and the row up to
  Python equality. Every table operation is computed once for any such rendering, and the
  four tables of the database are its interpretations.
\<close>

section \<open>Values and rows compare as they should\<close>

lemma py_eq_PFloat [simp]: "py_eq (PFloat a) (PFloat b) \<longleftrightarrow> a = b"
  by simp

lemma py_eq_opt_int [simp]: "py_eq (opt_int a) (opt_int b) \<longleftrightarrow> a = b"
  by (cases a; cases b) (auto simp: opt_int_def)

lemma hashable_opt_int [simp]: "hashable (opt_int a)"
  by (cases a) (auto simp: opt_int_def)

section \<open>The interface\<close>

locale keyed_table =
  fixes key :: "'r \<Rightarrow> int"
    and dict :: "'r \<Rightarrow> pydict"
  assumes dict_id: "map_of (dict r) ''id'' = Some (PInt (key r))"
    and dict_eq: "py_eq (PDict (dict r)) (PDict (dict r')) \<longleftrightarrow> r = r'"
begin

lemma row_key_dict [simp]: "row_key (dict r) = Some (PInt (key r))"
  by (simp add: row_key_def dict_id)

lemma py_in_keys [simp]: "py_in (PInt i) (map (\<lambda>r. PInt (key r)) rs) \<longleftrightarrow> i \<in> key ` set rs"
  by (auto simp: py_in_def list_ex_iff)

lemma rows_eq_dict: "rows_eq (map dict rs) (map dict rs') \<longleftrightarrow> rs = rs'"
  unfolding rows_eq_def
proof (induction rs arbitrary: rs')
  case Nil
  show ?case by (cases rs') simp_all
next
  case (Cons r rs)
  show ?case by (cases rs') (use Cons.IH in \<open>simp_all add: dict_eq o_def del: py_eq.simps\<close>)
qed

lemma mapM_row_key: "mapM row_key (map dict rs) = Some (map (\<lambda>r. PInt (key r)) rs)"
  by (induction rs) auto

lemma new_rows_dict:
  "new_rows (map dict rs) (map dict rs') = Some (map dict (filter (\<lambda>r. key r \<notin> key ` set rs) rs'))"
proof -
  have "map snd (filter (\<lambda>(k, _). \<not> py_in k (map (\<lambda>r. PInt (key r)) rs))
      (zip (map (\<lambda>r. PInt (key r)) rs') (map dict rs'))) =
    map dict (filter (\<lambda>r. key r \<notin> key ` set rs) rs')"
    by (induction rs') auto
  then show ?thesis by (simp add: new_rows_def mapM_row_key del: map_map)
qed

definition table :: "'r list \<Rightarrow> keyed_rows" where
  "table rs = map (\<lambda>r. (PInt (key r), dict r)) rs"

lemma put_row_fresh: "key r \<notin> key ` set rs \<Longrightarrow> put_row (table rs) (PInt (key r)) (dict r) = table (rs @ [r])"
  by (induction rs) (auto simp: table_def)

lemma by_id_dict:
  assumes "distinct (map key rs)"
  shows "by_id (map dict rs) = Some (table rs)"
proof -
  have "foldM (\<lambda>m row. map_option (\<lambda>k. put_row m k row) (row_key row)) (table us) (map dict rs) =
      Some (table (us @ rs))" if "distinct (map key (us @ rs))" for us
    using that
  proof (induction rs arbitrary: us)
    case (Cons r rs)
    then have "key r \<notin> key ` set us" by auto
    with Cons.IH [of "us @ [r]"] Cons.prems show ?case by (simp add: put_row_fresh)
  qed simp
  from this [of "[]"] assms show ?thesis by (simp add: by_id_def table_def)
qed

lemma find_row_table: "find_row (table rs) (PInt i) = map_option dict (find (\<lambda>r. key r = i) rs)"
  by (induction rs) (auto simp: table_def)

lemma find_row_member:
  assumes "distinct (map key rs)" and "r \<in> set rs"
  shows "find_row (table rs) (PInt (key r)) = Some (dict r)"
  using find_distinct [OF assms] by (simp add: find_row_table)

lemma row_differs_table:
  assumes "distinct (map key rs')"
  shows "row_differs (find_row (table rs') (PInt (key r))) (dict r) \<longleftrightarrow> r \<notin> set rs'"
proof (cases "find (\<lambda>x. key x = key r) rs'")
  case None
  moreover from this have "r \<notin> set rs'" by (auto simp: find_None_iff)
  ultimately show ?thesis by (simp add: row_differs_def find_row_table)
next
  case (Some x)
  then have "x \<in> set rs'" "key x = key r" by (auto simp: find_Some_iff)
  moreover have "x = r" if "r \<in> set rs'"
    using find_distinct [OF assms that] Some by simp
  ultimately show ?thesis
    using Some by (auto simp: row_differs_def find_row_table dict_eq simp del: py_eq.simps)
qed

lemma existing_changed_dict:
  assumes "distinct (map key rs)" and "distinct (map key rs')"
  shows "existing_rows_changed (map dict rs) (map dict rs') = Some (\<not> set rs \<subseteq> set rs')"
  by (auto simp: existing_rows_changed_def by_id_dict assms table_def [of rs] list_ex_iff
      row_differs_table)

end

text \<open>Rows of a table that extends another in key order.\<close>

lemma new_rows_append:
  assumes "\<And>r. r \<in> set new \<Longrightarrow> key r \<notin> key ` set rs"
  shows "filter (\<lambda>r. key r \<notin> key ` set rs) (rs @ new) = new"
  using assms by (simp add: filter_empty_conv filter_id_conv image_iff) blast

section \<open>The four tables\<close>

interpretation user_tab: keyed_table u_id user_dict
  by unfold_locales (auto simp: user_dict_def intro: user_row.equality)

interpretation draft_tab: keyed_table d_id draft_dict
  by unfold_locales (auto simp: draft_dict_def intro: draft_row.equality)

interpretation message_tab: keyed_table m_id message_dict
  by unfold_locales (auto simp: message_dict_def intro: message_row.equality)

interpretation attempt_tab: keyed_table a_id attempt_dict
  by unfold_locales (auto simp: attempt_dict_def intro: attempt_row.equality)

text \<open>The snapshot of a store.\<close>

definition snap :: "db \<Rightarrow> oracle_snapshot" where
  "snap s = \<lparr>s_users = map user_dict (users s), s_drafts = map draft_dict (drafts s),
     s_messages = map message_dict (messages s), s_attempts = map attempt_dict (attempts s)\<rparr>"

lemma snapshot_of_store: "snapshot_of (full_snapshot s) = Some (snap s)"
  by (simp add: snapshot_of_def full_snapshot_def snap_def)

lemma snap_simps [simp]:
  "s_users (snap s) = map user_dict (users s)" "s_drafts (snap s) = map draft_dict (drafts s)"
  "s_messages (snap s) = map message_dict (messages s)"
  "s_attempts (snap s) = map attempt_dict (attempts s)"
  by (simp_all add: snap_def)

definition new_drafts_of :: "db \<Rightarrow> db \<Rightarrow> draft_row list" where
  "new_drafts_of b a = filter (\<lambda>r. d_id r \<notin> d_id ` set (drafts b)) (drafts a)"

definition new_messages_of :: "db \<Rightarrow> db \<Rightarrow> message_row list" where
  "new_messages_of b a = filter (\<lambda>r. m_id r \<notin> m_id ` set (messages b)) (messages a)"

definition new_attempts_of :: "db \<Rightarrow> db \<Rightarrow> attempt_row list" where
  "new_attempts_of b a = filter (\<lambda>r. a_id r \<notin> a_id ` set (attempts b)) (attempts a)"

lemma new_rows_snap:
  "new_rows (s_drafts (snap b)) (s_drafts (snap a)) = Some (map draft_dict (new_drafts_of b a))"
  "new_rows (s_messages (snap b)) (s_messages (snap a)) = Some (map message_dict (new_messages_of b a))"
  "new_rows (s_attempts (snap b)) (s_attempts (snap a)) = Some (map attempt_dict (new_attempts_of b a))"
  by (simp_all add: draft_tab.new_rows_dict message_tab.new_rows_dict attempt_tab.new_rows_dict
      new_drafts_of_def new_messages_of_def new_attempts_of_def)

section \<open>Reading the collected problems\<close>

lemma run_checks_simps [simp]:
  "run_checks [] c = c" "run_checks (f # fs) c = run_checks fs (f c)"
  "run_checks (fs @ gs) c = run_checks gs (run_checks fs c)"
  by (simp_all add: run_checks_def)

lemma checks_frames [frame_simps, simp]:
  "violations (fail_if b m c) = violations c" "contract_errors (fail_if b m c) = contract_errors c"
  "failures (violate_if b m c) = failures c" "contract_errors (violate_if b m c) = contract_errors c"
  "failures (contract_if b m c) = failures c" "violations (contract_if b m c) = violations c"
  by (simp_all add: fail_if_def violate_if_def contract_if_def)

definition clean :: "checks \<Rightarrow> bool" where
  "clean c \<longleftrightarrow> failures c = [] \<and> contract_errors c = []"

lemma clean_checks [clean_iff, simp]:
  "clean (fail_if b m c) \<longleftrightarrow> \<not> b \<and> clean c"
  "clean (violate_if b m c) \<longleftrightarrow> clean c"
  "clean (contract_if b m c) \<longleftrightarrow> \<not> b \<and> clean c"
  by (auto simp: clean_def fail_if_def violate_if_def contract_if_def)

lemma violations_violate_if: "violations (violate_if b v c) =
    (if b then append_unique (violations c) v else violations c)"
  by (simp add: violate_if_def)

lemma set_append_unique [simp]: "set (append_unique xs v) = insert v (set xs)"
  by (auto simp: append_unique_def)

lemma append_unique_not_Nil [simp]: "append_unique xs v \<noteq> []"
  by (auto simp: append_unique_def)

lemma run_checks_clean:
  "(\<And>f c. f \<in> set fs \<Longrightarrow> clean (f c) \<longleftrightarrow> P f \<and> clean c) \<Longrightarrow>
   clean (run_checks fs c) \<longleftrightarrow> (\<forall>f \<in> set fs. P f) \<and> clean c"
  by (induction fs arbitrary: c) auto

text \<open>A fold of checks ends clean only where every step was clean.\<close>

lemma foldM_clean:
  assumes "foldM f c xs = Some c'" and "clean c'"
    and "\<And>c x c''. x \<in> set xs \<Longrightarrow> f c x = Some c'' \<Longrightarrow> clean c'' \<Longrightarrow> clean c \<and> P x"
  shows "clean c \<and> (\<forall>x \<in> set xs. P x)"
  using assms
proof (induction xs arbitrary: c)
  case (Cons x xs)
  then obtain d where d: "f c x = Some d" "foldM f d xs = Some c'"
    by (auto split: option.splits)
  with Cons.IH [of d] Cons.prems have "clean d \<and> (\<forall>x \<in> set xs. P x)" by auto
  with Cons.prems(3) [of x c d] d show ?case by auto
qed simp

end
