(* ===== verification/Receipt_Validator.thy ===== *)
theory Receipt_Validator
  imports Receipt_Baseline Task_Runner
begin

text \<open>
  The whole receipt validator: the frozen task registry, canonical provenance, the bound
  artifacts, and the entry points of \<open>src/btb/harness/validate_manifest.py\<close>.

  What lies outside the repository is the record \<open>world\<close>: SHA-256 and the decimal text of a
  float, the third-party JSON Schema validator, the Git subprocess, the error texts of the
  operating system and of the JSON decoder, and the artifact files. An artifact directory
  maps names to regular files or other entries; files do not change while they are read.
\<close>

section \<open>The world\<close>

datatype path_component = CIndex int | CKey string

record schema_error =
  se_path :: "path_component list"
  se_message :: string
  se_validator :: string
  se_required :: "string list"
  se_instance :: "string list"

datatype artifact = Regular string | NotRegular

text \<open>One entry of a ZIP archive: the size it declares, and what reading it gives.\<close>

record zip_member =
  zm_dir :: bool
  zm_size :: int
  zm_read :: "string + string"

record world = digests +
  schema_iter :: "pyval \<Rightarrow> schema_error list"
  git_bytes :: "string list \<Rightarrow> string option"
  artifacts_dir :: "(string \<Rightarrow> artifact option) option"
  artifacts_real :: bool
  os_error :: "string \<Rightarrow> string"
  json_text :: "string \<Rightarrow> string + pyval"
  zip_members :: "string \<Rightarrow> string + zip_member list"

definition the_digests :: "world \<Rightarrow> digests" where
  "the_digests W = \<lparr>hex_sha256 = hex_sha256 W, float_text = float_text W\<rparr>"

section \<open>Schema errors\<close>

definition plain_key :: "string \<Rightarrow> bool" where
  "plain_key s \<longleftrightarrow> s \<noteq> [] \<and>
     hd s \<in> set ''abcdefghijklmnopqrstuvwxyzABCDEFGHIJKLMNOPQRSTUVWXYZ_'' \<and>
     list_all (\<lambda>c. c \<in> set ''abcdefghijklmnopqrstuvwxyzABCDEFGHIJKLMNOPQRSTUVWXYZ_0123456789'') s"

definition child_path :: "string \<Rightarrow> path_component \<Rightarrow> string" where
  "child_path path component =
     (case component of
        CIndex i \<Rightarrow> path @ ''['' @ int_str i @ '']''
      | CKey text \<Rightarrow>
          if plain_key text then path @ ''.'' @ text
          else (let q = [char_of (34::nat)] in path @ ''['' @ q @ ascii_json text @ q @ '']''))"

definition schema_errors :: "world \<Rightarrow> pyval \<Rightarrow> issue list" where
  "schema_errors W receipt =
     map (\<lambda>e.
       let path = foldl child_path ''$'' (se_path e) in
       if se_validator e = ''required'' then
         (case find (\<lambda>name. name \<notin> set (se_instance e)) (se_required e) of
            Some missing \<Rightarrow> Issue (child_path path (CKey missing)) ''required property is missing''
          | None \<Rightarrow> Issue path (se_message e))
       else if se_validator e = ''additionalProperties''
       then Issue path ''additional property is not allowed''
       else Issue path (se_message e)) (schema_iter W receipt)"

section \<open>The frozen task registry\<close>

definition safe_task_id :: "string \<Rightarrow> bool" where
  "safe_task_id s \<longleftrightarrow> s \<noteq> [] \<and> length s \<le> 192 \<and>
     hd s \<in> set ''ABCDEFGHIJKLMNOPQRSTUVWXYZabcdefghijklmnopqrstuvwxyz0123456789'' \<and>
     list_all (\<lambda>c. c \<in> set ''ABCDEFGHIJKLMNOPQRSTUVWXYZabcdefghijklmnopqrstuvwxyz0123456789_.-'') (tl s)"

definition task_registry_invariants :: "world \<Rightarrow> pydict \<Rightarrow> issue list" where
  "task_registry_invariants W receipt =
     (let task = task_definition receipt in
      if task = [] then []
      else (case dget task ''id'' of
        PStr task_id \<Rightarrow>
          if \<not> safe_task_id task_id
          then [Issue ''$.task.definition.id'' ''must identify one safe installed frozen task'']
          else (case map_of definitions_dir (task_id @ ''.json'') of
             None \<Rightarrow> [Issue ''$.task.definition.id'' (''cannot resolve frozen task '' @ str_repr task_id @
               '': '' @ os_error W (task_id @ ''.json''))]
           | Some frozen \<Rightarrow>
               issue_if (py_ne (PDict task) (PDict frozen)) ''$.task.definition''
                 ''does not equal the installed frozen task definition'' @
               issue_if (py_ne (dget (as_dict (dget receipt ''task'')) ''sha256'')
                   (PStr (canonical_json_sha256 (the_digests W) (PDict frozen))))
                 ''$.task.sha256'' ''does not equal the installed frozen task digest'' @
               issue_if (py_ne (dget receipt ''freeze'') (dget frozen ''freeze''))
                 ''$.freeze'' ''must equal the freeze identifier in the frozen task'')
      | _ \<Rightarrow> [Issue ''$.task.definition.id'' ''must identify one safe installed frozen task'']))"

section \<open>Canonical provenance\<close>

definition canonical_invariants :: "pydict \<Rightarrow> issue list" where
  "canonical_invariants receipt =
     (let source = as_dict (dget receipt ''source'');
          requested = dget (as_dict (dget receipt ''execution'')) ''requested_canonical'';
          expected = (requested = PBool True \<and> dget source ''git_commit'' \<noteq> PNone \<and>
            dget source ''git_dirty'' = PBool False);
          canonical = dget receipt ''canonical''
      in issue_if (canonical \<noteq> PBool expected) ''$.canonical''
           ''must agree with requested mode and exact clean source provenance'' @
         issue_if (canonical = PBool True \<and> dget source ''git_commit'' = PNone)
           ''$.source.git_commit'' ''canonical receipt requires a Git commit'' @
         issue_if (canonical = PBool True \<and> dget source ''git_dirty'' \<noteq> PBool False)
           ''$.source.git_dirty'' ''canonical receipt requires clean source'' @
         issue_if (succeeded receipt \<and> requested = PBool True \<and> \<not> expected)
           ''$.execution.requested_canonical'' ''a successful requested canonical run must be canonical'')"

definition git_commit_text :: "string \<Rightarrow> bool" where
  "git_commit_text s \<longleftrightarrow> hex_text 40 s \<or> hex_text 64 s"

definition ends_with :: "string \<Rightarrow> string \<Rightarrow> bool" where
  "ends_with p s \<longleftrightarrow> starts_with (rev p) (rev s)"

text \<open>\<open>Path(name).suffix\<close>: from the last dot of the last part, unless it begins or ends the part.\<close>

definition path_suffix :: "string \<Rightarrow> string" where
  "path_suffix name =
     (let base = (if path_parts name = [] then [] else last (path_parts name));
          ext = rev (before_char (CHR ''.'') (rev base))
      in if CHR ''.'' \<notin> set base \<or> ext = [] \<or> length ext + 1 = length base then []
         else CHR ''.'' # ext)"

definition is_source_path :: "string \<Rightarrow> bool" where
  "is_source_path name \<longleftrightarrow>
     name \<in> {''run_pilot.py'', ''pyproject.toml'', ''PROTOCOL.md''} \<or>
     (starts_with ''btb/'' name \<and> ends_with ''.py'' name) \<or>
     (starts_with ''btb/tasks/definitions/'' name \<and> ends_with ''.json'' name) \<or>
     (starts_with ''btb/app/templates/'' name \<and> ends_with ''.html'' name) \<or>
     (starts_with ''btb/schemas/'' name \<and> path_suffix name \<in> {''.json'', ''.py''})"

text \<open>\<open>str.splitlines\<close> at the ASCII line boundaries; Git quotes every other special character.\<close>

definition line_end :: "char \<Rightarrow> bool" where
  "line_end c \<longleftrightarrow> (of_char c :: nat) \<in> {10, 11, 12, 13, 28, 29, 30}"

function split_lines :: "string \<Rightarrow> string list" where
  "split_lines s =
     (if s = [] then []
      else (let line = takeWhile (\<lambda>c. \<not> line_end c) s; rest = dropWhile (\<lambda>c. \<not> line_end c) s in
        if map of_char (take 2 rest) = [13, 10 :: nat] then line # split_lines (drop 2 rest)
        else line # split_lines (drop 1 rest)))"
  by pat_completeness auto
termination
proof (relation "measure length", goal_cases)
  case (2 s line rest)
  then have "length rest \<le> length s" "0 < length s" by (simp_all add: length_dropWhile_le)
  then show ?case by (cases s) auto
next
  case (3 s line rest)
  then have "length rest \<le> length s" "0 < length s" by (simp_all add: length_dropWhile_le)
  then show ?case by (cases s) auto
qed simp

declare split_lines.simps [simp del]

definition commit_source_paths :: "world \<Rightarrow> string \<Rightarrow> string list option" where
  "commit_source_paths W commit =
     map_option (\<lambda>output. sort (filter is_source_path (split_lines output)))
       (git_bytes W [''ls-tree'', ''-r'', ''--name-only'', commit])"

text \<open>\<open>n.to_bytes(8, "big")\<close>.\<close>

definition be64 :: "nat \<Rightarrow> string" where
  "be64 n = map (\<lambda>i. char_of (n div 256 ^ (7 - i) mod 256)) [0..<8]"

definition framed :: "string \<Rightarrow> string" where
  "framed s = be64 (length s) @ s"

definition framed_files :: "string list \<Rightarrow> string list \<Rightarrow> string" where
  "framed_files paths contents = concat (map2 (\<lambda>name content. framed name @ framed content) paths contents)"

definition commit_source_sha256 :: "world \<Rightarrow> string \<Rightarrow> string option" where
  "commit_source_sha256 W commit =
     (case commit_source_paths W commit of
        None \<Rightarrow> None
      | Some paths \<Rightarrow>
          if paths = [] then None
          else map_option (\<lambda>contents. hex_sha256 W (framed_files paths contents))
            (mapM (\<lambda>name. git_bytes W [''show'', commit @ '':'' @ name]) paths))"

definition source_commit_invariants :: "world \<Rightarrow> bool \<Rightarrow> pydict \<Rightarrow> issue list" where
  "source_commit_invariants W has_repo receipt =
     (let source = as_dict (dget receipt ''source'') in
      if dget receipt ''canonical'' \<noteq> PBool True then []
      else if \<not> has_repo then [Issue ''$.source.git_commit''
        ''canonical validation requires a source repository for commit verification'']
      else (case dget source ''git_commit'' of
        PStr commit \<Rightarrow>
          if \<not> git_commit_text commit
          then [Issue ''$.source.git_commit'' ''must be an exact hexadecimal Git object ID'']
          else (case commit_source_sha256 W commit of
             None \<Rightarrow> [Issue ''$.source.git_commit''
               ''cannot reconstruct frozen source bytes from the claimed commit'']
           | Some reconstructed \<Rightarrow>
               issue_if (py_ne (PStr reconstructed) (dget source ''source_tree_sha256''))
                 ''$.source.source_tree_sha256''
                 ''does not match executable source bytes reconstructed from the Git commit'')
      | _ \<Rightarrow> [Issue ''$.source.git_commit'' ''must be an exact hexadecimal Git object ID'']))"

section \<open>Every invariant\<close>

definition invariant_errors :: "world \<Rightarrow> bool \<Rightarrow> pyval \<Rightarrow> issue list option" where
  "invariant_errors W has_repo receipt =
     (case receipt of
        PDict r \<Rightarrow> do {
          content \<leftarrow> content_invariants (the_digests W) r;
          baseline \<leftarrow> baseline_invariants (the_digests W) r;
          filesystem \<leftarrow> framework_filesystem_invariants r;
          status \<leftarrow> status_invariants r;
          identity \<leftarrow> snapshot_identity_invariants r;
          sends \<leftarrow> send_invariants r;
          injection \<leftarrow> injection_invariants r;
          evaluation \<leftarrow> evaluation_invariants r;
          Some (content @ baseline @ filesystem @ task_registry_invariants W r @ status @ identity @
            initial_state_invariants r @ sends @ injection @ evaluation @ canonical_invariants r @
            source_commit_invariants W has_repo r)
        }
      | _ \<Rightarrow> Some [Issue ''$'' ''receipt must be a JSON object''])"

definition validate_receipt :: "world \<Rightarrow> bool \<Rightarrow> pyval \<Rightarrow> issue list option" where
  "validate_receipt W has_repo receipt =
     map_option (\<lambda>issues. stable_issues (schema_errors W receipt @ issues))
       (invariant_errors W has_repo receipt)"

end
