(* ===== verification/Receipt_Artifacts.thy ===== *)
theory Receipt_Artifacts
  imports Receipt_Validator
begin

text \<open>
  The artifacts a receipt binds: the sandbox inventory and the execution trace, and the
  validation of a loaded receipt with both (\<open>_read_bounded_artifact\<close> to
  \<open>validate_loaded_receipt\<close> of \<open>src/btb/harness/validate_manifest.py\<close>).
\<close>

section \<open>Reading one artifact\<close>

definition max_inventory_entries :: nat where "max_inventory_entries = 4096"
definition max_inventory_file_bytes :: int where "max_inventory_file_bytes = 64 * 1024 * 1024"
definition max_inventory_total_bytes :: int where "max_inventory_total_bytes = 256 * 1024 * 1024"
definition max_inventory_artifact_bytes :: int where "max_inventory_artifact_bytes = 16 * 1024 * 1024"
definition max_trace_artifact_bytes :: int where "max_trace_artifact_bytes = 64 * 1024 * 1024"
definition max_trace_zip_members :: nat where "max_trace_zip_members = 4096"
definition max_trace_zip_bytes :: int where "max_trace_zip_bytes = 64 * 1024 * 1024"

text \<open>The text of the exception, or the bytes.\<close>

definition read_bounded_artifact :: "world \<Rightarrow> string \<Rightarrow> int \<Rightarrow> string \<Rightarrow> string + string" where
  "read_bounded_artifact W name max_bytes label =
     (if name = [] \<or> path_parts name \<noteq> [name] \<or> name \<in> {''.'', ''..''}
      then Inl (label @ '' artifact name is not one safe path component'')
      else if max_bytes < 0 then Inl ''artifact byte limit must be nonnegative''
      else (case artifacts_dir W of
        None \<Rightarrow> Inl (os_error W ''artifacts'')
      | Some files \<Rightarrow>
          if \<not> artifacts_real W then Inl (label @ '' artifact directory is not a real directory'')
          else (case files name of
            None \<Rightarrow> Inl (os_error W name)
          | Some NotRegular \<Rightarrow> Inl (label @ '' artifact is not a regular file'')
          | Some (Regular content) \<Rightarrow>
              if int (length content) > max_bytes
              then Inl (label @ '' artifact exceeds the bounded size limit'')
              else Inr content)))"

section \<open>The sandbox inventory\<close>

definition key_set :: "pydict \<Rightarrow> string list \<Rightarrow> bool" where
  "key_set d keys \<longleftrightarrow> set (map fst d) = set keys"

definition inventory_at :: "string \<Rightarrow> string" where
  "inventory_at rest = ''$.framework_filesystem.inventory'' @ rest"

text \<open>A regular file entry with a size in bounds and a digest; \<open>None\<close> when it is malformed.\<close>

definition file_entry_size :: "pydict \<Rightarrow> int option" where
  "file_entry_size entry =
     (case (dget entry ''size_bytes'', dget entry ''sha256'') of
        (PInt n, PStr digest) \<Rightarrow>
          if key_set entry [''path'', ''type'', ''size_bytes'', ''sha256''] \<and> 0 \<le> n \<and>
             n \<le> max_inventory_file_bytes \<and> hex_text 64 digest
          then Some n else None
      | _ \<Rightarrow> None)"

text \<open>What the loop over the entries accumulates.\<close>

record inventory_scan =
  scan_issues :: "issue list"
  scan_paths :: "string list"
  scan_bytes :: int
  scan_files :: nat

definition scan_entry :: "inventory_scan \<Rightarrow> nat \<times> pyval \<Rightarrow> inventory_scan" where
  "scan_entry acc indexed =
     (case indexed of (index, v) \<Rightarrow>
       (let here = inventory_at (''.entries['' @ nat_str index @ '']'') in
        case v of
          PDict entry \<Rightarrow>
            (let path = dget entry ''path'';
                 safe = safe_inventory_path path;
                 entry_type = dget entry ''type'';
                 acc1 = (if safe then acc\<lparr>scan_paths := scan_paths acc @ [py_str path]\<rparr>
                   else acc\<lparr>scan_issues := scan_issues acc @
                     [Issue (here @ ''.path'') ''must be a safe relative sandbox path'']\<rparr>)
             in if entry_type = PStr ''directory'' then
                  acc1\<lparr>scan_issues := scan_issues acc1 @ issue_if (\<not> key_set entry [''path'', ''type''])
                    here ''directory entry must contain only path and type''\<rparr>
                else if entry_type = PStr ''regular_file'' then
                  (case file_entry_size entry of
                     None \<Rightarrow> acc1\<lparr>scan_issues := scan_issues acc1 @
                       [Issue here ''regular file entry must have a nonnegative size and SHA256'']\<rparr>
                   | Some n \<Rightarrow> acc1\<lparr>scan_bytes := scan_bytes acc1 + n,
                       scan_files := Suc (scan_files acc1)\<rparr>)
                else acc1\<lparr>scan_issues := scan_issues acc1 @
                  [Issue (here @ ''.type'') ''must be directory or regular_file'']\<rparr>)
        | _ \<Rightarrow> acc\<lparr>scan_issues := scan_issues acc @ [Issue here ''must be an object'']\<rparr>))"

definition scan_inventory :: "pyval list \<Rightarrow> inventory_scan" where
  "scan_inventory entries =
     foldl scan_entry \<lparr>scan_issues = [], scan_paths = [], scan_bytes = 0, scan_files = 0\<rparr>
       (enumerate 0 entries)"

definition inventory_entry_issues :: "world \<Rightarrow> pydict \<Rightarrow> pydict \<Rightarrow> pyval list \<Rightarrow> issue list" where
  "inventory_entry_issues W metadata inventory entries =
     (let scan = scan_inventory entries;
          comparisons =
            [(''entry_count'', PInt (int (length entries))), (''file_count'', PInt (int (scan_files scan))),
             (''total_bytes'', PInt (scan_bytes scan)),
             (''inventory_sha256'', PStr (canonical_json_sha256 (the_digests W)
                (PDict [(''entries'', PList entries)])))]
      in issue_if (length entries > max_inventory_entries) (inventory_at ''.entries'')
           ''exceeds the bounded sandbox entry limit'' @
         scan_issues scan @
         issue_if (scan_paths scan \<noteq> sort (scan_paths scan) \<or> \<not> distinct (scan_paths scan))
           (inventory_at ''.entries'') ''paths must be sorted and unique'' @
         issue_if (scan_bytes scan > max_inventory_total_bytes) (inventory_at ''.total_bytes'')
           ''exceeds the bounded sandbox byte limit'' @
         concat (map (\<lambda>(field, expected).
           issue_if (py_ne (dget inventory field) expected \<or> py_ne (dget metadata field) expected)
             (inventory_at (CHR ''.'' # field)) ''does not match the bounded inventory artifact'') comparisons))"

definition inventory_content_issues :: "world \<Rightarrow> pydict \<Rightarrow> string \<Rightarrow> pyval \<Rightarrow> issue list" where
  "inventory_content_issues W metadata content v =
     issue_if (py_ne (PInt (int (length content))) (dget metadata ''size_bytes''))
       (inventory_at ''.size_bytes'') ''does not match the bound artifact'' @
     issue_if (py_ne (PStr (hex_sha256 W content)) (dget metadata ''sha256''))
       (inventory_at ''.sha256'') ''does not match the bound artifact'' @
     (case v of
        PDict inventory \<Rightarrow>
          issue_if (\<not> key_set inventory [''version'', ''entries'', ''entry_count'', ''file_count'',
                ''total_bytes'', ''inventory_sha256''] \<or> py_ne (dget inventory ''version'') (PInt 1))
            (inventory_at []) ''artifact must contain the exact version-1 bounded inventory shape'' @
          (case dget inventory ''entries'' of
             PList entries \<Rightarrow> inventory_entry_issues W metadata inventory entries
           | _ \<Rightarrow> [Issue (inventory_at ''.entries'') ''must be a list''])
      | _ \<Rightarrow> [Issue (inventory_at []) ''artifact must contain an inventory object''])"

definition unreadable_inventory :: "string \<Rightarrow> issue" where
  "unreadable_inventory exc =
     Issue (inventory_at ''.path'') (''cannot read bound inventory artifact: '' @ exc)"

definition framework_inventory_artifact_errors :: "world \<Rightarrow> pyval \<Rightarrow> issue list" where
  "framework_inventory_artifact_errors W receipt =
     (case dget (as_dict (dget (as_dict receipt) ''framework_filesystem'')) ''inventory'' of
        PDict metadata \<Rightarrow>
          (case safe_artifact_path (dget metadata ''path'') of
             None \<Rightarrow> [Issue (inventory_at ''.path'')
               ''must be one safe artifact path under the receipt directory'']
           | Some name \<Rightarrow>
               (case read_bounded_artifact W name max_inventory_artifact_bytes ''inventory'' of
                  Inl exc \<Rightarrow> [unreadable_inventory exc]
                | Inr content \<Rightarrow>
                    (case json_text W content of
                       Inl exc \<Rightarrow> [unreadable_inventory exc]
                     | Inr v \<Rightarrow> inventory_content_issues W metadata content v)))
      | _ \<Rightarrow> [])"

section \<open>The execution trace\<close>

text \<open>
  The two regular expressions that find capability tokens. Each is a chain of literals and
  runs of white space around one group, so there is one way to match at a position; the
  result is the group and the rest after the match.
\<close>

definition ascii_space :: "char \<Rightarrow> bool" where
  "ascii_space c \<longleftrightarrow> (let n = of_char c :: nat in n = 32 \<or> (9 \<le> n \<and> n \<le> 13))"

definition skip_spaces :: "string \<Rightarrow> string" where
  "skip_spaces s = dropWhile ascii_space s"

definition literal :: "string \<Rightarrow> string \<Rightarrow> string option" where
  "literal p s = (if starts_with p s then Some (drop (length p) s) else None)"

definition literal_nocase :: "string \<Rightarrow> string \<Rightarrow> string option" where
  "literal_nocase p s =
     (if map lower_char (take (length p) s) = map lower_char p then Some (drop (length p) s) else None)"

definition quoted :: "string \<Rightarrow> string" where
  "quoted s = (let q = char_of (34::nat) in q # s @ [q])"

definition match_header :: "string \<Rightarrow> (string \<times> string) option" where
  "match_header s = do {
     s1 \<leftarrow> literal_nocase (quoted ''name'') s;
     s2 \<leftarrow> literal '':'' (skip_spaces s1);
     s3 \<leftarrow> literal_nocase (quoted ''X-BTB-UI-Token'') (skip_spaces s2);
     s4 \<leftarrow> literal '','' (skip_spaces s3);
     s5 \<leftarrow> literal_nocase (quoted ''value'') (skip_spaces s4);
     s6 \<leftarrow> literal '':'' (skip_spaces s5);
     s7 \<leftarrow> literal [char_of (34::nat)] (skip_spaces s6);
     let token = takeWhile (\<lambda>c. c \<noteq> char_of (34::nat)) s7;
     s8 \<leftarrow> literal [char_of (34::nat)] (drop (length token) s7);
     if token = [] then None else Some (token, s8)
   }"

definition optional_backslash :: "string \<Rightarrow> string" where
  "optional_backslash s = (case literal [char_of (92::nat)] s of None \<Rightarrow> s | Some r \<Rightarrow> r)"

definition match_script :: "string \<Rightarrow> (string \<times> string) option" where
  "match_script s = do {
     s1 \<leftarrow> literal ''btbUiToken'' s;
     s2 \<leftarrow> literal ''='' (skip_spaces s1);
     s3 \<leftarrow> literal [char_of (34::nat)] (optional_backslash (skip_spaces s2));
     let token = takeWhile (\<lambda>c. c \<noteq> char_of (34::nat) \<and> c \<noteq> char_of (92::nat)) s3;
     s4 \<leftarrow> literal [char_of (34::nat)] (optional_backslash (drop (length token) s3));
     if token = [] then None else Some (token, s4)
   }"

text \<open>\<open>pattern.findall\<close>: leftmost matches that do not overlap. A match consumes at least one byte.\<close>

function find_all :: "(string \<Rightarrow> (string \<times> string) option) \<Rightarrow> string \<Rightarrow> string list" where
  "find_all m s =
     (case s of
        [] \<Rightarrow> []
      | c # r \<Rightarrow>
          (case m s of
             Some (token, rest) \<Rightarrow>
               if length rest < length s then token # find_all m rest else find_all m r
           | None \<Rightarrow> find_all m r))"
  by pat_completeness auto
termination by (relation "measure (\<lambda>(m, s). length s)") auto

declare find_all.simps [simp del]

definition tokens_in :: "string \<Rightarrow> string list" where
  "tokens_in payload = find_all match_header payload @ find_all match_script payload"

text \<open>The loop over the archive: the running total and the tokens found so far.\<close>

fun scan_members :: "int \<Rightarrow> zip_member list \<Rightarrow> string + string list" where
  "scan_members used [] = Inr []"
| "scan_members used (info # infos) =
     (if zm_dir info then scan_members used infos
      else if zm_size info < 0 \<or> zm_size info > max_trace_zip_bytes
      then Inl ''trace ZIP member exceeds the bounded byte limit''
      else if used + zm_size info > max_trace_zip_bytes
      then Inl ''trace ZIP exceeds the bounded uncompressed byte limit''
      else (case zm_read info of
        Inl exc \<Rightarrow> Inl exc
      | Inr stored \<Rightarrow>
          (let payload = take (nat (zm_size info + 1)) stored in
           if int (length payload) \<noteq> zm_size info then Inl ''trace ZIP member changed while reading''
           else map_sum id (\<lambda>rest. tokens_in payload @ rest) (scan_members (used + zm_size info) infos))))"

definition trace_zip_tokens :: "world \<Rightarrow> string \<Rightarrow> string + string list" where
  "trace_zip_tokens W content =
     (case zip_members W content of
        Inl exc \<Rightarrow> Inl exc
      | Inr infos \<Rightarrow>
          if length infos > max_trace_zip_members
          then Inl ''trace ZIP exceeds the bounded member limit''
          else scan_members 0 infos)"

definition redacted_token :: string where
  "redacted_token = ''<redacted:BTB_UI_TOKEN>''"

definition trace_content_issues :: "world \<Rightarrow> pydict \<Rightarrow> string \<Rightarrow> issue list" where
  "trace_content_issues W trace content =
     issue_if (py_ne (PInt (int (length content))) (dget trace ''size_bytes''))
       ''$.trace.size_bytes'' ''does not match the bound artifact'' @
     issue_if (py_ne (PStr (hex_sha256 W content)) (dget trace ''sha256''))
       ''$.trace.sha256'' ''does not match the bound artifact'' @
     (if dget trace ''format'' \<noteq> PStr ''playwright-trace-zip'' then []
      else (case trace_zip_tokens W content of
        Inl exc \<Rightarrow> [Issue ''$.trace.path'' (''is not a readable trace ZIP: '' @ exc)]
      | Inr discovered \<Rightarrow>
          issue_if (list_ex (\<lambda>token. token \<noteq> redacted_token) discovered) ''$.trace.redacted''
            ''Playwright trace still contains an unredacted UI capability token''))"

definition trace_artifact_errors :: "world \<Rightarrow> pyval \<Rightarrow> issue list" where
  "trace_artifact_errors W receipt =
     (case (succeeded (as_dict receipt), dget (as_dict receipt) ''trace'') of
        (True, PDict trace) \<Rightarrow>
          (case safe_artifact_path (dget trace ''path'') of
             None \<Rightarrow> [Issue ''$.trace.path'' ''must be one safe artifact path under the receipt directory'']
           | Some name \<Rightarrow>
               (case read_bounded_artifact W name max_trace_artifact_bytes ''trace'' of
                  Inl exc \<Rightarrow> [Issue ''$.trace.path'' (''cannot read bound trace artifact: '' @ exc)]
                | Inr content \<Rightarrow> trace_content_issues W trace content))
      | _ \<Rightarrow> [])"

section \<open>A loaded receipt\<close>

definition validate_loaded_receipt :: "world \<Rightarrow> bool \<Rightarrow> pyval \<Rightarrow> issue list option" where
  "validate_loaded_receipt W has_repo receipt =
     map_option (\<lambda>issues. stable_issues (issues @ trace_artifact_errors W receipt @
         framework_inventory_artifact_errors W receipt))
       (validate_receipt W has_repo receipt)"

text \<open>\<open>validate_file\<close>, given the text of the file, which is UTF-8, or the error of opening it.\<close>

definition validate_file :: "world \<Rightarrow> bool \<Rightarrow> string + string \<Rightarrow> issue list option" where
  "validate_file W has_repo file =
     (case file of
        Inl exc \<Rightarrow> Some [Issue ''$'' (''cannot read JSON receipt: '' @ exc)]
      | Inr txt \<Rightarrow>
          (case json_text W txt of
             Inl exc \<Rightarrow> Some [Issue ''$'' (''cannot read JSON receipt: '' @ exc)]
           | Inr receipt \<Rightarrow> validate_loaded_receipt W has_repo receipt))"

end
