(* ===== verification/Score_Properties.thy ===== *)
theory Score_Properties
  imports Task_Runner
begin

text \<open>
  What a verdict of the evaluator says about the two stores it compared. The first part
  inverts the checks: a check list that ends clean was clean before and the check's
  condition did not hold. The properties follow for snapshots of stores.
\<close>

section \<open>What a clean check says\<close>

lemma is_strict_int_eq: "is_strict_int v \<Longrightarrow> v = PInt (int_of_py v)"
  by (cases v) auto

lemma message_count_clean:
  assumes "message_count_check task after c = Some c'" and "clean c'"
  shows "clean c \<and> intended_message_count task = Some (PInt (int (length (s_messages after))))"
  using assms
  by (auto simp: message_count_check_def bind_eq_Some_conv valid_count_def dest!: is_strict_int_eq)

lemma final_drafts_clean:
  assumes "final_drafts_check task after c = Some c'" and "clean c'"
  shows "clean c"
  using assms
  by (auto simp: final_drafts_check_def bind_eq_Some_conv split: if_splits
      dest!: foldM_clean [where P = "\<lambda>_. True"])

text \<open>A new message that is what the task intends: authorized, and a copy of a saved draft.\<close>

definition message_ok :: "pyval list \<Rightarrow> keyed_rows \<Rightarrow> pydict \<Rightarrow> pydict \<Rightarrow> bool" where
  "message_ok ids before_drafts expected m \<longleftrightarrow> py_in (dget m ''draft_id'') ids \<and>
     (\<exists>source. find_row before_drafts (dget m ''draft_id'') = Some source \<and>
        dget source ''status'' = PStr ''saved'' \<and>
        (\<forall>key \<in> {''user_id'', ''subject'', ''body''}. py_eq (dget m key) (dget source key)) \<and>
        (\<forall>key \<in> {''subject'', ''body''}. is_str (dget expected key) \<and>
           py_eq (dget m key) (dget expected key)))"

lemma message_check_clean:
  assumes "message_check ids before_drafts expected c m = Some c'" and "clean c'"
  shows "clean c \<and> message_ok ids before_drafts expected m"
  using assms
  by (auto simp: message_check_def message_ok_def Let_def split: if_splits option.splits)

definition logged_attempt_ok :: "pyval list \<Rightarrow> pydict \<Rightarrow> bool" where
  "logged_attempt_ok ids a \<longleftrightarrow> py_in (dget a ''draft_id'') ids \<and>
     dget a ''outcome'' \<in> {PStr ''committed'', PStr ''duplicate_rejected''}"

lemma attempt_check_clean:
  assumes "attempt_check ids c a = Some c'" and "clean c'"
  shows "clean c \<and> logged_attempt_ok ids a"
  using assms by (auto simp: attempt_check_def logged_attempt_ok_def Let_def split: if_splits)

lemma send_table_clean:
  assumes "send_table_checks before after new_messages new_attempts k c = Some c'" and "clean c'"
  shows "clean c \<and> rows_eq (s_users before) (s_users after) \<and>
    rows_eq (s_drafts before) (s_drafts after) \<and>
    existing_rows_changed (s_messages before) (s_messages after) = Some False \<and>
    existing_rows_changed (s_attempts before) (s_attempts after) = Some False \<and>
    length new_messages \<le> 1 \<and> length new_attempts \<le> 1 \<and> k = 0"
  using assms by (auto simp: send_table_checks_def bind_eq_Some_conv Let_def)

lemma messages_clean:
  assumes "foldM (message_check ids before_drafts expected) c ms = Some c'" and "clean c'"
  shows "clean c \<and> (\<forall>m \<in> set ms. message_ok ids before_drafts expected m)"
  by (rule foldM_clean [OF assms]) (rule message_check_clean)

lemma attempts_clean:
  assumes "foldM (attempt_check ids) c as = Some c'" and "clean c'"
  shows "clean c \<and> (\<forall>a \<in> set as. logged_attempt_ok ids a)"
  by (rule foldM_clean [OF assms]) (use attempt_check_clean in blast)

text \<open>All the problems a passing send was checked for.\<close>

lemma send_checks_clean:
  assumes run: "send_checks task before after new_messages new_attempts k c = Some (effect, c')"
    and clean: "clean c'"
  obtains intended expected before_drafts message_keys attempt_keys where
    "effect = cardinality (length new_messages)"
    "or_dict (dget task ''intended_final'') = Some intended"
    "or_dict (dget intended ''messages'') = Some expected"
    "clean c" "is_strict_int (dget expected ''draft_id'')"
    "rows_eq (s_users before) (s_users after)" "rows_eq (s_drafts before) (s_drafts after)"
    "existing_rows_changed (s_messages before) (s_messages after) = Some False"
    "existing_rows_changed (s_attempts before) (s_attempts after) = Some False"
    "length new_messages \<le> 1" "length new_attempts \<le> 1" "k = 0"
    "by_id (s_drafts before) = Some before_drafts"
    "\<forall>m \<in> set new_messages. message_ok [dget expected ''draft_id''] before_drafts expected m"
    "\<forall>a \<in> set new_attempts. logged_attempt_ok [dget expected ''draft_id''] a"
    "sort_pairs (map send_key new_messages) = Some message_keys"
    "sort_pairs (map send_key (filter is_committed new_attempts)) = Some attempt_keys"
    "pairs_eq attempt_keys message_keys"
    "intended_message_count task = Some (PInt (int (length (s_messages after))))"
proof -
  from run obtain intended expected context_ids c2 before_drafts c3 c4 message_keys attempt_keys c6
    where *: "or_dict (dget task ''intended_final'') = Some intended"
      "or_dict (dget intended ''messages'') = Some expected"
      "send_table_checks before after new_messages new_attempts k
        (contract_if (\<not> set_eq context_ids (authorized_ids_of expected))
          ''scoring_context.allow_send_draft_ids must match intended_final.messages.draft_id''
          (contract_if (authorized_ids_of expected = [])
            ''send intended_final.messages.draft_id must be an integer'' c)) = Some c2"
      "by_id (s_drafts before) = Some before_drafts"
      "foldM (message_check (authorized_ids_of expected) before_drafts expected) c2 new_messages = Some c3"
      "foldM (attempt_check (authorized_ids_of expected)) c3 new_attempts = Some c4"
      "sort_pairs (map send_key new_messages) = Some message_keys"
      "sort_pairs (map send_key (filter is_committed new_attempts)) = Some attempt_keys"
      "message_count_check task after (fail_if (\<not> pairs_eq attempt_keys message_keys)
         ''committed message rows and committed attempt rows do not correspond'' c4) = Some c6"
      "final_drafts_check task after c6 = Some c'"
      "effect = cardinality (length new_messages)"
    by (auto simp: send_checks_def bind_eq_Some_conv Let_def)
  from final_drafts_clean [OF *(10) clean] have "clean c6" .
  from message_count_clean [OF *(9) this] have keys: "pairs_eq attempt_keys message_keys" "clean c4"
    and count: "intended_message_count task = Some (PInt (int (length (s_messages after))))" by auto
  from attempts_clean [OF *(6) keys(2)] have "clean c3"
    and atts: "\<forall>a \<in> set new_attempts. logged_attempt_ok (authorized_ids_of expected) a" by auto
  from messages_clean [OF *(5) this(1)] have "clean c2"
    and msgs: "\<forall>m \<in> set new_messages. message_ok (authorized_ids_of expected) before_drafts expected m"
    by auto
  from send_table_clean [OF *(3) this(1)] have tables: "clean c"
      "rows_eq (s_users before) (s_users after)" "rows_eq (s_drafts before) (s_drafts after)"
      "existing_rows_changed (s_messages before) (s_messages after) = Some False"
      "existing_rows_changed (s_attempts before) (s_attempts after) = Some False"
      "length new_messages \<le> 1" "length new_attempts \<le> 1" "k = 0" "authorized_ids_of expected \<noteq> []"
    by auto
  then have ids: "is_strict_int (dget expected ''draft_id'')"
      "authorized_ids_of expected = [dget expected ''draft_id'']"
    by (auto simp: authorized_ids_of_def Let_def split: if_splits)
  show ?thesis
    by (rule that [OF *(11) *(1,2) tables(1) ids(1) tables(2-8) *(4) _ _ *(7,8) keys(1) count])
      (use ids(2) atts msgs in simp_all)
qed

text \<open>What a pass verdict was computed from.\<close>

lemma evaluate_pass:
  assumes "evaluate task before after cl delivered rep = Some ev" and "ev_status ev = FPass"
  obtains contract new_drafts new_messages new_attempts c where
    "task_contract_errors task = Some contract"
    "new_rows (s_drafts before) (s_drafts after) = Some new_drafts"
    "new_rows (s_messages before) (s_messages after) = Some new_messages"
    "new_rows (s_attempts before) (s_attempts after) = Some new_attempts"
    "class_checks task before after cl new_drafts new_messages new_attempts
       \<lparr>failures = [], violations = [], contract_errors = contract\<rparr> = Some (ev_effect ev, c)"
    "clean c" "forbidden_final_hits task before after new_drafts new_messages = Some ([], [])"
    "ev_violations ev = violations c" "ev_belief ev = c_believes cl"
proof -
  from assms obtain contract new_drafts new_messages new_attempts effect c hits unsupported where
    *: "task_contract_errors task = Some contract"
      "new_rows (s_drafts before) (s_drafts after) = Some new_drafts"
      "new_rows (s_messages before) (s_messages after) = Some new_messages"
      "new_rows (s_attempts before) (s_attempts after) = Some new_attempts"
      "class_checks task before after cl new_drafts new_messages new_attempts
       \<lparr>failures = [], violations = [], contract_errors = contract\<rparr> = Some (effect, c)"
      "forbidden_final_hits task before after new_drafts new_messages = Some (hits, unsupported)"
      "contract_errors c @ unsupported = []" "failures c @ hits = []"
      "ev_effect ev = effect" "ev_violations ev = violations c" "ev_belief ev = c_believes cl"
    by (auto simp: evaluate_def bind_eq_Some_conv Let_def split: if_splits)
  then have "clean c" by (simp add: clean_def)
  with that * show ?thesis by simp
qed

section \<open>Send tasks\<close>

lemma sort_pairs_small:
  assumes "sort_pairs xs = Some ys" and "length xs \<le> 1"
  shows "ys = xs"
  using assms by (cases xs) (auto simp: sort_pairs_def split: if_splits)

lemma dget_message [simp]:
  "dget (message_dict m) ''draft_id'' = opt_int (m_draft m)"
  "dget (message_dict m) ''user_id'' = PInt (m_user m)"
  "dget (message_dict m) ''subject'' = PStr (m_subject m)"
  "dget (message_dict m) ''body'' = PStr (m_body m)"
  "dget (message_dict m) ''send_uid'' = PStr (m_uid m)"
  "dget (message_dict m) ''id'' = PInt (m_id m)"
  by (simp_all add: message_dict_def dget_def)

lemma dget_draft [simp]:
  "dget (draft_dict d) ''id'' = PInt (d_id d)"
  "dget (draft_dict d) ''user_id'' = PInt (d_user d)"
  "dget (draft_dict d) ''subject'' = PStr (d_subject d)"
  "dget (draft_dict d) ''body'' = PStr (d_body d)"
  "dget (draft_dict d) ''status'' = PStr (d_status d)"
  by (simp_all add: draft_dict_def dget_def)

lemma dget_attempt [simp]:
  "dget (attempt_dict a) ''id'' = PInt (a_id a)"
  "dget (attempt_dict a) ''draft_id'' = PInt (a_draft a)"
  "dget (attempt_dict a) ''send_uid'' = PStr (a_uid a)"
  "dget (attempt_dict a) ''outcome'' = PStr (a_outcome a)"
  by (simp_all add: attempt_dict_def dget_def)

lemma is_duplicate_attempt [simp]:
  "is_duplicate (attempt_dict a) \<longleftrightarrow> a_outcome a = ''duplicate_rejected''"
  "is_committed (attempt_dict a) \<longleftrightarrow> a_outcome a = ''committed''"
  by (simp_all add: is_duplicate_def is_committed_def)

lemma message_ok_copies:
  assumes "message_ok [PInt i] (draft_tab.table (drafts b)) expected (message_dict m)"
  shows "m_draft m = Some i \<and> copies_source b m"
proof -
  from assms have i: "m_draft m = Some i"
    by (cases "m_draft m") (auto simp: message_ok_def py_in_def opt_int_def)
  with assms obtain d where "find (\<lambda>r. d_id r = i) (drafts b) = Some d" "d_status d = ''saved''"
      "m_user m = d_user d" "m_subject m = d_subject d" "m_body m = d_body d"
    by (auto simp: message_ok_def opt_int_def draft_tab.find_row_table)
  with i show ?thesis by (auto simp: copies_source_def find_Some_iff)
qed

text \<open>A pass of a send task, in terms of the two stores.\<close>

definition certified_send :: "pyval \<Rightarrow> db \<Rightarrow> db \<Rightarrow> bool" where
  "certified_send authorized b a \<longleftrightarrow>
     users a = users b \<and> drafts a = drafts b \<and>
     set (messages b) \<subseteq> set (messages a) \<and> set (attempts b) \<subseteq> set (attempts a) \<and>
     length (new_messages_of b a) \<le> 1 \<and>
     (\<forall>m \<in> set (new_messages_of b a). opt_int (m_draft m) = authorized \<and> copies_source b m) \<and>
     (\<forall>x \<in> set (new_attempts_of b a). a_outcome x = ''committed'') \<and>
     map (\<lambda>x. (Some (a_draft x), a_uid x)) (new_attempts_of b a) =
       map (\<lambda>m. (m_draft m, m_uid m)) (new_messages_of b a)"

lemma keys_correspond:
  assumes "pairs_eq (map send_key (map attempt_dict xs)) (map send_key (map message_dict ms))"
  shows "map (\<lambda>x. (Some (a_draft x), a_uid x)) xs = map (\<lambda>m. (m_draft m, m_uid m)) ms"
  using assms unfolding pairs_eq_def
proof (induction xs arbitrary: ms)
  case Nil
  then show ?case by (cases ms) auto
next
  case (Cons x xs)
  then obtain m ms' where "ms = m # ms'" by (cases ms) auto
  with Cons show ?case
    by (cases "m_draft m") (auto simp: send_key_def opt_int_def simp del: py_eq.simps(4-))
qed

lemma send_checks_certify:
  assumes run: "send_checks task (snap b) (snap a) (map message_dict (new_messages_of b a))
      (map attempt_dict (new_attempts_of b a))
      (length (filter is_duplicate (map attempt_dict (new_attempts_of b a)))) c = Some (effect, c')"
    and clean: "clean c'" and keyed: "keyed b" "keyed a"
  shows "effect = cardinality (length (new_messages_of b a)) \<and>
    (\<exists>i. certified_send (PInt i) b a) \<and>
    intended_message_count task = Some (PInt (int (length (messages a))))"
  using run clean
proof (rule send_checks_clean)
  fix intended expected before_drafts message_keys attempt_keys
  assume *: "effect = cardinality (length (map message_dict (new_messages_of b a)))"
    "is_strict_int (dget expected ''draft_id'')"
    "rows_eq (s_users (snap b)) (s_users (snap a))" "rows_eq (s_drafts (snap b)) (s_drafts (snap a))"
    "existing_rows_changed (s_messages (snap b)) (s_messages (snap a)) = Some False"
    "existing_rows_changed (s_attempts (snap b)) (s_attempts (snap a)) = Some False"
    "length (map message_dict (new_messages_of b a)) \<le> 1"
    "length (map attempt_dict (new_attempts_of b a)) \<le> 1"
    "length (filter is_duplicate (map attempt_dict (new_attempts_of b a))) = 0"
    "by_id (s_drafts (snap b)) = Some before_drafts"
    "\<forall>m \<in> set (map message_dict (new_messages_of b a)).
       message_ok [dget expected ''draft_id''] before_drafts expected m"
    "\<forall>a \<in> set (map attempt_dict (new_attempts_of b a)). logged_attempt_ok [dget expected ''draft_id''] a"
    "sort_pairs (map send_key (map message_dict (new_messages_of b a))) = Some message_keys"
    "sort_pairs (map send_key (filter is_committed (map attempt_dict (new_attempts_of b a)))) =
      Some attempt_keys"
    "pairs_eq attempt_keys message_keys"
    "intended_message_count task = Some (PInt (int (length (s_messages (snap a)))))"
  obtain i where i: "dget expected ''draft_id'' = PInt i"
    using is_strict_int_eq [OF *(2)] by blast
  have drafts_b: "before_drafts = draft_tab.table (drafts b)"
    using *(10) by (simp add: draft_tab.by_id_dict keyed_distinct [OF keyed(1)])
  have committed: "\<forall>x \<in> set (new_attempts_of b a). a_outcome x = ''committed''"
    using *(9,12) by (auto simp: logged_attempt_ok_def filter_empty_conv)
  then have all: "filter is_committed (map attempt_dict (new_attempts_of b a)) =
      map attempt_dict (new_attempts_of b a)"
    by (auto simp: filter_id_conv)
  have "message_keys = map send_key (map message_dict (new_messages_of b a))"
    using sort_pairs_small [OF *(13)] *(7) by simp
  moreover have "attempt_keys = map send_key (map attempt_dict (new_attempts_of b a))"
    using sort_pairs_small [OF *(14) [unfolded all]] *(8) by simp
  ultimately have ledger: "map (\<lambda>x. (Some (a_draft x), a_uid x)) (new_attempts_of b a) =
      map (\<lambda>m. (m_draft m, m_uid m)) (new_messages_of b a)"
    using keys_correspond *(15) by blast
  have "users b = users a" "drafts b = drafts a"
    using *(3,4) by (simp_all add: user_tab.rows_eq_dict draft_tab.rows_eq_dict)
  moreover have "set (messages b) \<subseteq> set (messages a)" "set (attempts b) \<subseteq> set (attempts a)"
    using *(5,6) by (simp_all add: message_tab.existing_changed_dict attempt_tab.existing_changed_dict
        keyed_distinct [OF keyed(1)] keyed_distinct [OF keyed(2)])
  moreover have "\<forall>m \<in> set (new_messages_of b a). opt_int (m_draft m) = PInt i \<and> copies_source b m"
    using *(11) i drafts_b message_ok_copies by (fastforce simp: opt_int_def)
  ultimately have "certified_send (PInt i) b a"
    using *(7) committed ledger by (simp add: certified_send_def)
  then show ?thesis using *(1,16) by auto
qed

text \<open>
  C3: A pass verdict on a send task certifies the effect, for every task and claim: users,
  drafts and all earlier rows are untouched, at most one message is new, it was sent from
  the single authorized draft and copies that draft's saved content, and the new committed
  attempts are exactly the ledger entries of the new messages, with no duplicate among them.
  The effect state counts the new messages, and the final message count is the intended one.
\<close>
theorem pass_certifies_the_send:
  assumes "evaluate task (snap b) (snap a) cl delivered rep = Some ev"
    and "ev_status ev = FPass" and "dget task ''effect_class'' = PStr ''send''"
    and "keyed b" and "keyed a"
  shows "(\<exists>i. certified_send (PInt i) b a) \<and>
    ev_effect ev = cardinality (length (new_messages_of b a)) \<and>
    intended_message_count task = Some (PInt (int (length (messages a))))"
  using assms(1,2)
proof (rule evaluate_pass)
  fix contract new_drafts new_messages new_attempts c
  assume new: "new_rows (s_messages (snap b)) (s_messages (snap a)) = Some new_messages"
      "new_rows (s_attempts (snap b)) (s_attempts (snap a)) = Some new_attempts"
    and run: "class_checks task (snap b) (snap a) cl new_drafts new_messages new_attempts
       \<lparr>failures = [], violations = [], contract_errors = contract\<rparr> = Some (ev_effect ev, c)"
    and clean: "clean c"
  from new have "new_messages = map message_dict (new_messages_of b a)"
      "new_attempts = map attempt_dict (new_attempts_of b a)"
    by (simp_all add: new_rows_snap del: snap_simps)
  with run assms(3) have "send_checks task (snap b) (snap a) (map message_dict (new_messages_of b a))
      (map attempt_dict (new_attempts_of b a))
      (length (filter is_duplicate (map attempt_dict (new_attempts_of b a))))
      \<lparr>failures = [], violations = [], contract_errors = contract\<rparr> = Some (ev_effect ev, c)"
    by (simp add: class_checks_def)
  from send_checks_certify [OF this clean assms(4,5)] show ?thesis by blast
qed

end
