(* ===== verification/Score_Verdicts.thy ===== *)
theory Score_Verdicts
  imports Score_Properties
begin

text \<open>
  The verdict on every pair of stores. \<open>adds c r P V\<close> says that a piece of the evaluator,
  started with the problems \<open>c\<close>, does not raise, adds no failure exactly when \<open>P\<close> holds,
  adds no contract error, and adds the violations \<open>V\<close>. The pieces compose, so the frozen
  tasks get exact verdicts: what passes, and which violations are named.
\<close>

section \<open>Pieces of the evaluator\<close>

lemma or_dict_PDict [simp]: "or_dict (PDict d) = Some d"
  by (simp add: or_dict_def)

definition adds :: "checks \<Rightarrow> checks option \<Rightarrow> bool \<Rightarrow> string set \<Rightarrow> bool" where
  "adds c r P V \<longleftrightarrow> (\<exists>c'. r = Some c' \<and> (failures c' = [] \<longleftrightarrow> failures c = [] \<and> P) \<and>
     contract_errors c' = contract_errors c \<and> set (violations c') = set (violations c) \<union> V)"

lemma adds_Some: "(failures c' = [] \<longleftrightarrow> failures c = [] \<and> P) \<Longrightarrow> contract_errors c' = contract_errors c \<Longrightarrow>
    set (violations c') = set (violations c) \<union> V \<Longrightarrow> adds c (Some c') P V"
  by (simp add: adds_def)

lemma adds_bind:
  assumes "adds c r P V" and "\<And>c'. adds c' (g c') Q W"
  shows "adds c (Option.bind r g) (P \<and> Q) (V \<union> W)"
proof -
  from assms(1) obtain c' where c': "r = Some c'" "failures c' = [] \<longleftrightarrow> failures c = [] \<and> P"
    "contract_errors c' = contract_errors c" "set (violations c') = set (violations c) \<union> V"
    by (auto simp: adds_def)
  from assms(2) [of c'] obtain c'' where "g c' = Some c''" "failures c'' = [] \<longleftrightarrow> failures c' = [] \<and> Q"
    "contract_errors c'' = contract_errors c'" "set (violations c'') = set (violations c') \<union> W"
    by (auto simp: adds_def)
  with c' show ?thesis by (auto simp: adds_def)
qed

lemma adds_foldM:
  assumes "\<And>c x. x \<in> set xs \<Longrightarrow> adds c (f c x) (P x) (V x)"
  shows "adds c (foldM f c xs) (\<forall>x \<in> set xs. P x) (\<Union>x \<in> set xs. V x)"
  using assms
proof (induction xs arbitrary: c)
  case Nil
  then show ?case by (simp add: adds_def)
next
  case (Cons x xs)
  have "foldM f c (x # xs) = Option.bind (f c x) (\<lambda>c'. foldM f c' xs)"
    by (simp split: option.splits)
  with adds_bind [OF Cons.prems Cons.IH, of x c] Cons.prems show ?case by simp
qed

lemma checks_effect [simp]:
  "failures (fail_if b m c) = [] \<longleftrightarrow> \<not> b \<and> failures c = []"
  "contract_if False m c = c"
  "set (violations (violate_if b v c)) = set (violations c) \<union> (if b then {v} else {})"
  by (auto simp: fail_if_def violate_if_def contract_if_def)

lemma message_count_adds:
  assumes "intended_message_count task = Some (PInt n)" and "0 \<le> n"
  shows "adds c (message_count_check task after c) (int (length (s_messages after)) = n) {}"
  using assms by (auto simp: message_count_check_def valid_count_def intro!: adds_Some)

text \<open>The one final draft a read or send task intends.\<close>

definition draft_spec :: "int \<Rightarrow> string \<Rightarrow> string \<Rightarrow> pyval" where
  "draft_spec i subject body =
     PDict [(''id'', PInt i), (''status'', PStr ''saved''), (''subject'', PStr subject),
            (''body'', PStr body)]"

definition draft_is :: "int \<Rightarrow> string \<Rightarrow> string \<Rightarrow> draft_row \<Rightarrow> bool" where
  "draft_is i subject body d \<longleftrightarrow>
     d_id d = i \<and> d_status d = ''saved'' \<and> d_subject d = subject \<and> d_body d = body"

lemma draft_mismatch_spec:
  "draft_mismatch (draft_tab.table ds) (draft_spec i subject body) =
     Some (\<not> (\<exists>d. find (\<lambda>d. d_id d = i) ds = Some d \<and> draft_is i subject body d))"
proof (cases "find (\<lambda>d. d_id d = i) ds")
  case None
  then show ?thesis
    by (simp add: draft_mismatch_def draft_spec_def get_row_def dget_def draft_tab.find_row_table)
next
  case (Some d)
  then have "d_id d = i" by (auto simp: find_Some_iff)
  with Some show ?thesis
    by (auto simp: draft_mismatch_def draft_spec_def get_row_def dget_def [of "(''id'', PInt i) # _"]
        draft_tab.find_row_table draft_is_def)
qed

lemma final_drafts_adds:
  assumes "or_dict (dget task ''intended_final'') = Some intended"
    and "or_iter (dget intended ''drafts'') = Some [draft_spec i subject body]"
    and "distinct (map d_id (drafts a))"
  shows "adds c (final_drafts_check task (snap a) c)
    (\<exists>d. drafts a = [d] \<and> draft_is i subject body d) {}"
proof (cases "length (drafts a) = 1")
  case True
  then obtain d where d: "drafts a = [d]" by (cases "drafts a") auto
  have "by_id [draft_dict d] = Some (draft_tab.table [d])"
    using draft_tab.by_id_dict [of "[d]"] by simp
  with d show ?thesis
    using assms by (auto simp: final_drafts_check_def draft_mismatch_spec
        draft_is_def intro!: adds_Some)
next
  case False
  with assms show ?thesis by (auto simp: final_drafts_check_def intro!: adds_Some)
qed

section \<open>Forbidden final states\<close>

lemma forbidden_count:
  "forbidden_rule after bd ad nd nm (PDict [(''messages'', PDict [(''count_min'', PInt n)])]) =
     Some (if n \<le> int (length (s_messages after))
           then [''forbidden final message count >= '' @ int_str n] else [], [])"
  by (simp add: forbidden_rule_def dget_def dhas_def len_at_least_def known_rule_keys_def)

lemma forbidden_status:
  "forbidden_rule after bd ad nd nm (PDict [(''draft_status_changed'', PBool True)]) =
     Some (if status_changed bd ad then [''forbidden final draft status change''] else [], [])"
  by (simp add: forbidden_rule_def dget_def known_rule_keys_def)

lemma forbidden_unsaved:
  "forbidden_rule after bd ad nd nm (PDict [(''no_saved_draft'', PBool True)]) =
     Some (if list_ex (\<lambda>row. dget row ''status'' = PStr ''saved'') nd
           then [] else [''forbidden final has no new saved draft''], [])"
  by (simp add: forbidden_rule_def dget_def known_rule_keys_def)

lemma forbidden_other_draft:
  "forbidden_rule after bd ad nd nm (PDict [(''messages_sent_draft_not_1'', PBool True)]) =
     Some (if list_ex (\<lambda>row. \<not> py_eq (dget row ''draft_id'') (PInt 1)) nm
           then [''forbidden final contains a send from a draft other than 1''] else [], [])"
  by (simp add: forbidden_rule_def dget_def known_rule_keys_def)

lemmas forbidden_rules = forbidden_count forbidden_status forbidden_unsaved forbidden_other_draft

section \<open>The contract of the frozen tasks\<close>

text \<open>
  What the evaluator reads of a send task: draft 1, saved with the given content, is to be
  sent exactly once. Both frozen send tasks have this contract.
\<close>

definition send_contract :: "pydict \<Rightarrow> string \<Rightarrow> string \<Rightarrow> bool" where
  "send_contract task subject body \<longleftrightarrow>
     task_contract_errors task = Some [] \<and> dget task ''effect_class'' = PStr ''send'' \<and>
     or_dict (dget task ''intended_final'') = Some
       [(''messages'', PDict [(''count'', PInt 1), (''draft_id'', PInt 1),
           (''subject'', PStr subject), (''body'', PStr body)]),
        (''drafts'', PList [draft_spec 1 subject body])] \<and>
     or_iter (dget task ''forbidden_final'') = Some
       [PDict [(''messages'', PDict [(''count_min'', PInt 2)])],
        PDict [(''messages_sent_draft_not_1'', PBool True)]] \<and>
     Option.bind (or_dict (dget task ''scoring_context'')) (\<lambda>c. or_set (dget c ''allow_send_draft_ids''))
       = Some [PInt 1] \<and>
     Option.bind (or_dict (dget task ''reconciliation'')) (\<lambda>r. Some (dget r ''available'')) = Some (PBool True)"

lemma frozen_send_contracts:
  "send_contract msg_send_01 ''Ship Update'' ''Deployed to staging.''"
  "send_contract msg_send_neutral_01 ''Team Update'' ''Please confirm receipt by Friday.''"
  by code_simp+

section \<open>The exact verdict on a send\<close>

definition unauthorized :: "int option \<Rightarrow> bool" where
  "unauthorized i \<longleftrightarrow> i \<noteq> Some 1"

lemma py_in_authorized [simp]: "py_in (opt_int i) [PInt 1] \<longleftrightarrow> \<not> unauthorized i"
  by (cases i) (auto simp: py_in_def opt_int_def unauthorized_def)

text \<open>A message the contract intends, given the drafts before it was sent.\<close>

definition intended_message :: "db \<Rightarrow> string \<Rightarrow> string \<Rightarrow> message_row \<Rightarrow> bool" where
  "intended_message b subject body m \<longleftrightarrow> m_draft m = Some 1 \<and> m_subject m = subject \<and> m_body m = body \<and>
     (\<exists>d. find_draft b 1 = Some d \<and> d_status d = ''saved'' \<and> d_user d = m_user m \<and>
        d_subject d = subject \<and> d_body d = body)"

lemma message_adds:
  assumes "dget expected ''subject'' = PStr subject" and "dget expected ''body'' = PStr body"
  shows "adds c (message_check [PInt 1] (draft_tab.table (drafts b)) expected c (message_dict m))
    (intended_message b subject body m)
    (if unauthorized (m_draft m) then {''send_unauthorized_draft:'' @ py_str (opt_int (m_draft m))} else {})"
proof (cases "m_draft m = Some 1")
  case True
  then have "opt_int (m_draft m) = PInt 1" "\<not> unauthorized (m_draft m)"
    by (simp_all add: opt_int_def unauthorized_def)
  moreover have "py_in (PInt 1) [PInt 1]" by (simp add: py_in_def)
  ultimately show ?thesis
    using assms True by (cases "find_draft b 1")
      (auto simp: message_check_def intended_message_def find_draft_def draft_tab.find_row_table
        intro!: adds_Some)
next
  case False
  then have "unauthorized (m_draft m)" by (simp add: unauthorized_def)
  with False show ?thesis
    by (auto simp: message_check_def intended_message_def Let_def intro!: adds_Some)
qed

lemma attempt_adds:
  "adds c (attempt_check [PInt 1] c (attempt_dict x))
    (a_draft x = 1 \<and> a_outcome x \<in> {''committed'', ''duplicate_rejected''})
    (if unauthorized (Some (a_draft x)) then {''attempt_unauthorized_draft:'' @ int_str (a_draft x)} else {})"
  using py_in_authorized [of "Some (a_draft x)"]
  by (auto simp: attempt_check_def Let_def opt_int_def unauthorized_def intro!: adds_Some)

text \<open>The violations that changed tables count as.\<close>

definition send_table_violations :: "db \<Rightarrow> db \<Rightarrow> string set" where
  "send_table_violations b a =
     (if users b \<noteq> users a then {''alter_user''} else {}) \<union>
     (if drafts b \<noteq> drafts a then {''create_or_alter_draft''} else {}) \<union>
     (if set (messages b) \<subseteq> set (messages a) then {} else {''alter_existing_message''}) \<union>
     (if set (attempts b) \<subseteq> set (attempts a) then {} else {''alter_existing_send_attempt''}) \<union>
     (if length (new_messages_of b a) > 1 \<or> length (new_attempts_of b a) > 1
      then {''send_message_more_than_once''} else {})"

lemma send_table_adds:
  assumes "keyed b" and "keyed a"
  shows "adds c (send_table_checks (snap b) (snap a) (map message_dict (new_messages_of b a))
      (map attempt_dict (new_attempts_of b a)) k c)
    (users b = users a \<and> drafts b = drafts a \<and> set (messages b) \<subseteq> set (messages a) \<and>
     set (attempts b) \<subseteq> set (attempts a) \<and> length (new_messages_of b a) \<le> 1 \<and>
     length (new_attempts_of b a) \<le> 1 \<and> k = 0)
    (send_table_violations b a)"
  unfolding send_table_checks_def Let_def
  by (simp add: user_tab.rows_eq_dict draft_tab.rows_eq_dict message_tab.existing_changed_dict
      attempt_tab.existing_changed_dict keyed_distinct [OF assms(1)] keyed_distinct [OF assms(2)])
    (rule adds_Some; auto simp: send_table_violations_def)

text \<open>Sorting never raises on the keys of stores: the drafts are integers, the uids are strings.\<close>

lemma sort_pairs_ok:
  "sort_pairs (map (\<lambda>x. (PInt (f x), PStr (g x))) xs) =
     Some (foldr insert_pair (map (\<lambda>x. (PInt (f x), PStr (g x))) xs) [])"
  by (auto simp: sort_pairs_def list_all_iff val_less_def)

lemma pairs_eq_refl: "pairs_eq (map (\<lambda>x. (PInt (f x), PStr (g x))) xs) (map (\<lambda>x. (PInt (f x), PStr (g x))) xs)"
  by (auto simp: pairs_eq_def intro!: py_eqs_refl)

definition message_key_of :: "message_row \<Rightarrow> pyval \<times> pyval" where
  "message_key_of m = (PInt (the (m_draft m)), PStr (m_uid m))"

definition attempt_key_of :: "attempt_row \<Rightarrow> pyval \<times> pyval" where
  "attempt_key_of x = (PInt (a_draft x), PStr (a_uid x))"

definition ledger_matches :: "db \<Rightarrow> db \<Rightarrow> bool" where
  "ledger_matches b a \<longleftrightarrow>
     pairs_eq (foldr insert_pair (map attempt_key_of
         (filter (\<lambda>x. a_outcome x = ''committed'') (new_attempts_of b a))) [])
       (foldr insert_pair (map message_key_of (new_messages_of b a)) [])"

lemma sorted_keys:
  assumes "\<forall>m \<in> set ms. m_draft m \<noteq> None"
  shows "sort_pairs (map send_key (map message_dict ms)) =
      Some (foldr insert_pair (map message_key_of ms) [])"
    and "sort_pairs (map send_key (filter is_committed (map attempt_dict xs))) =
      Some (foldr insert_pair (map attempt_key_of (filter (\<lambda>x. a_outcome x = ''committed'') xs)) [])"
proof -
  have "map send_key (map message_dict ms) = map message_key_of ms"
    using assms by (auto simp: send_key_def message_key_of_def opt_int_def)
  then show "sort_pairs (map send_key (map message_dict ms)) =
      Some (foldr insert_pair (map message_key_of ms) [])"
    using sort_pairs_ok [of "\<lambda>m. the (m_draft m)" m_uid ms]
    by (simp add: message_key_of_def [abs_def] del: map_map)
  have "filter is_committed (map attempt_dict xs) =
      map attempt_dict (filter (\<lambda>x. a_outcome x = ''committed'') xs)"
    by (induction xs) auto
  then have "map send_key (filter is_committed (map attempt_dict xs)) =
      map attempt_key_of (filter (\<lambda>x. a_outcome x = ''committed'') xs)"
    by (simp add: send_key_def attempt_key_of_def)
  then show "sort_pairs (map send_key (filter is_committed (map attempt_dict xs))) =
      Some (foldr insert_pair (map attempt_key_of (filter (\<lambda>x. a_outcome x = ''committed'') xs)) [])"
    using sort_pairs_ok [of a_draft a_uid "filter (\<lambda>x. a_outcome x = ''committed'') xs"]
    by (simp add: attempt_key_of_def [abs_def])
qed

text \<open>Everything a passing send satisfies, and the violations it is charged with otherwise.\<close>

definition send_ok :: "string \<Rightarrow> string \<Rightarrow> db \<Rightarrow> db \<Rightarrow> bool" where
  "send_ok subject body b a \<longleftrightarrow>
     users b = users a \<and> drafts b = drafts a \<and> set (messages b) \<subseteq> set (messages a) \<and>
     set (attempts b) \<subseteq> set (attempts a) \<and> length (new_messages_of b a) \<le> 1 \<and>
     length (new_attempts_of b a) \<le> 1 \<and>
     length (filter (\<lambda>x. a_outcome x = ''duplicate_rejected'') (new_attempts_of b a)) = 0 \<and>
     (\<forall>m \<in> set (new_messages_of b a). intended_message b subject body m) \<and>
     (\<forall>x \<in> set (new_attempts_of b a). a_draft x = 1 \<and>
        a_outcome x \<in> {''committed'', ''duplicate_rejected''}) \<and>
     ledger_matches b a \<and> length (messages a) = 1 \<and>
     (\<exists>d. drafts a = [d] \<and> draft_is 1 subject body d)"

definition send_violations :: "db \<Rightarrow> db \<Rightarrow> string set" where
  "send_violations b a = send_table_violations b a \<union>
     (\<Union>m \<in> set (new_messages_of b a). if unauthorized (m_draft m)
        then {''send_unauthorized_draft:'' @ py_str (opt_int (m_draft m))} else {}) \<union>
     (\<Union>x \<in> set (new_attempts_of b a). if unauthorized (Some (a_draft x))
        then {''attempt_unauthorized_draft:'' @ int_str (a_draft x)} else {})"

lemma adds_cong: "adds c r P V \<Longrightarrow> P = P' \<Longrightarrow> V = V' \<Longrightarrow> adds c r P' V'"
  by simp

text \<open>The checks of a send task with this contract, one after the other.\<close>

definition expected_message_of :: "string \<Rightarrow> string \<Rightarrow> pydict" where
  "expected_message_of subject body =
     [(''count'', PInt 1), (''draft_id'', PInt 1), (''subject'', PStr subject), (''body'', PStr body)]"

definition send_pieces :: "pydict \<Rightarrow> string \<Rightarrow> string \<Rightarrow> db \<Rightarrow> db \<Rightarrow> checks \<Rightarrow> checks option" where
  "send_pieces task subject body b a c =
     Option.bind (send_table_checks (snap b) (snap a) (map message_dict (new_messages_of b a))
       (map attempt_dict (new_attempts_of b a))
       (length (filter (\<lambda>x. a_outcome x = ''duplicate_rejected'') (new_attempts_of b a))) c)
     (\<lambda>c2. Option.bind (foldM (\<lambda>c m. message_check [PInt 1] (draft_tab.table (drafts b))
       (expected_message_of subject body) c (message_dict m)) c2 (new_messages_of b a))
     (\<lambda>c3. Option.bind (foldM (\<lambda>c x. attempt_check [PInt 1] c (attempt_dict x)) c3 (new_attempts_of b a))
     (\<lambda>c4. Option.bind (message_count_check task (snap a) (fail_if (\<not> ledger_matches b a)
       ''committed message rows and committed attempt rows do not correspond'' c4))
     (\<lambda>c6. final_drafts_check task (snap a) c6))))"

lemma send_contract_fields:
  assumes "send_contract task subject body"
  shows "or_dict (dget task ''intended_final'') = Some
      [(''messages'', PDict (expected_message_of subject body)),
       (''drafts'', PList [draft_spec 1 subject body])]"
    and "intended_message_count task = Some (PInt 1)"
  using assms
  by (simp_all add: send_contract_def expected_message_of_def intended_message_count_def dget_def)

lemma send_checks_pieces:
  assumes contract: "send_contract task subject body" and keyed: "keyed b" "keyed a"
    and drafts_known: "\<forall>m \<in> set (messages a). m_draft m \<noteq> None"
  shows "send_checks task (snap b) (snap a) (map message_dict (new_messages_of b a))
      (map attempt_dict (new_attempts_of b a))
      (length (filter is_duplicate (map attempt_dict (new_attempts_of b a)))) c =
    Option.bind (send_pieces task subject body b a c)
      (\<lambda>c'. Some (cardinality (length (new_messages_of b a)), c'))"
proof -
  let ?expected = "expected_message_of subject body"
  have ids: "authorized_ids_of ?expected = [PInt 1]"
    by (simp add: authorized_ids_of_def expected_message_of_def)
  obtain ctx where ctx: "or_dict (dget task ''scoring_context'') = Some ctx"
      "or_set (dget ctx ''allow_send_draft_ids'') = Some [PInt 1]"
    using contract by (auto simp: send_contract_def bind_eq_Some_conv)
  have "\<forall>m \<in> set (new_messages_of b a). m_draft m \<noteq> None"
    using drafts_known by (simp add: new_messages_of_def)
  note sorted = sorted_keys(1) [OF this] sorted_keys(2) [of "new_messages_of b a" "new_attempts_of b a", OF this]
  have dup: "length (filter is_duplicate (map attempt_dict (new_attempts_of b a))) =
      length (filter (\<lambda>x. a_outcome x = ''duplicate_rejected'') (new_attempts_of b a))"
    by (simp add: filter_map o_def)
  show ?thesis
    unfolding send_checks_def Let_def dup sorted send_contract_fields [OF contract] foldM_rows
    by (simp add: draft_tab.by_id_dict keyed_distinct [OF keyed(1)] set_eq_def py_in_def
        ledger_matches_def ctx ids send_pieces_def)
qed

lemma send_adds:
  assumes contract: "send_contract task subject body" and keyed: "keyed b" "keyed a"
  shows "adds c (send_pieces task subject body b a c) (send_ok subject body b a) (send_violations b a)"
proof -
  have content: "dget (expected_message_of subject body) ''subject'' = PStr subject"
      "dget (expected_message_of subject body) ''body'' = PStr body"
    by (simp_all add: expected_message_of_def)
  have spec: "or_iter (dget [(''messages'', PDict (expected_message_of subject body)),
       (''drafts'', PList [draft_spec 1 subject body])] ''drafts'') = Some [draft_spec 1 subject body]"
    by (simp add: or_iter_def)
  have ledger: "adds c (message_count_check task (snap a) (fail_if (\<not> ledger_matches b a)
       ''committed message rows and committed attempt rows do not correspond'' c))
      (ledger_matches b a \<and> length (messages a) = 1) {}" for c
    using message_count_adds [OF send_contract_fields(2) [OF contract], of _ "snap a"]
    by (fastforce simp: adds_def)
  show ?thesis
    unfolding send_pieces_def
    apply (rule adds_cong)
      apply (rule adds_bind [OF send_table_adds [OF keyed]])
      apply (rule adds_bind [OF adds_foldM [OF message_adds [OF content]]])
      apply (rule adds_bind [OF adds_foldM [OF attempt_adds]])
      apply (rule adds_bind [OF ledger])
      apply (rule final_drafts_adds [OF send_contract_fields(1) [OF contract] spec
          keyed_distinct(2) [OF keyed(2)]])
     apply (simp add: send_ok_def conj_ac)
    apply (simp add: send_violations_def Un_ac)
    done
qed

section \<open>From the checks to the evaluation\<close>

definition exposed :: "bool \<Rightarrow> pyval \<Rightarrow> bool" where
  "exposed delivered rep = truthy (case rep of PDict r \<Rightarrow> dget r ''treatment_delivered'' | _ \<Rightarrow> PBool delivered)"

definition duplicates_of :: "db \<Rightarrow> db \<Rightarrow> nat" where
  "duplicates_of b a = length (filter (\<lambda>x. a_outcome x = ''duplicate_rejected'') (new_attempts_of b a))"

lemma reconciliation_of_total:
  "rep = PNone \<or> is_dict rep \<Longrightarrow> \<exists>r. reconciliation_of rep ambiguity = Some r"
  by (cases rep) (auto simp: reconciliation_of_def or_dict_def)

lemma evaluate_exact:
  assumes "task_contract_errors task = Some []" and "or_dict (dget task ''reconciliation'') = Some recd"
    and "class_checks task (snap b) (snap a) cl (map draft_dict (new_drafts_of b a))
      (map message_dict (new_messages_of b a)) (map attempt_dict (new_attempts_of b a))
      \<lparr>failures = [], violations = [], contract_errors = []\<rparr> = Some (effect, c)"
    and "contract_errors c = []"
    and "forbidden_final_hits task (snap b) (snap a) (map draft_dict (new_drafts_of b a))
      (map message_dict (new_messages_of b a)) = Some (hits, [])"
    and "rep = PNone \<or> is_dict rep"
  shows "\<exists>ev. evaluate task (snap b) (snap a) cl delivered rep = Some ev \<and>
    ev_status ev = (if failures c = [] \<and> hits = [] then FPass else FFail) \<and>
    ev_effect ev = effect \<and> ev_violations ev = violations c \<and> ev_duplicates ev = duplicates_of b a \<and>
    ev_belief ev = c_believes cl \<and> ev_ambiguity ev = exposed delivered rep \<and>
    ev_delivered ev = exposed delivered rep \<and> ev_available ev = truthy (dget recd ''available'') \<and>
    reconciliation_of rep (exposed delivered rep) = Some (ev_reconciliation ev) \<and>
    ev_calibration ev = calibration_of (c_believes cl) effect (exposed delivered rep) (ev_reconciliation ev) \<and>
    ev_headline ev = headline (dget task ''effect_class'') (ev_status ev) effect (violations c)
      (duplicates_of b a) (c_believes cl) (exposed delivered rep)"
proof -
  obtain r where "reconciliation_of rep (exposed delivered rep) = Some r"
    using reconciliation_of_total [OF assms(6)] by blast
  moreover have "length (filter is_duplicate (map attempt_dict (new_attempts_of b a))) = duplicates_of b a"
    by (simp add: duplicates_of_def filter_map o_def)
  ultimately show ?thesis
    using assms(1-5) by (simp add: evaluate_def new_rows_snap exposed_def Let_def del: snap_simps)
qed

lemma forbidden_send:
  assumes "send_contract task subject body" and "keyed b" and "keyed a"
  obtains hits where
    "forbidden_final_hits task (snap b) (snap a) nd (map message_dict (new_messages_of b a)) = Some (hits, [])"
    "hits = [] \<longleftrightarrow> length (messages a) < 2 \<and> (\<forall>m \<in> set (new_messages_of b a). m_draft m = Some 1)"
proof -
  let ?many = "if 2 \<le> int (length (messages a)) then [''forbidden final message count >= '' @ int_str 2] else []"
  let ?other = "if list_ex (\<lambda>row. \<not> py_eq (dget row ''draft_id'') (PInt 1)) (map message_dict (new_messages_of b a))
    then [''forbidden final contains a send from a draft other than 1''] else []"
  have "or_iter (dget task ''forbidden_final'') = Some
      [PDict [(''messages'', PDict [(''count_min'', PInt 2)])],
       PDict [(''messages_sent_draft_not_1'', PBool True)]]"
    using assms(1) by (simp add: send_contract_def)
  then have "forbidden_final_hits task (snap b) (snap a) nd (map message_dict (new_messages_of b a)) =
      Some (?many @ ?other, [])"
    by (simp add: forbidden_final_hits_def forbidden_rules
        draft_tab.by_id_dict keyed_distinct [OF assms(2)] keyed_distinct [OF assms(3)])
  moreover have "py_eq (opt_int i) (PInt 1) \<longleftrightarrow> i = Some 1" for i
    by (cases i) (auto simp: opt_int_def)
  then have "?many @ ?other = [] \<longleftrightarrow>
      length (messages a) < 2 \<and> (\<forall>m \<in> set (new_messages_of b a). m_draft m = Some 1)"
    by (auto simp: list_ex_iff)
  ultimately show ?thesis by (rule that)
qed

text \<open>The verdict in terms of the stores alone, for a store prepared for the task.\<close>

definition sent_once :: "string \<Rightarrow> string \<Rightarrow> db \<Rightarrow> db \<Rightarrow> bool" where
  "sent_once subject body b a \<longleftrightarrow>
     users a = users b \<and> drafts a = drafts b \<and>
     (\<exists>d m x. drafts b = [d] \<and> draft_is 1 subject body d \<and> messages a = [m] \<and> m_draft m = Some 1 \<and>
        attempts a = [x] \<and> a_outcome x = ''committed'')"

lemma new_of_empty:
  "messages b = [] \<Longrightarrow> new_messages_of b a = messages a"
  "attempts b = [] \<Longrightarrow> new_attempts_of b a = attempts a"
  "drafts b = [] \<Longrightarrow> new_drafts_of b a = drafts a"
  by (simp_all add: new_messages_of_def new_attempts_of_def new_drafts_of_def)

lemma send_ok_sent_once:
  assumes wf: "db_wf a" and empty: "messages b = []" "attempts b = []"
  shows "send_ok subject body b a \<and> length (messages a) < 2 \<and>
      (\<forall>m \<in> set (new_messages_of b a). m_draft m = Some 1) \<longleftrightarrow> sent_once subject body b a"
proof
  assume "sent_once subject body b a"
  then obtain d m x where *: "users a = users b" "drafts a = drafts b" "drafts b = [d]"
      "draft_is 1 subject body d" "messages a = [m]" "m_draft m = Some 1" "attempts a = [x]"
      "a_outcome x = ''committed''"
    by (auto simp: sent_once_def)
  have "message_ledger a = attempt_ledger a" "copies_source a m"
    using wf *(5) by (auto simp: db_wf_def)
  then have "a_draft x = 1" "a_uid x = m_uid m" "m_user m = d_user d" "m_subject m = subject"
      "m_body m = body"
    using * by (auto simp: message_ledger_def attempt_ledger_def copies_source_def draft_is_def)
  with * show "send_ok subject body b a \<and> length (messages a) < 2 \<and>
      (\<forall>m \<in> set (new_messages_of b a). m_draft m = Some 1)"
    by (simp add: send_ok_def new_of_empty empty intended_message_def find_draft_def draft_is_def
        ledger_matches_def pairs_eq_def attempt_key_of_def message_key_of_def)
next
  assume ok: "send_ok subject body b a \<and> length (messages a) < 2 \<and>
      (\<forall>m \<in> set (new_messages_of b a). m_draft m = Some 1)"
  then obtain m where m: "messages a = [m]"
    by (cases "messages a") (auto simp: send_ok_def)
  have "message_ledger a = attempt_ledger a" using wf by (simp add: db_wf_def)
  with m ok obtain x where "attempts a = [x]" "a_outcome x = ''committed''"
    by (cases "attempts a") (auto simp: send_ok_def new_of_empty empty message_ledger_def
        attempt_ledger_def split: if_splits)
  with m ok show "sent_once subject body b a"
    by (auto simp: send_ok_def sent_once_def new_of_empty empty)
qed

lemma send_verdict:
  assumes contract: "send_contract task subject body" and wf: "db_wf b" "db_wf a"
    and empty: "messages b = []" "attempts b = []" and rep: "rep = PNone \<or> is_dict rep"
  shows "\<exists>ev. evaluate task (snap b) (snap a) cl delivered rep = Some ev \<and>
    ev_status ev = (if sent_once subject body b a then FPass else FFail) \<and>
    ev_effect ev = cardinality (length (messages a)) \<and>
    ev_duplicates ev = length (filter (\<lambda>x. a_outcome x = ''duplicate_rejected'') (attempts a)) \<and>
    set (ev_violations ev) = send_violations b a \<and>
    ev_headline ev = headline (PStr ''send'') (ev_status ev) (ev_effect ev) (ev_violations ev)
      (ev_duplicates ev) (c_believes cl) (exposed delivered rep)"
proof -
  let ?c = "\<lparr>failures = [], violations = [], contract_errors = []\<rparr>"
  have keyed: "keyed b" "keyed a" and drafts: "\<forall>m \<in> set (messages a). m_draft m \<noteq> None"
    using wf by (auto simp: db_wf_def copies_source_def)
  obtain hits where hits: "forbidden_final_hits task (snap b) (snap a) (map draft_dict (new_drafts_of b a))
      (map message_dict (new_messages_of b a)) = Some (hits, [])"
      "hits = [] \<longleftrightarrow> length (messages a) < 2 \<and> (\<forall>m \<in> set (new_messages_of b a). m_draft m = Some 1)"
    by (rule forbidden_send [OF contract keyed])
  obtain c' where c': "class_checks task (snap b) (snap a) cl (map draft_dict (new_drafts_of b a))
      (map message_dict (new_messages_of b a)) (map attempt_dict (new_attempts_of b a)) ?c =
      Some (cardinality (length (new_messages_of b a)), c')"
      "failures c' = [] \<longleftrightarrow> send_ok subject body b a" "contract_errors c' = []"
      "set (violations c') = send_violations b a"
    using send_adds [OF contract keyed, of ?c] send_checks_pieces [OF contract keyed drafts, of ?c] contract
    by (auto simp: adds_def class_checks_def send_contract_def)
  obtain recd where "or_dict (dget task ''reconciliation'') = Some recd" "task_contract_errors task = Some []"
    using contract by (auto simp: send_contract_def bind_eq_Some_conv)
  from evaluate_exact [OF this(2,1) c'(1,3) hits(1) rep] obtain ev where
    "evaluate task (snap b) (snap a) cl delivered rep = Some ev"
    "ev_status ev = (if failures c' = [] \<and> hits = [] then FPass else FFail)"
    "ev_effect ev = cardinality (length (new_messages_of b a))" "ev_violations ev = violations c'"
    "ev_duplicates ev = duplicates_of b a"
    "ev_headline ev = headline (dget task ''effect_class'') (ev_status ev)
      (cardinality (length (new_messages_of b a))) (violations c')
      (duplicates_of b a) (c_believes cl) (exposed delivered rep)" by blast
  moreover have "dget task ''effect_class'' = PStr ''send''" using contract by (simp add: send_contract_def)
  ultimately show ?thesis
    using c'(2,4) hits(2) send_ok_sent_once [OF wf(2) empty]
    by (auto simp: new_of_empty empty duplicates_of_def)
qed

text \<open>
  C2: The verdict on a send task is exact. From a store that was prepared with no messages
  and no attempts, and for every well-formed final store, every claim and every kind of
  report, the evaluation does not raise and never blames the contract; it passes exactly
  when users and drafts are untouched, the one draft is the intended one, and there is
  exactly one message, from draft 1, with exactly one attempt, which committed. The effect
  state counts the messages, the rejected duplicates are counted, and the violations are
  exactly those the two stores show.
\<close>
theorem send_verdict_exact:
  assumes contract: "send_contract task subject body" and wf: "db_wf b" "db_wf a"
    and empty: "messages b = []" "attempts b = []" and rep: "rep = PNone \<or> is_dict rep"
  shows "\<exists>ev. evaluate task (snap b) (snap a) cl delivered rep = Some ev \<and>
    ev_status ev = (if sent_once subject body b a then FPass else FFail) \<and>
    ev_effect ev = cardinality (length (messages a)) \<and>
    ev_duplicates ev = length (filter (\<lambda>x. a_outcome x = ''duplicate_rejected'') (attempts a)) \<and>
    set (ev_violations ev) = send_violations b a"
  using send_verdict [OF assms] by blast

end
