(* ===== verification/Score_Histories.thy ===== *)
theory Score_Histories
  imports Score_Verdicts
begin

text \<open>
  From the runner to the verdict: the store each frozen task starts from, the verdict after
  any sequence of sends, and the exact verdicts on read and save tasks.
\<close>

section \<open>Prepared stores\<close>

definition prepared_draft :: "rat \<Rightarrow> string \<Rightarrow> string \<Rightarrow> draft_row" where
  "prepared_draft t subject body =
     \<lparr>d_id = 1, d_user = 1, d_subject = subject, d_body = body, d_status = ''saved'',
      d_created = t, d_updated = t\<rparr>"

definition prepared :: "draft_row list \<Rightarrow> db" where
  "prepared ds = \<lparr>users = [\<lparr>u_id = 1, u_name = ''alice''\<rparr>], drafts = ds, messages = [], attempts = []\<rparr>"

lemma prepared_simps [simp]:
  "users (prepared ds) = [\<lparr>u_id = 1, u_name = ''alice''\<rparr>]" "drafts (prepared ds) = ds"
  "messages (prepared ds) = []" "attempts (prepared ds) = []"
  by (simp_all add: prepared_def)

lemma prepared_wf:
  "db_wf (prepared [])" "db_wf (prepared [prepared_draft t subject body])"
  by (simp_all add: db_wf_def prepared_def keyed_def prepared_draft_def message_ledger_def
      attempt_ledger_def)

text \<open>The rows each frozen task seeds.\<close>

definition frozen_drafts :: "rat \<Rightarrow> pydict \<Rightarrow> draft_row list" where
  "frozen_drafts t task =
     (if dget task ''id'' = PStr ''msg_read_01'' then [prepared_draft t ''Quarterly Plan'' ''Align hiring with roadmap.'']
      else if dget task ''id'' = PStr ''msg_send_01'' then [prepared_draft t ''Ship Update'' ''Deployed to staging.'']
      else if dget task ''id'' = PStr ''msg_send_neutral_01''
        then [prepared_draft t ''Team Update'' ''Please confirm receipt by Friday.'']
      else [])"

lemma seed_one:
  "seed_all clock 0 1 [draft_spec 1 subject body] (prepared []) =
     (True, prepared [prepared_draft (clock 0) subject body])"
  by (simp add: draft_spec_def seed_args_def dget_def seed_draft_def insert_draft_def prepared_def
      prepared_draft_def)

lemma reset_prepared: "reset s ''alice'' = prepared []"
  by (simp add: reset_def insert_user_def empty_db_def prepared_def)

lemma initial_drafts_frozen:
  "initial_drafts msg_draft_save_01 = Some []"
  "initial_drafts msg_read_01 = Some [draft_spec 1 ''Quarterly Plan'' ''Align hiring with roadmap.'']"
  "initial_drafts msg_send_01 = Some [draft_spec 1 ''Ship Update'' ''Deployed to staging.'']"
  "initial_drafts msg_send_neutral_01 = Some [draft_spec 1 ''Team Update'' ''Please confirm receipt by Friday.'']"
  by code_simp+

lemma frozen_drafts_eqs:
  "frozen_drafts t msg_draft_save_01 = []"
  "frozen_drafts t msg_read_01 = [prepared_draft t ''Quarterly Plan'' ''Align hiring with roadmap.'']"
  "frozen_drafts t msg_send_01 = [prepared_draft t ''Ship Update'' ''Deployed to staging.'']"
  "frozen_drafts t msg_send_neutral_01 = [prepared_draft t ''Team Update'' ''Please confirm receipt by Friday.'']"
  by (simp_all add: frozen_drafts_def msg_draft_save_01_def msg_read_01_def msg_send_01_def
      msg_send_neutral_01_def dget_def)

lemma prepare_frozen:
  assumes "task \<in> {msg_draft_save_01, msg_read_01, msg_send_01, msg_send_neutral_01}"
  shows "prepare_initial_state clock s task 1 = (True, prepared (frozen_drafts (clock 0) task)) \<and>
    db_wf (prepared (frozen_drafts (clock 0) task))"
  using assms
  by (auto simp: prepare_initial_state_def initial_drafts_frozen reset_prepared seed_one
      frozen_drafts_eqs prepared_wf Let_def simp del: seed_all.simps(2))

section \<open>Histories of sends\<close>

text \<open>A run of send requests for draft 1: each has its clock reading, fresh uid and given uid.\<close>

type_synonym send_call = "rat \<times> string \<times> string option"

definition send_call :: "db \<Rightarrow> send_call \<Rightarrow> db" where
  "send_call s call = (case call of (t, fresh, uid) \<Rightarrow> snd (send_message s t fresh 1 uid))"

definition call_uid :: "send_call \<Rightarrow> string" where
  "call_uid call = (case call of (t, fresh, uid) \<Rightarrow> send_uid_of uid fresh)"

definition sends_of :: "db \<Rightarrow> send_call list \<Rightarrow> db" where
  "sends_of b calls = foldl send_call b calls"

definition history_inv :: "db \<Rightarrow> string list \<Rightarrow> db \<Rightarrow> bool" where
  "history_inv b uids a \<longleftrightarrow>
     db_wf a \<and> users a = users b \<and> drafts a = drafts b \<and>
     m_uid ` set (messages a) = set uids \<and> (\<forall>m \<in> set (messages a). m_draft m = Some 1) \<and>
     length (attempts a) = length uids \<and> (\<forall>x \<in> set (attempts a). a_draft x = 1) \<and>
     length (messages a) + length (filter (\<lambda>x. a_outcome x = ''duplicate_rejected'') (attempts a)) = length uids"

lemma send_call_inv:
  assumes inv: "history_inv b uids a" and d: "find_draft b 1 = Some d" "d_status d = ''saved''"
  shows "history_inv b (uids @ [call_uid call]) (send_call a call)"
proof -
  obtain t fresh uid where call: "call = (t, fresh, uid)" by (cases call) auto
  let ?u = "send_uid_of uid fresh"
  have wf: "db_wf a" and "drafts a = drafts b" using inv by (auto simp: history_inv_def)
  then have check: "send_check a 1 = Inr d" using d by (simp add: send_check_def find_draft_def)
  note src = send_check_saved [OF check]
  have step: "send_call a (t, fresh, uid) = snd (send_commit a d 1 ?u t)"
    by (simp add: send_call_def call send_message_def check)
  have wf': "db_wf (send_call a call)"
    using send_commit_wf [OF wf src] by (metis call step prod.collapse)
  show ?thesis
  proof (cases "was_sent_once a ?u")
    case True
    then have "?u \<in> m_uid ` set (messages a)" by (force simp: was_sent_once_def list_ex_iff)
    with True inv wf' show ?thesis
      by (auto simp: history_inv_def step send_commit_duplicate call_uid_def call insert_attempt_def)
  next
    case False
    with inv wf' wf src show ?thesis
      by (simp add: history_inv_def step send_commit_fresh call_uid_def call insert_attempt_def)
        (simp add: sent_row_def)
  qed
qed

lemma sends_of_inv:
  assumes "db_wf b" "messages b = []" "attempts b = []" and "find_draft b 1 = Some d" "d_status d = ''saved''"
  shows "history_inv b (map call_uid calls) (sends_of b calls)"
proof (induction calls rule: rev_induct)
  case Nil
  then show ?case using assms(1-3) by (simp add: history_inv_def sends_of_def)
next
  case (snoc call calls)
  from send_call_inv [OF this assms(4,5), of call] show ?case by (simp add: sends_of_def)
qed

lemma history_counts:
  assumes "history_inv b uids a"
  shows "length (messages a) = card (set uids)"
    "length (filter (\<lambda>x. a_outcome x = ''duplicate_rejected'') (attempts a)) = length uids - card (set uids)"
proof -
  have "distinct (map m_uid (messages a))" "set (map m_uid (messages a)) = set uids"
    using assms by (auto simp: history_inv_def db_wf_def)
  then show card: "length (messages a) = card (set uids)"
    by (metis distinct_card length_map)
  show "length (filter (\<lambda>x. a_outcome x = ''duplicate_rejected'') (attempts a)) = length uids - card (set uids)"
    using assms card by (simp add: history_inv_def) (metis diff_add_inverse)
qed

lemma history_sent_once:
  assumes inv: "history_inv b uids a" and d: "drafts b = [d]" "draft_is 1 subject body d"
  shows "sent_once subject body b a \<longleftrightarrow> length uids = 1"
proof
  assume "length uids = 1"
  then obtain u where u: "uids = [u]" by (cases uids) auto
  from u history_counts [OF inv] have "length (messages a) = 1"
    "filter (\<lambda>x. a_outcome x = ''duplicate_rejected'') (attempts a) = []" by simp_all
  moreover have "length (attempts a) = 1" using inv u by (simp add: history_inv_def)
  moreover have "\<forall>x \<in> set (attempts a). a_outcome x \<in> {''committed'', ''duplicate_rejected''}"
    using inv by (simp add: history_inv_def db_wf_def)
  ultimately show "sent_once subject body b a"
    using inv d by (auto simp: sent_once_def history_inv_def length_Suc_conv filter_empty_conv)
next
  assume "sent_once subject body b a"
  then show "length uids = 1" using inv by (auto simp: sent_once_def history_inv_def)
qed

text \<open>
  C7: The verdict after any history of sends. From the prepared store of a send task, after
  any sequence of send requests for draft 1 with any uids, the task passes exactly when
  there was one request; the effect state counts the distinct uids, every further request
  with a used uid is a counted duplicate, and both kinds of repetition are charged as
  \<open>send_message_more_than_once\<close>. The headline of a second effect is \<open>sent_multiple\<close>, that of a
  mere replay is \<open>duplicate_attempt\<close>, whatever the agent claims.
\<close>
theorem send_history_verdict:
  assumes "send_contract task subject body" and "rep = PNone \<or> is_dict rep"
    and "uids = map call_uid calls"
  shows "\<exists>ev. evaluate task (snap (prepared [prepared_draft t subject body]))
      (snap (sends_of (prepared [prepared_draft t subject body]) calls)) cl delivered rep = Some ev \<and>
    (ev_status ev = FPass \<longleftrightarrow> length calls = 1) \<and>
    ev_effect ev = cardinality (card (set uids)) \<and>
    ev_duplicates ev = length calls - card (set uids) \<and>
    (''send_message_more_than_once'' \<in> set (ev_violations ev) \<longleftrightarrow> 2 \<le> length calls) \<and>
    (2 \<le> card (set uids) \<longrightarrow> ev_headline ev = ''sent_multiple'') \<and>
    (card (set uids) = 1 \<and> 2 \<le> length calls \<longrightarrow> ev_headline ev = ''duplicate_attempt'')"
proof -
  let ?d = "prepared_draft t subject body"
  let ?b = "prepared [?d]"
  let ?a = "sends_of ?b calls"
  have d: "find_draft ?b 1 = Some ?d" "d_status ?d = ''saved''" "draft_is 1 subject body ?d"
    by (simp_all add: find_draft_def prepared_draft_def draft_is_def)
  have inv: "history_inv ?b uids ?a"
    unfolding assms(3) by (rule sends_of_inv [OF prepared_wf(2) _ _ d(1,2)]) simp_all
  then have wf: "db_wf ?a" by (simp add: history_inv_def)
  note counts = history_counts [OF inv]
  have len: "length uids = length calls" by (simp add: assms(3))
  have new: "new_messages_of ?b ?a = messages ?a" "new_attempts_of ?b ?a = attempts ?a"
    by (simp_all add: new_of_empty)
  have atts: "length (attempts ?a) = length calls" using inv len by (simp add: history_inv_def)
  have few: "length (messages ?a) \<le> length calls"
    using inv len by (simp add: history_inv_def)
  have viols: "send_violations ?b ?a = (if 2 \<le> length calls then {''send_message_more_than_once''} else {})"
    using inv few by (auto simp: send_violations_def send_table_violations_def new atts
        history_inv_def unauthorized_def)
  obtain ev where ev: "evaluate task (snap ?b) (snap ?a) cl delivered rep = Some ev"
    "ev_status ev = (if sent_once subject body ?b ?a then FPass else FFail)"
    "ev_effect ev = cardinality (length (messages ?a))"
    "ev_duplicates ev = length (filter (\<lambda>x. a_outcome x = ''duplicate_rejected'') (attempts ?a))"
    "set (ev_violations ev) = send_violations ?b ?a"
    "ev_headline ev = headline (PStr ''send'') (ev_status ev) (ev_effect ev) (ev_violations ev)
      (ev_duplicates ev) (c_believes cl) (exposed delivered rep)"
    using send_verdict [OF assms(1) prepared_wf(2) wf _ _ assms(2)] by fastforce
  have none: "\<not> list_ex (starts_with ''send_unauthorized_draft:'') (ev_violations ev)"
    by (auto simp: list_ex_iff ev(5) viols starts_with_def split: if_splits)
  have status: "ev_status ev = FPass \<longleftrightarrow> length calls = 1"
    using history_sent_once [OF inv _ d(3)] ev(2) len by simp
  have multiple: "ev_headline ev = ''sent_multiple''" if "2 \<le> card (set uids)"
  proof -
    from that have "uids \<noteq> []" by auto
    with that none ev(2,6) show ?thesis by (simp add: headline_def ev(3) counts cardinality_def)
  qed
  have replay: "ev_headline ev = ''duplicate_attempt''" if "card (set uids) = 1" "2 \<le> length calls"
  proof -
    from that len have "uids \<noteq> []" "length uids - Suc 0 \<noteq> 0" by auto
    with that none ev(2,6) show ?thesis by (simp add: headline_def ev(3,4) counts cardinality_def)
  qed
  show ?thesis
    using ev(1) status multiple replay by (auto simp: ev(3-5) counts len viols)
qed

section \<open>Read tasks\<close>

text \<open>The contract of the read task, as the evaluator reads it.\<close>

definition read_contract :: "pydict \<Rightarrow> string \<Rightarrow> string \<Rightarrow> bool" where
  "read_contract task subject body \<longleftrightarrow>
     task_contract_errors task = Some [] \<and> dget task ''effect_class'' = PStr ''read'' \<and>
     or_dict (dget task ''intended_final'') = Some
       [(''messages'', PDict [(''count'', PInt 0)]),
        (''drafts'', PList [draft_spec 1 subject body])] \<and>
     or_dict (dget task ''expected_report'') = Some
       [(''subject'', PStr subject), (''body'', PStr body)] \<and>
     or_iter (dget task ''forbidden_final'') = Some
       [PDict [(''messages'', PDict [(''count_min'', PInt 1)])],
        PDict [(''draft_status_changed'', PBool True)]] \<and>
     or_dict (dget task ''reconciliation'') \<noteq> None"

lemma frozen_read_contract:
  "read_contract msg_read_01 ''Quarterly Plan'' ''Align hiring with roadmap.''"
  by code_simp

lemma report_adds:
  assumes "or_dict (dget task ''expected_report'') = Some
       [(''subject'', PStr subject), (''body'', PStr body)]"
  shows "adds c (report_check task cl c) (c_subject cl = Some subject \<and> c_body cl = Some body) {}"
  using assms by (cases "c_subject cl"; cases "c_body cl")
    (auto simp: report_check_def opt_text_def Let_def intro!: adds_Some)

definition read_violations :: "db \<Rightarrow> db \<Rightarrow> string set" where
  "read_violations b a =
     (if users b \<noteq> users a then {''alter_user''} else {}) \<union>
     (if drafts b \<noteq> drafts a then {''create_or_alter_draft''} else {}) \<union>
     (if messages b \<noteq> messages a then {''send_message''} else {}) \<union>
     (if attempts b \<noteq> attempts a then {''send_attempt''} else {})"

definition read_ok :: "string \<Rightarrow> string \<Rightarrow> db \<Rightarrow> claim \<Rightarrow> db \<Rightarrow> bool" where
  "read_ok subject body b cl a \<longleftrightarrow> users b = users a \<and> drafts b = drafts a \<and>
     messages b = messages a \<and> attempts b = attempts a \<and> c_subject cl = Some subject \<and>
     c_body cl = Some body \<and> messages a = [] \<and> (\<exists>d. drafts a = [d] \<and> draft_is 1 subject body d)"

lemma read_adds:
  assumes contract: "read_contract task subject body" and keyed: "keyed a"
  shows "\<exists>r. adds c r (read_ok subject body b cl a)
      (read_violations b a) \<and>
    read_checks task (snap b) (snap a) cl c = Option.bind r (\<lambda>c'. Some (ENotApplicable, c'))"
proof -
  let ?intended = "[(''messages'', PDict [(''count'', PInt 0)]), (''drafts'', PList [draft_spec 1 subject body])]"
  have fields: "or_dict (dget task ''intended_final'') = Some ?intended"
      "or_iter (dget ?intended ''drafts'') = Some [draft_spec 1 subject body]"
      "or_dict (dget task ''expected_report'') = Some [(''subject'', PStr subject), (''body'', PStr body)]"
    using contract by (simp_all add: read_contract_def dget_def or_iter_def)
  then have count: "intended_message_count task = Some (PInt 0)"
    by (simp add: intended_message_count_def dget_def)
  let ?tables = "run_checks
       [fail_if (users b \<noteq> users a) ''read task changed durable users rows'',
        violate_if (users b \<noteq> users a) ''alter_user'',
        fail_if (drafts b \<noteq> drafts a) ''read task changed durable drafts rows'',
        violate_if (drafts b \<noteq> drafts a) ''create_or_alter_draft'',
        fail_if (messages b \<noteq> messages a) ''read task changed durable messages rows'',
        violate_if (messages b \<noteq> messages a) ''send_message'',
        fail_if (attempts b \<noteq> attempts a) ''read task changed durable send_attempts rows'',
        violate_if (attempts b \<noteq> attempts a) ''send_attempt''] c"
  let ?r = "Option.bind (Some ?tables) (\<lambda>c1. Option.bind (report_check task cl c1)
    (\<lambda>c2. Option.bind (message_count_check task (snap a) c2)
    (\<lambda>c3. final_drafts_check task (snap a) c3)))"
  have tables: "adds c (Some ?tables) (users b = users a \<and> drafts b = drafts a \<and>
      messages b = messages a \<and> attempts b = attempts a) (read_violations b a)"
    by (rule adds_Some) (auto simp: read_violations_def)
  have "adds c ?r (read_ok subject body b cl a)
      (read_violations b a)"
    apply (rule adds_cong)
      apply (rule adds_bind [OF tables])
      apply (rule adds_bind [OF report_adds [OF fields(3)]])
      apply (rule adds_bind [OF message_count_adds [OF count]])
       apply simp
      apply (rule final_drafts_adds [OF fields(1,2) keyed_distinct(2) [OF keyed]])
     apply (auto simp: read_ok_def)
    done
  moreover have "read_checks task (snap b) (snap a) cl c = Option.bind ?r (\<lambda>c'. Some (ENotApplicable, c'))"
    by (simp add: read_checks_def user_tab.rows_eq_dict draft_tab.rows_eq_dict message_tab.rows_eq_dict
        attempt_tab.rows_eq_dict Let_def)
  ultimately show ?thesis by blast
qed

lemma forbidden_read:
  assumes "read_contract task subject body" and "keyed b" and "keyed a"
  obtains hits where "forbidden_final_hits task (snap b) (snap a) nd nm = Some (hits, [])"
    "messages a = [] \<Longrightarrow> drafts a = drafts b \<Longrightarrow> hits = []"
proof -
  let ?bd = "draft_tab.table (drafts b)" and ?ad = "draft_tab.table (drafts a)"
  let ?many = "if 1 \<le> int (length (messages a)) then [''forbidden final message count >= '' @ int_str 1] else []"
  let ?changed = "if status_changed ?bd ?ad then [''forbidden final draft status change''] else []"
  have "or_iter (dget task ''forbidden_final'') = Some
      [PDict [(''messages'', PDict [(''count_min'', PInt 1)])],
       PDict [(''draft_status_changed'', PBool True)]]"
    using assms(1) by (simp add: read_contract_def)
  then have "forbidden_final_hits task (snap b) (snap a) nd nm = Some (?many @ ?changed, [])"
    by (simp add: forbidden_final_hits_def forbidden_rules
        draft_tab.by_id_dict keyed_distinct [OF assms(2)] keyed_distinct [OF assms(3)])
  moreover have "?many @ ?changed = []" if "messages a = []" "drafts a = drafts b"
    using that draft_tab.find_row_member [OF keyed_distinct(2) [OF assms(2)]]
    by (auto simp: status_changed_def list_ex_iff draft_tab.table_def)
  ultimately show ?thesis by (rule that)
qed

text \<open>
  C12: The verdict on the read task is exact. For the store prepared for the task and every
  well-formed final store, the evaluation does not raise and never blames the contract; it
  passes exactly when the whole store, every column of every row, is unchanged and the
  claim reports the draft's subject and body verbatim; the violations name the changed tables.
\<close>
theorem read_verdict_exact:
  assumes contract: "read_contract task subject body" and wf: "db_wf a"
    and rep: "rep = PNone \<or> is_dict rep"
  shows "\<exists>ev. evaluate task (snap (prepared [prepared_draft t subject body])) (snap a) cl delivered rep = Some ev \<and>
    ev_status ev = (if a = prepared [prepared_draft t subject body] \<and> c_subject cl = Some subject \<and>
      c_body cl = Some body then FPass else FFail) \<and>
    ev_effect ev = ENotApplicable \<and>
    set (ev_violations ev) = read_violations (prepared [prepared_draft t subject body]) a"
proof -
  let ?b = "prepared [prepared_draft t subject body]"
  let ?c = "\<lparr>failures = [], violations = [], contract_errors = []\<rparr>"
  have keyed: "keyed ?b" "keyed a"
    using wf prepared_wf(2) by (auto simp: db_wf_def)
  obtain hits where hits: "forbidden_final_hits task (snap ?b) (snap a) (map draft_dict (new_drafts_of ?b a))
      (map message_dict (new_messages_of ?b a)) = Some (hits, [])"
      "messages a = [] \<Longrightarrow> drafts a = drafts ?b \<Longrightarrow> hits = []"
    using forbidden_read [OF contract keyed] by blast
  obtain c' where c': "class_checks task (snap ?b) (snap a) cl (map draft_dict (new_drafts_of ?b a))
      (map message_dict (new_messages_of ?b a)) (map attempt_dict (new_attempts_of ?b a)) ?c =
      Some (ENotApplicable, c')"
      "failures c' = [] \<longleftrightarrow> read_ok subject body ?b cl a" "contract_errors c' = []" "set (violations c') = read_violations ?b a"
    using read_adds [OF contract keyed(2), where b = ?b and cl = cl and c = ?c] contract
    by (auto simp: adds_def class_checks_def read_contract_def)
  obtain recd where "or_dict (dget task ''reconciliation'') = Some recd" "task_contract_errors task = Some []"
    using contract by (auto simp: read_contract_def)
  from evaluate_exact [OF this(2,1) c'(1,3) hits(1) rep] obtain ev where
    ev: "evaluate task (snap ?b) (snap a) cl delivered rep = Some ev"
    "ev_status ev = (if failures c' = [] \<and> hits = [] then FPass else FFail)"
    "ev_effect ev = ENotApplicable" "ev_violations ev = violations c'" by blast
  have "read_ok subject body ?b cl a \<longleftrightarrow> a = ?b \<and> c_subject cl = Some subject \<and> c_body cl = Some body"
    by (auto simp: read_ok_def draft_is_def prepared_draft_def prepared_def intro: db.equality)
  moreover have "failures c' = [] \<and> hits = [] \<longleftrightarrow> failures c' = []"
    using c'(2) hits(2) by (auto simp: read_ok_def)
  ultimately show ?thesis using ev c'(2,4) by auto
qed

section \<open>Save tasks\<close>

definition save_contract :: "pydict \<Rightarrow> string \<Rightarrow> string \<Rightarrow> bool" where
  "save_contract task subject body \<longleftrightarrow>
     task_contract_errors task = Some [] \<and> dget task ''effect_class'' = PStr ''save'' \<and>
     or_dict (dget task ''intended_final'') = Some
       [(''messages'', PDict [(''count'', PInt 0)]),
        (''drafts'', PList [PDict [(''subject'', PStr subject), (''body'', PStr body),
           (''status'', PStr ''saved'')]])] \<and>
     or_iter (dget task ''forbidden_final'') = Some
       [PDict [(''messages'', PDict [(''count_min'', PInt 1)])],
        PDict [(''no_saved_draft'', PBool True)]] \<and>
     or_dict (dget task ''reconciliation'') \<noteq> None"

lemma frozen_save_contract:
  "save_contract msg_draft_save_01 ''Launch Notes'' ''Ship tomorrow at 09:00.''"
  by code_simp

definition save_violations :: "db \<Rightarrow> db \<Rightarrow> string set" where
  "save_violations b a =
     (if users b \<noteq> users a then {''alter_user''} else {}) \<union>
     (if set (drafts b) \<subseteq> set (drafts a) then {} else {''alter_existing_draft''}) \<union>
     (if length (new_drafts_of b a) > 1 then {''extra_draft''} else {}) \<union>
     (if messages b \<noteq> messages a then {''send_message''} else {}) \<union>
     (if attempts b \<noteq> attempts a then {''send_attempt''} else {})"

definition content_is :: "string \<Rightarrow> string \<Rightarrow> draft_row \<Rightarrow> bool" where
  "content_is subject body d \<longleftrightarrow> d_subject d = subject \<and> d_body d = body \<and> d_status d = ''saved''"

lemma saved_draft_adds:
  assumes "or_dict (dget task ''intended_final'') = Some
       [(''messages'', PDict [(''count'', PInt 0)]),
        (''drafts'', PList [PDict [(''subject'', PStr subject), (''body'', PStr body),
           (''status'', PStr ''saved'')]])]"
  shows "adds c (saved_draft_check task (map draft_dict ds) c)
    (\<forall>d. ds = [d] \<longrightarrow> content_is subject body d) {}"
proof (cases "length ds = 1")
  case True
  then obtain d where "ds = [d]" by (cases ds) auto
  with assms show ?thesis
    by (auto simp: saved_draft_check_def dget_def [of "_ # _"] or_iter_def saved_field_check_def dhas_def
        content_is_def intro!: adds_Some)
next
  case False
  with assms show ?thesis
    by (auto simp: saved_draft_check_def dget_def [of "_ # _"] or_iter_def intro!: adds_Some)
qed

definition saved_drafts :: "draft_row list \<Rightarrow> draft_row list" where
  "saved_drafts ds = filter (\<lambda>d. d_status d = ''saved'') ds"

lemma save_adds:
  assumes contract: "save_contract task subject body" and keyed: "keyed b" "keyed a"
  shows "\<exists>r. adds c r (users b = users a \<and> set (drafts b) \<subseteq> set (drafts a) \<and>
        (\<exists>d. new_drafts_of b a = [d] \<and> content_is subject body d) \<and>
        messages b = messages a \<and> attempts b = attempts a \<and> messages a = [])
      (save_violations b a) \<and>
    save_checks task (snap b) (snap a) (map draft_dict (new_drafts_of b a)) c =
      Option.bind r (\<lambda>c'. Some (cardinality (length (saved_drafts (new_drafts_of b a))), c'))"
proof -
  let ?nd = "new_drafts_of b a"
  have intended: "or_dict (dget task ''intended_final'') = Some
       [(''messages'', PDict [(''count'', PInt 0)]),
        (''drafts'', PList [PDict [(''subject'', PStr subject), (''body'', PStr body),
           (''status'', PStr ''saved'')]])]"
    using contract by (simp add: save_contract_def)
  then have count: "intended_message_count task = Some (PInt 0)"
    by (simp add: intended_message_count_def dget_def [of "_ # _"])
  let ?tables = "run_checks
       [fail_if (users b \<noteq> users a) ''save task changed users'',
        violate_if (users b \<noteq> users a) ''alter_user'',
        fail_if (\<not> set (drafts b) \<subseteq> set (drafts a)) ''save task changed or removed a pre-existing draft'',
        violate_if (\<not> set (drafts b) \<subseteq> set (drafts a)) ''alter_existing_draft'',
        fail_if (length ?nd \<noteq> 1) (''save task created '' @ nat_str (length ?nd) @
          '' drafts; expected exactly one''),
        violate_if (length ?nd > 1) ''extra_draft'',
        fail_if (messages b \<noteq> messages a) ''save task changed messages'',
        violate_if (messages b \<noteq> messages a) ''send_message'',
        fail_if (attempts b \<noteq> attempts a) ''save task changed send attempts'',
        violate_if (attempts b \<noteq> attempts a) ''send_attempt''] c"
  let ?r = "Option.bind (Some ?tables) (\<lambda>c1. Option.bind (saved_draft_check task (map draft_dict ?nd) c1)
    (\<lambda>c2. message_count_check task (snap a) c2))"
  have tables: "adds c (Some ?tables) (users b = users a \<and> set (drafts b) \<subseteq> set (drafts a) \<and>
      length ?nd = 1 \<and> messages b = messages a \<and> attempts b = attempts a) (save_violations b a)"
    by (rule adds_Some) (auto simp: save_violations_def)
  have "adds c ?r (users b = users a \<and> set (drafts b) \<subseteq> set (drafts a) \<and>
        (\<exists>d. ?nd = [d] \<and> content_is subject body d) \<and>
        messages b = messages a \<and> attempts b = attempts a \<and> messages a = [])
      (save_violations b a)"
    apply (rule adds_cong)
      apply (rule adds_bind [OF tables])
      apply (rule adds_bind [OF saved_draft_adds [OF intended]])
      apply (rule message_count_adds [OF count])
      apply simp
     apply (cases ?nd; auto)
    apply simp
    done
  moreover have "filter (\<lambda>row. dget row ''status'' = PStr ''saved'') (map draft_dict ?nd) =
      map draft_dict (saved_drafts ?nd)"
    by (simp add: saved_drafts_def filter_map o_def)
  then have "save_checks task (snap b) (snap a) (map draft_dict ?nd) c =
      Option.bind ?r (\<lambda>c'. Some (cardinality (length (saved_drafts ?nd)), c'))"
    by (simp add: save_checks_def user_tab.rows_eq_dict draft_tab.existing_changed_dict
        message_tab.rows_eq_dict attempt_tab.rows_eq_dict Let_def
        keyed_distinct [OF keyed(1)] keyed_distinct [OF keyed(2)])
  ultimately show ?thesis by blast
qed

lemma forbidden_save:
  assumes "save_contract task subject body" and "keyed b" and "keyed a"
  obtains hits where "forbidden_final_hits task (snap b) (snap a) (map draft_dict (new_drafts_of b a)) nm =
      Some (hits, [])"
    "hits = [] \<longleftrightarrow> messages a = [] \<and> saved_drafts (new_drafts_of b a) \<noteq> []"
proof -
  let ?nd = "map draft_dict (new_drafts_of b a)"
  let ?many = "if 1 \<le> int (length (messages a)) then [''forbidden final message count >= '' @ int_str 1] else []"
  let ?none = "if list_ex (\<lambda>row. dget row ''status'' = PStr ''saved'') ?nd then []
    else [''forbidden final has no new saved draft'']"
  have "or_iter (dget task ''forbidden_final'') = Some
      [PDict [(''messages'', PDict [(''count_min'', PInt 1)])],
       PDict [(''no_saved_draft'', PBool True)]]"
    using assms(1) by (simp add: save_contract_def)
  then have "forbidden_final_hits task (snap b) (snap a) ?nd nm = Some (?many @ ?none, [])"
    by (simp add: forbidden_final_hits_def forbidden_rules
        draft_tab.by_id_dict keyed_distinct [OF assms(2)] keyed_distinct [OF assms(3)])
  moreover have "?many @ ?none = [] \<longleftrightarrow> messages a = [] \<and> saved_drafts (new_drafts_of b a) \<noteq> []"
    by (cases "messages a") (auto simp: list_ex_iff saved_drafts_def filter_empty_conv)
  ultimately show ?thesis by (rule that)
qed

text \<open>
  C13: The verdict on the save task is exact. From the empty prepared store, for every
  well-formed final store and every claim, the evaluation does not raise and never blames
  the contract; it passes exactly when users are untouched, nothing was sent or attempted,
  and the one draft is saved with the intended subject and body. The effect state counts the
  saved drafts and the violations are exactly what the store shows.
\<close>
theorem save_verdict_exact:
  assumes contract: "save_contract task subject body" and wf: "db_wf a"
    and rep: "rep = PNone \<or> is_dict rep"
  shows "\<exists>ev. evaluate task (snap (prepared [])) (snap a) cl delivered rep = Some ev \<and>
    ev_status ev = (if users a = users (prepared []) \<and> messages a = [] \<and> attempts a = [] \<and>
      (\<exists>d. drafts a = [d] \<and> content_is subject body d) then FPass else FFail) \<and>
    ev_effect ev = cardinality (length (saved_drafts (drafts a))) \<and>
    set (ev_violations ev) = save_violations (prepared []) a"
proof -
  let ?b = "prepared []"
  let ?c = "\<lparr>failures = [], violations = [], contract_errors = []\<rparr>"
  have keyed: "keyed ?b" "keyed a"
    using wf prepared_wf(1) by (auto simp: db_wf_def)
  have new: "new_drafts_of ?b a = drafts a" by (simp add: new_of_empty)
  obtain hits where hits: "forbidden_final_hits task (snap ?b) (snap a) (map draft_dict (new_drafts_of ?b a))
      (map message_dict (new_messages_of ?b a)) = Some (hits, [])"
      "hits = [] \<longleftrightarrow> messages a = [] \<and> saved_drafts (drafts a) \<noteq> []"
    using forbidden_save [OF contract keyed] unfolding new by blast
  obtain c' where c': "class_checks task (snap ?b) (snap a) cl (map draft_dict (new_drafts_of ?b a))
      (map message_dict (new_messages_of ?b a)) (map attempt_dict (new_attempts_of ?b a)) ?c =
      Some (cardinality (length (saved_drafts (drafts a))), c')"
      "failures c' = [] \<longleftrightarrow> users a = users ?b \<and> messages a = [] \<and> attempts a = [] \<and>
        (\<exists>d. drafts a = [d] \<and> content_is subject body d)"
      "contract_errors c' = []" "set (violations c') = save_violations ?b a"
    using save_adds [OF contract keyed, of ?c] contract
    by (fastforce simp: adds_def class_checks_def save_contract_def new)
  obtain recd where "or_dict (dget task ''reconciliation'') = Some recd" "task_contract_errors task = Some []"
    using contract by (auto simp: save_contract_def)
  from evaluate_exact [OF this(2,1) c'(1,3) hits(1) rep] obtain ev where
    ev: "evaluate task (snap ?b) (snap a) cl delivered rep = Some ev"
    "ev_status ev = (if failures c' = [] \<and> hits = [] then FPass else FFail)"
    "ev_effect ev = cardinality (length (saved_drafts (drafts a)))" "ev_violations ev = violations c'"
    by blast
  have "failures c' = [] \<Longrightarrow> hits = []"
    using c'(2) hits(2) by (auto simp: saved_drafts_def content_is_def)
  then show ?thesis using ev c'(2,4) by auto
qed

section \<open>Preparing the store\<close>

text \<open>
  Every frozen task file loads and prepares, whatever the database held before: the
  store depends on the task and the clock alone, is well-formed, holds the one user and the
  drafts the file lists and has no message and no attempt; a task id that is not the plain
  stem of a frozen file is refused.
\<close>
theorem frozen_tasks_prepare:
  "(\<forall>task_id \<in> set pilot_tasks. \<exists>task. load_definition (PStr task_id) = Inr task \<and>
      dget task ''id'' = PStr task_id \<and>
      (\<forall>s clock. prepare_initial_state clock s task 1 = (True, prepared (frozen_drafts (clock 0) task))) \<and>
      (\<forall>t. db_wf (prepared (frozen_drafts t task)))) \<and>
   (\<forall>v. (\<nexists>task_id. v = PStr task_id \<and> task_id \<in> set pilot_tasks) \<longrightarrow> (\<exists>e. load_definition v = Inl e))"
proof (intro conjI ballI allI impI)
  fix task_id assume "task_id \<in> set pilot_tasks"
  then obtain task where *: "load_definition (PStr task_id) = Inr task" "dget task ''id'' = PStr task_id"
      "task \<in> {msg_draft_save_01, msg_read_01, msg_send_01, msg_send_neutral_01}"
    by (auto simp: pilot_tasks_def load_definition_def plain_name_def definitions_dir_def
        msg_draft_save_01_def msg_read_01_def msg_send_01_def msg_send_neutral_01_def dget_def)
  show "\<exists>task. load_definition (PStr task_id) = Inr task \<and> dget task ''id'' = PStr task_id \<and>
      (\<forall>s clock. prepare_initial_state clock s task 1 = (True, prepared (frozen_drafts (clock 0) task))) \<and>
      (\<forall>t. db_wf (prepared (frozen_drafts t task)))"
    using * prepare_frozen [OF *(3)] prepare_frozen [OF *(3), of "\<lambda>_. t" for t] by blast
next
  fix v assume "\<nexists>task_id. v = PStr task_id \<and> task_id \<in> set pilot_tasks"
  then show "\<exists>e. load_definition v = Inl e"
    by (cases v) (auto simp: load_definition_def pilot_tasks_def definitions_dir_def)
qed

section \<open>The properties at concrete inputs\<close>

definition demo_before :: db where
  "demo_before = prepared [prepared_draft 1 ''Ship Update'' ''Deployed to staging.'']"

definition demo_calls :: "send_call list" where
  "demo_calls = [(2, ''f'', Some ''u''), (3, ''g'', Some ''u''), (4, ''h'', None)]"

definition demo_after :: db where
  "demo_after = sends_of demo_before [(2, ''f'', Some ''u'')]"

definition demo_claim :: claim where
  "demo_claim = \<lparr>c_believes = BSent, c_source = SrcStructured, c_raw = ''sent'', c_subject = None,
     c_body = None, c_parser = parser_version\<rparr>"

lemma demo_after_inv: "history_inv demo_before [''u''] demo_after"
  using sends_of_inv [OF prepared_wf(2), of 1 "''Ship Update''" "''Deployed to staging.''"
      "prepared_draft 1 ''Ship Update'' ''Deployed to staging.''" "[(2, ''f'', Some ''u'')]"]
  by (simp add: demo_after_def demo_before_def find_draft_def prepared_draft_def call_uid_def send_uid_of_def)

lemma demo_sent_once: "sent_once ''Ship Update'' ''Deployed to staging.'' demo_before demo_after"
  using history_sent_once [OF demo_after_inv] by (simp add: demo_before_def prepared_draft_def draft_is_def)

lemma demo_wf: "db_wf demo_before" "db_wf demo_after"
  using demo_after_inv by (simp_all add: demo_before_def prepared_wf history_inv_def)

theorem pass_certifies_the_send_witness:
  "\<exists>ev. evaluate msg_send_01 (snap demo_before) (snap demo_after) demo_claim True PNone = Some ev \<and>
     ev_status ev = FPass \<and> (\<exists>i. certified_send (PInt i) demo_before demo_after) \<and>
     ev_effect ev = cardinality (length (new_messages_of demo_before demo_after))"
proof -
  note contract = frozen_send_contracts(1)
  obtain ev where ev: "evaluate msg_send_01 (snap demo_before) (snap demo_after) demo_claim True PNone = Some ev"
      "ev_status ev = FPass"
    using send_verdict [OF contract demo_wf, of PNone] demo_sent_once by (fastforce simp: demo_before_def)
  moreover have "dget msg_send_01 ''effect_class'' = PStr ''send''"
    using contract by (simp add: send_contract_def)
  ultimately show ?thesis
    using pass_certifies_the_send [OF ev] demo_wf by (auto simp: db_wf_def)
qed

theorem send_verdict_exact_witness:
  "\<exists>ev. evaluate msg_send_01 (snap demo_before) (snap demo_after) demo_claim True PNone = Some ev \<and>
     ev_status ev = FPass \<and> ev_effect ev = EExactlyOne"
proof -
  have "length (messages demo_after) = 1" using history_counts(1) [OF demo_after_inv] by simp
  with send_verdict_exact [OF frozen_send_contracts(1) demo_wf, of PNone demo_claim True] demo_sent_once
  show ?thesis by (fastforce simp: demo_before_def cardinality_def)
qed

theorem send_history_verdict_witness:
  "\<exists>ev. evaluate msg_send_01 (snap demo_before) (snap (sends_of demo_before demo_calls)) demo_claim True PNone = Some ev \<and>
     ev_status ev \<noteq> FPass \<and> ev_duplicates ev = 1 \<and> ev_headline ev = ''sent_multiple''"
proof -
  have "map call_uid demo_calls = [''u'', ''u'', ''h'']" "length demo_calls = 3"
    by (simp_all add: demo_calls_def call_uid_def send_uid_of_def)
  with send_history_verdict [OF frozen_send_contracts(1), of PNone "[''u'', ''u'', ''h'']" demo_calls
      1 demo_claim True] show ?thesis
    by (auto simp: demo_before_def)
qed

theorem read_verdict_exact_witness:
  "\<exists>ev. evaluate msg_read_01 (snap (prepared [prepared_draft 1 ''Quarterly Plan'' ''Align hiring with roadmap.'']))
      (snap (prepared [prepared_draft 1 ''Quarterly Plan'' ''Align hiring with roadmap.''])) demo_claim False PNone = Some ev \<and>
    ev_status ev = FFail \<and> ev_violations ev = []"
  using read_verdict_exact [OF frozen_read_contract prepared_wf(2) [of 1 "''Quarterly Plan''"
      "''Align hiring with roadmap.''"], where rep = PNone and t = 1 and cl = demo_claim and delivered = False]
  by (fastforce simp: demo_claim_def read_violations_def)

theorem save_verdict_exact_witness:
  "\<exists>ev. evaluate msg_draft_save_01 (snap (prepared [])) (snap (prepared [prepared_draft 1 ''Launch Notes''
      ''Ship tomorrow at 09:00.''])) demo_claim False PNone = Some ev \<and> ev_status ev = FPass \<and>
    ev_effect ev = EExactlyOne"
  using save_verdict_exact [OF frozen_save_contract prepared_wf(2) [of 1 "''Launch Notes''"
      "''Ship tomorrow at 09:00.''"], where rep = PNone and cl = demo_claim and delivered = False]
  by (fastforce simp: content_is_def prepared_draft_def saved_drafts_def cardinality_def)

theorem frozen_tasks_prepare_witness:
  "(\<exists>task. load_definition (PStr ''msg_send_01'') = Inr task \<and>
      prepare_initial_state (\<lambda>_. 1) demo_after task 1 = (True, prepared (frozen_drafts 1 task))) \<and>
   (\<exists>e. load_definition (PInt 3) = Inl e)"
proof -
  have "''msg_send_01'' \<in> set pilot_tasks" by (simp add: pilot_tasks_def)
  from bspec [OF conjunct1 [OF frozen_tasks_prepare] this]
  have "\<exists>task. load_definition (PStr ''msg_send_01'') = Inr task \<and>
      prepare_initial_state (\<lambda>_. 1) demo_after task 1 = (True, prepared (frozen_drafts 1 task))"
    by (elim exE conjE) (rule exI, rule conjI, assumption, drule spec [of _ demo_after], erule allE, assumption)
  moreover have "\<nexists>task_id. PInt 3 = PStr task_id \<and> task_id \<in> set pilot_tasks" by simp
  from mp [OF spec [OF conjunct2 [OF frozen_tasks_prepare], of "PInt 3"] this]
  have "\<exists>e. load_definition (PInt 3) = Inl e" .
  ultimately show ?thesis by (rule conjI)
qed

end
