(* ===== verification/Proxy_Receipt.thy ===== *)
theory Proxy_Receipt
  imports Inject_Proxy Receipt_Artifacts Score_Histories
begin

text \<open>
  The report of the proxy meets the receipt validator: which reports of a quiescent proxy
  the checks of \<open>_injection_invariants\<close> accept.
\<close>

section \<open>Reading the report\<close>

lemma dget_attempt_json [simp]:
  "dget (attempt_json a) ''sequence'' = PInt (int (at_seq a))"
  "dget (attempt_json a) ''request_sequence'' = PInt (int (at_request a))"
  "dget (attempt_json a) ''method'' = PStr (at_method a)"
  "dget (attempt_json a) ''path'' = PStr (at_path a)"
  "dget (attempt_json a) ''committed_sequence'' = opt_seq (at_committed a)"
  "dget (attempt_json a) ''upstream_status'' = opt_status (at_status a)"
  "dget (attempt_json a) ''upstream_classification'' = PStr (cls_str (at_class a))"
  "dget (attempt_json a) ''treatment'' = PStr (treatment_str (at_treatment a))"
  "dget (attempt_json a) ''request_draft_id'' = at_draft_id a"
  "dget (attempt_json a) ''committed_message_id'' = at_message_id a"
  "dget (attempt_json a) ''committed_send_uid'' = at_message_uid a"
  by (simp_all add: attempt_json_def)

lemma dget_request_json [simp]:
  "dget (request_json r) ''sequence'' = PInt (int (rq_seq r))"
  "dget (request_json r) ''method'' = PStr (rq_method r)"
  "dget (request_json r) ''path'' = PStr (rq_path r)"
  "dget (request_json r) ''treatment'' = PStr (treatment_str (rq_treatment r))"
  "dget (request_json r) ''upstream_status'' = opt_status (rq_status r)"
  by (simp_all add: request_json_def)

lemma treatment_str_inject [simp]: "treatment_str s = treatment_str t \<longleftrightarrow> s = t"
  by (cases s; cases t) simp_all

lemma cls_str_committed [simp]: "cls_str c = ''committed'' \<longleftrightarrow> c = ClsCommitted"
  by (cases c) simp_all

lemma is_dropped_attempt [simp]: "is_dropped (attempt_json a) \<longleftrightarrow> at_treatment a = TDropped"
  by (cases "at_treatment a") (simp_all add: is_dropped_def)

lemma is_committed_attempt [simp]: "is_committed_event (attempt_json a) \<longleftrightarrow> at_class a = ClsCommitted"
  by (simp add: is_committed_event_def)

lemma filter_attempts:
  "filter is_dropped (map attempt_json as) = map attempt_json (filter (\<lambda>a. at_treatment a = TDropped) as)"
  "filter is_committed_event (map attempt_json as) =
     map attempt_json (filter (\<lambda>a. at_class a = ClsCommitted) as)"
  by (simp_all add: filter_map o_def)

section \<open>The parts of the check\<close>

lemma upto1_map: "map PInt (upto1 n) = map (\<lambda>i. PInt (int i)) [1..<Suc n]"
  by (induction n) simp_all

lemma py_eqs_opt_seq:
  "py_eqs (map opt_seq cs) (map (\<lambda>i. PInt (int i)) ns) \<longleftrightarrow> cs = map Some ns"
proof (induction cs arbitrary: ns)
  case Nil
  then show ?case by (cases ns) auto
next
  case (Cons c cs)
  then show ?case by (cases ns; cases c) (auto simp: opt_seq_def)
qed

lemma contiguous_commits:
  "contiguous (map opt_seq cs) \<longleftrightarrow> cs = map Some [1..<Suc (length cs)]"
  by (simp add: contiguous_def upto1_map py_eqs_opt_seq del: upt_Suc)

lemma contiguous_sequences:
  "contiguous (map (\<lambda>x. PInt (int (f x))) xs) \<longleftrightarrow> map f xs = [1..<Suc (length xs)]"
proof -
  have "map (\<lambda>x. PInt (int (f x))) xs = map opt_seq (map Some (map f xs))"
    by (simp add: opt_seq_def)
  then show ?thesis
    by (simp only: contiguous_commits length_map inj_map_eq_map [OF inj_Some])
qed

lemma treatment_counts_report:
  "treatment_counts (map (\<lambda>a. PStr (treatment_str (at_treatment a))) as) =
     map (\<lambda>t. (treatment_str t, PInt (int (count_treatment as t)))) all_treatments"
proof -
  have names: "receipt_treatments = map treatment_str all_treatments"
    by (simp add: receipt_treatments_def all_treatments_def)
  show ?thesis
    unfolding treatment_counts_def names count_treatment_def
    by (simp add: filter_map o_def)
qed

lemma index_rows:
  assumes "distinct (map f xs)"
  shows "foldM (\<lambda>m x. Some (put_row m (PInt (f x)) (g x))) [] xs = Some (map (\<lambda>x. (PInt (f x), g x)) xs)"
proof -
  have fresh: "put_row (map (\<lambda>x. (PInt (f x), g x)) us) (PInt (f x)) (g x) =
      map (\<lambda>x. (PInt (f x), g x)) (us @ [x])" if "f x \<notin> f ` set us" for us x
    using that by (induction us) auto
  have "foldM (\<lambda>m x. Some (put_row m (PInt (f x)) (g x))) (map (\<lambda>x. (PInt (f x), g x)) us) xs =
      Some (map (\<lambda>x. (PInt (f x), g x)) (us @ xs))" if "distinct (map f (us @ xs))" for us
    using that
  proof (induction xs arbitrary: us)
    case (Cons x xs)
    then have "f x \<notin> f ` set us" by auto
    with Cons.IH [of "us @ [x]"] Cons.prems fresh show ?case by simp
  qed simp
  from this [of "[]"] assms show ?thesis by simp
qed

lemma find_index: "find_row (map (\<lambda>x. (PInt (f x), g x)) xs) (PInt k) = map_option g (find (\<lambda>x. f x = k) xs)"
  by (induction xs) auto

text \<open>Every attempt finds its request.\<close>

lemma bind_requests_ok:
  assumes "\<forall>a \<in> set as. \<exists>r. find (\<lambda>r. int (rq_seq r) = int (at_request a)) rs = Some r \<and>
      rq_method r = at_method a \<and> rq_path r = at_path a \<and> rq_treatment r = at_treatment a"
  shows "bind_requests (map (\<lambda>r. (PInt (int (rq_seq r)), request_json r)) rs) (map attempt_json as) = Some []"
  using assms by (induction as) (auto simp: get_row_def find_index)

text \<open>What a quiescent proxy has recorded.\<close>

lemma quiescent_attempts:
  assumes "proxy_inv loads p [] ls"
  shows "map rq_seq (sorted_requests p) = [1..<Suc (length (sorted_requests p))]"
    "\<forall>a \<in> set (sorted_attempts p). \<exists>r. find (\<lambda>r. int (rq_seq r) = int (at_request a)) (sorted_requests p) = Some r \<and>
      rq_method r = at_method a \<and> rq_path r = at_path a \<and> rq_treatment r = at_treatment a"
proof -
  note q = quiescent_numbers(1) [OF assms]
  have "next_request_sequence p = Suc (length (sorted_requests p))"
    using arg_cong [OF q, of length] assms by (auto simp: proxy_inv_def)
  with q show rs: "map rq_seq (sorted_requests p) = [1..<Suc (length (sorted_requests p))]"
    by simp
  have dist: "distinct (map rq_seq (sorted_requests p))" unfolding rs by simp
  show "\<forall>a \<in> set (sorted_attempts p). \<exists>r.
      find (\<lambda>r. int (rq_seq r) = int (at_request a)) (sorted_requests p) = Some r \<and>
      rq_method r = at_method a \<and> rq_path r = at_path a \<and> rq_treatment r = at_treatment a"
  proof
    fix a assume a: "a \<in> set (sorted_attempts p)"
    have "\<forall>a \<in> set (p_attempts p). Inject_Proxy.attempt_ok p a"
      using assms by (simp add: proxy_inv_def)
    with a obtain r where r: "r \<in> set (sorted_requests p)" "rq_seq r = at_request a"
        "rq_method r = at_method a" "rq_path r = at_path a" "rq_treatment r = at_treatment a"
      by (auto simp: Inject_Proxy.attempt_ok_def)
    from find_distinct [OF dist r(1)] r show "\<exists>r.
      find (\<lambda>r. int (rq_seq r) = int (at_request a)) (sorted_requests p) = Some r \<and>
      rq_method r = at_method a \<and> rq_path r = at_path a \<and> rq_treatment r = at_treatment a"
      by auto
  qed
qed

lemma request_trace_ok:
  assumes "proxy_inv loads p [] ls"
  shows "request_trace_issues (report p) (map attempt_json (sorted_attempts p)) = Some []"
proof -
  note q = quiescent_attempts [OF assms]
  have "distinct (map (\<lambda>r. int (rq_seq r)) (sorted_requests p))"
  proof -
    have "distinct (map int (map rq_seq (sorted_requests p)))" unfolding q(1) by (simp add: distinct_map)
    then show ?thesis by (simp add: o_def)
  qed
  from index_rows [OF this, of request_json]
  have "foldM (\<lambda>m item. let k = dget item ''sequence'' in if hashable k then Some (put_row m k item) else None)
      [] (map request_json (sorted_requests p)) =
    Some (map (\<lambda>r. (PInt (int (rq_seq r)), request_json r)) (sorted_requests p))"
    by (simp add: foldM_rows)
  then show ?thesis
    using bind_requests_ok [OF q(2)] q(1)
    by (simp add: request_trace_issues_def Let_def o_def contiguous_sequences del: upt_Suc)
qed

definition attempts_gapless_report :: "proxy \<Rightarrow> bool" where
  "attempts_gapless_report p \<longleftrightarrow> map at_seq (sorted_attempts p) = [1..<Suc (length (p_attempts p))]"

definition commits_in_order :: "proxy \<Rightarrow> bool" where
  "commits_in_order p \<longleftrightarrow>
     (let cs = map at_committed (filter (\<lambda>a. at_class a = ClsCommitted) (sorted_attempts p))
      in cs = map Some [1..<Suc (length cs)])"

lemma dropped_sorted:
  "filter (\<lambda>a. at_treatment a = TDropped) (sorted_attempts p) \<noteq> [] \<longleftrightarrow> treatment_delivered p"
  by (auto simp: delivered_iff filter_empty_conv)

lemma dropped_sorted_length:
  assumes "proxy_inv loads p hs ls"
  shows "length (filter (\<lambda>a. at_treatment a = TDropped) (sorted_attempts p)) \<le> 1"
  using dropped_length [OF assms]
  by (simp add: sorted_attempts_def filter_sort)

lemma summary_issues_report:
  assumes "proxy_inv loads p [] ls" and "inject_send p"
  shows "\<exists>issues. injection_summary_issues (report p) (map attempt_json (sorted_attempts p)) = Some issues \<and>
    (issues = [] \<longleftrightarrow> attempts_gapless_report p \<and> send_forwards p = length (sorted_attempts p))"
proof -
  let ?as = "sorted_attempts p"
  have "contiguous (map (\<lambda>a. PInt (int (at_seq a))) ?as) \<longleftrightarrow> attempts_gapless_report p"
    by (simp add: contiguous_sequences attempts_gapless_report_def del: upt_Suc)
  moreover have "py_eqs (map (\<lambda>a. opt_status (at_status a)) ?as) (map (\<lambda>a. opt_status (at_status a)) ?as)"
    by (rule py_eqs_refl) (auto simp: opt_status_def split: option.splits)
  moreover have "py_eq (last (map (\<lambda>a. opt_status (at_status a)) ?as)) (last (map (\<lambda>a. opt_status (at_status a)) ?as))"
    if "?as \<noteq> []"
    using that by (auto simp: last_map opt_status_def split: option.splits)
  moreover have "py_eq (PDict d) (PDict d)"
    if "d = map (\<lambda>t. (treatment_str t, PInt (int (count_treatment ?as t)))) all_treatments" for d
    using that by (intro py_eq_refl) (simp add: all_treatments_def)
  moreover have "\<forall>a \<in> set ?as. treatment_str (at_treatment a) \<in> set receipt_treatments"
  proof
    fix a
    show "treatment_str (at_treatment a) \<in> set receipt_treatments"
      by (cases "at_treatment a") (simp_all add: receipt_treatments_def)
  qed
  ultimately show ?thesis
    using assms(2)
    by (auto simp: injection_summary_issues_def Let_def o_def filter_attempts dropped_sorted
        treatment_counts_report list_all_iff list_ex_iff py_in_def
        simp del: py_eq.simps(4) length_sorted_attempts)
qed

lemma selection_issues_report:
  assumes inv: "proxy_inv loads p [] ls"
    and task: "dget (as_dict (dget task ''failure_injection'')) ''after_nth_committed'' = PInt (int (inject_after p))"
  shows "injection_selection_issues task (report p) (map attempt_json (sorted_attempts p)) = [] \<longleftrightarrow>
    commits_in_order p"
proof -
  let ?as = "sorted_attempts p"
  have "at_committed a = Some (inject_after p) \<and> at_class a = ClsCommitted"
    if "a \<in> set ?as" "at_treatment a = TDropped" for a
    using that inv by (auto simp: proxy_inv_def Inject_Proxy.attempt_ok_def)
  moreover have "length (filter (\<lambda>a. at_treatment a = TDropped) ?as) \<le> 1"
    by (rule dropped_sorted_length [OF inv])
  moreover have "map (\<lambda>a. opt_seq (at_committed a)) xs = map opt_seq (map at_committed xs)" for xs
    by simp
  ultimately show ?thesis
    using task contiguous_commits [of "map at_committed (filter (\<lambda>a. at_class a = ClsCommitted) ?as)"]
    by (auto simp: injection_selection_issues_def filter_attempts commits_in_order_def Let_def o_def
        opt_seq_def concat_eq_Nil_conv simp del: upt_Suc)
qed

text \<open>The task injects as the proxy was configured.\<close>

definition injects_as :: "pydict \<Rightarrow> proxy \<Rightarrow> bool" where
  "injects_as task p \<longleftrightarrow>
     dget (as_dict (dget task ''failure_injection'')) ''kind'' = PStr ''disconnect_after_possible_send'' \<and>
     dget (as_dict (dget task ''failure_injection'')) ''after_nth_committed'' = PInt (int (inject_after p))"

text \<open>
  C10: Which honest proxy reports the receipt validator accepts. For every state the proxy
  reaches with no request in flight and injection enabled, a receipt that carries its report
  and the matching evaluation of the treatment passes the checks of
  \<open>_injection_invariants\<close> exactly when the recorded attempts are numbered without a gap, as
  many sends were forwarded upstream as attempts are recorded, and the verified commits
  happened in the order the attempts arrived. Where no attempt was lost, the first condition
  holds and the second says that every send was forwarded.
\<close>
theorem honest_report_verdict:
  assumes reach: "proxy_history loads sha p [] ls" and inject: "inject_send p"
    and task: "injects_as (task_definition receipt) p"
    and receipt: "dget receipt ''injection_report'' = PDict (report p)"
    and evaluation: "dget (as_dict (dget receipt ''evaluation'')) ''treatment_delivered'' =
      PBool (treatment_delivered p)"
  shows "\<exists>issues. injection_invariants receipt = Some issues \<and>
    (issues = [] \<longleftrightarrow> attempts_gapless_report p \<and> send_forwards p = length (p_attempts p) \<and>
       commits_in_order p) \<and>
    (ls = [] \<longrightarrow> attempts_gapless_report p \<and> Suc (length (p_attempts p)) = next_sequence p)"
proof -
  have inv: "proxy_inv loads p [] ls" by (rule proxy_history_inv [OF reach])
  then have flight: "in_flight p = 0" and one: "1 \<le> next_sequence p" by (simp_all add: proxy_inv_def)
  obtain e where e: "dget receipt ''evaluation'' = PDict e" "dget e ''treatment_delivered'' = PBool (treatment_delivered p)"
    using evaluation by (cases "dget receipt ''evaluation''") auto
  obtain issues where summary:
    "injection_summary_issues (report p) (map attempt_json (sorted_attempts p)) = Some issues"
    "issues = [] \<longleftrightarrow> attempts_gapless_report p \<and> send_forwards p = length (sorted_attempts p)"
    using summary_issues_report [OF inv inject] by blast
  have selection: "injection_selection_issues (task_definition receipt) (report p)
      (map attempt_json (sorted_attempts p)) = [] \<longleftrightarrow> commits_in_order p"
    using selection_issues_report [OF inv] task by (simp add: injects_as_def)
  have "attempts_gapless_report p \<and> Suc (length (p_attempts p)) = next_sequence p" if "ls = []"
  proof -
    have g: "map at_seq (sorted_attempts p) = [1..<next_sequence p]"
      using attempts_gapless inv that by blast
    from arg_cong [OF this, of length] one have "Suc (length (p_attempts p)) = next_sequence p" by simp
    with g show ?thesis by (simp add: attempts_gapless_report_def del: upt_Suc)
  qed
  then show ?thesis
    using task summary selection request_trace_ok [OF inv] flight e dropped_sorted [of p]
    by (simp add: injection_invariants_def receipt Let_def py_in_def injects_as_def filter_attempts)
qed

definition demo_receipt :: "proxy \<Rightarrow> pydict" where
  "demo_receipt p =
     [(''task'', PDict [(''definition'', PDict msg_send_01)]), (''injection_report'', PDict (report p)),
      (''evaluation'', PDict [(''treatment_delivered'', PBool (treatment_delivered p))])]"

lemma demo_receipt_facts:
  "dget (demo_receipt p) ''injection_report'' = PDict (report p)"
  "dget (as_dict (dget (demo_receipt p) ''evaluation'')) ''treatment_delivered'' = PBool (treatment_delivered p)"
  "inject_after p = 1 \<Longrightarrow> injects_as (task_definition (demo_receipt p)) p"
  by (simp_all add: demo_receipt_def task_definition_def injects_as_def msg_send_01_def)

lemma demo_proxies:
  "inject_send (demo_final demo_serial)" "inject_after (demo_final demo_serial) = 1"
  "send_forwards (demo_final demo_serial) = length (p_attempts (demo_final demo_serial))"
  "attempts_gapless_report (demo_final demo_serial)" "commits_in_order (demo_final demo_serial)"
  "inject_send (demo_final demo_overtaking)" "inject_after (demo_final demo_overtaking) = 1"
  "\<not> commits_in_order (demo_final demo_overtaking)"
  "inject_send (demo_final demo_losing)" "inject_after (demo_final demo_losing) = 1"
  "send_forwards (demo_final demo_losing) = 1" "p_attempts (demo_final demo_losing) = []"
  by (simp_all add: demo_run_defs is_send_def demo_is_send
      commits_in_order_def attempts_gapless_report_def sorted_attempts_def Let_def)

text \<open>
  A serial run is accepted; a run in which the second attempt commits first is not, nor is one
  that lost the receipt of a forwarded attempt.
\<close>

theorem honest_report_verdict_witness:
  "proxy_history demo_loads id (demo_final demo_serial) [] (demo_lost demo_serial) \<and>
   injection_invariants (demo_receipt (demo_final demo_serial)) = Some [] \<and>
   proxy_history demo_loads id (demo_final demo_overtaking) [] (demo_lost demo_overtaking) \<and>
   (\<exists>issue issues. injection_invariants (demo_receipt (demo_final demo_overtaking)) = Some (issue # issues)) \<and>
   proxy_history demo_loads id (demo_final demo_losing) [] (demo_lost demo_losing) \<and>
   (\<exists>issue issues. injection_invariants (demo_receipt (demo_final demo_losing)) = Some (issue # issues))"
proof -
  have r: "proxy_history demo_loads id (demo_final demo_serial) [] (demo_lost demo_serial)"
    "proxy_history demo_loads id (demo_final demo_overtaking) [] (demo_lost demo_overtaking)"
    "proxy_history demo_loads id (demo_final demo_losing) [] (demo_lost demo_losing)"
    by (rule demo_history [OF demo_serial_run(1)], rule demo_history [OF demo_overtaking_run(1)],
        rule demo_history [OF demo_losing_run(1)])
  note facts = demo_receipt_facts(1,2)
  have "injection_invariants (demo_receipt (demo_final demo_serial)) = Some []"
    using honest_report_verdict [OF r(1) demo_proxies(1) demo_receipt_facts(3) [OF demo_proxies(2)] facts]
      demo_proxies(3,4,5)
    by auto
  moreover obtain is1 where "injection_invariants (demo_receipt (demo_final demo_overtaking)) = Some is1"
    "is1 \<noteq> []"
    using honest_report_verdict [OF r(2) demo_proxies(6) demo_receipt_facts(3) [OF demo_proxies(7)] facts]
      demo_proxies(8)
    by auto
  moreover obtain is2 where "injection_invariants (demo_receipt (demo_final demo_losing)) = Some is2"
    "is2 \<noteq> []"
    using honest_report_verdict [OF r(3) demo_proxies(9) demo_receipt_facts(3) [OF demo_proxies(10)] facts]
      demo_proxies(11,12)
    by auto
  ultimately show ?thesis using r by (cases is1; cases is2) auto
qed

end
