(* ===== verification/Redaction.thy ===== *)
theory Redaction
  imports Receipt_Artifacts "HOL-Library.Sublist"
begin

text \<open>
  Redaction of credentials, \<open>redact_text\<close>, \<open>redact_value\<close> and \<open>redact_playwright_trace\<close> of
  \<open>src/btb/harness/manifest.py\<close>, and what it forgets. The regular expressions are read on
  ASCII text: the bytes of other characters are neither letters nor spaces here.
\<close>

section \<open>Replacing every occurrence\<close>

text \<open>\<open>s.split(sep)\<close>; \<open>s.replace(old, new)\<close> puts \<open>new\<close> between the parts. The code never replaces \<open>''\<close>.\<close>

function split_on :: "string \<Rightarrow> string \<Rightarrow> string list" where
  "split_on sep s =
     (if sep \<noteq> [] \<and> starts_with sep s then [] # split_on sep (drop (length sep) s)
      else (case s of
        [] \<Rightarrow> [[]]
      | c # t \<Rightarrow> (case split_on sep t of [] \<Rightarrow> [[c]] | p # ps \<Rightarrow> (c # p) # ps)))"
  by pat_completeness auto
termination
proof (relation "measure (\<lambda>(sep, s). length s)", goal_cases)
  case (2 sep s)
  then show ?case by (cases s; cases sep) (auto simp: starts_with_def)
qed auto

declare split_on.simps [simp del]

definition py_replace :: "string \<Rightarrow> string \<Rightarrow> string \<Rightarrow> string" where
  "py_replace old new s = join new (split_on old s)"

section \<open>The two patterns\<close>

definition word_char :: "char \<Rightarrow> bool" where
  "word_char c \<longleftrightarrow> (let n = of_char c :: nat in
     (48 \<le> n \<and> n \<le> 57) \<or> (65 \<le> n \<and> n \<le> 90) \<or> n = 95 \<or> (97 \<le> n \<and> n \<le> 122))"

definition bearer_char :: "char \<Rightarrow> bool" where
  "bearer_char c \<longleftrightarrow> word_char c \<or> c \<in> set ''.~+/=-''"

text \<open>A word boundary before a word character: the character before it is no word character.\<close>

definition at_word_start :: "char option \<Rightarrow> bool" where
  "at_word_start prev \<longleftrightarrow> (case prev of None \<Rightarrow> True | Some c \<Rightarrow> \<not> word_char c)"

definition at_word_end :: "string \<Rightarrow> bool" where
  "at_word_end rest \<longleftrightarrow> (case rest of [] \<Rightarrow> True | c # _ \<Rightarrow> \<not> word_char c)"

definition drop_spaces :: "string \<Rightarrow> string" where
  "drop_spaces s = dropWhile space_char s"

text \<open>
  A match at a position, given the character before it: the text put in its place and the rest
  after it. The greedy parts of both patterns leave no other way to match.
\<close>

type_synonym matcher = "char option \<Rightarrow> string \<Rightarrow> (string \<times> string) option"

definition match_bearer :: matcher where
  "match_bearer prev s =
     (if \<not> at_word_start prev then None
      else do {
        after_name \<leftarrow> literal_nocase ''bearer'' s;
        let value_text = drop_spaces after_name;
        let rest = dropWhile bearer_char value_text;
        if value_text = after_name \<or> rest = value_text then None
        else Some (''Bearer <redacted>'', rest)
      })"

definition secret_labels :: "string list" where
  "secret_labels =
     [''api_key'', ''api-key'', ''apikey'', ''authorization'', ''secret'', ''token'']"

definition value_char :: "char \<Rightarrow> bool" where
  "value_char c \<longleftrightarrow> \<not> space_char c \<and> c \<noteq> CHR '','' \<and> c \<noteq> CHR '';''"

text \<open>The rest after the label, and after \<open>\s*[:=]\s*\<close>.\<close>

definition after_label :: "string \<Rightarrow> string option" where
  "after_label s =
     (case List.find (\<lambda>l. literal_nocase l s \<noteq> None) secret_labels of
        None \<Rightarrow> None
      | Some l \<Rightarrow> (let rest = drop (length l) s in if at_word_end rest then Some rest else None))"

definition after_separator :: "string \<Rightarrow> string option" where
  "after_separator s =
     (case drop_spaces s of
        [] \<Rightarrow> None
      | c # rest \<Rightarrow> if c = CHR '':'' \<or> c = CHR ''='' then Some (drop_spaces rest) else None)"

definition match_label :: matcher where
  "match_label prev s =
     (if \<not> at_word_start prev then None
      else do {
        after_name \<leftarrow> after_label s;
        value_text \<leftarrow> after_separator after_name;
        let rest = dropWhile value_char value_text;
        if rest = value_text then None
        else Some (take (length s - length value_text) s @ ''<redacted>'', rest)
      })"

text \<open>\<open>pattern.sub\<close>: leftmost matches that do not overlap; a match consumes at least one byte.\<close>

function sub_all :: "matcher \<Rightarrow> char option \<Rightarrow> string \<Rightarrow> string" where
  "sub_all m prev s =
     (case s of
        [] \<Rightarrow> []
      | c # r \<Rightarrow>
          (case m prev s of
             Some (new, rest) \<Rightarrow>
               if length rest < length s
               then new @ sub_all m (Some (s ! (length s - length rest - 1))) rest
               else c # sub_all m (Some c) r
           | None \<Rightarrow> c # sub_all m (Some c) r))"
  by pat_completeness auto
termination by (relation "measure (\<lambda>(m, prev, s). length s)") auto

declare sub_all.simps [simp del]

section \<open>Redacting text\<close>

text \<open>\<open>os.environ\<close> and \<open>Path.home()\<close>.\<close>

record surroundings =
  environ :: "string \<Rightarrow> string option"
  home :: string

definition secret_environment_names :: "string list" where
  "secret_environment_names =
     [''ANTHROPIC_API_KEY'', ''BROWSER_USE_API_KEY'', ''DEEPSEEK_API_KEY'', ''OPENAI_API_KEY'']"

text \<open>\<open>len(value)\<close> counts characters, that is bytes that do not continue one.\<close>

definition text_length :: "string \<Rightarrow> nat" where
  "text_length s = length (filter (\<lambda>c. (of_char c :: nat) div 64 \<noteq> 2) s)"

definition marker :: "string \<Rightarrow> string" where
  "marker name = ''<redacted:'' @ name @ ''>''"

definition redact_environment :: "surroundings \<Rightarrow> string \<Rightarrow> string" where
  "redact_environment S text =
     foldl (\<lambda>t name. case environ S name of
         None \<Rightarrow> t
       | Some v \<Rightarrow> if text_length v \<ge> 8 then py_replace v (marker name) t else t)
       text secret_environment_names"

definition redact_registered :: "string list \<Rightarrow> string \<Rightarrow> string" where
  "redact_registered sensitive text =
     foldl (\<lambda>t v. if v = [] then t else py_replace v (marker ''RUNTIME_SECRET'') t) text sensitive"

definition redact_home :: "surroundings \<Rightarrow> string \<Rightarrow> string" where
  "redact_home S text =
     (if home S \<noteq> [] \<and> home S \<noteq> ''/'' then py_replace (home S) ''$HOME'' text else text)"

definition redact_text :: "surroundings \<Rightarrow> string list \<Rightarrow> string \<Rightarrow> string \<times> bool" where
  "redact_text S sensitive text =
     (let redacted = sub_all match_label None (sub_all match_bearer None
            (redact_home S (redact_registered sensitive (redact_environment S text))))
      in (redacted, redacted \<noteq> text))"

section \<open>Redacting a value\<close>

text \<open>The keys of a dict are kept as they are.\<close>

fun redact_value :: "surroundings \<Rightarrow> string list \<Rightarrow> pyval \<Rightarrow> pyval \<times> bool"
  and redact_items :: "surroundings \<Rightarrow> string list \<Rightarrow> pyval list \<Rightarrow> pyval list \<times> bool"
  and redact_pairs :: "surroundings \<Rightarrow> string list \<Rightarrow> pydict \<Rightarrow> pydict \<times> bool" where
  "redact_value S sv (PStr s) = map_prod PStr id (redact_text S sv s)"
| "redact_value S sv (PList xs) = map_prod PList id (redact_items S sv xs)"
| "redact_value S sv (PDict d) = map_prod PDict id (redact_pairs S sv d)"
| "redact_value S sv v = (v, False)"
| "redact_items S sv [] = ([], False)"
| "redact_items S sv (x # xs) =
     (fst (redact_value S sv x) # fst (redact_items S sv xs),
      snd (redact_value S sv x) \<or> snd (redact_items S sv xs))"
| "redact_pairs S sv [] = ([], False)"
| "redact_pairs S sv ((k, v) # d) =
     ((k, fst (redact_value S sv v)) # fst (redact_pairs S sv d),
      snd (redact_value S sv v) \<or> snd (redact_pairs S sv d))"

section \<open>Redacting a trace archive\<close>

text \<open>
  The members of the archive are a list of contents. The code collects the secrets in a set and
  replaces them in the order in which Python iterates over it: any list
  with the elements of \<open>trace_secrets\<close>.
\<close>

definition trace_secrets :: "string list \<Rightarrow> string list \<Rightarrow> string list" where
  "trace_secrets sensitive members =
     filter (\<lambda>v. v \<noteq> []) (sensitive @ concat (map tokens_in members))"

definition redact_member :: "string list \<Rightarrow> string \<Rightarrow> string" where
  "redact_member order content = foldl (\<lambda>t v. py_replace v (marker ''BTB_UI_TOKEN'') t) content order"

definition redact_playwright_trace :: "string list \<Rightarrow> string list \<Rightarrow> string list \<times> bool" where
  "redact_playwright_trace order members =
     (if order = [] then (members, False) else (map (redact_member order) members, True))"


section \<open>Substrings\<close>

lemma contains_iff: "contains v s \<longleftrightarrow> (\<exists>a b. s = a @ v @ b)"
proof (induction s)
  case (Cons c s)
  have "starts_with v (c # s) \<longleftrightarrow> (\<exists>b. c # s = v @ b)"
    unfolding starts_with_def by (metis append_eq_conv_conj append_take_drop_id)
  with Cons show ?case by (auto simp: Cons_eq_append_conv)
qed auto

lemma contains_Nil [simp]: "contains [] s"
  by (auto simp: contains_iff)

lemma contains_cut: "contains v (a @ s @ b)" if "contains v s"
  using that unfolding contains_iff by (metis append.assoc)

lemma contains_length: "contains v s \<Longrightarrow> length v \<le> length s"
  by (auto simp: contains_iff)

text \<open>A character that does not occur in \<open>v\<close> cuts its occurrences apart.\<close>

lemma contains_separated:
  assumes "c \<notin> set v" and "contains v (x @ c # y)"
  shows "contains v x \<or> contains v y"
proof -
  obtain a b where *: "x @ c # y = a @ v @ b" using assms(2) by (auto simp: contains_iff)
  then consider us where "x = a @ us" "us @ c # y = v @ b" | us where "a = x @ us" "c # y = us @ v @ b"
    by (auto simp: append_eq_append_conv2)
  then show ?thesis
  proof cases
    case 1
    then obtain ws where "us = v @ ws" using assms(1)
      by (fastforce simp: append_eq_append_conv2 Cons_eq_append_conv append_eq_Cons_conv)
    then show ?thesis using 1 by (auto simp: contains_iff)
  next
    case 2
    then have "contains v y \<or> us = [] \<and> v = []" using assms(1)
      by (cases us; cases v) (auto simp: contains_iff Cons_eq_append_conv)
    then show ?thesis by auto
  qed
qed

lemma contains_marked:
  assumes "CHR ''<'' \<notin> set v" and "CHR ''>'' \<notin> set v" and "contains v (x @ marker name @ y)"
  shows "contains v x \<or> contains v (''redacted:'' @ name) \<or> contains v y"
proof -
  have "marker name = CHR ''<'' # (''redacted:'' @ name) @ [CHR ''>'']" by (simp add: marker_def)
  then have "x @ marker name @ y = x @ CHR ''<'' # ((''redacted:'' @ name) @ CHR ''>'' # y)" by simp
  with assms show ?thesis by (metis contains_separated)
qed


lemma split_on_not_Nil [simp]: "split_on sep s \<noteq> []"
  by (subst split_on.simps) (auto split: list.splits)

lemma join_Cons: "ps \<noteq> [] \<Longrightarrow> join sep (p # ps) = p @ sep @ join sep ps"
  by (cases ps) auto

lemma contains_trans: "contains u v \<Longrightarrow> contains v s \<Longrightarrow> contains u s"
  by (metis contains_cut contains_iff)

lemma contains_step: "contains p s \<Longrightarrow> contains p (c # s)"
  by simp

lemma starts_with_iff: "starts_with p s \<longleftrightarrow> (\<exists>t. s = p @ t)"
  unfolding starts_with_def by (metis append_eq_conv_conj append_take_drop_id)

lemma split_on_steps:
  "sep \<noteq> [] \<Longrightarrow> split_on sep (sep @ s) = [] # split_on sep s"
  "split_on sep [] = [[]]"
  "\<not> (sep \<noteq> [] \<and> starts_with sep (c # t)) \<Longrightarrow>
     split_on sep (c # t) = (c # hd (split_on sep t)) # tl (split_on sep t)"
  using split_on.simps [of sep "sep @ s"] split_on.simps [of sep "[]"] split_on.simps [of sep "c # t"]
  by (auto simp: starts_with_def split: list.splits)

lemma split_on_induct [case_names Hit Nil Miss]:
  assumes "\<And>s. sep \<noteq> [] \<Longrightarrow> P s \<Longrightarrow> P (sep @ s)" and "P []"
    and "\<And>c t. \<not> (sep \<noteq> [] \<and> starts_with sep (c # t)) \<Longrightarrow> P t \<Longrightarrow> P (c # t)"
  shows "P s"
proof (induction s rule: length_induct)
  case (1 s)
  show ?case
  proof (cases "sep \<noteq> [] \<and> starts_with sep s")
    case True
    then obtain t where "s = sep @ t" by (auto simp: starts_with_iff)
    with True 1 assms(1) [of t] show ?thesis by auto
  next
    case False
    with 1 assms(2,3) show ?thesis by (cases s) auto
  qed
qed

lemma split_on_first: "\<exists>t. s = hd (split_on sep s) @ t"
  by (induction s rule: split_on_induct [of sep]) (auto simp: split_on_steps)

lemma split_on_part: "p \<in> set (split_on sep s) \<Longrightarrow> contains p s"
proof (induction s rule: split_on_induct [of sep])
  case (Hit s)
  then show ?case by (auto simp: split_on_steps intro: contains_cut [of p s sep "[]", simplified])
next
  case (Miss c t)
  obtain u where "t = hd (split_on sep t) @ u" using split_on_first by blast
  then have "contains (c # hd (split_on sep t)) (c # t)"
    by (metis append_Cons append_Nil contains_iff)
  with Miss show ?case by (auto simp: split_on_steps dest: list.set_sel(2) [OF split_on_not_Nil])
qed (simp add: split_on_steps)

lemma split_on_clean: "sep \<noteq> [] \<Longrightarrow> p \<in> set (split_on sep s) \<Longrightarrow> \<not> contains sep p"
proof (induction s arbitrary: p rule: split_on_induct [of sep])
  case (Miss c t)
  obtain u where t: "t = hd (split_on sep t) @ u" using split_on_first by blast
  have "\<not> starts_with sep (c # hd (split_on sep t))"
  proof
    assume "starts_with sep (c # hd (split_on sep t))"
    then obtain w where "c # hd (split_on sep t) = sep @ w" by (auto simp: starts_with_iff)
    then have "c # t = sep @ w @ u" using t by (metis append.assoc append_Cons)
    with Miss show False by (auto simp: starts_with_iff)
  qed
  moreover have "\<not> contains sep (hd (split_on sep t))" using Miss by simp
  ultimately show ?case using Miss by (auto simp: split_on_steps dest: list.set_sel(2) [OF split_on_not_Nil])
qed (auto simp: split_on_steps)

lemma join_contains:
  assumes "CHR ''<'' \<notin> set v" and "CHR ''>'' \<notin> set v" and "contains v (join (marker name) ps)" and "v \<noteq> []"
  shows "(\<exists>p \<in> set ps. contains v p) \<or> contains v (''redacted:'' @ name)"
  using assms(3)
proof (induction ps)
  case (Cons p ps)
  then show ?case
    by (cases "ps = []") (auto simp: join_Cons dest: contains_marked [OF assms(1,2)])
qed (use assms(4) in simp)

text \<open>What replacing by a marker can leave behind.\<close>

lemma replace_keeps:
  assumes "CHR ''<'' \<notin> set v" and "CHR ''>'' \<notin> set v" and "v \<noteq> []"
    and "contains v (py_replace w (marker name) s)"
  shows "contains v s \<or> contains v (''redacted:'' @ name)"
  using join_contains [OF assms(1,2) _ assms(3)] assms(4) split_on_part contains_trans
  unfolding py_replace_def by blast

lemma replace_removes:
  assumes "CHR ''<'' \<notin> set v" and "CHR ''>'' \<notin> set v" and "v \<noteq> []"
    and "contains v (py_replace v (marker name) s)"
  shows "contains v (''redacted:'' @ name)"
  using join_contains [OF assms(1,2) _ assms(3)] assms(3,4) split_on_clean
  unfolding py_replace_def by blast


section \<open>What redacted text forgets\<close>

text \<open>
  A secret no replacement text can recreate: it is longer than every marker, has none of their
  delimiters, does not begin with a letter of \<open>HOME\<close>, and has no capital B after a character
  that ends a word, where \<open>Bearer\<close> could begin. The capability tokens of the fixture, 43 random
  letters, digits, hyphens and underscores, and the paths of its temporary directories are such.
\<close>

definition plain_secret :: "string \<Rightarrow> bool" where
  "plain_secret v \<longleftrightarrow> 24 \<le> length v \<and> list_all (\<lambda>c. c \<notin> set ''<>$ '') v \<and> hd v \<notin> set ''HOME'' \<and>
     successively (\<lambda>c d. d = CHR ''B'' \<longrightarrow> word_char c) v"

lemma plain_secretD:
  assumes "plain_secret v"
  shows "v \<noteq> []" "CHR ''<'' \<notin> set v" "CHR ''>'' \<notin> set v" "CHR ''$'' \<notin> set v" "CHR '' '' \<notin> set v"
    "24 \<le> length v"
proof -
  from assms have *: "24 \<le> length v" "\<forall>c \<in> set v. c \<notin> set ''<>$ ''"
    unfolding plain_secret_def list_all_iff by blast+
  show "24 \<le> length v" by (rule *(1))
  then show "v \<noteq> []" by auto
  show "CHR ''<'' \<notin> set v" "CHR ''>'' \<notin> set v" "CHR ''$'' \<notin> set v" "CHR '' '' \<notin> set v"
    using *(2) by auto
qed

lemma plain_secret_short: "plain_secret v \<Longrightarrow> length s < 24 \<Longrightarrow> \<not> contains v s"
  using plain_secretD(6) contains_length by fastforce

lemma registered_forgets:
  assumes "plain_secret v" and "v \<in> set sensitive \<or> \<not> contains v s"
  shows "\<not> contains v (redact_registered sensitive s)"
  using assms(2)
proof (induction sensitive arbitrary: s)
  case (Cons w ws)
  let ?t = "if w = [] then s else py_replace w (marker ''RUNTIME_SECRET'') s"
  have short: "\<not> contains v (''redacted:'' @ ''RUNTIME_SECRET'')"
    by (rule plain_secret_short [OF assms(1)]) simp
  have "v \<in> set ws \<or> \<not> contains v ?t"
    using Cons.prems plain_secretD(1-3) [OF assms(1)] short replace_removes [of v "''RUNTIME_SECRET''" s]
      replace_keeps [of v w "''RUNTIME_SECRET''" s]
    by auto
  from Cons.IH [OF this] show ?case by (simp add: redact_registered_def)
qed (simp add: redact_registered_def)

text \<open>The home directory is replaced by text with a delimiter in front only.\<close>

lemma contains_home:
  assumes "plain_secret v" and "contains v (''HOME'' @ y)"
  shows "contains v y"
proof -
  obtain a b where *: "''HOME'' @ y = a @ v @ b" using assms(2) by (auto simp: contains_iff)
  have "length a \<ge> 4"
  proof (rule ccontr)
    assume "\<not> length a \<ge> 4"
    then have "(''HOME'' @ y) ! length a \<in> set ''HOME''"
      by (subst nth_append_left) (auto intro!: nth_mem simp del: set_simps)
    moreover have "(''HOME'' @ y) ! length a = hd v"
      unfolding * using plain_secretD(1) [OF assms(1)] by (cases v) (simp_all add: nth_append)
    ultimately show False using assms(1) by (simp add: plain_secret_def)
  qed
  then have "y = drop 4 a @ v @ b" using arg_cong [OF *, of "drop 4"] by simp
  then show ?thesis by (auto simp: contains_iff)
qed

lemma home_forgets:
  assumes v: "plain_secret v" and "\<not> contains v text"
  shows "\<not> contains v (redact_home S text)"
proof -
  have "contains v (join ''$HOME'' ps) \<Longrightarrow> \<exists>p \<in> set ps. contains v p" for ps
  proof (induction ps)
    case (Cons p ps)
    show ?case
    proof (cases "ps = []")
      case False
      with Cons.prems have "contains v (p @ CHR ''$'' # (''HOME'' @ join ''$HOME'' ps))" by (simp add: join_Cons)
      then have "contains v p \<or> contains v (''HOME'' @ join ''$HOME'' ps)"
        by (rule contains_separated [OF plain_secretD(4) [OF v]])
      with contains_home [OF v] Cons.IH show ?thesis by auto
    qed (use Cons.prems in simp)
  qed (use plain_secretD(1) [OF v] in simp)
  then have "contains v (py_replace (home S) ''$HOME'' text) \<Longrightarrow> contains v text"
    using split_on_part contains_trans unfolding py_replace_def by blast
  then show ?thesis using assms(2) by (auto simp: redact_home_def)
qed

text \<open>A matcher whose replacements bring no plain secret.\<close>

definition brings_none :: "matcher \<Rightarrow> string \<Rightarrow> bool" where
  "brings_none m v \<longleftrightarrow> (\<forall>prev s new rest acc y. m prev s = Some (new, rest) \<longrightarrow>
     (acc = [] \<or> prev = Some (last acc)) \<longrightarrow> contains v (acc @ new @ y) \<longrightarrow>
     contains v (acc @ s) \<or> contains v y)"

lemma sub_all_steps:
  "sub_all m prev [] = []"
  "m prev (c # r) = None \<Longrightarrow> sub_all m prev (c # r) = c # sub_all m (Some c) r"
  by (simp_all add: sub_all.simps)

lemma sub_all_keeps:
  assumes "brings_none m v" and suffix: "\<And>prev s new rest. m prev s = Some (new, rest) \<Longrightarrow> suffix rest s"
    and "acc = [] \<or> prev = Some (last acc)" and "contains v (acc @ sub_all m prev s)"
  shows "contains v (acc @ s)"
  using assms(3,4)
proof (induction s arbitrary: acc prev rule: length_induct)
  case (1 s)
  show ?case
  proof (cases s)
    case Nil
    with 1 show ?thesis by (simp add: sub_all_steps)
  next
    case (Cons c r)
    show ?thesis
    proof (cases "\<exists>new rest. m prev s = Some (new, rest) \<and> length rest < length s")
      case True
      then obtain new rest where m: "m prev s = Some (new, rest)" "length rest < length s" by auto
      then have "sub_all m prev s = new @ sub_all m (Some (s ! (length s - length rest - 1))) rest"
        using Cons by (simp add: sub_all.simps)
      then have "contains v (acc @ s) \<or> contains v (sub_all m (Some (s ! (length s - length rest - 1))) rest)"
        using assms(1) m(1) "1.prems" unfolding brings_none_def by metis
      then have "contains v (acc @ s) \<or> contains v rest" using "1.IH" m(2) by (metis append_Nil)
      moreover obtain u where "s = u @ rest" using suffix [OF m(1)] by (auto simp: suffix_def)
      ultimately show ?thesis using contains_cut [of v rest "acc @ u" "[]"] by auto
    next
      case False
      then have "sub_all m prev s = c # sub_all m (Some c) r"
        using Cons by (auto simp: sub_all.simps split: option.splits)
      then show ?thesis
        using "1.IH" [rule_format, of r "acc @ [c]" "Some c"] "1.prems" Cons by simp
    qed
  qed
qed


lemma suffix_steps:
  "literal_nocase p s = Some rest \<Longrightarrow> suffix rest s" "suffix (drop_spaces s) s"
  "after_label s = Some rest \<Longrightarrow> suffix rest s" "after_separator s = Some rest \<Longrightarrow> suffix rest s"
proof -
  show "literal_nocase p s = Some rest \<Longrightarrow> suffix rest s"
    by (auto simp: literal_nocase_def suffix_drop split: if_splits)
  show *: "suffix (drop_spaces t) t" for t by (simp add: drop_spaces_def suffix_dropWhile)
  show "after_label s = Some rest \<Longrightarrow> suffix rest s"
    by (auto simp: after_label_def Let_def suffix_drop split: option.splits if_splits)
  assume "after_separator s = Some rest"
  then obtain c t where "drop_spaces s = c # t" "rest = drop_spaces t"
    by (auto simp: after_separator_def split: list.splits if_splits)
  then show "suffix rest s" by (metis * suffix_ConsI suffix_order.trans)
qed

lemma match_suffix:
  "match_bearer prev s = Some (new, rest) \<Longrightarrow> suffix rest s"
  "match_label prev s = Some (new, rest) \<Longrightarrow> suffix rest s"
  unfolding match_bearer_def match_label_def Let_def
  by (auto simp: bind_eq_Some_conv split: if_splits)
    (metis suffix_steps suffix_dropWhile suffix_order.trans)+

lemma contains_redacted:
  assumes "plain_secret v" and "contains v (x @ ''<redacted>'' @ y)"
  shows "contains v x \<or> contains v y"
proof -
  have "x @ ''<redacted>'' @ y = x @ CHR ''<'' # (''redacted'' @ CHR ''>'' # y)" by simp
  with assms have "contains v x \<or> contains v ''redacted'' \<or> contains v y"
    using contains_separated plain_secretD(2,3) by metis
  then show ?thesis using plain_secret_short [OF assms(1), of "''redacted''"] by simp
qed

lemma label_brings_none:
  assumes "plain_secret v"
  shows "brings_none match_label v"
  unfolding brings_none_def
proof (intro allI impI)
  fix prev s new rest acc y
  assume "match_label prev s = Some (new, rest)" and *: "contains v (acc @ new @ y)"
  then obtain k where "new = take k s @ ''<redacted>''"
    by (auto simp: match_label_def Let_def bind_eq_Some_conv split: if_splits)
  with * have "contains v (acc @ take k s) \<or> contains v y"
    using contains_redacted [OF assms, of "acc @ take k s" y] by simp
  then show "contains v (acc @ s) \<or> contains v y"
    using contains_cut [of v "acc @ take k s" "[]" "drop k s"] by auto
qed

text \<open>The name \<open>Bearer\<close> completes no secret: it comes after a character that ends a word.\<close>

lemma contains_bearer:
  assumes v: "plain_secret v" and prev: "acc = [] \<or> \<not> word_char (last acc)"
    and "contains v (acc @ ''Bearer'')"
  shows "contains v acc"
proof -
  obtain a b where *: "acc @ ''Bearer'' = a @ v @ b" using assms(3) by (auto simp: contains_iff)
  have len: "24 \<le> length v" by (rule plain_secretD(6) [OF v])
  then have "length a < length acc" using arg_cong [OF *, of length] by simp
  then have "acc = a @ drop (length a) acc" "drop (length a) acc \<noteq> []"
    using arg_cong [OF *, of "take (length a)"] by (simp_all, metis append_take_drop_id)
  moreover from this have "drop (length a) acc @ ''Bearer'' = v @ b" using * by (metis append.assoc same_append_eq)
  ultimately obtain us where us: "acc = a @ us" "us \<noteq> []" "us @ ''Bearer'' = v @ b" by blast
  show ?thesis
  proof (cases "length v \<le> length us")
    case True
    then have "us = v @ drop (length v) us" using us(3) by (metis append_eq_append_conv_if append_take_drop_id)
    with us(1) show ?thesis unfolding contains_iff by metis
  next
    case False
    then obtain ws where ws: "v = us @ ws" "ws \<noteq> []" "''Bearer'' = ws @ b"
      using us(3) by (auto simp: append_eq_append_conv2)
    then obtain ws' where "ws = CHR ''B'' # ws'" by (cases ws) auto
    moreover have "\<not> word_char (last us)" using prev us by auto
    ultimately show ?thesis using v us(2) ws(1)
      by (auto simp: plain_secret_def successively_append_iff)
  qed
qed

lemma bearer_brings_none:
  assumes "plain_secret v"
  shows "brings_none match_bearer v"
  unfolding brings_none_def
proof (intro allI impI)
  fix prev s new rest acc y
  assume m: "match_bearer prev s = Some (new, rest)" and prev: "acc = [] \<or> prev = Some (last acc)"
    and *: "contains v (acc @ new @ y)"
  have new: "new = ''Bearer <redacted>''" and "at_word_start prev"
    using m by (auto simp: match_bearer_def Let_def bind_eq_Some_conv split: if_splits)
  then have acc: "acc = [] \<or> \<not> word_char (last acc)" using prev by (auto simp: at_word_start_def)
  have "acc @ new @ y = (acc @ ''Bearer'') @ CHR '' '' # (''<redacted>'' @ y)" by (simp add: new)
  with * have "contains v (acc @ ''Bearer'') \<or> contains v (''<redacted>'' @ y)"
    using contains_separated [OF plain_secretD(5) [OF assms]] by metis
  then have "contains v acc \<or> contains v y"
    using contains_bearer [OF assms acc] contains_redacted [OF assms, of "[]" y] plain_secretD(1) [OF assms] by auto
  then show "contains v (acc @ s) \<or> contains v y" using contains_cut [of v acc "[]" s] by auto
qed

lemma redacted_text_forgets:
  assumes "plain_secret v" and "v \<in> set sensitive"
  shows "\<not> contains v (fst (redact_text S sensitive txt))"
proof -
  let ?a = "redact_home S (redact_registered sensitive (redact_environment S txt))"
  have "\<not> contains v ?a"
    by (intro home_forgets registered_forgets assms(1)) (simp add: assms(2))
  then have "\<not> contains v (sub_all match_bearer None ?a)"
    using sub_all_keeps [OF bearer_brings_none [OF assms(1)] match_suffix(1), where acc = "[]" and prev = None and s = ?a] by auto
  then have "\<not> contains v (sub_all match_label None (sub_all match_bearer None ?a))"
    using sub_all_keeps [OF label_brings_none [OF assms(1)] match_suffix(2), where acc = "[]" and prev = None]
    by auto
  then show ?thesis by (simp add: redact_text_def Let_def)
qed


fun value_strings :: "pyval \<Rightarrow> string list"
  and items_strings :: "pyval list \<Rightarrow> string list"
  and pairs_strings :: "pydict \<Rightarrow> string list" where
  "value_strings (PStr s) = [s]"
| "value_strings (PList xs) = items_strings xs"
| "value_strings (PDict d) = pairs_strings d"
| "value_strings v = []"
| "items_strings [] = []"
| "items_strings (x # xs) = value_strings x @ items_strings xs"
| "pairs_strings [] = []"
| "pairs_strings ((k, v) # d) = value_strings v @ pairs_strings d"

fun value_keys :: "pyval \<Rightarrow> string list"
  and items_keys :: "pyval list \<Rightarrow> string list"
  and pairs_keys :: "pydict \<Rightarrow> string list" where
  "value_keys (PList xs) = items_keys xs"
| "value_keys (PDict d) = pairs_keys d"
| "value_keys v = []"
| "items_keys [] = []"
| "items_keys (x # xs) = value_keys x @ items_keys xs"
| "pairs_keys [] = []"
| "pairs_keys ((k, v) # d) = k # value_keys v @ pairs_keys d"

text \<open>
  C24: Redaction forgets registered secrets. Whatever the value, the environment and the other
  registered values, no registered secret that no replacement text could recreate occurs in any
  string of the redacted value. The keys of its dicts, though, are those of the value itself: a
  secret in a key stays.
\<close>
theorem redacted_value_forgets:
  assumes "plain_secret v" and "v \<in> set sensitive"
  shows "(\<forall>s \<in> set (value_strings (fst (redact_value S sensitive x))). \<not> contains v s) \<and>
    value_keys (fst (redact_value S sensitive x)) = value_keys x"
proof -
  have "(\<forall>s \<in> set (value_strings (fst (redact_value S sensitive x))). \<not> contains v s) \<and>
      value_keys (fst (redact_value S sensitive x)) = value_keys x"
    and "(\<forall>s \<in> set (items_strings (fst (redact_items S sensitive xs))). \<not> contains v s) \<and>
      items_keys (fst (redact_items S sensitive xs)) = items_keys xs"
    and "(\<forall>s \<in> set (pairs_strings (fst (redact_pairs S sensitive d))). \<not> contains v s) \<and>
      pairs_keys (fst (redact_pairs S sensitive d)) = pairs_keys d" for xs d
    by (induction x and xs and d rule: value_strings_items_strings_pairs_strings.induct)
      (auto simp: redacted_text_forgets [OF assms])
  then show ?thesis by blast
qed

definition demo_secret :: string where
  "demo_secret = replicate 43 (CHR ''a'')"

theorem redacted_value_forgets_witness:
  "list_all (\<lambda>s. \<not> contains demo_secret s)
     (value_strings (fst (redact_value \<lparr>environ = (\<lambda>_. None), home = ''/root''\<rparr> [demo_secret]
       (PDict [(''url'', PStr (''?t='' @ demo_secret))]))))"
proof -
  have "plain_secret demo_secret" by code_simp
  with redacted_value_forgets [of demo_secret "[demo_secret]"] show ?thesis
    unfolding list_all_iff by (simp del: redact_value.simps value_strings.simps)
qed

section \<open>What a redacted trace forgets\<close>

lemma member_forgets:
  assumes "CHR ''<'' \<notin> set v" and "CHR ''>'' \<notin> set v" and "v \<noteq> []"
    and "\<not> contains v ''redacted:BTB_UI_TOKEN''" and "v \<in> set order \<or> \<not> contains v content"
  shows "\<not> contains v (redact_member order content)"
  using assms(5)
proof (induction order arbitrary: content)
  case (Cons w ws)
  have "v \<in> set ws \<or> \<not> contains v (py_replace w (marker ''BTB_UI_TOKEN'') content)"
    using Cons.prems assms(4) replace_removes [OF assms(1-3), of "''BTB_UI_TOKEN''" content]
      replace_keeps [OF assms(1-3), of w "''BTB_UI_TOKEN''" content]
    by auto
  from Cons.IH [OF this] show ?case by (simp add: redact_member_def)
qed (simp add: redact_member_def)

text \<open>
  C25: A redacted trace archive forgets the capability tokens, in whatever order Python iterates
  over the set of secrets. Every registered value, and every token that one of the two patterns finds
  in any member of the archive, occurs in no member of the redacted archive, as long as it has no
  angle bracket and is no part of the replacement itself.
\<close>
theorem redacted_trace_forgets:
  assumes "set order = set (trace_secrets sensitive members)"
    and "v \<in> set sensitive \<or> (\<exists>content \<in> set members. v \<in> set (tokens_in content))" and "v \<noteq> []"
    and "CHR ''<'' \<notin> set v" and "CHR ''>'' \<notin> set v" and "\<not> contains v ''redacted:BTB_UI_TOKEN''"
  shows "snd (redact_playwright_trace order members) \<and>
    (\<forall>content \<in> set (fst (redact_playwright_trace order members)). \<not> contains v content)"
proof -
  have "v \<in> set order" using assms(1-3) by (auto simp: trace_secrets_def)
  moreover from this have "order \<noteq> []" by auto
  ultimately show ?thesis using member_forgets [OF assms(4,5,3,6)] by (simp add: redact_playwright_trace_def)
qed

theorem redacted_trace_forgets_witness:
  "fst (redact_playwright_trace [demo_secret] [''btbUiToken='' @ quoted demo_secret]) =
     [''btbUiToken='' @ quoted redacted_token] \<and>
   \<not> contains demo_secret (''btbUiToken='' @ quoted redacted_token)"
proof -
  have eqs: "trace_secrets [] [''btbUiToken='' @ quoted demo_secret] = [demo_secret]"
    "fst (redact_playwright_trace [demo_secret] [''btbUiToken='' @ quoted demo_secret]) =
       [''btbUiToken='' @ quoted redacted_token]"
    "demo_secret \<in> set (tokens_in (''btbUiToken='' @ quoted demo_secret))"
    "demo_secret \<noteq> []" "CHR ''<'' \<notin> set demo_secret" "CHR ''>'' \<notin> set demo_secret"
    "\<not> contains demo_secret ''redacted:BTB_UI_TOKEN''"
    by code_simp+
  then show ?thesis
    using redacted_trace_forgets [of "[demo_secret]" "[]" "[''btbUiToken='' @ quoted demo_secret]" demo_secret] by simp
qed

end
