(* ===== verification/Receipt_Builder.thy ===== *)
theory Receipt_Builder
  imports Redaction
begin

text \<open>
  The receipt builder of \<open>src/btb/harness/manifest.py\<close>: source provenance, the evidence a run
  accumulates, and the one receipt it publishes. An operation returns the exception it raises or
  its value, with the builder and the files on disk as they are afterwards. Clock readings are
  arguments, and so are Git, the environment and the failures of the file system (\<open>host\<close>).
\<close>

section \<open>Exceptions\<close>

record py_exc =
  exc_name :: string
  exc_text :: string
  exc_timeout :: bool

definition exc :: "string \<Rightarrow> string \<Rightarrow> py_exc" where
  "exc name message = \<lparr>exc_name = name, exc_text = message, exc_timeout = False\<rparr>"

abbreviation value_error :: "string \<Rightarrow> py_exc" where
  "value_error \<equiv> exc ''ValueError''"

abbreviation runtime_error :: "string \<Rightarrow> py_exc" where
  "runtime_error \<equiv> exc ''RuntimeError''"

section \<open>Source provenance\<close>

record source_provenance =
  sp_commit :: "string option"
  sp_dirty :: bool
  sp_tree :: string

definition source_to_dict :: "source_provenance \<Rightarrow> pydict" where
  "source_to_dict s =
     [(''git_commit'', opt_text (sp_commit s)), (''git_dirty'', PBool (sp_dirty s)),
      (''source_tree_sha256'', PStr (sp_tree s))]"

text \<open>
  A checkout: the answers of Git, \<open>None\<close> when it fails, and the regular files below the root by
  their relative path.
\<close>

record checkout =
  git_text :: "string list \<Rightarrow> string option"
  checkout_files :: "(string \<times> string) list"

definition definitions_prefix :: string where
  "definitions_prefix = ''btb/tasks/definitions/''"

definition definition_input :: "string \<Rightarrow> bool" where
  "definition_input path \<longleftrightarrow> starts_with definitions_prefix path \<and> ends_with ''.json'' path \<and>
     CHR ''/'' \<notin> set (drop (length definitions_prefix) path)"

definition template_input :: "string \<Rightarrow> bool" where
  "template_input path \<longleftrightarrow> starts_with ''btb/app/templates/'' path \<and> ends_with ''.html'' path"

definition schema_input :: "string \<Rightarrow> bool" where
  "schema_input path \<longleftrightarrow> starts_with ''btb/schemas/'' path \<and> path_suffix path \<in> {''.json'', ''.py''}"

definition is_candidate :: "string \<Rightarrow> bool" where
  "is_candidate path \<longleftrightarrow>
     (starts_with ''btb/'' path \<and> ends_with ''.py'' path) \<or> definition_input path \<or>
     template_input path \<or> schema_input path \<or>
     path \<in> {''run_pilot.py'', ''pyproject.toml'', ''PROTOCOL.md''}"

definition source_paths :: "checkout \<Rightarrow> py_exc + string list" where
  "source_paths co =
     (let candidates = filter is_candidate (map fst (checkout_files co));
          missing =
            (if ''run_pilot.py'' \<in> set candidates then [] else [''run_pilot.py'']) @
            (if list_ex (\<lambda>p. path_suffix p = ''.py'') candidates then [] else [''btb/**/*.py'']) @
            (if list_ex (\<lambda>p. definition_input p \<and> path_suffix p = ''.json'') candidates then []
             else [''btb/tasks/definitions/*.json'']) @
            (if list_ex (\<lambda>p. path_suffix p = ''.html'') candidates then [] else [''btb/app/templates/**/*.html'']) @
            (if list_ex (starts_with ''btb/schemas/'') candidates then [] else [''btb/schemas/**/*''])
      in if missing \<noteq> []
         then Inl (exc ''SourceProvenanceError''
           (''required source inputs are missing: '' @ join '', '' (sort missing)))
         else Inr (sort candidates))"

text \<open>\<open>path.read_bytes()\<close> for a path of the checkout.\<close>

definition read_source :: "checkout \<Rightarrow> string \<Rightarrow> string" where
  "read_source co path = (case map_of (checkout_files co) path of None \<Rightarrow> [] | Some content \<Rightarrow> content)"

definition source_tree_sha256 :: "digests \<Rightarrow> checkout \<Rightarrow> py_exc + string" where
  "source_tree_sha256 D co =
     map_sum id (\<lambda>paths. hex_sha256 D (framed_files paths (map (read_source co) paths))) (source_paths co)"

definition strip_while :: "(char \<Rightarrow> bool) \<Rightarrow> string \<Rightarrow> string" where
  "strip_while P s = rev (dropWhile P (rev (dropWhile P s)))"

definition current_commit :: "checkout \<Rightarrow> string option" where
  "current_commit co =
     (case git_text co [''rev-parse'', ''--verify'', ''HEAD''] of
        None \<Rightarrow> None
      | Some output \<Rightarrow>
          (let commit = map lower_char (strip_while space_char output)
           in if git_commit_text commit then Some commit else None))"

definition excluded_status_prefixes :: "string list" where
  "excluded_status_prefixes =
     [''.git/'', ''.venv/'', ''build/'', ''dist/'', ''manifests/'', ''results/'', ''.pytest_cache/'', ''.ruff_cache/'']"

definition status_path_is_excluded :: "string \<Rightarrow> bool" where
  "status_path_is_excluded path =
     (let normalized = map (\<lambda>c. if c = char_of (92::nat) then CHR ''/'' else c)
            (strip_while (\<lambda>c. c = char_of (34::nat)) (strip_while space_char path))
      in normalized \<in> set (map butlast excluded_status_prefixes) \<or>
         list_ex (\<lambda>prefix. starts_with prefix normalized) excluded_status_prefixes)"

definition status_line_dirty :: "string \<Rightarrow> bool" where
  "status_line_dirty line \<longleftrightarrow>
     line \<noteq> [] \<and>
     \<not> list_all status_path_is_excluded (split_on '' -> '' (if length line \<ge> 4 then drop 3 line else line))"

definition working_tree_dirty :: "checkout \<Rightarrow> bool" where
  "working_tree_dirty co =
     (case git_text co [''status'', ''--porcelain=v1'', ''--untracked-files=all'', ''--'', ''.''] of
        None \<Rightarrow> True
      | Some output \<Rightarrow> list_ex status_line_dirty (split_lines output))"

definition source_provenance_of :: "digests \<Rightarrow> checkout \<Rightarrow> py_exc + source_provenance" where
  "source_provenance_of D co =
     map_sum id (\<lambda>tree. \<lparr>sp_commit = current_commit co, sp_dirty = working_tree_dirty co, sp_tree = tree\<rparr>)
       (source_tree_sha256 D co)"

definition require_canonical_source :: "source_provenance \<Rightarrow> py_exc option" where
  "require_canonical_source s =
     (let problems = (if sp_commit s = None then [''Git commit is unavailable''] else []) @
            (if sp_dirty s then [''source tree is dirty''] else [])
      in if problems = [] then None
         else Some (exc ''CanonicalSourceError'' (''canonical run refused: '' @ join ''; '' problems)))"

section \<open>Failures\<close>

definition baseline_stages :: "string list" where
  "baseline_stages =
     [''baseline'', ''injection_quiescence'', ''after_snapshot'', ''playwright_trace'',
      ''playwright_trace_publish'', ''playwright_context_close'', ''playwright_browser_close'']"

definition classify_failure :: "py_exc \<Rightarrow> string \<Rightarrow> string" where
  "classify_failure e stage =
     (if exc_timeout e then ''timeout''
      else if stage = ''evaluation'' then ''evaluation_error''
      else if stage \<in> set baseline_stages then ''baseline_error''
      else ''setup_error'')"

section \<open>Files\<close>

text \<open>
  A file is published by linking a complete temporary file, which refuses an existing name, and
  removing the temporary file. The host may make a publication fail, before or after the link.
\<close>

datatype fault = BeforeLink py_exc | AfterLink py_exc

record host =
  h_digests :: digests
  h_surroundings :: surroundings
  h_fault :: "string \<Rightarrow> fault option"

record disk =
  receipt_files :: "(string \<times> string) list"
  artifact_files :: "(string \<times> string) list"

definition safe_component :: "string \<Rightarrow> bool" where
  "safe_component s \<longleftrightarrow> s \<noteq> [] \<and> length s \<le> 192 \<and> word_char (hd s) \<and> hd s \<noteq> CHR ''_'' \<and>
     list_all (\<lambda>c. word_char c \<or> c = CHR ''.'' \<or> c = CHR ''-'') s"

definition unsafe_component :: "string \<Rightarrow> py_exc" where
  "unsafe_component name =
     value_error (name @ '' must contain only letters, digits, dot, underscore, and hyphen'')"

text \<open>The exception, if any, and the files afterwards.\<close>

definition publish :: "host \<Rightarrow> (string \<times> string) list \<Rightarrow> string \<Rightarrow> string
    \<Rightarrow> py_exc option \<times> (string \<times> string) list" where
  "publish H files name payload =
     (case h_fault H name of
        Some (BeforeLink e) \<Rightarrow> (Some e, files)
      | after \<Rightarrow>
          if map_of files name \<noteq> None then (Some (exc ''FileExistsError'' name), files)
          else (case after of Some (AfterLink e) \<Rightarrow> Some e | _ \<Rightarrow> None, files @ [(name, payload)]))"

definition write_artifact :: "host \<Rightarrow> disk \<Rightarrow> string \<Rightarrow> string \<Rightarrow> string \<Rightarrow> (py_exc + string) \<times> disk" where
  "write_artifact H dsk payload run_id ext =
     (if \<not> safe_component run_id then (Inl (unsafe_component ''artifact run_id''), dsk)
      else if \<not> safe_component ext then (Inl (unsafe_component ''artifact suffix''), dsk)
      else (let name = run_id @ ''.'' @ ext;
                (error, files) = publish H (artifact_files dsk) name payload
            in (case error of Some e \<Rightarrow> Inl e | None \<Rightarrow> Inr name, dsk\<lparr>artifact_files := files\<rparr>)))"

text \<open>\<open>json.dumps(value, ensure_ascii=False, allow_nan=False, indent=2, sort_keys=True)\<close>.\<close>

definition new_line :: "nat \<Rightarrow> string" where
  "new_line depth = char_of (10::nat) # replicate (2 * depth) (CHR '' '')"

fun json_pretty :: "(rat \<Rightarrow> string) \<Rightarrow> nat \<Rightarrow> pyval \<Rightarrow> string"
  and pretty_items :: "(rat \<Rightarrow> string) \<Rightarrow> nat \<Rightarrow> pyval list \<Rightarrow> string list"
  and pretty_pairs :: "(rat \<Rightarrow> string) \<Rightarrow> nat \<Rightarrow> pydict \<Rightarrow> (string \<times> string) list" where
  "json_pretty ft n (PList xs) =
     (if xs = [] then ''[]''
      else ''['' @ new_line (n + 1) @ join ('','' @ new_line (n + 1)) (pretty_items ft (n + 1) xs) @
        new_line n @ '']'')"
| "json_pretty ft n (PDict d) =
     (if d = [] then ''{}''
      else ''{'' @ new_line (n + 1) @
        join ('','' @ new_line (n + 1)) (map (\<lambda>(k, t). json_string k @ '': '' @ t)
          (sort_key fst (pretty_pairs ft (n + 1) d))) @ new_line n @ ''}'')"
| "json_pretty ft n v = canonical_json ft v"
| "pretty_items ft n [] = []"
| "pretty_items ft n (x # xs) = json_pretty ft n x # pretty_items ft n xs"
| "pretty_pairs ft n [] = []"
| "pretty_pairs ft n ((k, v) # d) = (k, json_pretty ft n v) # pretty_pairs ft n d"

definition json_document :: "host \<Rightarrow> pyval \<Rightarrow> string" where
  "json_document H v = json_pretty (float_text (h_digests H)) 0 v @ [char_of (10::nat)]"


section \<open>The builder\<close>

record baseline_provenance =
  bp_name :: string
  bp_framework :: string
  bp_version :: "string option"
  bp_provider :: "string option"
  bp_model :: "string option"
  bp_parameters :: pydict
  bp_modality :: pydict
  bp_capability :: pydict

definition baseline_to_dict :: "baseline_provenance \<Rightarrow> pydict" where
  "baseline_to_dict b =
     [(''name'', PStr (bp_name b)),
      (''framework'', PDict
        [(''name'', PStr (bp_framework b)), (''installed_version'', opt_text (bp_version b))]),
      (''provider'', opt_text (bp_provider b)), (''model'', opt_text (bp_model b)),
      (''parameters'', PDict (bp_parameters b)), (''modality_policy'', PDict (bp_modality b)),
      (''capability_policy'', PDict (bp_capability b))]"

text \<open>The set of sensitive values is a list; its order is that of registration.\<close>

record builder =
  b_run_id :: string
  b_freeze :: string
  b_baseline :: baseline_provenance
  b_steps :: pyval
  b_wall :: pyval
  b_requested :: bool
  b_task :: "pydict option"
  b_prompt :: "string option"
  b_release :: string
  b_source :: "source_provenance option"
  b_parser :: string
  b_evaluator :: string
  b_validator :: string
  b_started :: string
  b_before :: "pydict option"
  b_after :: "pydict option"
  b_claim :: "pydict option"
  b_injection :: "pydict option"
  b_evaluation :: "pydict option"
  b_outcome :: "string option"
  b_trace :: "pydict option"
  b_filesystem :: "pydict option"
  b_evidence_failures :: "pydict list"
  b_finalized :: "string option"
  b_sensitive :: "string list"
  b_effective_bound :: bool

definition positive_number :: "pyval \<Rightarrow> bool" where
  "positive_number v \<longleftrightarrow> (case v of PInt i \<Rightarrow> 0 < i | PFloat q \<Rightarrow> 0 < q | _ \<Rightarrow> False)"

definition post_init :: "(py_exc + source_provenance) \<Rightarrow> builder \<Rightarrow> py_exc + builder" where
  "post_init provenance b =
     (if \<not> safe_component (b_run_id b) then Inl (unsafe_component ''run_id'')
      else if b_freeze b = [] then Inl (value_error ''freeze must not be empty'')
      else if b_steps b \<noteq> PNone \<and> (\<not> is_strict_int (b_steps b) \<or> int_of_py (b_steps b) < 1)
      then Inl (value_error ''configured_steps must be a positive integer when provided'')
      else if b_wall b \<noteq> PNone \<and> \<not> positive_number (b_wall b)
      then Inl (value_error ''configured_wall_s must be positive when provided'')
      else (case b_source b of
        Some _ \<Rightarrow> Inr b
      | None \<Rightarrow> map_sum id (\<lambda>s. b\<lparr>b_source := Some s\<rparr>) provenance))"

text \<open>\<open>builder.canonical\<close>; a builder that \<open>post_init\<close> returns has a source.\<close>

definition canonical :: "builder \<Rightarrow> bool" where
  "canonical b \<longleftrightarrow> (case b_source b of None \<Rightarrow> False
     | Some s \<Rightarrow> b_requested b \<and> sp_commit s \<noteq> None \<and> \<not> sp_dirty s)"

definition ensure_canonical_source :: "builder \<Rightarrow> py_exc option" where
  "ensure_canonical_source b =
     (if \<not> b_requested b then None
      else (case b_source b of
        None \<Rightarrow> Some (runtime_error ''source provenance has not been initialized'')
      | Some s \<Rightarrow> require_canonical_source s))"

definition set_prompt :: "string \<Rightarrow> builder \<Rightarrow> (py_exc + unit) \<times> builder" where
  "set_prompt txt b =
     (if b_prompt b \<noteq> None then (Inl (runtime_error ''prompt provenance has already been recorded''), b)
      else (Inr (), b\<lparr>b_prompt := Some txt\<rparr>))"

text \<open>\<open>d.pop(key, None)\<close> as the value and the rest.\<close>

definition dpop :: "string \<Rightarrow> pydict \<Rightarrow> pyval \<times> pydict" where
  "dpop key d = (dget d key, filter (\<lambda>(k, _). k \<noteq> key) d)"

definition bind_effective_baseline :: "baseline_provenance \<Rightarrow> builder \<Rightarrow> (py_exc + unit) \<times> builder" where
  "bind_effective_baseline observed b =
     (let (current_policy, current_rest) = dpop ''effective_policy'' (bp_parameters (b_baseline b));
          (observed_policy, observed_rest) = dpop ''effective_policy'' (bp_parameters observed)
      in if b_effective_bound b
         then (Inl (runtime_error ''effective baseline provenance has already been bound''), b)
         else if py_ne current_policy (PDict [(''status'', PStr ''unobserved'')])
         then (Inl (value_error ''baseline is not awaiting an effective policy observation''), b)
         else if \<not> is_dict observed_policy \<or> dget (as_dict observed_policy) ''status'' \<noteq> PStr ''observed''
         then (Inl (value_error ''effective baseline policy must be observed''), b)
         else if py_ne (PDict (baseline_to_dict ((b_baseline b)\<lparr>bp_parameters := current_rest\<rparr>)))
             (PDict (baseline_to_dict (observed\<lparr>bp_parameters := observed_rest\<rparr>)))
         then (Inl (value_error ''effective baseline binding may only replace the observation fields''), b)
         else (Inr (), b\<lparr>b_baseline := observed, b_effective_bound := True\<rparr>))"

definition register_sensitive_value :: "string \<Rightarrow> builder \<Rightarrow> (py_exc + unit) \<times> builder" where
  "register_sensitive_value v b =
     (if v = [] then (Inl (value_error ''sensitive runtime value must be a non-empty string''), b)
      else (Inr (), b\<lparr>b_sensitive := List.insert v (b_sensitive b)\<rparr>))"

definition redaction_values :: "builder \<Rightarrow> string list" where
  "redaction_values b = sort (b_sensitive b)"

definition redacted_message :: "host \<Rightarrow> builder \<Rightarrow> py_exc \<Rightarrow> string" where
  "redacted_message H b e = fst (redact_text (h_surroundings H) (redaction_values b) (exc_text e))"

definition failure_dict :: "host \<Rightarrow> builder \<Rightarrow> py_exc \<Rightarrow> string \<Rightarrow> pydict" where
  "failure_dict H b e stage =
     [(''type'', PStr (exc_name e)), (''message'', PStr (redacted_message H b e)), (''stage'', PStr stage)]"

definition record_evidence_failure :: "host \<Rightarrow> py_exc \<Rightarrow> string \<Rightarrow> builder \<Rightarrow> builder" where
  "record_evidence_failure H e stage b =
     b\<lparr>b_evidence_failures := b_evidence_failures b @ [failure_dict H b e stage]\<rparr>"

section \<open>Traces\<close>

definition trace_metadata :: "host \<Rightarrow> string \<Rightarrow> string \<Rightarrow> string \<Rightarrow> string \<Rightarrow> bool \<Rightarrow> pydict" where
  "trace_metadata H kind format_name name payload redacted =
     [(''kind'', PStr kind), (''format'', PStr format_name), (''path'', PStr (''artifacts/'' @ name)),
      (''sha256'', PStr (hex_sha256 (h_digests H) payload)), (''size_bytes'', PInt (int (length payload))),
      (''complete'', PBool True), (''redacted'', PBool redacted)]"

definition write_json_trace :: "host \<Rightarrow> pyval \<Rightarrow> string \<Rightarrow> builder \<times> disk
    \<Rightarrow> (py_exc + pydict) \<times> builder \<times> disk" where
  "write_json_trace H v kind st =
     (let (b, dsk) = st;
          (sanitized, redacted) = redact_value (h_surroundings H) (redaction_values b) v;
          payload = json_document H sanitized
      in case write_artifact H dsk payload (b_run_id b) (kind @ ''.json'') of
           (Inl e, dsk') \<Rightarrow> (Inl e, b, dsk')
         | (Inr name, dsk') \<Rightarrow>
             (let metadata = trace_metadata H kind ''json'' name payload redacted
              in (Inr metadata, b\<lparr>b_trace := Some metadata\<rparr>, dsk')))"

text \<open>\<open>content\<close> is the result of reading the file.\<close>

definition bind_binary_trace :: "host \<Rightarrow> py_exc + string \<Rightarrow> string \<Rightarrow> string \<Rightarrow> string \<Rightarrow> bool \<Rightarrow> builder
    \<Rightarrow> (py_exc + pydict) \<times> builder" where
  "bind_binary_trace H content name kind format_name redacted b =
     (case content of
        Inl e \<Rightarrow> (Inl e, b)
      | Inr payload \<Rightarrow>
          (let metadata = trace_metadata H kind format_name name payload redacted
           in (Inr metadata, b\<lparr>b_trace := Some metadata\<rparr>)))"

section \<open>The filesystem of the framework\<close>

definition filesystem_dict :: "string \<Rightarrow> pyval \<Rightarrow> pyval \<Rightarrow> pydict" where
  "filesystem_dict state inventory cleanup_error =
     [(''state'', PStr state), (''cleanup_verified'', PBool (state = ''cleaned'')),
      (''inventory'', inventory), (''cleanup_error'', cleanup_error)]"

definition cleanup_error_value :: "host \<Rightarrow> builder \<Rightarrow> py_exc option \<Rightarrow> pyval" where
  "cleanup_error_value H b cleanup_error =
     (case cleanup_error of
        None \<Rightarrow> PNone
      | Some e \<Rightarrow> PDict [(''type'', PStr (exc_name e)), (''message'', PStr (redacted_message H b e))])"

definition inventory_metadata :: "host \<Rightarrow> pydict \<Rightarrow> string \<Rightarrow> string \<Rightarrow> pydict" where
  "inventory_metadata H inventory name payload =
     [(''path'', PStr (''artifacts/'' @ name)), (''sha256'', PStr (hex_sha256 (h_digests H) payload)),
      (''size_bytes'', PInt (int (length payload))), (''entry_count'', dget inventory ''entry_count''),
      (''file_count'', dget inventory ''file_count''), (''total_bytes'', dget inventory ''total_bytes''),
      (''inventory_sha256'', dget inventory ''inventory_sha256'')]"

definition bind_framework_filesystem :: "host \<Rightarrow> string \<Rightarrow> pydict option \<Rightarrow> py_exc option \<Rightarrow> builder \<times> disk
    \<Rightarrow> (py_exc + pydict) \<times> builder \<times> disk" where
  "bind_framework_filesystem H state inventory cleanup_error st =
     (let (b, dsk) = st;
          bound = (\<lambda>v. b\<lparr>b_filesystem := Some v\<rparr>);
          finish = (\<lambda>inventory_value dsk'.
            (let v = filesystem_dict state inventory_value (cleanup_error_value H b cleanup_error)
             in (Inr v, bound v, dsk')))
      in if b_filesystem b \<noteq> None
         then (Inl (runtime_error ''framework filesystem lifecycle has already been bound''), b, dsk)
         else if state \<notin> {''not_created'', ''cleaned'', ''cleanup_failed''}
         then (Inl (value_error ''framework filesystem state is invalid''), b, dsk)
         else if state = ''not_created'' \<and> inventory \<noteq> None
         then (Inl (value_error ''an uncreated sandbox cannot have an inventory''), b, dsk)
         else (case inventory of
           None \<Rightarrow> finish PNone dsk
         | Some listing \<Rightarrow>
             (let payload = canonical_json (float_text (h_digests H)) (PDict listing) @ [char_of (10::nat)]
              in case write_artifact H dsk payload (b_run_id b) ''browser-use-sandbox-inventory.json'' of
                   (Inl e, dsk') \<Rightarrow> (Inl e, bound (filesystem_dict state PNone PNone), dsk')
                 | (Inr name, dsk') \<Rightarrow> finish (PDict (inventory_metadata H listing name payload)) dsk')))"

definition learned :: "builder \<Rightarrow> bool" where
  "learned b \<longleftrightarrow> bp_name (b_baseline b) \<in> {''browser-use'', ''browser-use-full''}"

definition ensure_learned_filesystem_state :: "host \<Rightarrow> builder \<times> disk \<Rightarrow> builder \<times> disk" where
  "ensure_learned_filesystem_state H st =
     (if learned (fst st) \<and> b_filesystem (fst st) = None
      then snd (bind_framework_filesystem H ''not_created'' None None st) else st)"

section \<open>The receipt\<close>

definition opt_dict :: "pydict option \<Rightarrow> pyval" where
  "opt_dict d = (case d of None \<Rightarrow> PNone | Some v \<Rightarrow> PDict v)"

text \<open>\<open>round(x, 6)\<close> of an exact number: half to even.\<close>

definition round6 :: "rat \<Rightarrow> rat" where
  "round6 q =
     (let scaled = q * 1000000; low = floor scaled; part = scaled - of_int low;
          up = (part > 1 / 2 \<or> part = 1 / 2 \<and> odd low)
      in of_int (if up then low + 1 else low) / 1000000)"

text \<open>What a receipt takes from the clocks: the end time and the elapsed seconds.\<close>

record clock_reading =
  ended_at :: string
  elapsed :: rat

definition receipt_of :: "host \<Rightarrow> clock_reading \<Rightarrow> string \<Rightarrow> pyval \<Rightarrow> builder \<Rightarrow> pydict" where
  "receipt_of H clk status failure b =
     [(''schema_version'', PStr ''2.0''), (''run_id'', PStr (b_run_id b)), (''release'', PStr (b_release b)),
      (''freeze'', PStr (b_freeze b)), (''status'', PStr status), (''canonical'', PBool (canonical b)),
      (''started_at'', PStr (b_started b)), (''ended_at'', PStr (ended_at clk)),
      (''duration_s'', PFloat (round6 (max 0 (elapsed clk)))),
      (''source'', (case b_source b of None \<Rightarrow> PNone | Some s \<Rightarrow> PDict (source_to_dict s))),
      (''task'', (case b_task b of None \<Rightarrow> PNone
         | Some t \<Rightarrow> PDict [(''definition'', PDict t),
             (''sha256'', PStr (canonical_json_sha256 (h_digests H) (PDict t)))])),
      (''prompt'', PDict [(''text'', opt_text (b_prompt b)),
         (''sha256'', opt_text (map_option (prompt_sha256 (h_digests H)) (b_prompt b)))]),
      (''baseline'', PDict (baseline_to_dict (b_baseline b))),
      (''execution'', PDict
         [(''configured_steps'', b_steps b), (''configured_wall_s'', b_wall b),
          (''requested_canonical'', PBool (b_requested b)), (''failure'', failure),
          (''evidence_failures'', PList (map PDict (b_evidence_failures b)))]),
      (''agent_claim'', opt_dict (b_claim b)), (''trace'', opt_dict (b_trace b)),
      (''framework_filesystem'', opt_dict (b_filesystem b)),
      (''injection_report'', opt_dict (b_injection b)), (''before_snapshot'', opt_dict (b_before b)),
      (''after_snapshot'', opt_dict (b_after b)), (''evaluation'', opt_dict (b_evaluation b)),
      (''outcome'', opt_text (b_outcome b)),
      (''versions'', PDict [(''parser'', PStr (b_parser b)), (''evaluator'', PStr (b_evaluator b)),
         (''validator'', PStr (b_validator b))])]"

definition write_receipt :: "host \<Rightarrow> disk \<Rightarrow> string \<Rightarrow> pydict \<Rightarrow> (py_exc + string) \<times> disk" where
  "write_receipt H dsk run_id receipt =
     (if \<not> safe_component run_id then (Inl (unsafe_component ''receipt run_id''), dsk)
      else (let name = run_id @ ''.json'';
                (error, files) = publish H (receipt_files dsk) name (json_document H (PDict receipt))
            in (case error of Some e \<Rightarrow> Inl e | None \<Rightarrow> Inr name, dsk\<lparr>receipt_files := files\<rparr>)))"

definition write_once :: "host \<Rightarrow> pydict \<Rightarrow> builder \<times> disk \<Rightarrow> (py_exc + string) \<times> builder \<times> disk" where
  "write_once H receipt st =
     (let (b, dsk) = st in
      if b_finalized b \<noteq> None
      then (Inl (runtime_error (''receipt for run '' @ str_repr (b_run_id b) @ '' has already been finalized'')), b, dsk)
      else (case write_receipt H dsk (b_run_id b) receipt of
        (Inl e, dsk') \<Rightarrow> (Inl e, b, dsk')
      | (Inr path, dsk') \<Rightarrow> (Inr path, b\<lparr>b_finalized := Some path\<rparr>, dsk')))"

definition filesystem_complete :: "builder \<Rightarrow> bool" where
  "filesystem_complete b \<longleftrightarrow> (case b_filesystem b of None \<Rightarrow> False
     | Some f \<Rightarrow> dget f ''state'' = PStr ''cleaned'' \<and> dget f ''cleanup_verified'' = PBool True \<and>
         is_dict (dget f ''inventory''))"

definition policy_observed :: "builder \<Rightarrow> bool" where
  "policy_observed b \<longleftrightarrow> (case dget (bp_parameters (b_baseline b)) ''effective_policy'' of
     PDict policy \<Rightarrow> dget policy ''status'' = PStr ''observed'' | _ \<Rightarrow> False)"

text \<open>What a success receipt still lacks; the first missing part is the one reported.\<close>

definition success_problem :: "builder \<Rightarrow> py_exc option" where
  "success_problem b =
     (case ensure_canonical_source b of
        Some e \<Rightarrow> Some e
      | None \<Rightarrow>
          if learned b \<and> \<not> policy_observed b then Some (value_error
            ''successful learned-baseline receipt requires observed semantic policy provenance'')
          else if learned b \<and> \<not> filesystem_complete b then Some (value_error
            ''successful learned-baseline receipt requires a cleaned, verified framework filesystem inventory'')
          else if b_task b = None then Some (value_error ''successful receipt requires complete task provenance'')
          else if b_prompt b = None then Some (value_error ''successful receipt requires exact prompt provenance'')
          else if b_before b = None \<or> b_after b = None
          then Some (value_error ''successful receipt requires before and after snapshots'')
          else if b_claim b = None then Some (value_error ''successful receipt requires an agent claim'')
          else if b_injection b = None then Some (value_error ''successful receipt requires an injection report'')
          else if b_trace b = None then Some (value_error ''successful receipt requires a complete execution trace'')
          else if b_evaluation b = None \<or> b_outcome b = None
          then Some (value_error ''successful receipt requires evaluation and outcome'')
          else None)"

definition write_success :: "host \<Rightarrow> clock_reading \<Rightarrow> builder \<times> disk \<Rightarrow> (py_exc + string) \<times> builder \<times> disk" where
  "write_success H clk st =
     (case success_problem (fst st) of
        Some e \<Rightarrow> (Inl e, st)
      | None \<Rightarrow> write_once H (receipt_of H clk ''success'' PNone (fst st)) st)"

definition write_failure :: "host \<Rightarrow> clock_reading \<Rightarrow> py_exc \<Rightarrow> string \<Rightarrow> string option \<Rightarrow> builder \<times> disk
    \<Rightarrow> (py_exc + string) \<times> builder \<times> disk" where
  "write_failure H clk e stage status st =
     (if stage = [] then (Inl (value_error ''failure stage must not be empty''), st)
      else (let (b, dsk) = ensure_learned_filesystem_state H st;
                failure = PDict (failure_dict H b e stage);
                b' = b\<lparr>b_evaluation := None, b_outcome := None\<rparr>
            in write_once H
                 (receipt_of H clk (case status of None \<Rightarrow> classify_failure e stage | Some s \<Rightarrow> s) failure b')
                 (b', dsk)))"

end
