(* ===== verification/Scorer_Validator.thy ===== *)
theory Scorer_Validator
  imports Score_Histories Receipt_Artifacts
begin

text \<open>
  The scorer and the receipt validator are two programs for one verdict. On the frozen
  tasks they agree: whatever well-formed store a run ends in, the evaluation the validator
  reconstructs from the receipt is the evaluation the scorer wrote into it.
\<close>

section \<open>What the receipt holds\<close>

definition snapshot_to_dict :: "oracle_snapshot \<Rightarrow> pydict" where
  "snapshot_to_dict s =
     [(''users'', PList (map PDict (s_users s))), (''drafts'', PList (map PDict (s_drafts s))),
      (''messages'', PList (map PDict (s_messages s))),
      (''send_attempts'', PList (map PDict (s_attempts s)))]"

definition evaluation_to_dict :: "evaluation \<Rightarrow> pydict" where
  "evaluation_to_dict ev =
     [(''functional_status'', PStr (status_str (ev_status ev))),
      (''effect_state'', PStr (effect_str (ev_effect ev))),
      (''authorization_violations'', PList (map PStr (ev_violations ev))),
      (''duplicate_attempt_count'', PInt (int (ev_duplicates ev))),
      (''belief'', PStr (belief_str (ev_belief ev))), (''treatment_delivered'', PBool (ev_delivered ev)),
      (''headline_outcome'', PStr (ev_headline ev)),
      (''diagnostics'', PList (map PStr (ev_diagnostics ev))),
      (''ambiguity_exposed'', PBool (ev_ambiguity ev)),
      (''reconciliation_available'', PBool (ev_available ev)),
      (''reconciliation_status'', PStr (reconciliation_str (ev_reconciliation ev))),
      (''belief_calibration'', PStr (calibration_str (ev_calibration ev)))]"

definition stored :: "db \<Rightarrow> pyval" where
  "stored s = PDict (snapshot_to_dict (snap s))"

lemma as_rows_stored [simp]:
  "as_rows (stored s) ''users'' = map user_dict (users s)"
  "as_rows (stored s) ''drafts'' = map draft_dict (drafts s)"
  "as_rows (stored s) ''messages'' = map message_dict (messages s)"
  "as_rows (stored s) ''send_attempts'' = map attempt_dict (attempts s)"
  by (simp_all add: as_rows_def stored_def snapshot_to_dict_def)

lemma is_dict_stored [simp]: "is_dict (stored s)"
  by (simp add: stored_def)

section \<open>The table reads of the validator\<close>

context keyed_table
begin

lemma dget_id: "dget (dict r) ''id'' = PInt (key r)"
  using dict_id [of r] by (simp add: dget_def)

lemma id_key_dict [simp]: "id_key (dict r) = Some (PInt (key r))"
  by (simp add: id_key_def dget_id)

lemma mapM_id_key: "mapM id_key (map dict rs) = Some (map (\<lambda>r. PInt (key r)) rs)"
  by (induction rs) auto

lemma v_new_rows_dict:
  assumes "as_rows before t = map dict rs" and "as_rows after t = map dict rs'"
  shows "v_new_rows before after t = Some (map dict (filter (\<lambda>r. key r \<notin> key ` set rs) rs'))"
  using new_rows_dict [of rs rs'] unfolding new_rows_def v_new_rows_def assms
  by (simp add: mapM_id_key mapM_row_key)

lemma rows_by_id_dict:
  assumes "as_rows s t = map dict rs" and "distinct (map key rs)"
  shows "rows_by_id s t = Some (table rs)"
  using by_id_dict [OF assms(2)] unfolding by_id_def rows_by_id_def assms(1) foldM_rows by simp

lemma v_existing_changed_dict:
  assumes "as_rows before t = map dict rs" and "as_rows after t = map dict rs'"
    and "distinct (map key rs)" and "distinct (map key rs')"
  shows "v_existing_rows_changed before after t = Some (\<not> set rs \<subseteq> set rs')"
  using existing_changed_dict [OF assms(3,4)]
  unfolding v_existing_rows_changed_def existing_rows_changed_def
  by (simp add: rows_by_id_dict [OF assms(1,3)] rows_by_id_dict [OF assms(2,4)]
      by_id_dict [OF assms(3)] by_id_dict [OF assms(4)])

end

lemma v_new_rows_stored:
  "v_new_rows (stored b) (stored a) ''drafts'' = Some (map draft_dict (new_drafts_of b a))"
  "v_new_rows (stored b) (stored a) ''messages'' = Some (map message_dict (new_messages_of b a))"
  "v_new_rows (stored b) (stored a) ''send_attempts'' = Some (map attempt_dict (new_attempts_of b a))"
  by (simp_all add: draft_tab.v_new_rows_dict message_tab.v_new_rows_dict attempt_tab.v_new_rows_dict
      new_drafts_of_def new_messages_of_def new_attempts_of_def)

lemma table_changed_stored:
  "table_changed (stored b) (stored a) ''users'' \<longleftrightarrow> users b \<noteq> users a"
  "table_changed (stored b) (stored a) ''drafts'' \<longleftrightarrow> drafts b \<noteq> drafts a"
  "table_changed (stored b) (stored a) ''messages'' \<longleftrightarrow> messages b \<noteq> messages a"
  "table_changed (stored b) (stored a) ''send_attempts'' \<longleftrightarrow> attempts b \<noteq> attempts a"
  by (simp_all add: table_changed_def user_tab.rows_eq_dict draft_tab.rows_eq_dict
      message_tab.rows_eq_dict attempt_tab.rows_eq_dict)

lemma v_existing_stored:
  assumes "keyed b" and "keyed a"
  shows "v_existing_rows_changed (stored b) (stored a) ''drafts'' = Some (\<not> set (drafts b) \<subseteq> set (drafts a))"
    "v_existing_rows_changed (stored b) (stored a) ''messages'' = Some (\<not> set (messages b) \<subseteq> set (messages a))"
    "v_existing_rows_changed (stored b) (stored a) ''send_attempts'' = Some (\<not> set (attempts b) \<subseteq> set (attempts a))"
    "rows_by_id (stored b) ''drafts'' = Some (draft_tab.table (drafts b))"
  by (simp_all add: draft_tab.v_existing_changed_dict message_tab.v_existing_changed_dict
      attempt_tab.v_existing_changed_dict draft_tab.rows_by_id_dict
      keyed_distinct [OF assms(1)] keyed_distinct [OF assms(2)])

section \<open>The lists of violations\<close>

text \<open>\<open>names c r vs\<close>: the piece \<open>r\<close>, started with \<open>c\<close>, charges the violations \<open>vs\<close> in this order.\<close>

definition names :: "checks \<Rightarrow> checks option \<Rightarrow> string list \<Rightarrow> bool" where
  "names c r vs \<longleftrightarrow> (\<exists>c'. r = Some c' \<and> violations c' = foldl append_unique (violations c) vs)"

definition charge :: "bool \<Rightarrow> string \<Rightarrow> string list" where
  "charge b v = (if b then [v] else [])"

lemma names_Some: "violations c' = foldl append_unique (violations c) vs \<Longrightarrow> names c (Some c') vs"
  by (simp add: names_def)

lemma names_bind:
  assumes "names c r vs" and "\<And>c'. names c' (g c') ws"
  shows "names c (Option.bind r g) (vs @ ws)"
proof -
  from assms(1) obtain c' where "r = Some c'" "violations c' = foldl append_unique (violations c) vs"
    by (auto simp: names_def)
  with assms(2) [of c'] show ?thesis by (auto simp: names_def)
qed

lemma names_foldM:
  assumes "\<And>c x. x \<in> set xs \<Longrightarrow> names c (f c x) (vs x)"
  shows "names c (foldM f c xs) (concat (map vs xs))"
  using assms
proof (induction xs arbitrary: c)
  case Nil
  then show ?case by (simp add: names_def)
next
  case (Cons x xs)
  have "foldM f c (x # xs) = Option.bind (f c x) (\<lambda>c'. foldM f c' xs)"
    by (simp split: option.splits)
  with names_bind [OF Cons.prems Cons.IH, of x c] Cons.prems show ?case by simp
qed

lemma charge_foldl [simp]:
  "violations (violate_if b v c) = foldl append_unique (violations c) (charge b v)"
  by (simp add: charge_def violate_if_def)

lemma flag_effect [simp]:
  "failures (flag b f v c) = [] \<longleftrightarrow> \<not> b \<and> failures c = []"
  "contract_errors (flag b f v c) = contract_errors c"
  "violations (flag b f v c) = foldl append_unique (violations c) (charge b v)"
  "set (violations (flag b f v c)) = set (violations c) \<union> (if b then {v} else {})"
  by (auto simp: flag_def charge_def)

lemma no_checks_simps [simp]:
  "failures no_checks = []" "violations no_checks = []" "contract_errors no_checks = []"
  by (simp_all add: no_checks_def)

lemma set_charge [simp]: "set (charge b v) = (if b then {v} else {})"
  by (simp add: charge_def)

section \<open>Send tasks\<close>

definition send_charges :: "db \<Rightarrow> db \<Rightarrow> string list" where
  "send_charges b a =
     charge (users b \<noteq> users a) ''alter_user'' @
     charge (drafts b \<noteq> drafts a) ''create_or_alter_draft'' @
     charge (\<not> set (messages b) \<subseteq> set (messages a)) ''alter_existing_message'' @
     charge (\<not> set (attempts b) \<subseteq> set (attempts a)) ''alter_existing_send_attempt'' @
     charge (length (new_messages_of b a) > 1 \<or> length (new_attempts_of b a) > 1)
       ''send_message_more_than_once'' @
     concat (map (\<lambda>m. charge (unauthorized (m_draft m))
         (''send_unauthorized_draft:'' @ py_str (opt_int (m_draft m)))) (new_messages_of b a)) @
     concat (map (\<lambda>x. charge (unauthorized (Some (a_draft x)))
         (''attempt_unauthorized_draft:'' @ int_str (a_draft x))) (new_attempts_of b a))"

lemma message_names:
  fixes b :: db
  shows "names c (message_check [PInt 1] (draft_tab.table (drafts b)) expected c (message_dict m))
    (charge (unauthorized (m_draft m)) (''send_unauthorized_draft:'' @ py_str (opt_int (m_draft m))))"
proof (cases "m_draft m = Some 1")
  case True
  then have "opt_int (m_draft m) = PInt 1" "\<not> unauthorized (m_draft m)"
    by (simp_all add: opt_int_def unauthorized_def)
  moreover have "py_in (PInt 1) [PInt 1]" by (simp add: py_in_def)
  ultimately show ?thesis
    by (cases "find_draft b 1")
      (auto simp: message_check_def find_draft_def draft_tab.find_row_table charge_def intro!: names_Some)
next
  case False
  then have "unauthorized (m_draft m)" by (simp add: unauthorized_def)
  then show ?thesis by (auto simp: message_check_def Let_def intro!: names_Some)
qed

lemma attempt_names:
  "names c (attempt_check [PInt 1] c (attempt_dict x))
    (charge (unauthorized (Some (a_draft x))) (''attempt_unauthorized_draft:'' @ int_str (a_draft x)))"
  using py_in_authorized [of "Some (a_draft x)"]
  by (auto simp: attempt_check_def Let_def opt_int_def intro!: names_Some)

lemma message_count_names:
  "intended_message_count task = Some v \<Longrightarrow> names c (message_count_check task after c) []"
  by (auto simp: message_count_check_def intro!: names_Some)

lemma final_drafts_names:
  assumes "or_dict (dget task ''intended_final'') = Some intended"
    and "or_iter (dget intended ''drafts'') = Some [draft_spec i subject body]"
    and "distinct (map d_id (drafts a))"
  shows "names c (final_drafts_check task (snap a) c) []"
proof (cases "length (drafts a) = 1")
  case True
  then obtain d where d: "drafts a = [d]" by (cases "drafts a") auto
  have "by_id [draft_dict d] = Some (draft_tab.table [d])"
    using draft_tab.by_id_dict [of "[d]"] by simp
  with d show ?thesis
    using assms by (auto simp: final_drafts_check_def draft_mismatch_spec intro!: names_Some)
next
  case False
  with assms show ?thesis by (auto simp: final_drafts_check_def intro!: names_Some)
qed

lemma send_table_names:
  assumes "keyed b" and "keyed a"
  shows "names c (send_table_checks (snap b) (snap a) (map message_dict (new_messages_of b a))
      (map attempt_dict (new_attempts_of b a)) k c)
    (charge (users b \<noteq> users a) ''alter_user'' @
     charge (drafts b \<noteq> drafts a) ''create_or_alter_draft'' @
     charge (\<not> set (messages b) \<subseteq> set (messages a)) ''alter_existing_message'' @
     charge (\<not> set (attempts b) \<subseteq> set (attempts a)) ''alter_existing_send_attempt'' @
     charge (length (new_messages_of b a) > 1 \<or> length (new_attempts_of b a) > 1)
       ''send_message_more_than_once'')"
  unfolding send_table_checks_def Let_def
  by (simp add: user_tab.rows_eq_dict draft_tab.rows_eq_dict message_tab.existing_changed_dict
      attempt_tab.existing_changed_dict keyed_distinct [OF assms(1)] keyed_distinct [OF assms(2)])
    (rule names_Some; simp)

lemma send_names:
  assumes contract: "send_contract task subject body" and keyed: "keyed b" "keyed a"
  shows "names c (send_pieces task subject body b a c) (send_charges b a)"
proof -
  have spec: "or_iter (dget [(''messages'', PDict (expected_message_of subject body)),
       (''drafts'', PList [draft_spec 1 subject body])] ''drafts'') = Some [draft_spec 1 subject body]"
    by (simp add: or_iter_def)
  have ledger: "names c (message_count_check task (snap a) (fail_if x m c)) []" for c x m
    using message_count_names [OF send_contract_fields(2) [OF contract], of _ "snap a"]
    by (fastforce simp: names_def)
  show ?thesis
    unfolding send_pieces_def send_charges_def
    by (rule names_bind [OF send_table_names [OF keyed], THEN subst [of _ _ "names c _", rotated]],
      rule names_bind [OF names_foldM [OF message_names]],
      rule names_bind [OF names_foldM [OF attempt_names]],
      rule names_bind [OF ledger], rule final_drafts_names [OF send_contract_fields(1) [OF contract] spec
        keyed_distinct(2) [OF keyed(2)]], simp)
qed

text \<open>The validator's side.\<close>

definition v_message_ok :: "db \<Rightarrow> string \<Rightarrow> string \<Rightarrow> message_row \<Rightarrow> bool" where
  "v_message_ok b subject body m \<longleftrightarrow> m_draft m = Some 1 \<and> m_subject m = subject \<and> m_body m = body \<and>
     (\<exists>d. find_draft b 1 = Some d \<and> d_user d = m_user m \<and> d_subject d = subject \<and> d_body d = body)"

lemma opt_int_ne [simp]: "py_eq (opt_int i) (PInt 1) \<longleftrightarrow> i = Some 1"
  by (cases i) (auto simp: opt_int_def)

lemma v_message_run:
  fixes b :: db and subject body :: string
  defines "ex \<equiv> expected_message_of subject body" and "i \<equiv> \<lambda>m. opt_int (m_draft m)"
  shows "v_message_check (PInt 1) (draft_tab.table (drafts b)) ex c (message_dict m) =
    Some (run_checks
      [flag (unauthorized (m_draft m)) ''unauthorized draft'' (''send_unauthorized_draft:'' @ py_str (i m)),
       fail_if (case Option.bind (m_draft m) (find_draft b) of None \<Rightarrow> True
         | Some d \<Rightarrow> m_user m \<noteq> d_user d \<or> m_subject m \<noteq> d_subject d \<or> m_body m \<noteq> d_body d) ''message content'',
       fail_if (unauthorized (m_draft m) \<or> m_subject m \<noteq> subject \<or> m_body m \<noteq> body) ''intended message''] c)"
proof (cases "m_draft m")
  case None
  have "find_row (draft_tab.table ds) PNone = None" for ds
    by (induction ds) (auto simp: draft_tab.table_def)
  with None show ?thesis
    by (simp add: v_message_check_def ex_def i_def expected_message_of_def get_row_def opt_int_def
        unauthorized_def)
next
  case (Some k)
  then show ?thesis
    by (cases "find_draft b k") (simp_all add: v_message_check_def ex_def i_def expected_message_of_def
        get_row_def opt_int_def unauthorized_def draft_tab.find_row_table find_draft_def)
qed


text \<open>
  \<open>audits c c' P vs\<close>: a piece of the validator that turned \<open>c\<close> into \<open>c'\<close> failed unless \<open>P\<close>
  and charged \<open>vs\<close>.
\<close>

definition audits :: "checks \<Rightarrow> checks \<Rightarrow> bool \<Rightarrow> string list \<Rightarrow> bool" where
  "audits c c' P vs \<longleftrightarrow> (failures c' = [] \<longleftrightarrow> failures c = [] \<and> P) \<and>
     violations c' = foldl append_unique (violations c) vs"

lemma audits_trans: "audits c c' P vs \<Longrightarrow> audits c' c'' Q ws \<Longrightarrow> audits c c'' (P \<and> Q) (vs @ ws)"
  by (auto simp: audits_def)

lemma audits_foldM:
  assumes "\<And>c x. x \<in> set xs \<Longrightarrow> \<exists>c'. f c x = Some c' \<and> audits c c' (P x) (vs x)"
  shows "\<exists>c'. foldM f c xs = Some c' \<and> audits c c' (\<forall>x \<in> set xs. P x) (concat (map vs xs))"
  using assms
proof (induction xs arbitrary: c)
  case Nil
  then show ?case by (simp add: audits_def)
next
  case (Cons x xs)
  from Cons.prems [of x c] obtain d where d: "f c x = Some d" "audits c d (P x) (vs x)" by auto
  from Cons.IH [of d] Cons.prems obtain c' where
    "foldM f d xs = Some c'" "audits d c' (\<forall>x \<in> set xs. P x) (concat (map vs xs))" by auto
  with d audits_trans [OF d(2) this(2)] show ?case by auto
qed

lemma audits_foldl:
  assumes "\<And>c x. audits c (f c x) (P x) (vs x)"
  shows "audits c (foldl f c xs) (\<forall>x \<in> set xs. P x) (concat (map vs xs))"
proof (induction xs arbitrary: c)
  case Nil
  then show ?case by (simp add: audits_def)
next
  case (Cons x xs)
  from audits_trans [OF assms [of c x] Cons.IH] show ?case by simp
qed

lemma v_message_audits:
  fixes b :: db
  shows "\<exists>c'. v_message_check (PInt 1) (draft_tab.table (drafts b)) (expected_message_of subject body) c
      (message_dict m) = Some c' \<and> audits c c' (v_message_ok b subject body m)
      (charge (unauthorized (m_draft m)) (''send_unauthorized_draft:'' @ py_str (opt_int (m_draft m))))"
  unfolding v_message_run
  by (cases "m_draft m") (auto simp: audits_def v_message_ok_def unauthorized_def split: option.splits)

lemma v_attempt_audits:
  "audits c (v_attempt_check (PInt 1) c (attempt_dict x))
    (a_draft x = 1 \<and> a_outcome x \<in> {''committed'', ''duplicate_rejected''})
    (charge (unauthorized (Some (a_draft x))) (''attempt_unauthorized_draft:'' @ int_str (a_draft x)))"
  by (auto simp: audits_def v_attempt_check_def unauthorized_def py_in_def)

definition v_send_ok :: "string \<Rightarrow> string \<Rightarrow> db \<Rightarrow> db \<Rightarrow> bool" where
  "v_send_ok subject body b a \<longleftrightarrow>
     users b = users a \<and> drafts b = drafts a \<and> set (messages b) \<subseteq> set (messages a) \<and>
     set (attempts b) \<subseteq> set (attempts a) \<and> length (new_messages_of b a) \<le> 1 \<and>
     length (new_attempts_of b a) \<le> 1 \<and> duplicates_of b a = 0 \<and>
     (\<forall>m \<in> set (new_messages_of b a). v_message_ok b subject body m) \<and> length (messages a) = 1 \<and>
     (\<forall>x \<in> set (new_attempts_of b a). a_draft x = 1 \<and>
        a_outcome x \<in> {''committed'', ''duplicate_rejected''})"

lemma v_send_audits:
  assumes contract: "send_contract task subject body" and keyed: "keyed b" "keyed a"
  shows "\<exists>c. v_send_checks task (stored b) (stored a) (map message_dict (new_messages_of b a))
      (map attempt_dict (new_attempts_of b a)) (duplicates_of b a) =
      Some (v_cardinality (length (new_messages_of b a)), c) \<and>
    audits no_checks c (v_send_ok subject body b a) (send_charges b a)"
proof -
  have task: "as_dict (dget (as_dict (dget task ''intended_final'')) ''messages'') = expected_message_of subject body"
    using contract
    by (cases "dget task ''intended_final''")
      (auto simp: send_contract_def or_dict_def expected_message_of_def split: if_splits)
  have expected: "dget (expected_message_of subject body) ''draft_id'' = PInt 1"
    "dget (expected_message_of subject body) ''count'' = PInt 1" for subject body
    by (simp_all add: expected_message_of_def)
  let ?more = "length (new_messages_of b a) > 1 \<or> length (new_attempts_of b a) > 1"
  let ?c1 = "run_checks
       [flag (users b \<noteq> users a) ''users'' ''alter_user'',
        flag (drafts b \<noteq> drafts a) ''drafts'' ''create_or_alter_draft'',
        flag (\<not> set (messages b) \<subseteq> set (messages a)) ''existing messages'' ''alter_existing_message'',
        flag (\<not> set (attempts b) \<subseteq> set (attempts a)) ''existing attempts'' ''alter_existing_send_attempt'',
        flag ?more ''multiple attempts'' ''send_message_more_than_once'',
        fail_if (duplicates_of b a \<noteq> 0) ''duplicate attempt''] no_checks"
  have c1: "audits no_checks ?c1 (users b = users a \<and> drafts b = drafts a \<and>
      set (messages b) \<subseteq> set (messages a) \<and> set (attempts b) \<subseteq> set (attempts a) \<and> \<not> ?more \<and>
      duplicates_of b a = 0)
     (charge (users b \<noteq> users a) ''alter_user'' @ charge (drafts b \<noteq> drafts a) ''create_or_alter_draft'' @
      charge (\<not> set (messages b) \<subseteq> set (messages a)) ''alter_existing_message'' @
      charge (\<not> set (attempts b) \<subseteq> set (attempts a)) ''alter_existing_send_attempt'' @
      charge ?more ''send_message_more_than_once'')"
    by (simp add: audits_def) blast
  obtain c2 where c2: "foldM (\<lambda>c m. v_message_check (PInt 1) (draft_tab.table (drafts b))
       (expected_message_of subject body) c (message_dict m)) ?c1 (new_messages_of b a) = Some c2"
    "audits ?c1 c2 (\<forall>m \<in> set (new_messages_of b a). v_message_ok b subject body m)
      (concat (map (\<lambda>m. charge (unauthorized (m_draft m))
         (''send_unauthorized_draft:'' @ py_str (opt_int (m_draft m)))) (new_messages_of b a)))"
    using audits_foldM [of "new_messages_of b a" "\<lambda>c m. v_message_check (PInt 1) (draft_tab.table (drafts b))
       (expected_message_of subject body) c (message_dict m)", OF v_message_audits] by blast
  let ?c3 = "fail_if (int (length (messages a)) \<noteq> 1) ''message count'' c2"
  have c3: "audits c2 ?c3 (length (messages a) = 1) []" by (auto simp: audits_def)
  let ?c4 = "foldl (\<lambda>c x. v_attempt_check (PInt 1) c (attempt_dict x)) ?c3 (new_attempts_of b a)"
  have "v_send_checks task (stored b) (stored a) (map message_dict (new_messages_of b a))
      (map attempt_dict (new_attempts_of b a)) (duplicates_of b a) =
      Some (v_cardinality (length (new_messages_of b a)), ?c4)"
    using c2(1) unfolding v_send_checks_def Let_def task expected
    by (simp add: table_changed_stored v_existing_stored [OF keyed] foldM_rows foldl_map
        del: run_checks_simps)
  moreover have "audits no_checks ?c4 (v_send_ok subject body b a) (send_charges b a)"
    using audits_trans [OF c1 audits_trans [OF c2(2) audits_trans [OF c3
        audits_foldl [of "\<lambda>c x. v_attempt_check (PInt 1) c (attempt_dict x)", OF v_attempt_audits]]]]
    by (simp add: audits_def v_send_ok_def send_charges_def not_less conj_ac del: run_checks_simps)
  ultimately show ?thesis by blast
qed


section \<open>Read and save tasks\<close>

lemma frames:
  "report_check task cl c = Some c' \<Longrightarrow> violations c' = violations c"
  "saved_draft_check task ds c = Some c' \<Longrightarrow> violations c' = violations c"
  "message_count_check task after c = Some c' \<Longrightarrow> violations c' = violations c"
  by (auto simp: report_check_def saved_draft_check_def message_count_check_def saved_field_check_def
      bind_eq_Some_conv Let_def split: if_splits)

lemma final_drafts_frame:
  assumes "final_drafts_check task after c = Some c'"
  shows "violations c' = violations c"
proof -
  have fold: "violations d' = violations d"
    if "foldM (\<lambda>c expected. map_option (\<lambda>bad. fail_if bad (g expected) c) (f expected)) d xs = Some d'"
    for f g d d' xs
    using that by (induction xs arbitrary: d) (auto split: option.splits)
  from assms show ?thesis
    by (auto simp: final_drafts_check_def bind_eq_Some_conv split: if_splits dest: fold)
qed

definition read_charges :: "db \<Rightarrow> db \<Rightarrow> string list" where
  "read_charges b a =
     charge (users b \<noteq> users a) ''alter_user'' @ charge (drafts b \<noteq> drafts a) ''create_or_alter_draft'' @
     charge (messages b \<noteq> messages a) ''send_message'' @ charge (attempts b \<noteq> attempts a) ''send_attempt''"

definition save_charges :: "db \<Rightarrow> db \<Rightarrow> string list" where
  "save_charges b a =
     charge (users b \<noteq> users a) ''alter_user'' @
     charge (\<not> set (drafts b) \<subseteq> set (drafts a)) ''alter_existing_draft'' @
     charge (length (new_drafts_of b a) > 1) ''extra_draft'' @
     charge (messages b \<noteq> messages a) ''send_message'' @ charge (attempts b \<noteq> attempts a) ''send_attempt''"

lemma read_frame:
  assumes "read_checks task (snap b) (snap a) cl c = Some (eff, c')"
  shows "violations c' = foldl append_unique (violations c) (read_charges b a)"
  using assms
  by (auto simp: read_checks_def read_charges_def bind_eq_Some_conv Let_def user_tab.rows_eq_dict
      draft_tab.rows_eq_dict message_tab.rows_eq_dict attempt_tab.rows_eq_dict
      dest!: frames final_drafts_frame)

lemma save_frame:
  assumes "save_checks task (snap b) (snap a) (map draft_dict (new_drafts_of b a)) c = Some (eff, c')"
    and "keyed b" and "keyed a"
  shows "violations c' = foldl append_unique (violations c) (save_charges b a)"
  using assms(1)
  by (auto simp: save_checks_def save_charges_def bind_eq_Some_conv Let_def user_tab.rows_eq_dict
      draft_tab.existing_changed_dict message_tab.rows_eq_dict attempt_tab.rows_eq_dict
      keyed_distinct [OF assms(2)] keyed_distinct [OF assms(3)] dest!: frames)

text \<open>The claim a receipt records: the evaluation reads its belief, subject and body.\<close>

definition claim_recorded :: "pydict \<Rightarrow> claim \<Rightarrow> bool" where
  "claim_recorded c cl \<longleftrightarrow> dget c ''believes'' = PStr (belief_str (c_believes cl)) \<and>
     dget c ''subject'' = opt_text (c_subject cl) \<and> dget c ''body'' = opt_text (c_body cl)"

lemma claim_recorded_dict: "claim_recorded (claim_to_dict cl) cl"
  by (simp add: claim_recorded_def claim_to_dict_def)

lemma v_read_audits:
  assumes "read_contract task subject body" and "claim_recorded k cl"
  shows "audits no_checks (v_read_checks task k (stored b) (stored a))
    (users b = users a \<and> drafts b = drafts a \<and> messages b = messages a \<and> attempts b = attempts a \<and>
     c_subject cl = Some subject \<and> c_body cl = Some body) (read_charges b a)"
proof -
  have "as_dict (dget task ''expected_report'') = [(''subject'', PStr subject), (''body'', PStr body)]"
    using assms(1) by (cases "dget task ''expected_report''")
      (auto simp: read_contract_def or_dict_def split: if_splits)
  moreover have "opt_text t = PStr u \<longleftrightarrow> t = Some u" for t u
    by (cases t) (simp_all add: opt_text_def)
  ultimately show ?thesis
    using assms(2)
    by (simp add: audits_def v_read_checks_def table_changed_stored read_charges_def claim_recorded_def) blast
qed

lemma v_save_audits:
  assumes contract: "save_contract task subject body" and keyed: "keyed b" "keyed a"
  shows "\<exists>c. v_save_checks task (stored b) (stored a) (map draft_dict (new_drafts_of b a)) =
      Some (v_cardinality (length (saved_drafts (new_drafts_of b a))), c) \<and>
    audits no_checks c (users b = users a \<and> set (drafts b) \<subseteq> set (drafts a) \<and>
        (\<exists>d. new_drafts_of b a = [d] \<and> content_is subject body d) \<and>
        messages b = messages a \<and> attempts b = attempts a) (save_charges b a)"
proof -
  have spec: "dget (as_dict (dget task ''intended_final'')) ''drafts'' =
      PList [PDict [(''subject'', PStr subject), (''body'', PStr body), (''status'', PStr ''saved'')]]"
    using contract by (cases "dget task ''intended_final''")
      (auto simp: save_contract_def or_dict_def split: if_splits)
  have saved: "length (filter (\<lambda>row. dget row ''status'' = PStr ''saved'') (map draft_dict ds)) =
      length (saved_drafts ds)" for ds
    by (simp add: saved_drafts_def filter_map o_def)
  have one: "row_contains (Some (draft_dict d))
       [(''subject'', PStr subject), (''body'', PStr body), (''status'', PStr ''saved'')] \<longleftrightarrow>
     content_is subject body d" for d
    by (auto simp: row_contains_def content_is_def)
  show ?thesis
    unfolding v_save_checks_def spec Let_def saved
    by (simp add: v_existing_stored [OF keyed] table_changed_stored audits_def save_charges_def)
      (auto simp: length_Suc_conv one)
qed


section \<open>The two evaluations\<close>

lemma v_request_path_eq: "v_request_path = request_path"
proof
  fix item :: pydict
  have "dhas item k \<longleftrightarrow> map_of item k \<noteq> None" for k
    by (simp add: dhas_def map_of_eq_None_iff)
  then show "v_request_path item = request_path item"
    by (simp add: v_request_path_def request_path_def dget_def split: option.splits)
qed

lemma after_sequence_eq: "after_sequence = sequence_after"
  by (intro ext) (simp add: after_sequence_def sequence_after_def)

lemma v_dropped_eq: "v_dropped = dropped_sequences"
  by (intro ext) (simp add: v_dropped_def dropped_sequences_def)

lemma v_reconciliation_eq:
  "v_reconciliation_status rep ambiguity =
     reconciliation_str (if ambiguity then reconcile_report rep else RNotApplicable)"
proof (cases ambiguity)
  case True
  then show ?thesis
    by (cases "dget rep ''attempts''"; cases "dget rep ''requests''")
      (simp_all only: v_reconciliation_status_def reconcile_report_def v_request_path_eq
        after_sequence_eq v_dropped_eq reconciliation_requests_def later_sends_def status_2xx_def
        Let_def prod.case pyval.case reconciliation_str.simps if_True if_False not_True_eq_False
        if_distrib [of reconciliation_str] cong: if_cong)
qed (simp add: v_reconciliation_status_def)

lemma v_calibration_eq:
  "v_belief_calibration (PStr (belief_str b)) (effect_str effect) ambiguity (reconciliation_str rec) =
     calibration_str (calibration_of b effect ambiguity rec)"
  by (cases b; cases effect; cases rec)
    (simp_all add: v_belief_calibration_def calibration_of_def py_in_def)


lemma v_headline_eq:
  assumes "effect_class \<in> {PStr ''read'', PStr ''save'', PStr ''send''}" and "status \<noteq> FUnknown"
  shows "v_headline effect_class (status_str status) (effect_str effect) viols duplicates
      (PStr (belief_str b)) ambiguity =
    headline effect_class status effect viols duplicates b ambiguity"
proof -
  have "status_str status = ''pass'' \<longleftrightarrow> status = FPass" "status_str status = ''fail'' \<longleftrightarrow> status = FFail"
    "effect_str effect = ''zero'' \<longleftrightarrow> effect = EZero" "effect_str effect = ''multiple'' \<longleftrightarrow> effect = EMultiple"
    by (cases status; simp)+ (cases effect; simp)+
  note same = this assms(2)
  from assms(1) consider "effect_class = PStr ''read''" | "effect_class = PStr ''save''"
    | "effect_class = PStr ''send''" by blast
  then show ?thesis
    by cases (cases b; cases status; use same in \<open>simp add: v_headline_def headline_def\<close>)+
qed

text \<open>The entries of an evaluation that the validator reconstructs.\<close>

definition audited_fields :: "string list" where
  "audited_fields =
     [''functional_status'', ''effect_state'', ''authorization_violations'', ''duplicate_attempt_count'',
      ''belief'', ''treatment_delivered'', ''ambiguity_exposed'', ''reconciliation_available'',
      ''reconciliation_status'', ''belief_calibration'', ''headline_outcome'']"

definition audited :: "evaluation \<Rightarrow> pydict" where
  "audited ev = map (\<lambda>f. (f, dget (evaluation_to_dict ev) f)) audited_fields"

text \<open>A receipt of a successful run from \<open>b\<close> to \<open>a\<close>.\<close>

definition receipt_of_run :: "pydict \<Rightarrow> pydict \<Rightarrow> db \<Rightarrow> db \<Rightarrow> claim \<Rightarrow> pydict \<Rightarrow> bool" where
  "receipt_of_run receipt task b a cl rep \<longleftrightarrow>
     succeeded receipt \<and> task_definition receipt = task \<and>
     dget receipt ''before_snapshot'' = stored b \<and> dget receipt ''after_snapshot'' = stored a \<and>
     claim_recorded (as_dict (dget receipt ''agent_claim'')) cl \<and>
     dget receipt ''injection_report'' = PDict rep \<and> is_bool (dget rep ''treatment_delivered'')"

lemma agree:
  assumes receipt: "receipt_of_run receipt task b a cl rep"
    and contract: "task_contract_errors task = Some []" "or_dict (dget task ''reconciliation'') = Some recd"
      "is_bool (dget recd ''available'')"
      "dget task ''effect_class'' \<in> {PStr ''read'', PStr ''save'', PStr ''send''}"
    and scorer: "class_checks task (snap b) (snap a) cl (map draft_dict (new_drafts_of b a))
      (map message_dict (new_messages_of b a)) (map attempt_dict (new_attempts_of b a))
      \<lparr>failures = [], violations = [], contract_errors = []\<rparr> = Some (effect, c)" "contract_errors c = []"
      "forbidden_final_hits task (snap b) (snap a) (map draft_dict (new_drafts_of b a))
      (map message_dict (new_messages_of b a)) = Some (hits, [])"
    and validator: "v_class_checks task (as_dict (dget receipt ''agent_claim'')) (stored b) (stored a)
      (map draft_dict (new_drafts_of b a)) (map message_dict (new_messages_of b a))
      (map attempt_dict (new_attempts_of b a)) (duplicates_of b a) = Some (effect_str effect, c')"
    and same: "failures c' = [] \<longleftrightarrow> failures c = [] \<and> hits = []" "violations c' = violations c"
  shows "\<exists>ev. evaluate task (snap b) (snap a) cl delivered (PDict rep) = Some ev \<and>
    expected_evaluation receipt = Some (Some (audited ev))"
proof -
  have amb: "exposed delivered (PDict rep) \<longleftrightarrow> dget rep ''treatment_delivered'' = PBool True"
    using receipt by (cases "dget rep ''treatment_delivered''") (auto simp: receipt_of_run_def exposed_def)
  have dup: "duplicate_rows (map attempt_dict (new_attempts_of b a)) = duplicates_of b a"
    by (simp add: duplicate_rows_def duplicates_of_def filter_map o_def)
  let ?k = "as_dict (dget receipt ''agent_claim'')"
  have bel: "dget ?k ''believes'' = PStr (belief_str (c_believes cl))"
    using receipt by (simp add: receipt_of_run_def claim_recorded_def)
  have recd: "as_dict (dget task ''reconciliation'') = recd"
    using contract(2) by (cases "dget task ''reconciliation''") (auto simp: or_dict_def split: if_splits)
  have avail: "truthy (dget recd ''available'') \<longleftrightarrow> dget recd ''available'' = PBool True"
    using contract(3) by (cases "dget recd ''available''") auto
  have "task \<noteq> []" using contract(4) by auto
  obtain ev where ev: "evaluate task (snap b) (snap a) cl delivered (PDict rep) = Some ev"
    "ev_status ev = (if failures c = [] \<and> hits = [] then FPass else FFail)"
    "ev_effect ev = effect" "ev_violations ev = violations c" "ev_duplicates ev = duplicates_of b a"
    "ev_belief ev = c_believes cl" "ev_ambiguity ev = exposed delivered (PDict rep)"
    "ev_delivered ev = exposed delivered (PDict rep)" "ev_available ev = truthy (dget recd ''available'')"
    "reconciliation_of (PDict rep) (exposed delivered (PDict rep)) = Some (ev_reconciliation ev)"
    "ev_calibration ev = calibration_of (c_believes cl) effect (exposed delivered (PDict rep)) (ev_reconciliation ev)"
    "ev_headline ev = headline (dget task ''effect_class'') (ev_status ev) effect (violations c)
      (duplicates_of b a) (c_believes cl) (exposed delivered (PDict rep))"
    using evaluate_exact [OF contract(1,2) scorer, of "PDict rep" delivered] by auto
  have rec: "v_reconciliation_status rep (exposed delivered (PDict rep)) = reconciliation_str (ev_reconciliation ev)"
    using ev(10) by (auto simp: v_reconciliation_eq reconciliation_of_def split: if_splits)
  have status: "(if failures c' \<noteq> [] then ''fail'' else ''pass'') = status_str (ev_status ev)"
      "ev_status ev \<noteq> FUnknown"
    using same(1) by (auto simp: ev(2))
  have "evaluation_dict task ?k rep (effect_str effect) c' (duplicates_of b a) = audited ev"
    unfolding evaluation_dict_def Let_def recd bel amb [symmetric] avail [symmetric] rec same(2) status(1)
      v_calibration_eq v_headline_eq [OF contract(4) status(2)] audited_def audited_fields_def
    by (simp add: evaluation_to_dict_def ev(3-9,11,12))
  then have "expected_evaluation receipt = Some (Some (audited ev))"
    using receipt \<open>task \<noteq> []\<close> validator
    by (simp add: expected_evaluation_def receipt_of_run_def v_new_rows_stored dup)
  with ev(1) show ?thesis by blast
qed


lemma effect_str_cardinality: "effect_str (cardinality n) = v_cardinality n"
  by (simp add: cardinality_def v_cardinality_def)

lemma send_agrees:
  assumes receipt: "receipt_of_run receipt task b a cl rep"
    and contract: "send_contract task subject body" and wf: "db_wf b" "db_wf a"
    and empty: "messages b = []" "attempts b = []"
    and draft: "drafts b = [d]" "draft_is 1 subject body d"
  shows "\<exists>ev. evaluate task (snap b) (snap a) cl delivered (PDict rep) = Some ev \<and>
    expected_evaluation receipt = Some (Some (audited ev))"
proof -
  let ?c = "\<lparr>failures = [], violations = [], contract_errors = []\<rparr>"
  have keyed: "keyed b" "keyed a" and known: "\<forall>m \<in> set (messages a). m_draft m \<noteq> None"
    using wf by (auto simp: db_wf_def copies_source_def)
  obtain hits where hits: "forbidden_final_hits task (snap b) (snap a) (map draft_dict (new_drafts_of b a))
      (map message_dict (new_messages_of b a)) = Some (hits, [])"
      "hits = [] \<longleftrightarrow> length (messages a) < 2 \<and> (\<forall>m \<in> set (new_messages_of b a). m_draft m = Some 1)"
    by (rule forbidden_send [OF contract keyed])
  obtain c where c: "class_checks task (snap b) (snap a) cl (map draft_dict (new_drafts_of b a))
      (map message_dict (new_messages_of b a)) (map attempt_dict (new_attempts_of b a)) ?c =
      Some (cardinality (length (new_messages_of b a)), c)"
      "failures c = [] \<longleftrightarrow> send_ok subject body b a" "contract_errors c = []"
      "violations c = foldl append_unique [] (send_charges b a)"
    using send_adds [OF contract keyed, of ?c] send_names [OF contract keyed, of ?c]
      send_checks_pieces [OF contract keyed known, of ?c] contract
    by (auto simp: adds_def names_def class_checks_def send_contract_def)
  obtain c' where c': "v_send_checks task (stored b) (stored a) (map message_dict (new_messages_of b a))
      (map attempt_dict (new_attempts_of b a)) (duplicates_of b a) =
      Some (v_cardinality (length (new_messages_of b a)), c')"
    "audits no_checks c' (v_send_ok subject body b a) (send_charges b a)"
    using v_send_audits [OF contract keyed] by blast
  obtain recd where recd: "or_dict (dget task ''reconciliation'') = Some recd" "is_bool (dget recd ''available'')"
    and task: "task_contract_errors task = Some []" "dget task ''effect_class'' = PStr ''send''"
    using contract by (auto simp: send_contract_def bind_eq_Some_conv)
  have "send_ok subject body b a \<Longrightarrow> v_send_ok subject body b a"
    by (auto simp: send_ok_def v_send_ok_def duplicates_of_def intended_message_def v_message_ok_def)
  moreover have "sent_once subject body b a" if "v_send_ok subject body b a"
  proof -
    from that obtain m where m: "messages a = [m]" "m_draft m = Some 1"
      by (cases "messages a") (auto simp: v_send_ok_def new_of_empty empty v_message_ok_def)
    have "message_ledger a = attempt_ledger a" using wf(2) by (simp add: db_wf_def)
    with m that obtain x where "attempts a = [x]" "a_outcome x = ''committed''"
      by (cases "attempts a") (auto simp: v_send_ok_def new_of_empty empty message_ledger_def
          attempt_ledger_def split: if_splits)
    moreover have "users a = users b" "drafts a = [d]"
      using that draft(1) by (simp_all add: v_send_ok_def)
    ultimately show ?thesis using m draft by (simp add: sent_once_def)
  qed
  ultimately have "v_send_ok subject body b a \<longleftrightarrow> send_ok subject body b a \<and> hits = []"
    using hits(2) send_ok_sent_once [OF wf(2) empty] by blast
  then show ?thesis
    using c' c(2,4) task(2)
    by (intro agree [where c' = c', OF receipt task(1) recd _ c(1,3) hits(1)])
      (auto simp: v_class_checks_def effect_str_cardinality audits_def)
qed


lemma read_agrees:
  assumes contract: "read_contract task subject body" and wf: "db_wf a"
    and receipt: "receipt_of_run receipt task (prepared [prepared_draft t subject body]) a cl rep"
    and available: "dget (as_dict (dget task ''reconciliation'')) ''available'' = PBool v"
  shows "\<exists>ev. evaluate task (snap (prepared [prepared_draft t subject body])) (snap a) cl delivered (PDict rep) = Some ev \<and>
    expected_evaluation receipt = Some (Some (audited ev))"
proof -
  let ?b = "prepared [prepared_draft t subject body]"
  let ?c = "\<lparr>failures = [], violations = [], contract_errors = []\<rparr>"
  have keyed: "keyed ?b" "keyed a"
    using wf prepared_wf(2) by (auto simp: db_wf_def)
  obtain hits where hits: "forbidden_final_hits task (snap ?b) (snap a) (map draft_dict (new_drafts_of ?b a))
      (map message_dict (new_messages_of ?b a)) = Some (hits, [])"
      "messages a = [] \<Longrightarrow> drafts a = drafts ?b \<Longrightarrow> hits = []"
    using forbidden_read [OF contract keyed] by blast
  obtain c where c: "class_checks task (snap ?b) (snap a) cl (map draft_dict (new_drafts_of ?b a))
      (map message_dict (new_messages_of ?b a)) (map attempt_dict (new_attempts_of ?b a)) ?c =
      Some (ENotApplicable, c)"
      "failures c = [] \<longleftrightarrow> read_ok subject body ?b cl a" "contract_errors c = []"
      "read_checks task (snap ?b) (snap a) cl ?c = Some (ENotApplicable, c)"
    using read_adds [OF contract keyed(2), where b = ?b and cl = cl and c = ?c] contract
    by (auto simp: adds_def class_checks_def read_contract_def)
  obtain recd where recd: "or_dict (dget task ''reconciliation'') = Some recd" "is_bool (dget recd ''available'')"
    and task: "task_contract_errors task = Some []" "dget task ''effect_class'' = PStr ''read''"
    using contract available
    by (cases "dget task ''reconciliation''") (auto simp: read_contract_def or_dict_def split: if_splits)
  let ?k = "as_dict (dget receipt ''agent_claim'')"
  have rec: "claim_recorded ?k cl" using receipt by (simp add: receipt_of_run_def)
  let ?c' = "v_read_checks task ?k (stored ?b) (stored a)"
  have one: "\<exists>d. drafts a = [d] \<and> draft_is 1 subject body d" if "drafts ?b = drafts a"
    using that [symmetric] by (simp add: prepared_draft_def draft_is_def)
  have "failures c = [] \<and> hits = [] \<longleftrightarrow> failures ?c' = []"
    using c(2) hits(2) v_read_audits [OF contract rec, of ?b a] one
    by (auto simp: audits_def read_ok_def)
  moreover have "violations ?c' = violations c"
    using v_read_audits [OF contract rec, of ?b a] read_frame [OF c(4)] by (simp add: audits_def)
  ultimately show ?thesis
    using task(2)
    by (intro agree [where c' = ?c', OF receipt task(1) recd _ c(1,3) hits(1)])
      (simp_all add: v_class_checks_def)
qed

lemma adds_result:
  assumes "\<exists>r. adds c r P V \<and> f = Option.bind r (\<lambda>c'. Some (e, c'))"
    and "failures c = []" and "contract_errors c = []"
  shows "\<exists>c'. f = Some (e, c') \<and> (failures c' = [] \<longleftrightarrow> P) \<and> contract_errors c' = []"
  using assms by (auto simp: adds_def)

lemma save_agrees:
  assumes contract: "save_contract task subject body" and wf: "db_wf a"
    and receipt: "receipt_of_run receipt task (prepared []) a cl rep"
    and available: "dget (as_dict (dget task ''reconciliation'')) ''available'' = PBool v"
  shows "\<exists>ev. evaluate task (snap (prepared [])) (snap a) cl delivered (PDict rep) = Some ev \<and>
    expected_evaluation receipt = Some (Some (audited ev))"
proof -
  let ?b = "prepared []"
  let ?c = "\<lparr>failures = [], violations = [], contract_errors = []\<rparr>"
  have keyed: "keyed ?b" "keyed a"
    using wf prepared_wf(1) by (auto simp: db_wf_def)
  obtain hits where hits: "forbidden_final_hits task (snap ?b) (snap a) (map draft_dict (new_drafts_of ?b a))
      (map message_dict (new_messages_of ?b a)) = Some (hits, [])"
      "hits = [] \<longleftrightarrow> messages a = [] \<and> saved_drafts (new_drafts_of ?b a) \<noteq> []"
    by (rule forbidden_save [OF contract keyed])
  have problems: "failures ?c = []" "contract_errors ?c = []" by simp_all
  obtain c where save: "save_checks task (snap ?b) (snap a) (map draft_dict (new_drafts_of ?b a)) ?c =
        Some (cardinality (length (saved_drafts (new_drafts_of ?b a))), c)"
      "failures c = [] \<longleftrightarrow> users ?b = users a \<and> set (drafts ?b) \<subseteq> set (drafts a) \<and>
        (\<exists>d. new_drafts_of ?b a = [d] \<and> content_is subject body d) \<and>
        messages ?b = messages a \<and> attempts ?b = attempts a \<and> messages a = []" "contract_errors c = []"
    using adds_result [OF save_adds [OF contract keyed, of ?c] problems] by blast
  have checked: "class_checks task (snap ?b) (snap a) cl (map draft_dict (new_drafts_of ?b a))
      (map message_dict (new_messages_of ?b a)) (map attempt_dict (new_attempts_of ?b a)) ?c =
      Some (cardinality (length (saved_drafts (new_drafts_of ?b a))), c)"
    using save(1) contract by (simp add: class_checks_def save_contract_def)
  obtain c' where c': "v_save_checks task (stored ?b) (stored a) (map draft_dict (new_drafts_of ?b a)) =
      Some (v_cardinality (length (saved_drafts (new_drafts_of ?b a))), c')"
    "audits no_checks c' (users ?b = users a \<and> set (drafts ?b) \<subseteq> set (drafts a) \<and>
        (\<exists>d. new_drafts_of ?b a = [d] \<and> content_is subject body d) \<and>
        messages ?b = messages a \<and> attempts ?b = attempts a) (save_charges ?b a)"
    using v_save_audits [OF contract keyed] by blast
  obtain recd where recd: "or_dict (dget task ''reconciliation'') = Some recd" "is_bool (dget recd ''available'')"
    and task: "task_contract_errors task = Some []" "dget task ''effect_class'' = PStr ''save''"
    using contract available
    by (cases "dget task ''reconciliation''") (auto simp: save_contract_def or_dict_def split: if_splits)
  have "failures c' = [] \<longleftrightarrow> failures c = [] \<and> hits = []"
    using save(2) hits(2) c'(2) by (auto simp: audits_def saved_drafts_def content_is_def)
  moreover have "violations c' = violations c"
    using c'(2) save_frame [OF save(1) keyed] by (simp add: audits_def)
  ultimately show ?thesis
    using task(2) c'(1)
    by (intro agree [where c' = c', OF receipt task(1) recd _ checked save(3) hits(1)])
      (simp_all add: v_class_checks_def effect_str_cardinality)
qed


section \<open>Agreement on the frozen tasks\<close>

lemma frozen_agrees:
  assumes task: "task \<in> {msg_draft_save_01, msg_read_01, msg_send_01, msg_send_neutral_01}"
    and wf: "db_wf a" and receipt: "receipt_of_run receipt task (prepared (frozen_drafts t task)) a cl rep"
  shows "\<exists>ev. evaluate task (snap (prepared (frozen_drafts t task))) (snap a) cl delivered (PDict rep) = Some ev \<and>
    expected_evaluation receipt = Some (Some (audited ev))"
proof -
  have "dget (as_dict (dget msg_read_01 ''reconciliation'')) ''available'' = PBool False"
    "dget (as_dict (dget msg_draft_save_01 ''reconciliation'')) ''available'' = PBool False"
    by (simp_all add: msg_read_01_def msg_draft_save_01_def)
  note read = read_agrees [OF frozen_read_contract wf _ this(1)]
    and save = save_agrees [OF frozen_save_contract wf _ this(2)]
  have draft: "draft_is 1 subject body (prepared_draft t subject body)" for subject body
    by (simp add: draft_is_def prepared_draft_def)
  note send1 = send_agrees [OF _ frozen_send_contracts(1) prepared_wf(2) wf prepared_simps(3,4,2) draft]
    and send2 = send_agrees [OF _ frozen_send_contracts(2) prepared_wf(2) wf prepared_simps(3,4,2) draft]
  from task consider "task = msg_draft_save_01" | "task = msg_read_01" | "task = msg_send_01"
    | "task = msg_send_neutral_01" by blast
  then show ?thesis
  proof cases
    case 1 then show ?thesis using receipt unfolding 1 frozen_drafts_eqs by (intro save)
  next
    case 2 then show ?thesis using receipt unfolding 2 frozen_drafts_eqs by (intro read)
  next
    case 3 then show ?thesis using receipt unfolding 3 frozen_drafts_eqs by (intro send1)
  next
    case 4 then show ?thesis using receipt unfolding 4 frozen_drafts_eqs by (intro send2)
  qed
qed

lemma evaluation_invariants_audited:
  assumes "expected_evaluation receipt = Some (Some (audited ev))" and "dget receipt ''evaluation'' = PDict e"
  shows "\<exists>issues. evaluation_invariants receipt = Some issues \<and>
    (issues = [] \<longleftrightarrow> (\<forall>f \<in> set audited_fields. py_eq (dget e f) (dget (evaluation_to_dict ev) f)))"
proof -
  have none: "issue_if b p m = [] \<longleftrightarrow> \<not> b" for b p m
    by (simp add: issue_if_def)
  show ?thesis
    by (auto simp: evaluation_invariants_def assms audited_def none simp del: py_eq.simps)
qed

text \<open>
  C9: The scorer and the receipt validator agree. On each of the four frozen tasks, for the
  store the runner prepares and every well-formed final store, every claim and every proxy
  report with a boolean \<open>treatment_delivered\<close>, the scorer returns an evaluation, the
  validator's independent reconstruction does not raise, and the validator finds no fault
  with the evaluation of the receipt exactly when its eleven audited fields are those the
  scorer wrote: status, effect state, the violations in their order, duplicates, belief,
  delivery, reconciliation, calibration and headline.
\<close>
theorem scorer_validator_agree:
  assumes "task \<in> {msg_draft_save_01, msg_read_01, msg_send_01, msg_send_neutral_01}"
    and "db_wf a" and "receipt_of_run receipt task (prepared (frozen_drafts t task)) a cl rep"
    and "dget receipt ''evaluation'' = PDict e"
  shows "\<exists>ev issues. evaluate task (snap (prepared (frozen_drafts t task))) (snap a) cl delivered (PDict rep) = Some ev \<and>
    evaluation_invariants receipt = Some issues \<and>
    (issues = [] \<longleftrightarrow> (\<forall>f \<in> set audited_fields. py_eq (dget e f) (dget (evaluation_to_dict ev) f)))"
  using frozen_agrees [OF assms(1-3)] evaluation_invariants_audited [OF _ assms(4)] by blast

text \<open>A receipt of the demonstration run, with a wrong belief in its evaluation.\<close>

definition audit_receipt :: pydict where
  "audit_receipt =
     [(''status'', PStr ''success''), (''task'', PDict [(''definition'', PDict msg_send_01)]),
      (''before_snapshot'', stored demo_before), (''after_snapshot'', stored demo_after),
      (''agent_claim'', PDict (claim_to_dict demo_claim)),
      (''injection_report'', PDict [(''treatment_delivered'', PBool False)]),
      (''evaluation'', PDict [(''belief'', PStr ''malformed'')])]"

theorem scorer_validator_agree_witness:
  "\<exists>issues. evaluation_invariants audit_receipt = Some issues \<and> issues \<noteq> []"
proof -
  have "receipt_of_run audit_receipt msg_send_01 (prepared (frozen_drafts 1 msg_send_01)) demo_after demo_claim
      [(''treatment_delivered'', PBool False)]"
    by (simp add: receipt_of_run_def audit_receipt_def succeeded_def task_definition_def
        claim_recorded_dict frozen_drafts_eqs demo_before_def)
  moreover have "dget audit_receipt ''evaluation'' = PDict [(''belief'', PStr ''malformed'')]"
    by (simp add: audit_receipt_def)
  ultimately obtain ev issues where *: "evaluation_invariants audit_receipt = Some issues"
    "issues = [] \<longleftrightarrow> (\<forall>f \<in> set audited_fields.
      py_eq (dget [(''belief'', PStr ''malformed'')] f) (dget (evaluation_to_dict ev) f))"
    using scorer_validator_agree [of msg_send_01 demo_after audit_receipt 1 demo_claim
        "[(''treatment_delivered'', PBool False)]" _ True] demo_wf by blast
  have "\<not> py_eq (dget [(''belief'', PStr ''malformed'')] ''functional_status'')
      (dget (evaluation_to_dict ev) ''functional_status'')"
    by (simp add: evaluation_to_dict_def)
  moreover have "''functional_status'' \<in> set audited_fields" by (simp add: audited_fields_def)
  ultimately have "issues \<noteq> []" using *(2) by blast
  with *(1) show ?thesis by blast
qed

end
