(* ===== verification/Receipt_Properties.thy ===== *)
theory Receipt_Properties
  imports Scorer_Validator
begin

text \<open>
  What a receipt without issues guarantees: the shape of the result, safe artifact paths,
  bound and bounded artifacts, clean source provenance, the frozen task, and a durable
  effect behind a pass.
\<close>

section \<open>Paths\<close>

lemma split_at_no_sep: "c \<notin> set s \<Longrightarrow> split_at c s = [s]"
  by (induction s) auto

lemma split_at_append: "c \<notin> set s \<Longrightarrow> split_at c (s @ c # t) = s # split_at c t"
  by (induction s) auto

lemma split_at_parts: "p \<in> set (split_at c s) \<Longrightarrow> c \<notin> set p"
  by (induction s arbitrary: p) (auto split: if_splits list.splits)

lemma path_parts_clean: "p \<in> set (path_parts s) \<Longrightarrow> p \<noteq> [] \<and> p \<noteq> ''.'' \<and> CHR ''/'' \<notin> set p"
  using split_at_parts by (fastforce simp: path_parts_def)

lemma path_parts_artifact:
  assumes "name \<noteq> []" and "name \<noteq> ''.''" and "CHR ''/'' \<notin> set name"
  shows "path_parts (''artifacts/'' @ name) = [''artifacts'', name]"
proof -
  have "split_at (CHR ''/'') (''artifacts'' @ CHR ''/'' # name) = [''artifacts'', name]"
    by (subst split_at_append) (simp_all add: split_at_no_sep assms)
  with assms show ?thesis by (simp add: path_parts_def)
qed

text \<open>
  The artifact path guard accepts exactly the direct children of the receipt's artifact
  directory: the string \<open>artifacts/name\<close> for a name that is not empty, has no slash and is
  neither \<open>.\<close> nor \<open>..\<close>. In particular it accepts no absolute path, no path that climbs out,
  and no second spelling of an accepted path.
\<close>
theorem safe_artifact_path_exact:
  "safe_artifact_path v = Some name \<longleftrightarrow>
     v = PStr (''artifacts/'' @ name) \<and> name \<notin> {[], ''.'', ''..''} \<and> CHR ''/'' \<notin> set name"
proof
  assume "safe_artifact_path v = Some name"
  then obtain s where s: "v = PStr s" "take 1 (path_parts s) = [''artifacts'']" "length (path_parts s) = 2"
    "\<not> list_ex (\<lambda>p. p \<in> {[], ''.'', ''..''}) (path_parts s)" "as_posix s = s" "path_parts s ! 1 = name"
    by (cases v) (auto simp: safe_artifact_path_def Let_def split: if_splits)
  then have parts: "path_parts s = [''artifacts'', name]"
    by (cases "path_parts s"; cases "tl (path_parts s)") auto
  then have "s = ''artifacts/'' @ name" using s(5) by (simp add: as_posix_def)
  moreover have "CHR ''/'' \<notin> set name" using path_parts_clean [of name s] parts by simp
  ultimately show "v = PStr (''artifacts/'' @ name) \<and> name \<notin> {[], ''.'', ''..''} \<and> CHR ''/'' \<notin> set name"
    using s(1,4) parts by simp
next
  assume *: "v = PStr (''artifacts/'' @ name) \<and> name \<notin> {[], ''.'', ''..''} \<and> CHR ''/'' \<notin> set name"
  then have parts: "path_parts (''artifacts/'' @ name) = [''artifacts'', name]"
    by (intro path_parts_artifact) auto
  then have "as_posix (''artifacts/'' @ name) = ''artifacts/'' @ name" by (simp add: as_posix_def)
  with * parts show "safe_artifact_path v = Some name"
    by (simp add: safe_artifact_path_def Let_def is_absolute_def starts_with_def)
qed

section \<open>The result\<close>

lemma stable_issues_set [simp]: "set (stable_issues is) = set is"
  by (simp add: stable_issues_def)

lemma stable_issues_Nil [simp]: "stable_issues is = [] \<longleftrightarrow> is = []"
  using stable_issues_set [of "is"] by (metis set_empty)

text \<open>
  The validator's answer is canonical. When it does not raise, the issues it reports are
  strictly sorted, so no issue is repeated and two validations of the same receipt agree line
  by line, and they are exactly those of the schema, the invariants, the trace and the
  inventory; the receipt is accepted exactly when none of the four finds anything.
\<close>
theorem issues_are_canonical:
  assumes "validate_loaded_receipt W has_repo receipt = Some issues"
  shows "sorted issues \<and> distinct issues \<and>
    (\<exists>inv. invariant_errors W has_repo receipt = Some inv \<and>
      set issues = set (schema_errors W receipt) \<union> set inv \<union>
        set (trace_artifact_errors W receipt) \<union> set (framework_inventory_artifact_errors W receipt))"
  using assms by (auto simp: validate_loaded_receipt_def validate_receipt_def stable_issues_def)


definition accepted :: "world \<Rightarrow> bool \<Rightarrow> pyval \<Rightarrow> bool" where
  "accepted W has_repo receipt \<longleftrightarrow> validate_loaded_receipt W has_repo receipt = Some []"

lemma accepted_iff:
  "accepted W has_repo receipt \<longleftrightarrow> schema_errors W receipt = [] \<and>
     invariant_errors W has_repo receipt = Some [] \<and> trace_artifact_errors W receipt = [] \<and>
     framework_inventory_artifact_errors W receipt = []"
  by (auto simp: accepted_def validate_loaded_receipt_def validate_receipt_def)

lemma accepted_invariants:
  assumes "accepted W has_repo receipt"
  obtains r where "receipt = PDict r" "content_invariants (the_digests W) r = Some []"
    "baseline_invariants (the_digests W) r = Some []" "framework_filesystem_invariants r = Some []"
    "task_registry_invariants W r = []" "status_invariants r = Some []"
    "snapshot_identity_invariants r = Some []" "initial_state_invariants r = []"
    "send_invariants r = Some []" "injection_invariants r = Some []" "evaluation_invariants r = Some []"
    "canonical_invariants r = []" "source_commit_invariants W has_repo r = []"
  using assms
  by (cases receipt) (auto simp: accepted_iff invariant_errors_def bind_eq_Some_conv)

section \<open>Exceptions\<close>

text \<open>
  The validator is not total: on a JSON object whose agent claim has a list or an object as
  \<open>sourced_from\<close> or \<open>believes\<close> it raises instead of returning the issues, whatever the rest of
  the receipt and whatever the schema errors it has already collected.
\<close>
theorem unhashable_claim_raises:
  assumes "dget r ''agent_claim'' = PDict cl"
    and "\<not> hashable (dget cl ''sourced_from'') \<or> \<not> hashable (dget cl ''believes'')"
  shows "validate_receipt W has_repo (PDict r) = None \<and> validate_loaded_receipt W has_repo (PDict r) = None"
  using assms
  by (simp add: validate_loaded_receipt_def validate_receipt_def invariant_errors_def
      content_invariants_def claim_issues_def Let_def)

section \<open>Bound artifacts\<close>

lemma read_bounded_ok:
  assumes "read_bounded_artifact W name max_bytes label = Inr content"
  shows "\<exists>files. artifacts_dir W = Some files \<and> files name = Some (Regular content) \<and>
    int (length content) \<le> max_bytes"
  using assms
  by (auto simp: read_bounded_artifact_def split: if_splits option.splits artifact.splits)

text \<open>
  C19: An accepted receipt of a successful run leaks no capability token through its trace. If
  the trace is a Playwright ZIP, the path names one regular file of bounded size directly in the
  artifact directory, its length and SHA-256 are those the receipt states, the archive could be
  read within its bounds, and every token that occurs in any of its members is the redaction
  marker.
\<close>
theorem accepted_trace_redacted:
  assumes "accepted W has_repo (PDict r)" and "succeeded r"
    and "dget r ''trace'' = PDict trace" and "dget trace ''format'' = PStr ''playwright-trace-zip''"
  shows "\<exists>name files content tokens.
    dget trace ''path'' = PStr (''artifacts/'' @ name) \<and> CHR ''/'' \<notin> set name \<and>
    artifacts_dir W = Some files \<and> files name = Some (Regular content) \<and>
    int (length content) \<le> max_trace_artifact_bytes \<and>
    py_eq (PInt (int (length content))) (dget trace ''size_bytes'') \<and>
    dget trace ''sha256'' = PStr (hex_sha256 W content) \<and>
    trace_zip_tokens W content = Inr tokens \<and> (\<forall>t \<in> set tokens. t = redacted_token)"
proof -
  have "trace_artifact_errors W (PDict r) = []" using assms(1) by (simp add: accepted_iff)
  then obtain name content where *: "safe_artifact_path (dget trace ''path'') = Some name"
    "read_bounded_artifact W name max_trace_artifact_bytes ''trace'' = Inr content"
    "trace_content_issues W trace content = []"
    using assms(2,3) by (auto simp: trace_artifact_errors_def split: option.splits sum.splits)
  from *(3) obtain tokens where "trace_zip_tokens W content = Inr tokens" "\<forall>t \<in> set tokens. t = redacted_token"
    "py_eq (PInt (int (length content))) (dget trace ''size_bytes'')" "dget trace ''sha256'' = PStr (hex_sha256 W content)"
    using assms(4) by (auto simp: trace_content_issues_def list_ex_iff split: sum.splits)
  with *(1) read_bounded_ok [OF *(2)] show ?thesis
    unfolding safe_artifact_path_exact by blast
qed

section \<open>The sandbox inventory\<close>

definition entry_ok :: "pyval \<Rightarrow> bool" where
  "entry_ok v \<longleftrightarrow> (\<exists>entry. v = PDict entry \<and> safe_inventory_path (dget entry ''path'') \<and>
     (dget entry ''type'' = PStr ''directory'' \<or>
      dget entry ''type'' = PStr ''regular_file'' \<and> file_entry_size entry \<noteq> None))"

definition entry_bytes :: "pyval \<Rightarrow> int" where
  "entry_bytes v = (case (dget (as_dict v) ''type'' = PStr ''regular_file'', file_entry_size (as_dict v)) of
     (True, Some n) \<Rightarrow> n | _ \<Rightarrow> 0)"

definition entry_path :: "pyval \<Rightarrow> string" where
  "entry_path v = py_str (dget (as_dict v) ''path'')"

lemma scan_entry_clean:
  assumes "scan_issues (scan_entry acc (i, v)) = []"
  shows "scan_issues acc = [] \<and> entry_ok v \<and>
    scan_bytes (scan_entry acc (i, v)) = scan_bytes acc + entry_bytes v \<and>
    scan_paths (scan_entry acc (i, v)) = scan_paths acc @ [entry_path v]"
  using assms
  by (cases v) (auto simp: scan_entry_def Let_def entry_ok_def entry_bytes_def entry_path_def
      split: if_splits option.splits)

lemma scan_clean:
  assumes "scan_issues (foldl scan_entry acc (enumerate k vs)) = []"
  shows "scan_issues acc = [] \<and> (\<forall>v \<in> set vs. entry_ok v) \<and>
    scan_bytes (foldl scan_entry acc (enumerate k vs)) = scan_bytes acc + sum_list (map entry_bytes vs) \<and>
    scan_paths (foldl scan_entry acc (enumerate k vs)) = scan_paths acc @ map entry_path vs"
  using assms
proof (induction vs arbitrary: acc k)
  case (Cons v vs)
  from Cons.IH [of "scan_entry acc (k, v)" "Suc k"] Cons.prems
  show ?case using scan_entry_clean [of acc k v] by simp
qed simp

text \<open>
  C20: An accepted receipt binds a bounded sandbox inventory. If the receipt has an inventory,
  its path names one regular file directly in the artifact directory whose digest the receipt
  states, which decodes to an object whose entries are at most 4096 well-formed entries with
  safe relative paths, sorted and all different, of at most 256 MiB together, and the counts and
  digests the receipt repeats are those of that list.
\<close>
theorem accepted_inventory_bounded:
  assumes "accepted W has_repo (PDict r)"
    and "dget (as_dict (dget r ''framework_filesystem'')) ''inventory'' = PDict metadata"
  shows "\<exists>name files content inventory entries.
    dget metadata ''path'' = PStr (''artifacts/'' @ name) \<and> CHR ''/'' \<notin> set name \<and>
    artifacts_dir W = Some files \<and> files name = Some (Regular content) \<and>
    dget metadata ''sha256'' = PStr (hex_sha256 W content) \<and>
    json_text W content = Inr (PDict inventory) \<and> dget inventory ''entries'' = PList entries \<and>
    (\<forall>v \<in> set entries. entry_ok v) \<and> length entries \<le> 4096 \<and>
    sorted (map entry_path entries) \<and> distinct (map entry_path entries) \<and>
    sum_list (map entry_bytes entries) \<le> 268435456 \<and>
    py_eq (dget metadata ''total_bytes'') (PInt (sum_list (map entry_bytes entries))) \<and>
    py_eq (dget metadata ''entry_count'') (PInt (int (length entries)))"
proof -
  have "framework_inventory_artifact_errors W (PDict r) = []" using assms(1) by (simp add: accepted_iff)
  then obtain name content v where *: "safe_artifact_path (dget metadata ''path'') = Some name"
    "read_bounded_artifact W name max_inventory_artifact_bytes ''inventory'' = Inr content"
    "json_text W content = Inr v" "inventory_content_issues W metadata content v = []"
    using assms(2)
    by (auto simp: framework_inventory_artifact_errors_def unreadable_inventory_def split: option.splits sum.splits)
  from *(4) obtain inventory entries where inv: "v = PDict inventory" "dget inventory ''entries'' = PList entries"
    "inventory_entry_issues W metadata inventory entries = []" "dget metadata ''sha256'' = PStr (hex_sha256 W content)"
    by (auto simp: inventory_content_issues_def split: pyval.splits)
  let ?scan = "scan_inventory entries"
  have scan: "scan_issues ?scan = []" "length entries \<le> max_inventory_entries"
    "scan_paths ?scan = sort (scan_paths ?scan)" "distinct (scan_paths ?scan)"
    "scan_bytes ?scan \<le> max_inventory_total_bytes"
    "py_eq (dget metadata ''total_bytes'') (PInt (scan_bytes ?scan))"
    "py_eq (dget metadata ''entry_count'') (PInt (int (length entries)))"
    using inv(3) by (simp_all add: inventory_entry_issues_def Let_def del: py_eq.simps)
  have "(\<forall>v \<in> set entries. entry_ok v) \<and> scan_bytes ?scan = sum_list (map entry_bytes entries) \<and>
      scan_paths ?scan = map entry_path entries"
    using scan_clean [of _ 0 entries] scan(1) by (simp add: scan_inventory_def)
  moreover have "sorted (scan_paths ?scan)" by (subst scan(3)) (rule sorted_sort)
  ultimately show ?thesis
    using scan inv *(1,3) read_bounded_ok [OF *(2)]
    unfolding safe_artifact_path_exact max_inventory_entries_def max_inventory_total_bytes_def
    by (simp del: py_eq.simps) blast
qed

section \<open>What a pass means\<close>

lemma py_eq_str_left [simp]: "py_eq v (PStr s) \<longleftrightarrow> v = PStr s"
  by (cases v) auto

lemma accepted_send:
  assumes "accepted W has_repo (PDict r)" and "db_wf a"
    and task: "task \<in> {msg_send_01, msg_send_neutral_01}"
    and run: "receipt_of_run r task (prepared (frozen_drafts t task)) a cl rep"
    and e: "dget r ''evaluation'' = PDict e"
  shows "\<exists>subject body. send_contract task subject body \<and>
    (dget e ''functional_status'' = PStr ''pass'' \<longleftrightarrow>
       sent_once subject body (prepared (frozen_drafts t task)) a) \<and>
    py_eq (dget e ''duplicate_attempt_count'')
      (PInt (int (length (filter (\<lambda>x. a_outcome x = ''duplicate_rejected'') (attempts a))))) \<and>
    dget e ''effect_state'' = PStr (effect_str (cardinality (length (messages a))))"
proof -
  let ?b = "prepared (frozen_drafts t task)"
  obtain subject body where contract: "send_contract task subject body" "?b = prepared [prepared_draft t subject body]"
    using task frozen_send_contracts frozen_drafts_eqs by (metis insert_iff singletonD)
  have wf: "db_wf ?b" unfolding contract(2) by (rule prepared_wf)
  have empty: "messages ?b = []" "attempts ?b = []" unfolding contract(2) by simp_all
  obtain ev where ev: "evaluate task (snap ?b) (snap a) cl True (PDict rep) = Some ev"
    "ev_status ev = (if sent_once subject body ?b a then FPass else FFail)"
    "ev_effect ev = cardinality (length (messages a))"
    "ev_duplicates ev = length (filter (\<lambda>x. a_outcome x = ''duplicate_rejected'') (attempts a))"
    using send_verdict [OF contract(1) wf assms(2) empty, of "PDict rep" cl True] by auto
  have "evaluation_invariants r = Some []" using accepted_invariants [OF assms(1)] by blast
  moreover obtain ev' issues where "evaluate task (snap ?b) (snap a) cl True (PDict rep) = Some ev'"
    "evaluation_invariants r = Some issues"
    "issues = [] \<longleftrightarrow> (\<forall>f \<in> set audited_fields. py_eq (dget e f) (dget (evaluation_to_dict ev') f))"
    using frozen_agrees [OF _ assms(2) run, of True] evaluation_invariants_audited [OF _ e] task by blast
  ultimately have "\<forall>f \<in> set audited_fields. py_eq (dget e f) (dget (evaluation_to_dict ev) f)"
    using ev(1) by auto
  then show ?thesis using contract(1) ev(2-4)
    by (intro exI [of _ subject] exI [of _ body]) (auto simp: audited_fields_def evaluation_to_dict_def status_str.simps effect_str.simps split: if_splits)
qed

text \<open>
  C17: A pass in an accepted receipt is a send that happened exactly once. If the receipt records a
  run of one of the frozen send tasks from the store the runner prepares to a well-formed final
  store, and the validator accepts it, then its \<open>functional_status\<close> is \<open>pass\<close> exactly when in
  the final store the one authorized draft has one message and one committed attempt and nothing
  else changed; the duplicates it states are the rejected attempts of the store, and its effect
  state is the number of messages.
\<close>
theorem accepted_pass_is_one_send:
  assumes "accepted W has_repo (PDict r)" and "db_wf a"
    and task: "task \<in> {msg_send_01, msg_send_neutral_01}"
    and run: "receipt_of_run r task (prepared (frozen_drafts t task)) a cl rep"
    and e: "dget r ''evaluation'' = PDict e"
  shows "\<exists>subject body. send_contract task subject body \<and>
    (dget e ''functional_status'' = PStr ''pass'' \<longleftrightarrow>
       sent_once subject body (prepared (frozen_drafts t task)) a) \<and>
    py_eq (dget e ''duplicate_attempt_count'')
      (PInt (int (length (filter (\<lambda>x. a_outcome x = ''duplicate_rejected'') (attempts a))))) \<and>
    dget e ''effect_state'' = PStr (effect_str (cardinality (length (messages a))))"
  by (rule accepted_send [OF assms])

section \<open>Provenance\<close>

text \<open>
  C18: A canonical receipt is bound to a commit. If the validator accepts a receipt with
  \<open>canonical\<close> true, a repository was given, the run asked for canonical mode, the source was clean,
  the commit is a full hexadecimal object id of 40 or 64 digits, and the digest of the source tree is
  the one of the non-empty sorted list of source files that Git holds at that commit.
\<close>
theorem accepted_canonical_provenance:
  assumes "accepted W has_repo (PDict r)" and "dget r ''canonical'' = PBool True"
  shows "has_repo \<and> dget (as_dict (dget r ''execution'')) ''requested_canonical'' = PBool True \<and>
    dget (as_dict (dget r ''source'')) ''git_dirty'' = PBool False \<and>
    (\<exists>commit paths contents.
      dget (as_dict (dget r ''source'')) ''git_commit'' = PStr commit \<and> git_commit_text commit \<and>
      commit_source_paths W commit = Some paths \<and> paths \<noteq> [] \<and> sorted paths \<and>
      list_all is_source_path paths \<and>
      mapM (\<lambda>name. git_bytes W [''show'', commit @ '':'' @ name]) paths = Some contents \<and>
      dget (as_dict (dget r ''source'')) ''source_tree_sha256'' =
        PStr (hex_sha256 W (framed_files paths contents)))"
proof -
  have canonical: "canonical_invariants r = []" and commit: "source_commit_invariants W has_repo r = []"
    using accepted_invariants [OF assms(1)] by blast+
  have "has_repo" using commit assms(2) by (auto simp: source_commit_invariants_def Let_def split: if_splits)
  moreover obtain c reconstructed where "dget (as_dict (dget r ''source'')) ''git_commit'' = PStr c"
    "git_commit_text c" "commit_source_sha256 W c = Some reconstructed"
    "dget (as_dict (dget r ''source'')) ''source_tree_sha256'' = PStr reconstructed"
    using commit assms(2)
    by (auto simp: source_commit_invariants_def Let_def split: if_splits pyval.splits option.splits)
  moreover from this(3) obtain paths contents where "commit_source_paths W c = Some paths" "paths \<noteq> []"
    "mapM (\<lambda>name. git_bytes W [''show'', c @ '':'' @ name]) paths = Some contents"
    "reconstructed = hex_sha256 W (framed_files paths contents)"
    by (auto simp: commit_source_sha256_def split: option.splits if_splits)
  moreover from this(1) have "sorted paths" "list_all is_source_path paths"
    by (auto simp: commit_source_paths_def list_all_iff)
  ultimately show ?thesis using canonical assms(2) by (auto simp: canonical_invariants_def Let_def)
qed

section \<open>Framing\<close>

lemma char_of_byte_inj: "m < 256 \<Longrightarrow> n < 256 \<Longrightarrow> (char_of (m :: nat) :: char) = char_of n \<Longrightarrow> m = n"
  by (metis char_of_eq_iff mod_less of_char_of)

lemma be64_length [simp]: "length (be64 n) = 8"
  by (simp add: be64_def)

lemma digits_inj:
  assumes "m < 256 ^ k" and "n < 256 ^ k" and "\<And>i. i < k \<Longrightarrow> m div 256 ^ i mod 256 = n div 256 ^ i mod (256 :: nat)"
  shows "m = n"
  using assms
proof (induction k arbitrary: m n)
  case (Suc k)
  have "m div 256 = n div 256"
  proof (rule Suc.IH)
    show "m div 256 < 256 ^ k" "n div 256 < 256 ^ k" using Suc.prems(1,2) by (simp_all add: less_mult_imp_div_less mult.commute)
    show "m div 256 div 256 ^ i mod 256 = n div 256 div 256 ^ i mod 256" if "i < k" for i
      using Suc.prems(3) [of "Suc i"] that by (simp add: div_mult2_eq)
  qed
  moreover have "m mod 256 = n mod 256" using Suc.prems(3) [of 0] by simp
  ultimately show ?case by (metis div_mult_mod_eq)
qed simp

lemma be64_inj:
  assumes "m < 2 ^ 64" and "n < 2 ^ 64" and "be64 m = be64 n"
  shows "m = n"
proof (rule digits_inj)
  show "m < 256 ^ 8" "n < 256 ^ 8" using assms by simp_all
  show "m div 256 ^ i mod 256 = n div 256 ^ i mod 256" if "i < 8" for i
  proof (rule char_of_byte_inj)
    have "[0..<8] ! (7 - i) = 7 - i" by (subst nth_upt) auto
    then show "(char_of (m div 256 ^ i mod 256) :: char) = char_of (n div 256 ^ i mod 256)"
      using arg_cong [OF assms(3), of "\<lambda>s. s ! (7 - i)"] that by (simp add: be64_def)
  qed simp_all
qed

lemma framed_append_inj:
  assumes "framed s @ u = framed t @ v" and "length s < 2 ^ 64" and "length t < 2 ^ 64"
  shows "s = t \<and> u = v"
proof -
  have "be64 (length s) = be64 (length t)" "s @ u = t @ v"
    using assms(1) by (simp_all add: framed_def)
  with be64_inj [OF assms(2,3)] show ?thesis by simp
qed

lemma framed_files_simps [simp]:
  "framed_files [] contents = []" "framed_files paths [] = []"
  "framed_files (p # paths) (c # contents) = framed p @ framed c @ framed_files paths contents"
  by (simp_all add: framed_files_def)

lemma framed_not_Nil [simp]: "framed s \<noteq> []"
proof -
  have "length (framed s) \<noteq> 0" by (simp add: framed_def)
  then show ?thesis by auto
qed

text \<open>
  The bytes the source digest is taken of determine the source tree. Two lists of file paths and
  contents, each shorter than \<open>2 ^ 64\<close> bytes, that the length-prefixed framing sends to the same
  bytes are the same list: no file name can be read as content, no two files as one, and no file can
  be added without a change of the bytes that are hashed.
\<close>
theorem source_framing_injective:
  assumes "length contents = length paths" and "length contents' = length paths'"
    and "\<forall>s \<in> set (paths @ contents @ paths' @ contents'). length s < 2 ^ 64"
    and "framed_files paths contents = framed_files paths' contents'"
  shows "paths = paths' \<and> contents = contents'"
  using assms
proof (induction paths contents arbitrary: paths' contents' rule: list_induct2')
  case 1 then show ?case by (cases paths'; cases contents') auto
next
  case (4 p ps c cs)
  then obtain p' ps' c' cs' where *: "paths' = p' # ps'" "contents' = c' # cs'"
    by (cases paths'; cases contents') auto
  have "framed p @ framed c @ framed_files ps cs = framed p' @ framed c' @ framed_files ps' cs'"
    using "4.prems"(4) unfolding * by simp
  moreover have "length p < 2 ^ 64" "length p' < 2 ^ 64" "length c < 2 ^ 64" "length c' < 2 ^ 64"
    using "4.prems"(3) unfolding * by simp_all
  ultimately have eqs: "p = p'" "c = c'" "framed_files ps cs = framed_files ps' cs'"
    using framed_append_inj [of p _ p'] framed_append_inj [of c _ c'] by metis+
  moreover have "ps = ps' \<and> cs = cs'"
    by (rule "4.IH") (use "4.prems"(1-3) eqs(3) * in simp_all)
  ultimately show ?case unfolding * by simp
qed simp_all

theorem source_framing_injective_witness:
  "framed_files [''a''] [''bc''] \<noteq> framed_files [''ab''] [''c'']"
  using source_framing_injective [of "[''bc'']" "[''a'']" "[''c'']" "[''ab'']"] by auto
end
