(* ===== verification/Builder_Properties.thy ===== *)
theory Builder_Properties
  imports Receipt_Builder Receipt_Properties
begin

text \<open>
  What the receipt builder guarantees: one receipt per run, published files that never change,
  receipts that pass the independent validator, and a source digest the validator reconstructs
  from Git.
\<close>

section \<open>Sections of a receipt\<close>

lemma receipt_sections [simp]:
  "dget (receipt_of H clk status failure b) ''status'' = PStr status"
  "dget (receipt_of H clk status failure b) ''release'' = PStr (b_release b)"
  "dget (receipt_of H clk status failure b) ''canonical'' = PBool (canonical b)"
  "dget (receipt_of H clk status failure b) ''source'' =
     (case b_source b of None \<Rightarrow> PNone | Some s \<Rightarrow> PDict (source_to_dict s))"
  "dget (receipt_of H clk status failure b) ''task'' =
     (case b_task b of None \<Rightarrow> PNone
      | Some t \<Rightarrow> PDict [(''definition'', PDict t),
          (''sha256'', PStr (canonical_json_sha256 (h_digests H) (PDict t)))])"
  "dget (receipt_of H clk status failure b) ''prompt'' =
     PDict [(''text'', opt_text (b_prompt b)),
       (''sha256'', opt_text (map_option (prompt_sha256 (h_digests H)) (b_prompt b)))]"
  "dget (receipt_of H clk status failure b) ''baseline'' = PDict (baseline_to_dict (b_baseline b))"
  "dget (receipt_of H clk status failure b) ''execution'' = PDict
     [(''configured_steps'', b_steps b), (''configured_wall_s'', b_wall b),
      (''requested_canonical'', PBool (b_requested b)), (''failure'', failure),
      (''evidence_failures'', PList (map PDict (b_evidence_failures b)))]"
  "dget (receipt_of H clk status failure b) ''agent_claim'' = opt_dict (b_claim b)"
  "dget (receipt_of H clk status failure b) ''trace'' = opt_dict (b_trace b)"
  "dget (receipt_of H clk status failure b) ''framework_filesystem'' = opt_dict (b_filesystem b)"
  "dget (receipt_of H clk status failure b) ''injection_report'' = opt_dict (b_injection b)"
  "dget (receipt_of H clk status failure b) ''before_snapshot'' = opt_dict (b_before b)"
  "dget (receipt_of H clk status failure b) ''after_snapshot'' = opt_dict (b_after b)"
  "dget (receipt_of H clk status failure b) ''evaluation'' = opt_dict (b_evaluation b)"
  "dget (receipt_of H clk status failure b) ''outcome'' = opt_text (b_outcome b)"
  "dget (receipt_of H clk status failure b) ''versions'' =
     PDict [(''parser'', PStr (b_parser b)), (''evaluator'', PStr (b_evaluator b)),
       (''validator'', PStr (b_validator b))]"
  by (simp_all add: receipt_of_def)

lemma opt_values [simp]:
  "opt_dict d = PNone \<longleftrightarrow> d = None" "opt_text t = PNone \<longleftrightarrow> t = None"
  "opt_dict (Some d') = PDict d'" "opt_text (Some s) = PStr s" "opt_dict None = PNone" "opt_text None = PNone"
  by (auto simp: opt_dict_def opt_text_def split: option.splits)

section \<open>Receipts the validator accepts\<close>

lemma success_problem_None:
  assumes "success_problem b = None"
  shows "b_task b \<noteq> None" "b_prompt b \<noteq> None" "b_before b \<noteq> None" "b_after b \<noteq> None" "b_claim b \<noteq> None"
    "b_injection b \<noteq> None" "b_trace b \<noteq> None" "b_evaluation b \<noteq> None" "b_outcome b \<noteq> None"
    "ensure_canonical_source b = None" "learned b \<longrightarrow> policy_observed b \<and> filesystem_complete b"
  using assms by (auto simp: success_problem_def split: option.splits if_splits)

lemma canonical_receipt:
  assumes "b_source b = Some s" and "status = ''success'' \<longrightarrow> ensure_canonical_source b = None"
  shows "canonical_invariants (receipt_of H clk status failure b) = []"
  using assms
  by (auto simp: canonical_invariants_def canonical_def source_to_dict_def succeeded_def Let_def
      ensure_canonical_source_def require_canonical_source_def split: if_splits)

lemma bound_content:
  "task_hash_issues (h_digests H) (dget (receipt_of H clk status failure b) ''task'') = []"
  "prompt_issues (h_digests H) (dget (receipt_of H clk status failure b) ''prompt'') = []"
  by (cases "b_task b"; cases "b_prompt b"; simp add: task_hash_issues_def prompt_issues_def)+

definition current_versions :: "builder \<Rightarrow> bool" where
  "current_versions b \<longleftrightarrow> b_release b = release_version \<and> b_parser b = ''btb-claim-v1'' \<and>
     b_evaluator b = evaluator_version \<and> b_validator b = validator_version"

lemma bound_versions:
  "current_versions b \<Longrightarrow> version_issues (receipt_of H clk status failure b) = []"
  by (simp add: version_issues_def current_versions_def)

lemma classify_failure_status: "classify_failure e stage \<in> set failure_statuses"
  by (simp add: classify_failure_def failure_statuses_def)

definition sound_sections :: "host \<Rightarrow> pydict \<Rightarrow> bool" where
  "sound_sections H r \<longleftrightarrow> status_invariants r = Some [] \<and> canonical_invariants r = [] \<and>
     version_issues r = [] \<and> task_hash_issues (h_digests H) (dget r ''task'') = [] \<and>
     prompt_issues (h_digests H) (dget r ''prompt'') = []"

lemma success_receipt_sound:
  assumes "success_problem b = None" and "b_source b = Some s" and "current_versions b"
    and "b_evaluation b = Some ev" and "b_outcome b = Some outcome" and "dget ev ''headline_outcome'' = PStr outcome"
  shows "sound_sections H (receipt_of H clk ''success'' PNone b)"
proof -
  have "status_invariants (receipt_of H clk ''success'' PNone b) = Some []"
    using success_problem_None [OF assms(1)] assms(4-6) by (auto simp: status_invariants_def)
  then show ?thesis unfolding sound_sections_def
    using canonical_receipt [OF assms(2)] success_problem_None(10) [OF assms(1)] bound_content
      bound_versions [OF assms(3)] by blast
qed

lemma failure_receipt_sound:
  assumes "status \<in> set failure_statuses" and "b_source b = Some s" and "current_versions b"
    and "b_evaluation b = None" and "b_outcome b = None"
  shows "sound_sections H (receipt_of H clk status (PDict f) b)"
proof -
  have ne: "status \<noteq> ''success''" "in_strings (PStr status) failure_statuses = Some True"
    using assms(1) by (auto simp: failure_statuses_def in_strings_def py_in_def)
  then have "status_invariants (receipt_of H clk status (PDict f) b) = Some []"
    using assms(4,5) by (simp add: status_invariants_def)
  moreover have "canonical_invariants (receipt_of H clk status (PDict f) b) = []"
    by (rule canonical_receipt [OF assms(2)]) (simp add: ne)
  ultimately show ?thesis unfolding sound_sections_def
    by (intro conjI bound_content bound_versions [OF assms(3)])
qed

section \<open>One receipt for one run\<close>

text \<open>The calls the engine makes on one builder, in any order and number.\<close>

datatype builder_op =
    SetPrompt string
  | BindBaseline baseline_provenance
  | RegisterSecret string
  | RecordEvidence py_exc string
  | JsonTrace pyval string
  | BinaryTrace "py_exc + string" string string string bool
  | BindFilesystem string "pydict option" "py_exc option"
  | SetBefore pydict
  | SetAfter pydict
  | SetClaim pydict
  | SetInjection pydict
  | SetEvaluation pydict
  | SetOutcome string
  | WriteSuccess clock_reading
  | WriteFailure clock_reading py_exc string "string option"

fun run_op :: "host \<Rightarrow> builder_op \<Rightarrow> builder \<times> disk \<Rightarrow> builder \<times> disk" where
  "run_op H (SetPrompt txt) (b, d) = (snd (set_prompt txt b), d)"
| "run_op H (BindBaseline p) (b, d) = (snd (bind_effective_baseline p b), d)"
| "run_op H (RegisterSecret v) (b, d) = (snd (register_sensitive_value v b), d)"
| "run_op H (RecordEvidence e stage) (b, d) = (record_evidence_failure H e stage b, d)"
| "run_op H (JsonTrace v kind) st = snd (write_json_trace H v kind st)"
| "run_op H (BinaryTrace c name kind fmt red) (b, d) = (snd (bind_binary_trace H c name kind fmt red b), d)"
| "run_op H (BindFilesystem state listing e) st = snd (bind_framework_filesystem H state listing e st)"
| "run_op H (SetBefore x) (b, d) = (b\<lparr>b_before := Some x\<rparr>, d)"
| "run_op H (SetAfter x) (b, d) = (b\<lparr>b_after := Some x\<rparr>, d)"
| "run_op H (SetClaim x) (b, d) = (b\<lparr>b_claim := Some x\<rparr>, d)"
| "run_op H (SetInjection x) (b, d) = (b\<lparr>b_injection := Some x\<rparr>, d)"
| "run_op H (SetEvaluation x) (b, d) = (b\<lparr>b_evaluation := Some x\<rparr>, d)"
| "run_op H (SetOutcome x) (b, d) = (b\<lparr>b_outcome := Some x\<rparr>, d)"
| "run_op H (WriteSuccess clk) st = snd (write_success H clk st)"
| "run_op H (WriteFailure clk e stage status) st = snd (write_failure H clk e stage status st)"

text \<open>The host may behave differently from one call to the next.\<close>

definition run_ops :: "(host \<times> builder_op) list \<Rightarrow> builder \<times> disk \<Rightarrow> builder \<times> disk" where
  "run_ops ops st = fold (\<lambda>(H, op). run_op H op) ops st"

text \<open>
  The parts of the state that every operation but a write keeps: whether the receipt is written,
  the identity of the run and the receipts on disk; artifacts are only added.
\<close>

definition keeps :: "builder \<times> disk \<Rightarrow> builder \<times> disk \<Rightarrow> bool" where
  "keeps st st' \<longleftrightarrow> b_finalized (fst st') = b_finalized (fst st) \<and> b_run_id (fst st') = b_run_id (fst st) \<and>
     b_source (fst st') = b_source (fst st) \<and> (current_versions (fst st') \<longleftrightarrow> current_versions (fst st)) \<and>
     receipt_files (snd st') = receipt_files (snd st) \<and>
     (\<exists>added. artifact_files (snd st') = artifact_files (snd st) @ added)"

lemma keepsI:
  assumes "b_finalized b' = b_finalized b" "b_run_id b' = b_run_id b" "b_source b' = b_source b"
    "b_release b' = b_release b" "b_parser b' = b_parser b" "b_evaluator b' = b_evaluator b"
    "b_validator b' = b_validator b" "receipt_files d' = receipt_files d"
    "\<exists>added. artifact_files d' = artifact_files d @ added"
  shows "keeps (b, d) (b', d')"
  using assms by (simp add: keeps_def current_versions_def)

lemma keeps_refl [simp]: "keeps st st"
  by (simp add: keeps_def)

lemma keeps_trans: "keeps st st' \<Longrightarrow> keeps st' st'' \<Longrightarrow> keeps st st''"
  unfolding keeps_def by (metis append.assoc)

lemma publish_cases:
  assumes "publish H files name payload = (error, files')"
  obtains (Kept) e where "error = Some e" "files' = files"
  | (Added) "map_of files name = None" "files' = files @ [(name, payload)]"
proof -
  have "(\<exists>e. error = Some e \<and> files' = files) \<or> map_of files name = None \<and> files' = files @ [(name, payload)]"
    using assms by (auto simp: publish_def split: option.splits fault.splits if_splits)
  then show ?thesis using that by blast
qed

lemma write_artifact_disk:
  assumes "write_artifact H d payload run_id ext = (r, d')"
  shows "receipt_files d' = receipt_files d \<and> (\<exists>added. artifact_files d' = artifact_files d @ added)"
  using assms by (auto simp: write_artifact_def Let_def split: if_splits prod.splits elim!: publish_cases)

lemma filesystem_keeps: "keeps st (snd (bind_framework_filesystem H state listing e st))"
proof (cases st)
  case (Pair b d)
  then show ?thesis
    by (auto simp: bind_framework_filesystem_def Let_def intro!: keepsI
        split: option.splits prod.splits sum.splits dest!: write_artifact_disk)
qed

lemma json_trace_keeps: "keeps st (snd (write_json_trace H v kind st))"
proof (cases st)
  case (Pair b d)
  then show ?thesis
    by (auto simp: write_json_trace_def Let_def intro!: keepsI
        split: prod.splits sum.splits dest!: write_artifact_disk)
qed

fun writes :: "builder_op \<Rightarrow> bool" where
  "writes (WriteSuccess _) = True" | "writes (WriteFailure _ _ _ _) = True" | "writes _ = False"

lemma other_ops_keep: "\<not> writes op \<Longrightarrow> keeps (b, d) (run_op H op (b, d))"
  by (cases op) (auto intro!: keepsI simp: filesystem_keeps json_trace_keeps set_prompt_def
      bind_effective_baseline_def register_sensitive_value_def record_evidence_failure_def
      bind_binary_trace_def Let_def split: prod.splits sum.splits)


definition receipt_name :: "builder \<Rightarrow> string" where
  "receipt_name b = b_run_id b @ ''.json''"

text \<open>A write adds its receipt or nothing; it adds nothing when the builder or the disk has one.\<close>

lemma write_once_cases:
  assumes "write_once H r (b, d) = (result, b', d')"
  obtains (Kept) e where "result = Inl e" "b' = b" "receipt_files d' = receipt_files d" "artifact_files d' = artifact_files d"
  | (Written) "b_finalized b = None" "map_of (receipt_files d) (receipt_name b) = None"
      "receipt_files d' = receipt_files d @ [(receipt_name b, json_document H (PDict r))]"
      "artifact_files d' = artifact_files d" "b' = b \<or> b' = b\<lparr>b_finalized := Some (receipt_name b)\<rparr>"
      "\<forall>path. result = Inr path \<longrightarrow> path = receipt_name b"
proof (cases "b_finalized b = None \<and> safe_component (b_run_id b)")
  case False
  then have "(\<exists>e. result = Inl e) \<and> b' = b \<and> d' = d"
    using assms by (simp add: write_once_def write_receipt_def split: if_splits) blast+
  then show ?thesis using Kept by blast
next
  case True
  obtain error files where p: "publish H (receipt_files d) (receipt_name b) (json_document H (PDict r)) = (error, files)"
    by fastforce
  have eqs: "d' = d\<lparr>receipt_files := files\<rparr>" "result = (case error of Some e \<Rightarrow> Inl e | None \<Rightarrow> Inr (receipt_name b))"
    "b' = (case error of Some e \<Rightarrow> b | None \<Rightarrow> b\<lparr>b_finalized := Some (receipt_name b)\<rparr>)"
    using assms True p by (auto simp: write_once_def write_receipt_def receipt_name_def split: option.splits)
  show ?thesis
    using p
  proof (cases rule: publish_cases)
    case (Kept e)
    with eqs show ?thesis by (intro that(1)) auto
  next
    case Added
    with eqs True show ?thesis by (intro that(2)) (auto split: option.splits)
  qed
qed

text \<open>The two kinds of receipt.\<close>

definition complete_success :: "host \<Rightarrow> pydict \<Rightarrow> bool" where
  "complete_success H r \<longleftrightarrow> (\<exists>clk b. r = receipt_of H clk ''success'' PNone b \<and> success_problem b = None)"

definition bare_failure :: "host \<Rightarrow> pydict \<Rightarrow> bool" where
  "bare_failure H r \<longleftrightarrow> (\<exists>clk status f b. r = receipt_of H clk status (PDict f) b \<and>
     b_evaluation b = None \<and> b_outcome b = None)"

definition one_receipt :: "builder \<times> disk \<Rightarrow> builder \<times> disk \<Rightarrow> bool" where
  "one_receipt st st' \<longleftrightarrow>
     b_run_id (fst st') = b_run_id (fst st) \<and>
     (\<exists>added. artifact_files (snd st') = artifact_files (snd st) @ added) \<and>
     (b_finalized (fst st') = None \<and> receipt_files (snd st') = receipt_files (snd st) \<or>
      (\<exists>H r. receipt_files (snd st') = receipt_files (snd st) @
             [(receipt_name (fst st), json_document H (PDict r))] \<and>
           (complete_success H r \<or> bare_failure H r)))"

lemma one_receipt_keeps:
  assumes "one_receipt st0 st" and "keeps st st'"
  shows "one_receipt st0 st'"
  using assms unfolding one_receipt_def keeps_def by (metis append.assoc)

lemma ensure_keeps: "keeps st (ensure_learned_filesystem_state H st)"
  by (simp add: ensure_learned_filesystem_state_def filesystem_keeps)

lemma one_receipt_write:
  assumes "one_receipt st0 (b, d)" and "complete_success H r \<or> bare_failure H r"
  shows "one_receipt st0 (snd (write_once H r (b, d)))"
proof (cases "write_once H r (b, d)")
  case (fields result b' d')
  then show ?thesis
  proof (cases rule: write_once_cases)
    case (Kept e)
    with assms(1) fields show ?thesis by (simp add: one_receipt_def)
  next
    case Written
    have name: "receipt_name b = receipt_name (fst st0)" using assms(1) by (simp add: one_receipt_def receipt_name_def)
    then have "receipt_files d = receipt_files (snd st0)"
      using assms(1) Written(1,2) by (auto simp: one_receipt_def map_add_def split: option.splits)
    with assms Written fields name show ?thesis by (auto simp: one_receipt_def)
  qed
qed

lemma one_receipt_step:
  assumes "one_receipt st0 st"
  shows "one_receipt st0 (run_op H op st)"
proof (cases st)
  case (Pair b d)
  show ?thesis
  proof (cases "writes op")
    case False
    with assms other_ops_keep Pair show ?thesis by (blast intro: one_receipt_keeps)
  next
    case True
    then consider clk where "op = WriteSuccess clk" | clk e stage status where "op = WriteFailure clk e stage status"
      by (cases op) auto
    then show ?thesis
    proof cases
      case 1
      then show ?thesis
        using assms Pair one_receipt_write [of st0 b d]
        by (auto simp: write_success_def complete_success_def split: option.splits)
    next
      case 2
      obtain b' d' where e: "ensure_learned_filesystem_state H (b, d) = (b', d')" by fastforce
      let ?b = "b'\<lparr>b_evaluation := None, b_outcome := None\<rparr>"
      have "keeps (b', d') (?b, d')" by (rule keepsI) auto
      then have "one_receipt st0 (?b, d')"
        using assms ensure_keeps [of "(b, d)" H] one_receipt_keeps unfolding Pair e by blast
      moreover have "bare_failure H (receipt_of H clk x (PDict f) ?b)" for x f
        unfolding bare_failure_def by (intro exI conjI) auto
      ultimately show ?thesis
        using assms Pair 2 e one_receipt_write [of st0 ?b d'] by (auto simp: write_failure_def Let_def)
    qed
  qed
qed

text \<open>
  C21: A run has one receipt. Whatever the engine calls on a builder that has not written its
  receipt, in whatever order and with whatever failures of the file system before or after a file is linked, it
  leaves the published
  files as they were and adds artifacts and at most one receipt, named after the run; that receipt is
  either a success with every piece of evidence and no failure, or a failure with no evaluation and
  no outcome.
\<close>
theorem one_receipt_per_run:
  assumes "b_finalized b = None" and "run_ops ops (b, d) = (b', d')"
  shows "(\<exists>added. artifact_files d' = artifact_files d @ added) \<and>
    (b_finalized b' = None \<and> receipt_files d' = receipt_files d \<or>
     (\<exists>H r. receipt_files d' = receipt_files d @ [(receipt_name b, json_document H (PDict r))] \<and>
       (complete_success H r \<or> bare_failure H r)))"
proof -
  have "one_receipt (b, d) (fold (\<lambda>(H, op). run_op H op) ops st)" if "one_receipt (b, d) st" for st
    using that by (induction ops arbitrary: st) (simp_all add: one_receipt_step case_prod_beta)
  moreover have "one_receipt (b, d) (b, d)" using assms(1) by (simp add: one_receipt_def)
  ultimately have "one_receipt (b, d) (b', d')" using assms(2) by (metis run_ops_def)
  then show ?thesis by (simp add: one_receipt_def)
qed

text \<open>
  C22: The receipts the builder writes pass the checks of the validator that do not depend on the
  run: status and evidence, canonical flag, versions, task digest and prompt digest. So does a
  success whose outcome is the headline of its evaluation, and every failure the builder classifies
  itself, whatever the exception, the stage and the evidence collected so far.
\<close>
theorem written_receipts_are_sound:
  assumes "b_source b = Some s" and "current_versions b"
  shows "(write_success H clk (b, d) = (Inr path, b', d') \<longrightarrow>
      dget (the (b_evaluation b)) ''headline_outcome'' = opt_text (b_outcome b) \<longrightarrow>
      (\<exists>r. receipt_files d' = receipt_files d @ [(path, json_document H (PDict r))] \<and>
        succeeded r \<and> sound_sections H r)) \<and>
    (write_failure H clk e stage None (b, d) = (Inr path, b', d') \<longrightarrow>
      (\<exists>r. receipt_files d' = receipt_files d @ [(path, json_document H (PDict r))] \<and>
        \<not> succeeded r \<and> sound_sections H r))"
proof (intro conjI impI)
  assume w: "write_success H clk (b, d) = (Inr path, b', d')"
    and outcome: "dget (the (b_evaluation b)) ''headline_outcome'' = opt_text (b_outcome b)"
  then have ok: "success_problem b = None" "write_once H (receipt_of H clk ''success'' PNone b) (b, d) = (Inr path, b', d')"
    by (auto simp: write_success_def split: option.splits)
  obtain ev o' where "b_evaluation b = Some ev" "b_outcome b = Some o'"
    using success_problem_None [OF ok(1)] by auto
  with success_receipt_sound [OF ok(1) assms this] outcome
  have "sound_sections H (receipt_of H clk ''success'' PNone b)" by simp
  with ok(2) show "\<exists>r. receipt_files d' = receipt_files d @ [(path, json_document H (PDict r))] \<and>
        succeeded r \<and> sound_sections H r"
    by (auto simp: succeeded_def elim!: write_once_cases)
next
  assume w: "write_failure H clk e stage None (b, d) = (Inr path, b', d')"
  obtain b1 d1 where e: "ensure_learned_filesystem_state H (b, d) = (b1, d1)" by fastforce
  let ?b = "b1\<lparr>b_evaluation := None, b_outcome := None\<rparr>"
  let ?r = "receipt_of H clk (classify_failure e stage) (PDict (failure_dict H b1 e stage)) ?b"
  have once: "write_once H ?r (?b, d1) = (Inr path, b', d')"
    using w e by (auto simp: write_failure_def Let_def split: if_splits)
  have "keeps (b, d) (b1, d1)" using ensure_keeps [of "(b, d)" H] e by simp
  then have k: "b_source ?b = Some s" "current_versions ?b" "receipt_files d1 = receipt_files d"
    using assms by (auto simp: keeps_def current_versions_def)
  have "sound_sections H ?r"
    by (rule failure_receipt_sound [OF classify_failure_status k(1,2)]) simp_all
  moreover have "\<not> succeeded ?r"
    by (simp add: succeeded_def classify_failure_def)
  ultimately show "\<exists>r. receipt_files d' = receipt_files d @ [(path, json_document H (PDict r))] \<and>
        \<not> succeeded r \<and> sound_sections H r"
    using once k(3) by (auto elim!: write_once_cases)
qed

section \<open>The cleanup of the sandbox\<close>

lemma learned_name:
  "learned b \<Longrightarrow> in_strings (dget (baseline_to_dict (b_baseline b)) ''name'') [''browser-use'', ''browser-use-full''] = Some True"
  by (auto simp: learned_def baseline_to_dict_def in_strings_def py_in_def)

lemma bound_filesystem:
  assumes "b_filesystem b = None" and "state \<in> {''not_created'', ''cleaned'', ''cleanup_failed''}"
    and "state = ''not_created'' \<longrightarrow> listing = None"
    and "bind_framework_filesystem H state listing cleanup_error (b, d) = (result, b', d')"
  obtains (whole) i where "result = Inr (filesystem_dict state i (cleanup_error_value H b cleanup_error))"
      "b' = b\<lparr>b_filesystem := Some (filesystem_dict state i (cleanup_error_value H b cleanup_error))\<rparr>"
      "listing = None \<longrightarrow> i = PNone"
    | (cut) e where "result = Inl e" "b' = b\<lparr>b_filesystem := Some (filesystem_dict state PNone PNone)\<rparr>" "listing \<noteq> None"
proof (cases listing)
  case None
  then show ?thesis
    using assms by (intro whole [of PNone]) (auto simp: bind_framework_filesystem_def Let_def)
next
  case (Some l)
  let ?payload = "canonical_json (float_text (h_digests H)) (PDict l) @ [char_of (10::nat)]"
  obtain w d1 where w: "write_artifact H d ?payload (b_run_id b) ''browser-use-sandbox-inventory.json'' = (w, d1)" by fastforce
  note run = assms(4) [unfolded Some bind_framework_filesystem_def Let_def prod.case option.case w]
  show ?thesis
  proof (cases w)
    case (Inl e)
    show ?thesis
      by (rule cut [of e]) (use assms(1-3) run in \<open>auto simp: Some Inl simp del: canonical_json.simps split: if_splits\<close>)
  next
    case (Inr name)
    show ?thesis
      by (rule whole [of "PDict (inventory_metadata H l name ?payload)"])
        (use assms(1-3) run in \<open>auto simp: Some Inr simp del: canonical_json.simps split: if_splits\<close>)
  qed
qed

text \<open>
  C28: When a failed run of a learned baseline records the end of its sandbox, the validator
  accepts the recorded lifecycle exactly when the sandbox was never created or was cleaned without
  an error, or its cleanup failed with an error and its inventory was absent or was published. An
  inventory that cannot be published therefore turns a failed cleanup into a receipt that is
  rejected: the cleanup error is lost.
\<close>
theorem filesystem_lifecycle_verdict:
  assumes "learned b" and "b_filesystem b = None"
    and "state \<in> {''not_created'', ''cleaned'', ''cleanup_failed''}" and "state = ''not_created'' \<longrightarrow> listing = None"
    and "bind_framework_filesystem H state listing cleanup_error (b, d) = (result, b', d')"
    and "status \<noteq> ''success''"
  shows "framework_filesystem_invariants (receipt_of H clk status failure b') = Some [] \<longleftrightarrow>
    (case result of
       Inr _ \<Rightarrow> (state = ''cleanup_failed'') = (cleanup_error \<noteq> None)
     | Inl _ \<Rightarrow> state = ''cleaned'')"
proof -
  have "learned b'"
    using assms(2-5) by (cases rule: bound_filesystem) (use assms(1) in \<open>simp_all add: learned_def\<close>)
  then have learned': "in_strings (dget (baseline_to_dict (b_baseline b')) ''name'') [''browser-use'', ''browser-use-full''] = Some True"
    by (rule learned_name)
  have err: "cleanup_error_value H b cleanup_error = PNone \<longleftrightarrow> cleanup_error = None"
    "is_dict (cleanup_error_value H b cleanup_error) \<longleftrightarrow> cleanup_error \<noteq> None"
    by (auto simp: cleanup_error_value_def split: option.splits)
  let ?r = "receipt_of H clk status failure b'"
  have verdict: "framework_filesystem_invariants ?r = Some [] \<longleftrightarrow> (state = ''cleanup_failed'') = (ce \<noteq> PNone)"
    if "b_filesystem b' = Some (filesystem_dict state i ce)" "ce = PNone \<or> is_dict ce"
      "state = ''not_created'' \<longrightarrow> i = PNone" for i ce
  proof -
    have "framework_filesystem_invariants ?r = Some (if state = ''not_created''
        then issue_if (i \<noteq> PNone \<or> ce \<noteq> PNone) ''$.framework_filesystem''
          ''not_created must not claim inventory or cleanup''
        else if state = ''cleaned''
        then issue_if (ce \<noteq> PNone) ''$.framework_filesystem''
          ''cleaned must verify removal without a cleanup error''
        else issue_if (\<not> is_dict ce) ''$.framework_filesystem''
          ''cleanup_failed must retain a cleanup error and no verification claim'')"
      using assms(3,6) learned' that(1)
      by (elim insertE emptyE) (simp_all add: framework_filesystem_invariants_def filesystem_dict_def succeeded_def)
    then show ?thesis using assms(3) that(2,3) by (cases ce) auto
  qed
  show ?thesis
    using assms(2-5)
  proof (cases rule: bound_filesystem)
    case (whole i)
    have "framework_filesystem_invariants ?r = Some [] \<longleftrightarrow>
        (state = ''cleanup_failed'') = (cleanup_error_value H b cleanup_error \<noteq> PNone)"
      by (rule verdict [of i]) (use whole err assms(4) in auto)
    then show ?thesis by (simp add: whole(1) err(1))
  next
    case (cut e)
    have "framework_filesystem_invariants ?r = Some [] \<longleftrightarrow> (state = ''cleanup_failed'') = (PNone \<noteq> PNone)"
      by (rule verdict [of PNone]) (simp_all add: cut(2))
    moreover have "state = ''cleaned'' \<or> state = ''cleanup_failed''" using assms(3,4) cut(3) by auto
    ultimately show ?thesis by (elim disjE) (simp_all add: cut(1))
  qed
qed


section \<open>The source digest\<close>

text \<open>
  Git holds the checkout at a commit: it lists the paths one on a line, in any order, and shows
  their contents. No path has a line boundary.
\<close>

definition git_holds :: "world \<Rightarrow> string \<Rightarrow> checkout \<Rightarrow> bool" where
  "git_holds W commit co \<longleftrightarrow>
     (\<exists>paths. git_bytes W [''ls-tree'', ''-r'', ''--name-only'', commit] = Some (concat (map (\<lambda>p. p @ [char_of (10::nat)]) paths)) \<and>
        set paths = set (map fst (checkout_files co)) \<and> distinct paths) \<and>
     distinct (map fst (checkout_files co)) \<and>
     (\<forall>p \<in> set (map fst (checkout_files co)). p \<noteq> [] \<and> list_all (\<lambda>c. \<not> line_end c) p \<and>
        git_bytes W [''show'', commit @ '':'' @ p] = Some (read_source co p))"

lemma split_lines_Cons:
  assumes "list_all (\<lambda>c. \<not> line_end c) p"
  shows "split_lines (p @ char_of (10::nat) # s) = p # split_lines s"
proof -
  have le: "line_end (char_of (10::nat))" by (simp add: line_end_def)
  then have "takeWhile (\<lambda>c. \<not> line_end c) (p @ char_of (10::nat) # s) = p"
    "dropWhile (\<lambda>c. \<not> line_end c) (p @ char_of (10::nat) # s) = char_of (10::nat) # s"
    using assms by (simp_all add: takeWhile_append2 dropWhile_append2 list_all_iff)
  then show ?thesis by (subst split_lines.simps) (simp add: Let_def)
qed

lemma split_lines_paths:
  "\<forall>p \<in> set paths. list_all (\<lambda>c. \<not> line_end c) p \<Longrightarrow>
     split_lines (concat (map (\<lambda>p. p @ [char_of (10::nat)]) paths)) = paths"
  by (induction paths) (simp_all add: split_lines_Cons, simp add: split_lines.simps)

lemma sort_set_eq: "distinct xs \<Longrightarrow> distinct ys \<Longrightarrow> set xs = set ys \<Longrightarrow> sort xs = sort (ys :: string list)"
  by (simp add: sorted_distinct_set_unique)

text \<open>
  C23: On a clean checkout the digest the builder takes of the files on disk is the digest the
  validator reconstructs from the commit. If Git holds exactly the files of the checkout and every
  JSON file below the task definitions lies directly in that directory, then either the builder
  refuses the tree or both digests are the same.
\<close>
theorem source_digest_reconstructed:
  assumes "git_holds W commit co"
    and "\<forall>p \<in> set (map fst (checkout_files co)).
      starts_with definitions_prefix p \<and> ends_with ''.json'' p \<longrightarrow> definition_input p"
    and "source_tree_sha256 (the_digests W) co = Inr digest"
  shows "commit_source_sha256 W commit = Some digest"
proof -
  obtain listed where listed: "git_bytes W [''ls-tree'', ''-r'', ''--name-only'', commit] =
      Some (concat (map (\<lambda>p. p @ [char_of (10::nat)]) listed))"
    "set listed = set (map fst (checkout_files co))" "distinct listed"
    and files: "distinct (map fst (checkout_files co))"
      "\<And>p. p \<in> set (map fst (checkout_files co)) \<Longrightarrow> list_all (\<lambda>c. \<not> line_end c) p \<and>
        git_bytes W [''show'', commit @ '':'' @ p] = Some (read_source co p)"
    using assms(1) by (auto simp: git_holds_def)
  let ?candidates = "filter is_candidate (map fst (checkout_files co))"
  have same: "is_source_path p = is_candidate p" if "p \<in> set (map fst (checkout_files co))" for p
    using assms(2) that
    by (auto simp: is_source_path_def is_candidate_def definition_input_def template_input_def schema_input_def
        definitions_prefix_def)
  have "sort (filter is_source_path listed) = sort ?candidates"
    using listed(2,3) files(1) same by (intro sort_set_eq) auto
  then have paths: "commit_source_paths W commit = Some (sort ?candidates)"
    using listed files(2) by (simp add: commit_source_paths_def split_lines_paths)
  have "list_ex (starts_with ''btb/schemas/'') ?candidates" and
    digest: "digest = hex_sha256 W (framed_files (sort ?candidates) (map (read_source co) (sort ?candidates)))"
    using assms(3) by (auto simp: source_tree_sha256_def source_paths_def Let_def the_digests_def split: if_splits)
  from this(1) obtain p where "p \<in> set (sort ?candidates)" unfolding list_ex_iff by auto
  then have "sort ?candidates \<noteq> []" by (cases "sort ?candidates") simp_all
  moreover have "mapM (\<lambda>name. git_bytes W [''show'', commit @ '':'' @ name]) (sort ?candidates) =
      Some (map (read_source co) (sort ?candidates))"
    using files(2) by (intro mapM_map) auto
  ultimately show ?thesis using digest by (simp add: commit_source_sha256_def paths)
qed


section \<open>Concrete builders\<close>

definition demo_builder :: builder where
  "demo_builder =
     \<lparr>b_run_id = ''run-1'', b_freeze = ''0.1.0'',
      b_baseline = \<lparr>bp_name = ''browser-use'', bp_framework = ''browser-use'', bp_version = Some ''1'',
        bp_provider = None, bp_model = None, bp_parameters = [], bp_modality = [], bp_capability = []\<rparr>,
      b_steps = PInt 25, b_wall = PInt 120, b_requested = False, b_task = None, b_prompt = None,
      b_release = release_version, b_source = Some \<lparr>sp_commit = None, sp_dirty = True, sp_tree = ''t''\<rparr>,
      b_parser = ''btb-claim-v1'', b_evaluator = evaluator_version, b_validator = validator_version,
      b_started = ''s'', b_before = None, b_after = None, b_claim = None, b_injection = None,
      b_evaluation = None, b_outcome = None, b_trace = None, b_filesystem = None,
      b_evidence_failures = [], b_finalized = None, b_sensitive = [], b_effective_bound = False\<rparr>"

text \<open>A host on which the inventory artifact cannot be published.\<close>

definition demo_host :: host where
  "demo_host =
     \<lparr>h_digests = \<lparr>hex_sha256 = id, float_text = float_repr\<rparr>,
      h_surroundings = \<lparr>environ = (\<lambda>_. None), home = []\<rparr>,
      h_fault = (\<lambda>name. if name = ''run-1.browser-use-sandbox-inventory.json''
        then Some (BeforeLink (exc ''OSError'' ''disk full'')) else None)\<rparr>"

definition demo_disk :: disk where
  "demo_disk = \<lparr>receipt_files = [], artifact_files = []\<rparr>"

definition demo_clock :: clock_reading where
  "demo_clock = \<lparr>ended_at = ''e'', elapsed = 1\<rparr>"

theorem one_receipt_per_run_witness:
  "\<exists>added. artifact_files (snd (run_ops [(demo_host, WriteFailure demo_clock (exc ''E'' ''m'') ''setup'' None)]
     (demo_builder, demo_disk))) = artifact_files demo_disk @ added"
proof (cases "run_ops [(demo_host, WriteFailure demo_clock (exc ''E'' ''m'') ''setup'' None)]
    (demo_builder, demo_disk)")
  case (Pair b d)
  have "b_finalized demo_builder = None" by (simp add: demo_builder_def)
  from one_receipt_per_run [OF this Pair] Pair show ?thesis by auto
qed

theorem written_receipts_are_sound_witness:
  "\<exists>path b d r. write_failure demo_host demo_clock (exc ''E'' ''m'') ''setup'' None (demo_builder, demo_disk) = (Inr path, b, d) \<and>
     receipt_files d = [(path, json_document demo_host (PDict r))] \<and> sound_sections demo_host r"
proof -
  have pre: "b_source demo_builder = Some \<lparr>sp_commit = None, sp_dirty = True, sp_tree = ''t''\<rparr>"
    "current_versions demo_builder"
    by (simp_all add: demo_builder_def current_versions_def)
  have "\<exists>path b d. write_failure demo_host demo_clock (exc ''E'' ''m'') ''setup'' None (demo_builder, demo_disk) = (Inr path, b, d)"
    by (simp add: write_failure_def ensure_learned_filesystem_state_def bind_framework_filesystem_def
        write_once_def write_receipt_def publish_def demo_builder_def demo_host_def demo_disk_def learned_def
        safe_component_def word_char_def Let_def)
  then obtain path b d where
    w: "write_failure demo_host demo_clock (exc ''E'' ''m'') ''setup'' None (demo_builder, demo_disk) = (Inr path, b, d)"
    by blast
  moreover have "receipt_files demo_disk = []" by (simp add: demo_disk_def)
  ultimately show ?thesis
    using written_receipts_are_sound [OF pre, of demo_host demo_clock demo_disk path b d "exc ''E'' ''m''" "''setup''"]
    by auto
qed

theorem filesystem_lifecycle_verdict_witness:
  "\<exists>b d. bind_framework_filesystem demo_host ''cleanup_failed'' (Some []) (Some (exc ''OSError'' ''busy''))
       (demo_builder, demo_disk) = (Inl (exc ''OSError'' ''disk full''), b, d) \<and>
     framework_filesystem_invariants (receipt_of demo_host demo_clock ''setup_error'' PNone b) \<noteq> Some []"
proof -
  have pre: "learned demo_builder" "b_filesystem demo_builder = None" by (simp_all add: demo_builder_def learned_def)
  have "\<exists>b d. bind_framework_filesystem demo_host ''cleanup_failed'' (Some []) (Some (exc ''OSError'' ''busy''))
       (demo_builder, demo_disk) = (Inl (exc ''OSError'' ''disk full''), b, d)"
    by (simp add: bind_framework_filesystem_def write_artifact_def publish_def demo_builder_def demo_host_def
        demo_disk_def safe_component_def word_char_def Let_def)
  then obtain b d where
    w: "bind_framework_filesystem demo_host ''cleanup_failed'' (Some []) (Some (exc ''OSError'' ''busy''))
       (demo_builder, demo_disk) = (Inl (exc ''OSError'' ''disk full''), b, d)" by blast
  from filesystem_lifecycle_verdict [OF pre _ _ w, of "''setup_error''" demo_clock PNone] w
  show ?thesis by auto
qed

definition demo_checkout :: checkout where
  "demo_checkout =
     \<lparr>git_text = (\<lambda>_. None),
      checkout_files = map (\<lambda>p. (p, ''x''))
        [''run_pilot.py'', ''btb/tasks/definitions/t.json'', ''btb/app/templates/i.html'', ''btb/schemas/s.json'']\<rparr>"

definition demo_git :: world where
  "demo_git =
     \<lparr>hex_sha256 = id, float_text = float_repr, schema_iter = (\<lambda>_. []),
      git_bytes = (\<lambda>args. Some (if hd args = ''ls-tree''
        then concat (map (\<lambda>p. p @ [char_of (10::nat)]) (map fst (checkout_files demo_checkout))) else ''x'')),
      artifacts_dir = None, artifacts_real = True, os_error = id, json_text = (\<lambda>_. Inl []),
      zip_members = (\<lambda>_. Inl [])\<rparr>"

theorem source_digest_reconstructed_witness:
  "\<exists>digest. source_tree_sha256 (the_digests demo_git) demo_checkout = Inr digest \<and>
     commit_source_sha256 demo_git ''c'' = Some digest"
proof -
  have holds: "git_holds demo_git ''c'' demo_checkout"
    unfolding git_holds_def
    by (intro conjI exI [of _ "map fst (checkout_files demo_checkout)"])
      (simp_all add: demo_git_def demo_checkout_def read_source_def line_end_def)
  have flat: "\<forall>p \<in> set (map fst (checkout_files demo_checkout)).
      starts_with definitions_prefix p \<and> ends_with ''.json'' p \<longrightarrow> definition_input p"
    by (simp add: demo_checkout_def definition_input_def definitions_prefix_def starts_with_def)
  have "\<exists>paths. source_paths demo_checkout = Inr paths"
    by (rule exI) code_simp
  then obtain digest where "source_tree_sha256 (the_digests demo_git) demo_checkout = Inr digest"
    by (auto simp: source_tree_sha256_def)
  with source_digest_reconstructed [OF holds flat this] show ?thesis by blast
qed

end
