(* ===== verification/Study_Plan.thy ===== *)
theory Study_Plan
  imports Receipt_Builder "HOL-Library.Product_Lexorder"
begin

text \<open>
  The immutable plan of a repeated study, \<open>src/btb/harness/repetition.py\<close> up to \<open>write_plan\<close>:
  its source, runtime, task and condition bindings, the balanced matrix of runs in a seeded order,
  and the validation of a serialized plan. A \<open>PlanError\<close> is its message. The versions of
  installed distributions, the files of the package and SHA-256 are arguments. An integer too large
  for a float, on which \<open>float\<close> raises, is not modelled.
\<close>

section \<open>Values\<close>

type_synonym 'a planned = "string + 'a"

definition require :: "bool \<Rightarrow> string \<Rightarrow> unit planned" where
  "require b message = (if b then Inr () else Inl message)"

fun and_then :: "'a planned \<Rightarrow> ('a \<Rightarrow> 'b planned) \<Rightarrow> 'b planned" where
  "and_then (Inl e) f = Inl e"
| "and_then (Inr x) f = f x"

fun map_planned :: "('a \<Rightarrow> 'b planned) \<Rightarrow> 'a list \<Rightarrow> 'b list planned" where
  "map_planned f [] = Inr []"
| "map_planned f (x # xs) = and_then (f x) (\<lambda>y. and_then (map_planned f xs) (\<lambda>ys. Inr (y # ys)))"

definition sha256_text :: "pyval \<Rightarrow> bool" where
  "sha256_text v \<longleftrightarrow> (case v of PStr s \<Rightarrow> hex_text 64 s | _ \<Rightarrow> False)"

definition nonempty_text :: "pyval \<Rightarrow> bool" where
  "nonempty_text v \<longleftrightarrow> (case v of PStr s \<Rightarrow> s \<noteq> [] | _ \<Rightarrow> False)"

definition stripped_text :: "pyval \<Rightarrow> bool" where
  "stripped_text v \<longleftrightarrow> (case v of PStr s \<Rightarrow> s \<noteq> [] \<and> strip_while space_char s = s | _ \<Rightarrow> False)"

definition py_float :: "pyval \<Rightarrow> rat" where
  "py_float v = (case v of PInt i \<Rightarrow> of_int i | PFloat q \<Rightarrow> q | _ \<Rightarrow> 0)"

definition positive_steps :: "pyval \<Rightarrow> bool" where
  "positive_steps v \<longleftrightarrow> is_strict_int v \<and> 1 \<le> int_of_py v"

definition safe_study_id :: "string \<Rightarrow> bool" where
  "safe_study_id s \<longleftrightarrow> safe_component s \<and> length s \<le> 96"

section \<open>The source\<close>

record plan_source =
  ps_release :: string
  ps_commit :: string
  ps_dirty :: bool
  ps_tree :: string
  ps_eligible :: bool

definition plan_source_of_provenance :: "source_provenance \<Rightarrow> plan_source planned" where
  "plan_source_of_provenance s =
     (case require_canonical_source s of
        Some e \<Rightarrow> Inl (''canonical plan source is unavailable: '' @ exc_text e)
      | None \<Rightarrow>
          (case sp_commit s of
             None \<Rightarrow> Inl ''canonical plan source has an invalid commit or tree digest''
           | Some commit \<Rightarrow>
               if git_commit_text commit \<and> hex_text 64 (sp_tree s)
               then Inr \<lparr>ps_release = release_version, ps_commit = commit, ps_dirty = False,
                   ps_tree = sp_tree s, ps_eligible = True\<rparr>
               else Inl ''canonical plan source has an invalid commit or tree digest''))"

definition plan_source_of_plan :: "pyval \<Rightarrow> plan_source planned" where
  "plan_source_of_plan v =
     (case v of
        PDict d \<Rightarrow>
          if \<not> key_set d [''release'', ''git_commit'', ''git_dirty'', ''source_tree_sha256'', ''canonical_eligible'']
          then Inl ''plan source is invalid''
          else (case (dget d ''release'', dget d ''git_commit'', dget d ''source_tree_sha256'') of
            (PStr release, PStr commit, PStr tree) \<Rightarrow>
              if stripped_text (PStr release) \<and> git_commit_text commit \<and> dget d ''git_dirty'' = PBool False \<and>
                 hex_text 64 tree \<and> dget d ''canonical_eligible'' = PBool True
              then Inr \<lparr>ps_release = release, ps_commit = commit, ps_dirty = False, ps_tree = tree, ps_eligible = True\<rparr>
              else Inl ''plan source is not a clean canonical source identity''
          | _ \<Rightarrow> Inl ''plan source is not a clean canonical source identity'')
      | _ \<Rightarrow> Inl ''plan source is invalid'')"

definition plan_source_to_dict :: "plan_source \<Rightarrow> pydict" where
  "plan_source_to_dict s =
     [(''release'', PStr (ps_release s)), (''git_commit'', PStr (ps_commit s)),
      (''git_dirty'', PBool (ps_dirty s)), (''source_tree_sha256'', PStr (ps_tree s)),
      (''canonical_eligible'', PBool (ps_eligible s))]"

definition receipt_source :: "plan_source \<Rightarrow> pydict" where
  "receipt_source s =
     [(''git_commit'', PStr (ps_commit s)), (''git_dirty'', PBool (ps_dirty s)),
      (''source_tree_sha256'', PStr (ps_tree s))]"

section \<open>The runtime\<close>

record runtime_identity =
  ri_algorithm :: string
  ri_package :: string
  ri_tree :: string

definition runtime_tree_algorithm :: string where
  "runtime_tree_algorithm = ''sha256-btb-runtime-tree-v1''"

text \<open>The regular files of the imported package that are no links, by relative path.\<close>

definition bindable_file :: "string \<times> string \<Rightarrow> bool" where
  "bindable_file f \<longleftrightarrow> ''__pycache__'' \<notin> set (path_parts (fst f)) \<and> path_suffix (fst f) \<notin> {''.pyc'', ''.pyo''}"

definition current_runtime :: "digests \<Rightarrow> (string \<times> string) list \<Rightarrow> runtime_identity planned" where
  "current_runtime D files =
     (let entries = map (\<lambda>(path, payload). PDict
            [(''path'', PStr path), (''sha256'', PStr (hex_sha256 D payload)),
             (''size_bytes'', PInt (int (length payload)))])
            (filter bindable_file (sort_key (path_parts \<circ> fst) files))
      in if entries = [] then Inl ''imported BTB runtime package has no bindable files''
         else Inr \<lparr>ri_algorithm = runtime_tree_algorithm, ri_package = ''btb'',
           ri_tree = canonical_json_sha256 D (PDict [(''entries'', PList entries)])\<rparr>)"

definition runtime_of_plan :: "pyval \<Rightarrow> runtime_identity planned" where
  "runtime_of_plan v =
     (case v of
        PDict d \<Rightarrow>
          (case (key_set d [''algorithm'', ''package'', ''tree_sha256''], dget d ''tree_sha256'') of
             (True, PStr tree) \<Rightarrow>
               if dget d ''algorithm'' = PStr runtime_tree_algorithm \<and> dget d ''package'' = PStr ''btb'' \<and>
                  hex_text 64 tree
               then Inr \<lparr>ri_algorithm = runtime_tree_algorithm, ri_package = ''btb'', ri_tree = tree\<rparr>
               else Inl ''plan runtime identity is invalid''
           | _ \<Rightarrow> Inl ''plan runtime identity is invalid'')
      | _ \<Rightarrow> Inl ''plan runtime identity is invalid'')"

definition runtime_to_dict :: "runtime_identity \<Rightarrow> pydict" where
  "runtime_to_dict r =
     [(''algorithm'', PStr (ri_algorithm r)), (''package'', PStr (ri_package r)),
      (''tree_sha256'', PStr (ri_tree r))]"

section \<open>Conditions\<close>

definition control_baselines :: "string list" where
  "control_baselines = [''playwright-exact'', ''playwright-naive'']"

definition framework_name :: "string \<Rightarrow> string" where
  "framework_name b = (if b \<in> set control_baselines then ''playwright'' else ''browser-use'')"

text \<open>\<open>versions\<close> is \<open>importlib.metadata.version\<close>.\<close>

definition framework_identity :: "(string \<Rightarrow> string option) \<Rightarrow> string \<Rightarrow> (string \<times> string) planned" where
  "framework_identity versions b =
     (let framework = framework_name b in
      case versions framework of
        None \<Rightarrow> Inl (framework @ '' must be installed to create this condition'')
      | Some version \<Rightarrow>
          if framework = ''browser-use'' \<and> version \<noteq> browser_use_version
          then Inl (''browser-use condition requires '' @ browser_use_version @ ''; installed='' @ str_repr version)
          else Inr (framework, version))"

definition opt_string :: "pyval \<Rightarrow> bool" where
  "opt_string v \<longleftrightarrow> v = PNone \<or> is_str v"

definition text_of :: "pyval \<Rightarrow> string option" where
  "text_of v = (case v of PStr s \<Rightarrow> Some s | _ \<Rightarrow> None)"

type_synonym condition_fields = "string \<times> string option \<times> string option \<times> int option"

definition supported_condition :: "condition_fields \<Rightarrow> bool" where
  "supported_condition c =
     (case c of (b, provider, model, steps) \<Rightarrow>
        if b \<in> set control_baselines
        then provider = None \<and> model = Some ''deterministic-playwright'' \<and> steps = None
        else if b = ''browser-use''
        then provider = Some ''deepseek'' \<and> model = Some ''deepseek-chat'' \<and> steps \<noteq> None
        else if b = ''browser-use-full''
        then (provider, model) \<in> {(Some ''anthropic'', Some ''claude-sonnet-4-0''), (Some ''openai'', Some ''gpt-4.1-mini'')} \<and>
          steps \<noteq> None
        else False)"

definition normalized_condition_fields :: "pydict \<Rightarrow> condition_fields planned" where
  "normalized_condition_fields v =
     (let max_steps = dget v ''max_steps'';
          provider = map_option (map lower_char \<circ> strip_while space_char) (text_of (dget v ''provider''));
          model = map_option (strip_while space_char) (text_of (dget v ''model''));
          steps = (if max_steps = PNone then None else Some (int_of_py max_steps))
      in case dget v ''baseline'' of
           PStr b \<Rightarrow>
             and_then (require (opt_string (dget v ''provider'')) ''condition.provider must be a string or null'') (\<lambda>_.
             and_then (require (opt_string (dget v ''model'')) ''condition.model must be a string or null'') (\<lambda>_.
             and_then (require (max_steps = PNone \<or> positive_steps max_steps)
               ''condition.max_steps must be a positive integer or null'') (\<lambda>_.
             and_then (require (provider \<noteq> Some [] \<and> model \<noteq> Some []) ''condition provider/model must not be empty'') (\<lambda>_.
             and_then (require (supported_condition (b, provider, model, steps))
               (''unsupported or ambiguous condition: '' @ str_repr b)) (\<lambda>_.
             Inr (b, provider, model, steps))))))
         | _ \<Rightarrow> Inl ''condition.baseline must be a string'')"

record plan_condition =
  cn_baseline :: string
  cn_provider :: "string option"
  cn_model :: "string option"
  cn_steps :: "int option"
  cn_framework :: string
  cn_version :: string

definition condition_with :: "condition_fields \<Rightarrow> string \<Rightarrow> string \<Rightarrow> plan_condition" where
  "condition_with c framework version =
     (case c of (b, provider, model, steps) \<Rightarrow>
        \<lparr>cn_baseline = b, cn_provider = provider, cn_model = model, cn_steps = steps,
         cn_framework = framework, cn_version = version\<rparr>)"

definition condition_of_mapping :: "(string \<Rightarrow> string option) \<Rightarrow> pydict \<Rightarrow> plan_condition planned" where
  "condition_of_mapping versions v =
     and_then (require (key_set v [''baseline'', ''provider'', ''model'', ''max_steps''])
       ''condition must contain exactly baseline/provider/model/max_steps'') (\<lambda>_.
     and_then (normalized_condition_fields v) (\<lambda>c.
     and_then (framework_identity versions (fst c)) (\<lambda>(framework, version).
     Inr (condition_with c framework version))))"

definition condition_of_plan_mapping :: "pydict \<Rightarrow> plan_condition planned" where
  "condition_of_plan_mapping v =
     and_then (require (key_set v [''baseline'', ''provider'', ''model'', ''max_steps'', ''framework'', ''framework_version''])
       ''persisted condition must include frozen framework/version'') (\<lambda>_.
     and_then (normalized_condition_fields v) (\<lambda>c.
     (case (dget v ''framework'', dget v ''framework_version'') of
        (PStr framework, PStr version) \<Rightarrow>
          and_then (require (stripped_text (PStr version)) ''persisted condition framework/version is invalid'') (\<lambda>_.
          and_then (require (framework = framework_name (fst c))
            ''persisted condition framework does not match its baseline'') (\<lambda>_.
          and_then (require (framework = ''browser-use'' \<longrightarrow> version = browser_use_version)
            ''persisted browser-use condition has an unsupported framework version'') (\<lambda>_.
          Inr (condition_with c framework version))))
      | _ \<Rightarrow> Inl ''persisted condition framework/version is invalid'')))"

definition condition_to_dict :: "plan_condition \<Rightarrow> pydict" where
  "condition_to_dict c =
     [(''baseline'', PStr (cn_baseline c)), (''provider'', opt_text (cn_provider c)),
      (''model'', opt_text (cn_model c)), (''max_steps'', opt_int (cn_steps c)),
      (''framework'', PStr (cn_framework c)), (''framework_version'', PStr (cn_version c))]"

definition condition_key :: "digests \<Rightarrow> plan_condition \<Rightarrow> string" where
  "condition_key D c = ''condition-v1-'' @ canonical_json_sha256 D (PDict (condition_to_dict c))"

section \<open>Tasks\<close>

record task_binding =
  tb_id :: string
  tb_sha256 :: string
  tb_freeze :: string
  tb_steps :: int
  tb_wall :: rat

definition task_of_definition :: "digests \<Rightarrow> string \<Rightarrow> pydict \<Rightarrow> task_binding planned" where
  "task_of_definition D task_id d =
     (case dget d ''budget'' of
        PDict budget \<Rightarrow>
          if dget d ''id'' \<noteq> PStr task_id then Inl (''invalid frozen task definition: '' @ task_id)
          else (case dget d ''freeze'' of
            PStr freeze \<Rightarrow>
              if freeze = [] then Inl (''task '' @ task_id @ '' has no freeze'')
              else if \<not> positive_steps (dget budget ''steps'')
              then Inl (''task '' @ task_id @ '' has invalid budget.steps'')
              else if \<not> positive_number (dget budget ''wall_s'')
              then Inl (''task '' @ task_id @ '' has invalid budget.wall_s'')
              else Inr \<lparr>tb_id = task_id, tb_sha256 = canonical_json_sha256 D (PDict d), tb_freeze = freeze,
                tb_steps = int_of_py (dget budget ''steps''), tb_wall = py_float (dget budget ''wall_s'')\<rparr>
          | _ \<Rightarrow> Inl (''task '' @ task_id @ '' has no freeze''))
      | _ \<Rightarrow> Inl (''invalid frozen task definition: '' @ task_id))"

definition task_of_plan :: "pyval \<Rightarrow> task_binding planned" where
  "task_of_plan v =
     (case v of
        PDict d \<Rightarrow>
          if \<not> key_set d [''id'', ''definition_sha256'', ''freeze'', ''budget''] then Inl ''invalid task binding''
          else if \<not> nonempty_text (dget d ''id'') then Inl ''task binding id is invalid''
          else if \<not> sha256_text (dget d ''definition_sha256'') then Inl ''task binding hash is invalid''
          else (case (dget d ''freeze'', dget d ''budget'') of
            (PStr freeze, PDict budget) \<Rightarrow>
              if freeze = [] then Inl ''task binding freeze/budget is invalid''
              else if \<not> positive_steps (dget budget ''steps'') \<or> \<not> positive_number (dget budget ''wall_s'')
              then Inl ''task binding budget is invalid''
              else Inr \<lparr>tb_id = py_str (dget d ''id''), tb_sha256 = py_str (dget d ''definition_sha256''),
                tb_freeze = freeze, tb_steps = int_of_py (dget budget ''steps''),
                tb_wall = py_float (dget budget ''wall_s'')\<rparr>
          | _ \<Rightarrow> Inl ''task binding freeze/budget is invalid'')
      | _ \<Rightarrow> Inl ''invalid task binding'')"

definition task_to_dict :: "task_binding \<Rightarrow> pydict" where
  "task_to_dict t =
     [(''id'', PStr (tb_id t)), (''definition_sha256'', PStr (tb_sha256 t)), (''freeze'', PStr (tb_freeze t)),
      (''budget'', PDict [(''steps'', PInt (tb_steps t)), (''wall_s'', PFloat (tb_wall t))])]"


section \<open>Runs\<close>

record planned_run =
  pr_ordinal :: int
  pr_run_id :: string
  pr_task :: string
  pr_task_sha256 :: string
  pr_condition :: string
  pr_repetition :: int
  pr_order :: string

definition run_to_dict :: "planned_run \<Rightarrow> pydict" where
  "run_to_dict r =
     [(''ordinal'', PInt (pr_ordinal r)), (''run_id'', PStr (pr_run_id r)), (''task_id'', PStr (pr_task r)),
      (''task_sha256'', PStr (pr_task_sha256 r)), (''condition_key'', PStr (pr_condition r)),
      (''repetition'', PInt (pr_repetition r)), (''random_order_sha256'', PStr (pr_order r))]"

text \<open>\<open>str(value)\<close> of a digest field is matched, so a string is required.\<close>

definition run_of_mapping :: "pyval \<Rightarrow> planned_run planned" where
  "run_of_mapping v =
     (case v of
        PDict d \<Rightarrow>
          if \<not> key_set d [''ordinal'', ''run_id'', ''task_id'', ''task_sha256'', ''condition_key'', ''repetition'',
               ''random_order_sha256'']
          then Inl ''invalid planned run''
          else (case (dget d ''run_id'', dget d ''task_id'', dget d ''condition_key'') of
            (PStr run_id, PStr task_id, PStr key) \<Rightarrow>
              if positive_steps (dget d ''ordinal'') \<and> is_int (dget d ''repetition'') \<and>
                 1 \<le> int_of_py (dget d ''repetition'') \<and> safe_component run_id \<and>
                 hex_text 64 (py_str (dget d ''task_sha256'')) \<and> hex_text 64 (py_str (dget d ''random_order_sha256''))
              then Inr \<lparr>pr_ordinal = int_of_py (dget d ''ordinal''), pr_run_id = run_id, pr_task = task_id,
                pr_task_sha256 = py_str (dget d ''task_sha256''), pr_condition = key,
                pr_repetition = int_of_py (dget d ''repetition''),
                pr_order = py_str (dget d ''random_order_sha256'')\<rparr>
              else Inl ''planned run has invalid fields''
          | _ \<Rightarrow> Inl ''planned run has invalid fields'')
      | _ \<Rightarrow> Inl ''invalid planned run'')"

section \<open>The document\<close>

definition run_id_algorithm :: string where
  "run_id_algorithm = ''sha256-plan-source-runtime-task-condition-repetition-v3''"

definition ordering_algorithm :: string where
  "ordering_algorithm = ''sha256-seed-sort-v1''"

text \<open>What identifies a study.\<close>

record study =
  st_id :: string
  st_seed :: string
  st_repetitions :: int
  st_wall :: rat
  st_source :: plan_source
  st_runtime :: runtime_identity
  st_tasks :: "task_binding list"
  st_conditions :: "plan_condition list"

definition identity :: "digests \<Rightarrow> study \<Rightarrow> pydict" where
  "identity D s =
     [(''schema_version'', PStr ''btb-repetition-plan-v3''), (''plan_hash_algorithm'', PStr ''sha256-canonical-json-v1''),
      (''run_id_algorithm'', PStr run_id_algorithm), (''study_id'', PStr (st_id s)),
      (''canonical_receipts_required'', PBool True), (''seed'', PStr (st_seed s)),
      (''ordering'', PDict [(''algorithm'', PStr ordering_algorithm), (''version'', PStr ''1'')]),
      (''repetitions'', PInt (st_repetitions s)), (''study_wall_s'', PFloat (st_wall s)),
      (''treatment_assignment'', PDict [(''kind'', PStr ''frozen-task-definition''),
         (''seeded_assignment_mutates_tasks'', PBool False)]),
      (''source'', PDict (plan_source_to_dict (st_source s))),
      (''runtime'', PDict (runtime_to_dict (st_runtime s))),
      (''tasks'', PList (map (PDict \<circ> task_to_dict) (st_tasks s))),
      (''conditions'', PList (map (\<lambda>c. PDict ((''key'', PStr (condition_key D c)) # condition_to_dict c)) (st_conditions s)))]"

definition run_digest :: "digests \<Rightarrow> string \<Rightarrow> task_binding \<Rightarrow> plan_condition \<Rightarrow> int \<Rightarrow> string" where
  "run_digest D identity_sha256 t c n = canonical_json_sha256 D (PDict
     [(''algorithm'', PStr run_id_algorithm), (''plan_identity_sha256'', PStr identity_sha256),
      (''task'', PDict (task_to_dict t)), (''condition'', PDict (condition_to_dict c)),
      (''repetition'', PInt n)])"

definition order_digest :: "digests \<Rightarrow> string \<Rightarrow> string \<Rightarrow> string" where
  "order_digest D seed run_id = canonical_json_sha256 D (PDict
     [(''algorithm'', PStr ordering_algorithm), (''version'', PStr ''1''), (''seed'', PStr seed),
      (''run_id'', PStr run_id)])"

definition matrix_run :: "digests \<Rightarrow> string \<Rightarrow> string \<Rightarrow> task_binding \<times> plan_condition \<times> int \<Rightarrow> planned_run" where
  "matrix_run D identity_sha256 seed cell =
     (case cell of (t, c, n) \<Rightarrow>
        (let run_id = ''btb-r1-'' @ run_digest D identity_sha256 t c n
         in \<lparr>pr_ordinal = 0, pr_run_id = run_id, pr_task = tb_id t, pr_task_sha256 = tb_sha256 t,
             pr_condition = condition_key D c, pr_repetition = n, pr_order = order_digest D seed run_id\<rparr>))"

definition matrix :: "study \<Rightarrow> (task_binding \<times> plan_condition \<times> int) list" where
  "matrix s = concat (map (\<lambda>t. concat (map (\<lambda>c. map (\<lambda>n. (t, c, n)) (upto1 (nat (st_repetitions s))))
     (st_conditions s))) (st_tasks s))"

definition number_runs :: "planned_run list \<Rightarrow> planned_run list" where
  "number_runs rs = map2 (\<lambda>i r. r\<lparr>pr_ordinal := i\<rparr>) (upto1 (length rs)) rs"

definition study_runs :: "digests \<Rightarrow> string \<Rightarrow> study \<Rightarrow> planned_run list planned" where
  "study_runs D identity_sha256 s =
     (let rs = map (matrix_run D identity_sha256 (st_seed s)) (matrix s) in
      if list_all (\<lambda>r. safe_component (pr_run_id r)) rs \<and> distinct (map pr_run_id rs)
      then Inr (number_runs (sort_key (\<lambda>r. (pr_order r, pr_run_id r)) rs))
      else Inl ''generated a colliding or unsafe run ID'')"

definition plan_document :: "digests \<Rightarrow> study \<Rightarrow> pydict planned" where
  "plan_document D s =
     (let identity_sha256 = canonical_json_sha256 D (PDict (identity D s)) in
      and_then (study_runs D identity_sha256 s) (\<lambda>rs.
        (let document = identity D s @ [(''plan_identity_sha256'', PStr identity_sha256),
              (''runs'', PList (map (PDict \<circ> run_to_dict) rs))]
         in Inr (document @ [(''plan_sha256'', PStr (canonical_json_sha256 D (PDict document)))]))))"

section \<open>Validation\<close>

definition plan_fields :: "string list" where
  "plan_fields =
     [''schema_version'', ''plan_hash_algorithm'', ''run_id_algorithm'', ''study_id'',
      ''canonical_receipts_required'', ''seed'', ''ordering'', ''repetitions'', ''study_wall_s'',
      ''treatment_assignment'', ''source'', ''runtime'', ''tasks'', ''conditions'',
      ''plan_identity_sha256'', ''runs'', ''plan_sha256'']"

definition condition_entry :: "digests \<Rightarrow> pyval \<Rightarrow> plan_condition planned" where
  "condition_entry D v =
     (case v of
        PDict d \<Rightarrow>
          if \<not> key_set d [''key'', ''baseline'', ''provider'', ''model'', ''max_steps'', ''framework'', ''framework_version'']
          then Inl ''plan condition is invalid''
          else and_then (condition_of_plan_mapping (filter (\<lambda>(k, _). k \<noteq> ''key'') d)) (\<lambda>c.
            if dget d ''key'' = PStr (condition_key D c) then Inr c
            else Inl ''plan condition key does not bind its content'')
      | _ \<Rightarrow> Inl ''plan condition is invalid'')"

text \<open>\<open>json.loads\<close> after \<open>json.dumps(sort_keys=True)\<close>: the value with the keys of its dicts sorted.\<close>

fun json_sorted :: "pyval \<Rightarrow> pyval"
  and sorted_items :: "pyval list \<Rightarrow> pyval list"
  and sorted_pairs :: "pydict \<Rightarrow> pydict" where
  "json_sorted (PList xs) = PList (sorted_items xs)"
| "json_sorted (PDict d) = PDict (sort_key fst (sorted_pairs d))"
| "json_sorted v = v"
| "sorted_items [] = []"
| "sorted_items (x # xs) = json_sorted x # sorted_items xs"
| "sorted_pairs [] = []"
| "sorted_pairs ((k, v) # d) = (k, json_sorted v) # sorted_pairs d"

definition plan_lists :: "pydict \<Rightarrow> (pyval list \<times> pyval list) planned" where
  "plan_lists d =
     (case (dget d ''tasks'', dget d ''conditions'') of
        (PList ts, PList cs) \<Rightarrow>
          if ts = [] \<or> cs = [] then Inl ''plan tasks/conditions must be non-empty lists'' else Inr (ts, cs)
      | _ \<Rightarrow> Inl ''plan tasks/conditions must be non-empty lists'')"

text \<open>The study a document claims to be the plan of.\<close>

definition claimed_study :: "digests \<Rightarrow> pydict \<Rightarrow> study planned" where
  "claimed_study D d =
     (case (dget d ''study_id'', dget d ''seed'') of
        (PStr study_id, PStr seed) \<Rightarrow>
          and_then (require (safe_study_id study_id \<and> seed \<noteq> [] \<and> positive_steps (dget d ''repetitions'') \<and>
            positive_number (dget d ''study_wall_s'')) ''plan identity fields are invalid'') (\<lambda>_.
          and_then (plan_source_of_plan (dget d ''source'')) (\<lambda>source.
          and_then (runtime_of_plan (dget d ''runtime'')) (\<lambda>runtime.
          and_then (plan_lists d) (\<lambda>(raw_tasks, raw_conditions).
          and_then (map_planned task_of_plan raw_tasks) (\<lambda>tasks.
          and_then (require (sorted (map tb_id tasks)) ''plan task bindings must be sorted'') (\<lambda>_.
          and_then (map_planned (condition_entry D) raw_conditions) (\<lambda>conditions.
          and_then (require (sorted (map (condition_key D) conditions)) ''plan conditions must be sorted'') (\<lambda>_.
          Inr \<lparr>st_id = study_id, st_seed = seed, st_repetitions = int_of_py (dget d ''repetitions''),
            st_wall = py_float (dget d ''study_wall_s''), st_source = source, st_runtime = runtime,
            st_tasks = tasks, st_conditions = conditions\<rparr>))))))))
      | _ \<Rightarrow> Inl ''plan identity fields are invalid'')"

text \<open>A plan is its data; \<open>None\<close> of the code never occurs.\<close>

definition validated_plan :: "digests \<Rightarrow> pyval \<Rightarrow> pydict planned" where
  "validated_plan D v =
     (case v of
        PDict d \<Rightarrow>
          if \<not> key_set d plan_fields then Inl ''plan fields do not match the repetition-plan schema''
          else and_then (claimed_study D d) (\<lambda>s.
            and_then (plan_document D s) (\<lambda>expected.
              if py_eq (json_sorted v) (PDict expected) then Inr (as_dict (json_sorted v))
              else Inl ''plan content/hash/order does not match its normalized identity''))
      | _ \<Rightarrow> Inl ''plan must be a JSON object'')"

definition plan_runs :: "pydict \<Rightarrow> planned_run list planned" where
  "plan_runs p = map_planned run_of_mapping (as_list (dget p ''runs''))"

section \<open>Building\<close>

text \<open>
  The caller's seed is a string or an integer; \<open>provenance\<close> is the source the plan is bound to and
  \<open>load\<close> the frozen task definitions.
\<close>

record plan_request =
  rq_id :: string
  rq_seed :: pyval
  rq_tasks :: "string list"
  rq_conditions :: "pydict list"
  rq_repetitions :: pyval
  rq_wall :: pyval

definition request_error :: "plan_request \<Rightarrow> string option" where
  "request_error q =
     (if \<not> safe_study_id (rq_id q)
      then Some ''study_id must be a path-safe ASCII identifier up to 96 characters''
      else if \<not> (is_str (rq_seed q) \<or> is_strict_int (rq_seed q)) \<or> py_str (rq_seed q) = []
      then Some ''seed must be a non-empty string or integer''
      else if \<not> positive_steps (rq_repetitions q) then Some ''repetitions must be positive''
      else if \<not> positive_number (rq_wall q) then Some ''study_wall_s must be finite and positive''
      else if rq_tasks q = [] \<or> rq_conditions q = [] then Some ''at least one task and condition are required''
      else if \<not> distinct (rq_tasks q) then Some ''task IDs must be unique''
      else None)"

definition built_study :: "digests \<Rightarrow> (string \<Rightarrow> string option) \<Rightarrow> (string \<Rightarrow> pydict planned) \<Rightarrow>
    source_provenance \<Rightarrow> runtime_identity planned \<Rightarrow> plan_request \<Rightarrow> study planned" where
  "built_study D versions load provenance runtime q =
     (case request_error q of
        Some message \<Rightarrow> Inl message
      | None \<Rightarrow>
          and_then (plan_source_of_provenance provenance) (\<lambda>source.
          and_then runtime (\<lambda>rt.
          and_then (map_planned (\<lambda>i. and_then (load i) (task_of_definition D i)) (rq_tasks q)) (\<lambda>tasks.
          and_then (map_planned (condition_of_mapping versions) (rq_conditions q)) (\<lambda>conditions.
          and_then (require (distinct (map (condition_key D) conditions))
            ''conditions must be unique after normalization'') (\<lambda>_.
          Inr \<lparr>st_id = rq_id q, st_seed = py_str (rq_seed q), st_repetitions = int_of_py (rq_repetitions q),
            st_wall = py_float (rq_wall q), st_source = source, st_runtime = rt,
            st_tasks = sort_key tb_id tasks, st_conditions = sort_key (condition_key D) conditions\<rparr>))))))"

definition build_plan :: "digests \<Rightarrow> (string \<Rightarrow> string option) \<Rightarrow> (string \<Rightarrow> pydict planned) \<Rightarrow>
    source_provenance \<Rightarrow> runtime_identity planned \<Rightarrow> plan_request \<Rightarrow> pydict planned" where
  "build_plan D versions load provenance runtime q =
     and_then (built_study D versions load provenance runtime q) (\<lambda>s.
     and_then (plan_document D s) (\<lambda>document. validated_plan D (PDict document)))"

section \<open>Publication\<close>

text \<open>
  \<open>loads\<close> decodes a plan file. A plan already published under the name is kept: an equal one is
  returned, a different one is refused.
\<close>

definition load_plan :: "digests \<Rightarrow> (string \<Rightarrow> pyval planned) \<Rightarrow> (string \<times> string) list \<Rightarrow> string \<Rightarrow> pydict planned" where
  "load_plan D loads files name =
     (case map_of files name of
        None \<Rightarrow> Inl (''cannot read plan '' @ name)
      | Some payload \<Rightarrow> and_then (loads payload) (validated_plan D))"

definition write_plan :: "digests \<Rightarrow> (string \<Rightarrow> pyval planned) \<Rightarrow> (string \<times> string) list \<Rightarrow> string \<Rightarrow> pydict
    \<Rightarrow> pydict planned \<times> (string \<times> string) list" where
  "write_plan D loads files name p =
     (case validated_plan D (PDict p) of
        Inl e \<Rightarrow> (Inl e, files)
      | Inr plan \<Rightarrow>
          if map_of files name = None
          then (Inr plan, files @ [(name, canonical_json (float_text D) (PDict plan) @ [char_of (10::nat)])])
          else (and_then (load_plan D loads files name) (\<lambda>existing.
            if py_ne (PDict existing) (PDict plan)
            then Inl (''refusing to overwrite a different plan at '' @ name) else Inr existing), files))"

end
