(* ===== verification/Run_Provenance.thy ===== *)
theory Run_Provenance
  imports Builder_Properties "HOL-Library.Product_Lexorder"
begin

text \<open>
  The provenance of a run before it starts, \<open>src/btb/harness/engine.py\<close> up to
  \<open>receipt_builder_for\<close>: the resolution of a learned baseline, the frozen description of each
  baseline, and the receipt builder made from them. A failing call returns its exception. The
  environment and the installed versions are arguments; a wall budget that is text, which \<open>float\<close>
  would parse, is not modelled.
\<close>

section \<open>Frozen tables\<close>

definition provider_default_models :: "(string \<times> string) list" where
  "provider_default_models =
     [(''anthropic'', ''claude-sonnet-4-0''), (''deepseek'', ''deepseek-chat''), (''openai'', ''gpt-4.1-mini'')]"

definition engine_excluded_actions :: "string list" where
  "engine_excluded_actions =
     [''close'', ''evaluate'', ''extract'', ''read_file'', ''replace_file'', ''save_as_pdf'',
      ''screenshot'', ''search'', ''send_keys'', ''switch'', ''upload_file'', ''write_file'']"

definition engine_allowed_actions :: "string list" where
  "engine_allowed_actions =
     [''click'', ''done'', ''dropdown_options'', ''find_elements'', ''find_text'', ''go_back'',
      ''input'', ''navigate'', ''scroll'', ''search_page'', ''select_dropdown'', ''wait'']"

definition engine_full_excluded_actions :: "string list" where
  "engine_full_excluded_actions =
     [''evaluate'', ''read_file'', ''replace_file'', ''save_as_pdf'', ''upload_file'', ''write_file'']"

definition engine_full_allowed_actions :: "string list" where
  "engine_full_allowed_actions =
     [''click'', ''close'', ''done'', ''dropdown_options'', ''extract'', ''find_elements'', ''find_text'',
      ''go_back'', ''input'', ''navigate'', ''screenshot'', ''scroll'', ''search'', ''search_page'',
      ''select_dropdown'', ''send_keys'', ''switch'', ''wait'']"

definition engine_full_provider_models :: "(string \<times> string) list" where
  "engine_full_provider_models = [(''anthropic'', ''claude-sonnet-4-0''), (''openai'', ''gpt-4.1-mini'')]"

section \<open>The configuration of a learned baseline\<close>

record browser_use_config =
  bu_provider :: string
  bu_model :: string
  bu_steps :: int
  bu_wall :: rat
  bu_name :: string
  bu_temperature :: rat
  bu_max_output :: int
  bu_retries :: int
  bu_excluded :: "string list"
  bu_allowed :: "string list"
  bu_vision :: bool
  bu_judge :: bool
  bu_max_actions :: "int option"

definition type_error :: "string \<Rightarrow> py_exc" where
  "type_error = exc ''TypeError''"

text \<open>\<open>task.get("budget") or {}\<close>, of which \<open>.get\<close> is then called.\<close>

definition task_budget :: "pydict \<Rightarrow> py_exc + pydict" where
  "task_budget task =
     (case or_dict (dget task ''budget'') of
        None \<Rightarrow> Inl (exc ''AttributeError'' ''budget has no attribute get'')
      | Some d \<Rightarrow> Inr d)"

definition resolved_provider :: "surroundings \<Rightarrow> string option \<Rightarrow> string" where
  "resolved_provider S provider =
     map lower_char (strip_while space_char
       (case provider of
          Some (c # p) \<Rightarrow> c # p
        | _ \<Rightarrow> (case environ S ''BTB_LLM'' of None \<Rightarrow> ''deepseek'' | Some p \<Rightarrow> p)))"

text \<open>\<open>model or os.environ.get("BTB_MODEL") or default\<close>, the default of a known provider.\<close>

definition resolved_model :: "surroundings \<Rightarrow> string option \<Rightarrow> string \<Rightarrow> string" where
  "resolved_model S model fallback =
     (case model of
        Some (c # m) \<Rightarrow> c # m
      | _ \<Rightarrow> (case environ S ''BTB_MODEL'' of Some (c # m) \<Rightarrow> c # m | _ \<Rightarrow> fallback))"

definition resolved_budget :: "pydict \<Rightarrow> int option \<Rightarrow> py_exc + int \<times> rat" where
  "resolved_budget budget max_steps =
     (let steps = (case max_steps of
            Some n \<Rightarrow> PInt n
          | None \<Rightarrow> (case map_of budget ''steps'' of None \<Rightarrow> PInt 20 | Some v \<Rightarrow> v));
          wall = (case map_of budget ''wall_s'' of None \<Rightarrow> PInt 120 | Some v \<Rightarrow> v)
      in if \<not> is_strict_int steps then Inl (type_error ''max_steps must be an integer'')
         else if int_of_py steps < 1 then Inl (value_error ''max_steps must be positive'')
         else (case wall of
           PInt i \<Rightarrow> if i \<le> 0 then Inl (value_error ''task budget.wall_s must be positive'')
             else Inr (int_of_py steps, of_int i)
         | PFloat q \<Rightarrow> if q \<le> 0 then Inl (value_error ''task budget.wall_s must be positive'')
             else Inr (int_of_py steps, q)
         | _ \<Rightarrow> Inl (type_error ''task budget.wall_s must be numeric'')))"

definition config_with :: "string \<Rightarrow> string \<Rightarrow> string \<Rightarrow> int \<times> rat \<Rightarrow> browser_use_config" where
  "config_with name provider model budget =
     \<lparr>bu_provider = provider, bu_model = model, bu_steps = fst budget, bu_wall = snd budget,
      bu_name = name, bu_temperature = 0, bu_max_output = 4096, bu_retries = 0,
      bu_excluded = (if name = ''browser-use-full'' then engine_full_excluded_actions else engine_excluded_actions),
      bu_allowed = (if name = ''browser-use-full'' then engine_full_allowed_actions else engine_allowed_actions),
      bu_vision = (name = ''browser-use-full''), bu_judge = False,
      bu_max_actions = (if name = ''browser-use-full'' then Some 8 else None)\<rparr>"

definition allowed_pairs :: string where
  "allowed_pairs = join '', '' (map (\<lambda>(p, m). p @ ''/'' @ m) (sort engine_full_provider_models))"

definition resolve_browser_use_config :: "surroundings \<Rightarrow> pydict \<Rightarrow> string option \<Rightarrow> string option \<Rightarrow> int option
    \<Rightarrow> string \<Rightarrow> py_exc + browser_use_config" where
  "resolve_browser_use_config S task provider model max_steps name =
     (if name \<notin> {''browser-use'', ''browser-use-full''}
      then Inl (value_error (''unsupported Browser Use baseline: '' @ name))
      else if name = ''browser-use-full'' \<and> (provider = None \<or> model = None)
      then Inl (value_error (''browser-use-full requires an explicit --provider and --model from '' @
        ''its statically allowlisted pairs''))
      else (let p = resolved_provider S provider in
        case map_of provider_default_models p of
          None \<Rightarrow> Inl (value_error (''unsupported Browser Use LLM provider: '' @ p))
        | Some fallback \<Rightarrow>
            (let raw = resolved_model S model fallback; m = strip_while space_char raw in
             if blank raw then Inl (value_error ''Browser Use model must be a non-empty string'')
             else if name = ''browser-use-full'' \<and> (p, m) \<notin> set engine_full_provider_models
             then Inl (value_error (''browser-use-full provider/model is not statically allowlisted: '' @
               p @ ''/'' @ m @ ''; allowed: '' @ allowed_pairs))
             else (case task_budget task of
               Inl e \<Rightarrow> Inl e
             | Inr budget \<Rightarrow> map_sum id (config_with name p m) (resolved_budget budget max_steps)))))"

section \<open>The frozen descriptions\<close>

definition playwright_provenance :: "(string \<Rightarrow> string option) \<Rightarrow> string \<Rightarrow> rat \<Rightarrow> baseline_provenance" where
  "playwright_provenance versions behavior timeout =
     \<lparr>bp_name = (if behavior = ''exact'' then ''playwright-exact'' else ''playwright-naive''),
      bp_framework = ''playwright'', bp_version = versions ''playwright'', bp_provider = None,
      bp_model = Some ''deterministic-playwright'',
      bp_parameters =
        [(''behavior'', PStr behavior), (''headless'', PBool True), (''action_timeout_ms'', PFloat timeout),
         (''global_wall_budget_enforced'', PBool False)],
      bp_modality = [(''dom'', PBool True), (''vision'', PBool False)],
      bp_capability =
        [(''visible_page_controls_only'', PBool True), (''javascript_console'', PBool False),
         (''direct_api'', PBool False), (''filesystem'', PBool False), (''database'', PBool False),
         (''enforcement'', PDict
           [(''fixture_write_api_requires_ui_token'', PBool True),
            (''playwright_driver'', PStr ''fixed_procedure'')])]\<rparr>"

definition profile_settings :: pydict where
  "profile_settings =
     [(''accept_downloads'', PBool False), (''auto_download_pdfs'', PBool False),
      (''allowed_origins'', PStr ''run_fixture_only''), (''captcha_solver'', PBool False),
      (''cross_origin_iframes'', PBool False), (''default_extensions'', PBool False),
      (''deterministic_rendering'', PBool True), (''downloads_path'', PStr ''sandbox_root_only''),
      (''har'', PBool False), (''storage_state'', PBool False), (''traces'', PBool False),
      (''user_data_dir'', PStr ''sandbox_root_only''), (''video'', PBool False)]"

definition browser_use_parameters :: "browser_use_config \<Rightarrow> pydict option \<Rightarrow> pydict" where
  "browser_use_parameters c effective_policy =
     [(''max_steps'', PInt (bu_steps c)), (''wall_s'', PFloat (bu_wall c)),
      (''wall_budget_enforced'', PBool True), (''headless'', PBool True),
      (''browser_profile'', PDict profile_settings), (''use_judge'', PBool (bu_judge c)),
      (''use_vision'', PBool (bu_vision c)), (''directly_open_url'', PBool True),
      (''excluded_actions'', strs (bu_excluded c)),
      (''llm_generation'', PDict
        [(''temperature'', PFloat (bu_temperature c)), (''max_output_tokens'', PInt (bu_max_output c)),
         (''provider_retries'', PInt (bu_retries c)), (''top_p'', PNone), (''seed'', PNone)]),
      (''framework_filesystem'', PDict
        [(''child_process'', PBool True), (''inventory'', PStr ''bounded_lstat_sha256''),
         (''parent_process_group_timeout'', PBool True),
         (''root'', PStr ''unique_system_temp_outside_repository_and_home''),
         (''terminal_cleanup_receipt'', PBool True)]),
      (''effective_policy'', PDict (case effective_policy of
         None \<Rightarrow> [(''status'', PStr ''unobserved'')] | Some policy \<Rightarrow> policy))] @
     (case bu_max_actions c of None \<Rightarrow> [] | Some n \<Rightarrow> [(''max_actions_per_step'', PInt n)]) @
     (if bu_vision c
      then [(''framework_compatibility'', PDict
        [(''constructor_use_vision'', PStr ''auto''),
         (''effective_use_vision_bound_after_construction'', PBool True),
         (''post_agent_semantic_audit'', PBool True)])]
      else [])"

definition browser_use_capability :: "browser_use_config \<Rightarrow> pydict" where
  "browser_use_capability c =
     (let is_full = (bu_name c = ''browser-use-full'') in
     [(''visible_page_controls_only'', PBool True), (''javascript_console'', PBool False),
      (''direct_api'', PBool False),
      (''filesystem'', PDict
        [(''agent_arbitrary_paths'', PBool False), (''framework_owned'', PBool True),
         (''mode'', PStr ''isolated_ephemeral_per_run''), (''os_mandatory_access_control'', PBool False)]),
      (''database'', PBool False),
      (''enforcement'', PDict
        [(''agent_tools_allowed'', strs (bu_allowed c)), (''agent_tools_excluded'', strs (bu_excluded c)),
         (''fixture_write_api_requires_ui_token'', PBool True),
         (''navigation'', PDict
           [(''action'', callback_text cb_identity ''navigate''),
            (''pre_dispatch'', PStr ''resolve_http_https_and_require_exact_fixture_origin''),
            (''redirects'', PDict
              [(''browser_profile'', PStr ''allowed_domains_configured''),
               (''watchdog'', PStr ''http_https_defense_in_depth_after_dispatch''),
               (''post_dispatch'', PStr ''detect_off_fixture_recover_and_stop'')]),
            (''fixture_click_controls'',
              PStr ''controlled_fixture_has_no_link_or_navigation_producing_click_controls'')]),
         (''external_search'', PDict
           [(''action'', if is_full then callback_text cb_identity ''search'' else PStr ''excluded''),
            (''behavior'', if is_full then callback_text cb_behavior ''search'' else PStr ''excluded'')]),
         (''telemetry'', PBool False),
         (''screenshot_action'',
           PStr (if is_full then ''benchmark_no_file_next_observation'' else ''excluded''))])])"

definition browser_use_provenance :: "(string \<Rightarrow> string option) \<Rightarrow> browser_use_config \<Rightarrow> pydict option
    \<Rightarrow> baseline_provenance" where
  "browser_use_provenance versions c effective_policy =
     \<lparr>bp_name = bu_name c, bp_framework = ''browser-use'', bp_version = versions ''browser-use'',
      bp_provider = Some (bu_provider c), bp_model = Some (bu_model c),
      bp_parameters = browser_use_parameters c effective_policy,
      bp_modality = [(''dom'', PBool True), (''vision'', PBool (bu_vision c))],
      bp_capability = browser_use_capability c\<rparr>"

section \<open>The builder of a run\<close>

text \<open>
  What a builder takes from its caller and from the surroundings: whether the receipt is requested
  as canonical, the given source, the provenance of the checkout when none is given, the release
  and the start time.
\<close>

record receipt_request =
  rr_canonical :: bool
  rr_source :: "source_provenance option"
  rr_checkout :: "py_exc + source_provenance"
  rr_release :: string
  rr_started :: string

definition make_receipt_builder :: "receipt_request \<Rightarrow> pydict \<Rightarrow> string \<Rightarrow> baseline_provenance \<Rightarrow> int option
    \<Rightarrow> py_exc + builder" where
  "make_receipt_builder q task run_id baseline steps =
     (case task_budget task of
        Inl e \<Rightarrow> Inl e
      | Inr budget \<Rightarrow> post_init (rr_checkout q)
          \<lparr>b_run_id = run_id,
           b_freeze = (case map_of task ''freeze'' of None \<Rightarrow> ''unknown'' | Some v \<Rightarrow> py_str v),
           b_baseline = baseline, b_steps = (case steps of None \<Rightarrow> PNone | Some n \<Rightarrow> PInt n),
           b_wall = dget budget ''wall_s'', b_requested = rr_canonical q, b_task = Some task,
           b_prompt = None, b_release = rr_release q, b_source = rr_source q,
           b_parser = parser_version, b_evaluator = evaluator_version,
           b_validator = validator_version, b_started = rr_started q, b_before = None,
           b_after = None, b_claim = None, b_injection = None, b_evaluation = None, b_outcome = None,
           b_trace = None, b_filesystem = None, b_evidence_failures = [], b_finalized = None,
           b_sensitive = [], b_effective_bound = False\<rparr>)"

text \<open>\<open>float((task.get("budget") or {})["wall_s"]) * 1_000\<close>.\<close>

definition action_timeout :: "pydict \<Rightarrow> py_exc + rat" where
  "action_timeout task =
     (case task_budget task of
        Inl e \<Rightarrow> Inl e
      | Inr budget \<Rightarrow>
          (case map_of budget ''wall_s'' of
             None \<Rightarrow> Inl (exc ''KeyError'' ''wall_s'')
           | Some v \<Rightarrow> (case num_of v of
               None \<Rightarrow> Inl (type_error ''wall_s is not a number'')
             | Some q \<Rightarrow> Inr (q * 1000))))"

definition receipt_builder_for :: "surroundings \<Rightarrow> (string \<Rightarrow> string option) \<Rightarrow> receipt_request \<Rightarrow> pydict
    \<Rightarrow> string \<Rightarrow> string \<Rightarrow> string option \<Rightarrow> string option \<Rightarrow> int option \<Rightarrow> py_exc + builder" where
  "receipt_builder_for S versions q task run_id baseline provider model max_steps =
     (if baseline \<in> {''browser-use'', ''browser-use-full''}
      then (case resolve_browser_use_config S task provider model max_steps baseline of
        Inl e \<Rightarrow> Inl e
      | Inr c \<Rightarrow> make_receipt_builder q task run_id (browser_use_provenance versions c None) (Some (bu_steps c)))
      else (case action_timeout task of
        Inl e \<Rightarrow> Inl e
      | Inr timeout \<Rightarrow>
          make_receipt_builder q task run_id
            (playwright_provenance versions (if ends_with ''exact'' baseline then ''exact'' else ''naive_retry'') timeout)
            None))"

end
