(* ===== verification/Publication.thy ===== *)
theory Publication
  imports Run_Provenance "HOL-Library.AList"
begin

text \<open>
  The publication of a staged receipt, \<open>src/btb/harness/repetition.py\<close> from \<open>_artifact_metadata\<close>
  to \<open>_commit_publication\<close>: artifacts are copied into temporaries of the receipt directory, then
  linked to their names one after the other, and the receipt is linked last; a failure rolls back.

  The directory has one writer, as the code presumes, but every file operation may fail:
  \<open>pd_faults\<close> says of each coming operation whether it fails (and, of a write, after how many
  bytes). A file is its inode and its bytes; names are linked to it. An operation returns its
  exception or its value and the next state. Descriptors are not modelled: a held descriptor
  names the same directory throughout.
\<close>

section \<open>The directory and its operations\<close>

datatype node = File nat string | Other

type_synonym entries = "(string \<times> node) list"

datatype artifact_dir = NoArtifacts | Artifacts entries | UnsafeArtifacts

type_synonym file_stat = "nat \<times> nat"

text \<open>
  \<open>pd_committed\<close>, \<open>pd_temp\<close> and \<open>pd_linked\<close> are the variables of \<open>_commit_publication\<close>: the
  linked artifacts, the temporary of the receipt, and whether the receipt is linked.
\<close>

record receipt_dir =
  pd_root :: entries
  pd_artifacts :: artifact_dir
  pd_next_inode :: nat
  pd_next_name :: nat
  pd_faults :: "nat option list"
  pd_committed :: "(string \<times> file_stat) list"
  pd_temp :: "(string \<times> file_stat option) option"
  pd_linked :: bool

text \<open>An operation on some state: the exception it raises or its value, and the next state.\<close>

type_synonym ('s, 'a) op = "'s \<Rightarrow> (py_exc + 'a) \<times> 's"

type_synonym 'a file_op = "(receipt_dir, 'a) op"

definition ret :: "'a \<Rightarrow> ('s, 'a) op" where
  "ret x s = (Inr x, s)"

definition fail :: "py_exc \<Rightarrow> ('s, 'a) op" where
  "fail e s = (Inl e, s)"

definition seq :: "('s, 'a) op \<Rightarrow> ('a \<Rightarrow> ('s, 'b) op) \<Rightarrow> ('s, 'b) op" where
  "seq m f s = (case m s of (Inl e, s') \<Rightarrow> (Inl e, s') | (Inr x, s') \<Rightarrow> f x s')"

definition check :: "bool \<Rightarrow> py_exc \<Rightarrow> ('s, unit) op" where
  "check b e = (if b then ret () else fail e)"

definition on_error :: "('s, 'a) op \<Rightarrow> ('s, unit) op \<Rightarrow> ('s, 'a) op" where
  "on_error m h s = (case m s of
      (Inl e, s') \<Rightarrow> (case h s' of (Inl e', s'') \<Rightarrow> (Inl e', s'') | (Inr _, s'') \<Rightarrow> (Inl e, s''))
    | (Inr x, s') \<Rightarrow> (Inr x, s'))"

definition always :: "('s, 'a) op \<Rightarrow> ('a \<Rightarrow> 'b) \<Rightarrow> (py_exc \<Rightarrow> 'b) \<Rightarrow> ('s, 'b) op" where
  "always m f g s = (case m s of (Inl e, s') \<Rightarrow> (Inr (g e), s') | (Inr x, s') \<Rightarrow> (Inr (f x), s'))"

text \<open>One operation of the file system: whether it fails, and after how many bytes.\<close>

definition step :: "py_exc \<Rightarrow> unit file_op" where
  "step e s = (case pd_faults s of
      [] \<Rightarrow> (Inr (), s)
    | None # fs \<Rightarrow> (Inr (), s\<lparr>pd_faults := fs\<rparr>)
    | Some _ # fs \<Rightarrow> (Inl e, s\<lparr>pd_faults := fs\<rparr>))"

abbreviation os_failure :: py_exc where
  "os_failure \<equiv> exc ''OSError'' ''operation failed''"

abbreviation receipt_error :: "string \<Rightarrow> py_exc" where
  "receipt_error \<equiv> exc ''ReceiptError''"

text \<open>The two directories: the root, where receipts lie, and its \<open>artifacts\<close>.\<close>

datatype place = Root | Art

fun entries_of :: "place \<Rightarrow> receipt_dir \<Rightarrow> entries" where
  "entries_of Root s = pd_root s"
| "entries_of Art s = (case pd_artifacts s of Artifacts e \<Rightarrow> e | _ \<Rightarrow> [])"

fun set_entries :: "place \<Rightarrow> entries \<Rightarrow> receipt_dir \<Rightarrow> receipt_dir" where
  "set_entries Root e s = s\<lparr>pd_root := e\<rparr>"
| "set_entries Art e s = s\<lparr>pd_artifacts := Artifacts e\<rparr>"

definition lookup :: "place \<Rightarrow> string \<Rightarrow> receipt_dir \<Rightarrow> node option" where
  "lookup p name s = map_of (entries_of p s) name"

definition put_entry :: "place \<Rightarrow> string \<Rightarrow> node \<Rightarrow> unit file_op" where
  "put_entry p name n s = (Inr (), set_entries p (AList.update name n (entries_of p s)) s)"

definition drop_entry :: "place \<Rightarrow> string \<Rightarrow> unit file_op" where
  "drop_entry p name s = (Inr (), set_entries p (AList.delete name (entries_of p s)) s)"

definition get_entry :: "place \<Rightarrow> string \<Rightarrow> node option file_op" where
  "get_entry p name s = (Inr (lookup p name s), s)"

text \<open>\<open>os.link(source, target)\<close> does not replace, \<open>os.rename\<close> does.\<close>

definition link_entry :: "place \<Rightarrow> string \<Rightarrow> string \<Rightarrow> unit file_op" where
  "link_entry p source target =
     seq (step os_failure) (\<lambda>_. seq (get_entry p source) (\<lambda>from. seq (get_entry p target) (\<lambda>to.
       case (from, to) of
         (Some n, None) \<Rightarrow> put_entry p target n
       | (None, _) \<Rightarrow> fail (exc ''FileNotFoundError'' source)
       | _ \<Rightarrow> fail (exc ''FileExistsError'' target))))"

definition stat_entry :: "place \<Rightarrow> string \<Rightarrow> node option file_op" where
  "stat_entry p name = seq (step os_failure) (\<lambda>_. get_entry p name)"

definition fresh_name :: "string \<Rightarrow> string file_op" where
  "fresh_name stem s =
     (Inr (stem @ nat_str (pd_next_name s) @ ''.tmp''), s\<lparr>pd_next_name := pd_next_name s + 1\<rparr>)"

definition temp_prefix :: string where "temp_prefix = ''.btb-repeat-''"
definition quarantine_prefix :: string where "quarantine_prefix = ''.btb-repeat-cleanup-''"

section \<open>Owned files\<close>

fun stat_of :: "node \<Rightarrow> file_stat option" where
  "stat_of (File i b) = Some (i, length b)"
| "stat_of Other = None"

definition verify_directory :: "unit file_op" where
  "verify_directory = step (receipt_error ''receipt directory changed during publication'')"

definition fsync :: "unit file_op" where
  "fsync = step os_failure"

text \<open>\<open>created\<close> is the status of the creation descriptor, when there is one.\<close>

definition owned_file_stat :: "place \<Rightarrow> string \<Rightarrow> file_stat option \<Rightarrow> file_stat file_op" where
  "owned_file_stat p name created =
     seq (step (receipt_error (''publication temporary disappeared: '' @ name))) (\<lambda>_.
     seq (get_entry p name) (\<lambda>n. case n of
       None \<Rightarrow> fail (receipt_error (''publication temporary disappeared: '' @ name))
     | Some m \<Rightarrow> (case stat_of m of
         None \<Rightarrow> fail (receipt_error (''publication temporary is not a regular file: '' @ name))
       | Some st \<Rightarrow> (case created of
           None \<Rightarrow> ret st
         | Some c \<Rightarrow> if fst st = fst c then ret c
             else fail (receipt_error (''publication temporary changed: '' @ name))))))"

definition same_owned_regular_file :: "node option \<Rightarrow> file_stat \<Rightarrow> bool" where
  "same_owned_regular_file n expected = (case n of None \<Rightarrow> False | Some m \<Rightarrow> stat_of m = Some expected)"

text \<open>
  Removes a name while it is still our file: it is moved to a quarantine name and looked at again
  before it is unlinked. The result tells whether it was removed.
\<close>

definition unlink_owned :: "place \<Rightarrow> string \<Rightarrow> file_stat \<Rightarrow> bool file_op" where
  "unlink_owned p name expected =
     seq (stat_entry p name) (\<lambda>n.
     if \<not> same_owned_regular_file n expected then ret False
     else seq (fresh_name quarantine_prefix) (\<lambda>q.
       seq (always (seq (step os_failure) (\<lambda>_. seq (drop_entry p name) (\<lambda>_. put_entry p q (the n))))
              (\<lambda>_. True) (\<lambda>_. False)) (\<lambda>moved.
       if \<not> moved then ret False
       else seq (stat_entry p q) (\<lambda>m.
         if m = None then ret False
         else if same_owned_regular_file m expected
         then seq (stat_entry p q) (\<lambda>current.
           if \<not> same_owned_regular_file current expected then ret False
           else seq (step os_failure) (\<lambda>_. seq (drop_entry p q) (\<lambda>_. ret True)))
         else always (link_entry p q name) (\<lambda>_. False) (\<lambda>_. False)))))"

section \<open>Temporaries\<close>

text \<open>\<open>directory.artifacts(create)\<close>: whether the real directory is there, made when asked for.\<close>

definition open_artifacts :: "bool \<Rightarrow> bool file_op" where
  "open_artifacts create =
     seq verify_directory (\<lambda>_ s. case pd_artifacts s of
         Artifacts _ \<Rightarrow> seq verify_directory (\<lambda>_. ret True) s
       | UnsafeArtifacts \<Rightarrow> fail (receipt_error ''canonical artifact directory is unsafe'') s
       | NoArtifacts \<Rightarrow>
           if \<not> create then ret False s
           else seq (step (receipt_error ''cannot create receipt artifact directory'')) (\<lambda>_ s.
             seq verify_directory (\<lambda>_. ret True) (s\<lparr>pd_artifacts := Artifacts []\<rparr>)) s)"

text \<open>\<open>O_CREAT | O_EXCL\<close>; the new file is empty.\<close>

definition create_file :: "place \<Rightarrow> string \<Rightarrow> py_exc \<Rightarrow> file_stat file_op" where
  "create_file p name e =
     seq (step e) (\<lambda>_. seq (get_entry p name) (\<lambda>n.
       if n \<noteq> None then fail e
       else (\<lambda>s. seq (put_entry p name (File (pd_next_inode s) [])) (\<lambda>_. ret (pd_next_inode s, 0))
              (s\<lparr>pd_next_inode := pd_next_inode s + 1\<rparr>))))"

text \<open>\<open>_write_all\<close>: a failing write leaves a part of the payload. The status is that of the file.\<close>

definition write_all :: "place \<Rightarrow> string \<Rightarrow> nat \<Rightarrow> string \<Rightarrow> unit file_op" where
  "write_all p name inode payload s = (case pd_faults s of
      Some n # fs \<Rightarrow>
        seq (put_entry p name (File inode (take n payload))) (\<lambda>_. fail os_failure) (s\<lparr>pd_faults := fs\<rparr>)
    | fs \<Rightarrow> put_entry p name (File inode payload) (s\<lparr>pd_faults := tl fs\<rparr>))"

text \<open>\<open>os.fstat\<close> of the creation descriptor.\<close>

definition created_stat :: "place \<Rightarrow> string \<Rightarrow> file_stat file_op" where
  "created_stat p name s =
     (Inr (case lookup p name s of Some (File i b) \<Rightarrow> (i, length b) | _ \<Rightarrow> (0, 0)), s)"

text \<open>
  The body shared by both writers of artifact temporaries: write, check, synchronize, observe; a
  failure removes the temporary again.
\<close>

type_synonym temporary = "string \<times> string \<times> file_stat"

definition fill_temporary :: "place \<Rightarrow> string \<Rightarrow> nat \<Rightarrow> string \<Rightarrow> unit file_op \<Rightarrow> file_stat file_op" where
  "fill_temporary p name inode payload inspect =
     on_error
       (seq (write_all p name inode payload) (\<lambda>_. seq inspect (\<lambda>_. seq fsync (\<lambda>_.
        seq (created_stat p name) (\<lambda>c. seq (owned_file_stat p name (Some c)) (\<lambda>st.
        seq verify_directory (\<lambda>_. ret st)))))))
       (seq (created_stat p name) (\<lambda>st. seq (unlink_owned p name st) (\<lambda>_. ret ())))"

definition write_bytes_to_temp :: "string \<Rightarrow> string \<Rightarrow> temporary file_op" where
  "write_bytes_to_temp name payload =
     seq (open_artifacts True) (\<lambda>_. seq (fresh_name temp_prefix) (\<lambda>temp.
     seq (create_file Art temp (receipt_error ''cannot create receipt artifact temporary'')) (\<lambda>(inode, _).
     seq (fill_temporary Art temp inode payload (ret ())) (\<lambda>st. ret (temp, name, st)))))"

text \<open>\<open>staged\<close> are the entries of the staged artifact directory.\<close>

definition copy_artifact_to_temp :: "digests \<Rightarrow> entries \<Rightarrow> string \<Rightarrow> string \<Rightarrow> int \<Rightarrow> temporary file_op" where
  "copy_artifact_to_temp D staged name digest bytes =
     seq (step os_failure) (\<lambda>_. case map_of staged name of
       None \<Rightarrow> fail (exc ''FileNotFoundError'' name)
     | Some Other \<Rightarrow> fail (receipt_error (''staged artifact is not regular: '' @ name))
     | Some (File _ content) \<Rightarrow>
         seq (check (int (length content) = bytes) (receipt_error (''staged artifact size drift: '' @ name))) (\<lambda>_.
         seq (open_artifacts True) (\<lambda>_. seq (fresh_name temp_prefix) (\<lambda>temp.
         seq (step os_failure) (\<lambda>_. seq (step os_failure) (\<lambda>_.
         seq (create_file Art temp os_failure) (\<lambda>(inode, _).
         seq (fill_temporary Art temp inode content
               (check (hex_sha256 D content = digest) (receipt_error (''staged artifact digest drift: '' @ name)))) (\<lambda>st.
         ret (temp, name, st)))))))))"

section \<open>Publications\<close>

record publication =
  pub_run_id :: string
  pub_payload :: string
  pub_artifacts :: "temporary list"

definition max_receipt_bytes :: int where
  "max_receipt_bytes = 16 * 1024 * 1024"

text \<open>The artifacts a receipt names, as \<open>_artifact_metadata\<close> and \<open>_artifact_names\<close> read them.\<close>

definition artifact_entries :: "pydict \<Rightarrow> pyval list" where
  "artifact_entries receipt =
     filter (\<lambda>v. v \<noteq> PNone)
       [dget receipt ''trace'',
        (case dget receipt ''framework_filesystem'' of PDict f \<Rightarrow> dget f ''inventory'' | _ \<Rightarrow> PNone)]"

definition path_name :: "string \<Rightarrow> string" where
  "path_name path = (case path_parts path of [] \<Rightarrow> [] | ps \<Rightarrow> last ps)"

definition artifact_metadata_of :: "pyval \<Rightarrow> py_exc + string \<times> string \<times> int" where
  "artifact_metadata_of v =
     (case v of
        PDict d \<Rightarrow> (case (dget d ''path'', dget d ''sha256'', dget d ''size_bytes'') of
          (PStr path, PStr digest, PInt bytes) \<Rightarrow>
            if hex_text 64 digest \<and> 0 \<le> bytes then Inr (path_name path, digest, bytes)
            else Inl (receipt_error ''receipt artifact digest metadata is invalid'')
        | _ \<Rightarrow> Inl (receipt_error ''receipt artifact digest metadata is invalid''))
      | _ \<Rightarrow> Inl (receipt_error ''receipt artifact metadata is invalid''))"

fun map_exc :: "('a \<Rightarrow> py_exc + 'b) \<Rightarrow> 'a list \<Rightarrow> py_exc + 'b list" where
  "map_exc f [] = Inr []"
| "map_exc f (x # xs) =
     (case f x of Inl e \<Rightarrow> Inl e
      | Inr y \<Rightarrow> (case map_exc f xs of Inl e \<Rightarrow> Inl e | Inr ys \<Rightarrow> Inr (y # ys)))"

text \<open>A dict by name: a later entry of the same name replaces the earlier.\<close>

definition artifact_metadata :: "pydict \<Rightarrow> py_exc + (string \<times> string \<times> int) list" where
  "artifact_metadata receipt =
     map_sum id (foldl (\<lambda>d (name, entry). AList.update name entry d) [])
       (map_exc artifact_metadata_of (artifact_entries receipt))"

fun each :: "('a \<Rightarrow> unit file_op) \<Rightarrow> 'a list \<Rightarrow> unit file_op" where
  "each f [] = ret ()"
| "each f (x # xs) = seq (f x) (\<lambda>_. each f xs)"

definition unlink_temporaries :: "temporary list \<Rightarrow> unit file_op" where
  "unlink_temporaries = each (\<lambda>(temp, _, st). seq (unlink_owned Art temp st) (\<lambda>_. ret ()))"

text \<open>Whether the descriptor of the artifact directory is held is not recorded: it is opened again.\<close>

definition discard_publication :: "temporary list \<Rightarrow> unit file_op" where
  "discard_publication temps =
     seq (open_artifacts False) (\<lambda>present.
     if present then seq (unlink_temporaries temps) (\<lambda>_. fsync) else ret ())"

text \<open>The copies made so far are discarded when one of them fails.\<close>

fun copy_artifacts :: "digests \<Rightarrow> entries \<Rightarrow> temporary list \<Rightarrow> (string \<times> string \<times> int) list
    \<Rightarrow> temporary list file_op" where
  "copy_artifacts D staged done [] = ret done"
| "copy_artifacts D staged done ((name, digest, bytes) # rest) =
     seq (on_error (copy_artifact_to_temp D staged name digest bytes) (discard_publication done)) (\<lambda>t.
     copy_artifacts D staged (done @ [t]) rest)"

text \<open>
  \<open>_open_receipt_directory\<close> of a directory that is bound already: it is still that directory and
  can be opened.
\<close>

definition open_receipt_directory :: "unit file_op" where
  "open_receipt_directory =
     seq (step (receipt_error ''receipt directory is not a real directory'')) (\<lambda>_. verify_directory)"

definition prepare_publication :: "host \<Rightarrow> entries \<Rightarrow> string \<Rightarrow> pydict \<Rightarrow> publication file_op" where
  "prepare_publication H staged run_id receipt =
     (let payload = json_document H (PDict receipt) in
      seq open_receipt_directory (\<lambda>_.
      seq (check (int (length payload) \<le> max_receipt_bytes) (receipt_error ''staged receipt exceeds bounded size'')) (\<lambda>_.
      case artifact_metadata receipt of
        Inl e \<Rightarrow> on_error (fail e) (discard_publication [])
      | Inr metadata \<Rightarrow>
          seq (copy_artifacts (h_digests H) staged [] (sort_key fst metadata)) (\<lambda>temps.
          ret \<lparr>pub_run_id = run_id, pub_payload = payload, pub_artifacts = temps\<rparr>))))"

section \<open>Committing\<close>

definition expect_same :: "place \<Rightarrow> string \<Rightarrow> file_stat \<Rightarrow> py_exc \<Rightarrow> unit file_op" where
  "expect_same p name expected e =
     seq (owned_file_stat p name None) (\<lambda>st. check (fst st = fst expected) e)"

definition note_committed :: "string \<Rightarrow> file_stat \<Rightarrow> unit file_op" where
  "note_committed target st s = (Inr (), s\<lparr>pd_committed := pd_committed s @ [(target, st)]\<rparr>)"

definition note_temp :: "string \<Rightarrow> file_stat option \<Rightarrow> unit file_op" where
  "note_temp name st s = (Inr (), s\<lparr>pd_temp := Some (name, st)\<rparr>)"

definition note_linked :: "unit file_op" where
  "note_linked s = (Inr (), s\<lparr>pd_linked := True\<rparr>)"

definition commit_artifact :: "temporary \<Rightarrow> unit file_op" where
  "commit_artifact t =
     (case t of (temp, target, expected) \<Rightarrow>
        (let temp_changed = receipt_error (''publication temporary changed: '' @ temp);
             target_changed = receipt_error (''publication target changed: '' @ target) in
         seq verify_directory (\<lambda>_.
         seq (expect_same Art temp expected temp_changed) (\<lambda>_.
         seq (link_entry Art temp target) (\<lambda>_.
         seq (owned_file_stat Art target None) (\<lambda>target_st.
         seq (check (fst target_st = fst expected) target_changed) (\<lambda>_.
         seq (note_committed target target_st) (\<lambda>_.
         seq (expect_same Art temp expected temp_changed) (\<lambda>_.
         seq (unlink_owned Art temp expected) (\<lambda>removed.
         seq (check removed temp_changed) (\<lambda>_.
         seq (expect_same Art target target_st target_changed) (\<lambda>_.
         seq fsync (\<lambda>_. verify_directory)))))))))))))"

definition commit_receipt :: "publication \<Rightarrow> unit file_op" where
  "commit_receipt pub =
     (let target = pub_run_id pub @ ''.json'' in
      seq verify_directory (\<lambda>_.
      seq (fresh_name temp_prefix) (\<lambda>temp.
      seq (note_temp temp None) (\<lambda>_.
      seq (create_file Root temp os_failure) (\<lambda>(inode, _).
      seq (on_error
             (seq (write_all Root temp inode (pub_payload pub)) (\<lambda>_. seq fsync (\<lambda>_.
              seq (created_stat Root temp) (\<lambda>c. seq (owned_file_stat Root temp (Some c)) (\<lambda>st.
              seq (note_temp temp (Some st)) (\<lambda>_. seq verify_directory (\<lambda>_. ret st)))))))
             (seq (created_stat Root temp) (\<lambda>st. note_temp temp (Some st)))) (\<lambda>st.
      seq (link_entry Root temp target) (\<lambda>_.
      seq note_linked (\<lambda>_.
      seq (expect_same Root target st (receipt_error ''receipt target changed during publication'')) (\<lambda>_.
      seq (expect_same Root temp st (receipt_error ''receipt temporary changed during publication'')) (\<lambda>_.
      seq (unlink_owned Root temp st) (\<lambda>removed.
      seq (check removed (receipt_error ''receipt temporary changed during publication'')) (\<lambda>_.
      seq fsync (\<lambda>_. verify_directory)))))))))))))"

text \<open>
  A publication with artifacts holds the descriptor of the artifact directory since they were
  copied; one without opens it here.
\<close>

definition commit_body :: "publication \<Rightarrow> unit file_op" where
  "commit_body pub =
     seq (if pub_artifacts pub = [] then open_artifacts False else ret True) (\<lambda>present.
     seq verify_directory (\<lambda>_.
     seq (each (\<lambda>t. if present then commit_artifact t
           else fail (receipt_error ''receipt artifact directory is unavailable'')) (pub_artifacts pub)) (\<lambda>_.
     commit_receipt pub)))"

text \<open>
  The roll back, which only touches what this publication has made. A descriptor of the artifact
  directory counts as open when the directory is real.
\<close>

definition unlink_committed :: "unit file_op" where
  "unlink_committed s =
     each (\<lambda>(target, st). seq (unlink_owned Art target st) (\<lambda>_. ret ())) (rev (pd_committed s)) s"

definition unlink_receipt_temp :: "unit file_op" where
  "unlink_receipt_temp s =
     (case pd_temp s of
        Some (temp, Some st) \<Rightarrow> seq (unlink_owned Root temp st) (\<lambda>_. ret ()) s
      | _ \<Rightarrow> ret () s)"

definition unlink_receipt :: "string \<Rightarrow> unit file_op" where
  "unlink_receipt target s =
     (case pd_temp s of
        Some (_, Some st) \<Rightarrow>
          if pd_linked s then seq (unlink_owned Root target st) (\<lambda>_. ret ()) s else ret () s
      | _ \<Rightarrow> ret () s)"

definition roll_back :: "publication \<Rightarrow> unit file_op" where
  "roll_back pub =
     seq unlink_receipt_temp (\<lambda>_.
     seq (unlink_receipt (pub_run_id pub @ ''.json'')) (\<lambda>_ s.
     seq (case pd_artifacts s of
            Artifacts _ \<Rightarrow>
              seq unlink_committed (\<lambda>_. seq (unlink_temporaries (pub_artifacts pub)) (\<lambda>_. fsync))
          | _ \<Rightarrow> ret ()) (\<lambda>_. fsync) s))"

definition start_commit :: "receipt_dir \<Rightarrow> receipt_dir" where
  "start_commit s = s\<lparr>pd_committed := [], pd_temp := None, pd_linked := False\<rparr>"

definition commit_publication :: "publication \<Rightarrow> unit file_op" where
  "commit_publication pub s = on_error (commit_body pub) (roll_back pub) (start_commit s)"

end
