(* ===== verification/Study_Receipts.thy ===== *)
theory Study_Receipts
  imports Study_Plan Publication Receipt_Artifacts
begin

text \<open>
  What a receipt directory holds for a plan, \<open>src/btb/harness/repetition.py\<close> from the accessors
  of \<open>StudyPlan\<close> to \<open>_execution_runtime\<close>: the bounded listing, the reading and validation of every
  receipt, its binding to the planned run, and the checks that task, framework, source and runtime
  are still those of the plan. A directory does not change while it is read.
\<close>

fun bind_exc :: "py_exc + 'a \<Rightarrow> ('a \<Rightarrow> py_exc + 'b) \<Rightarrow> py_exc + 'b" where
  "bind_exc (Inl e) f = Inl e"
| "bind_exc (Inr x) f = f x"

abbreviation plan_error :: "string \<Rightarrow> py_exc" where
  "plan_error \<equiv> exc ''PlanError''"

abbreviation execution_error :: "string \<Rightarrow> py_exc" where
  "execution_error \<equiv> exc ''StudyExecutionError''"

definition of_planned :: "'a planned \<Rightarrow> py_exc + 'a" where
  "of_planned r = map_sum plan_error id r"

section \<open>The plan, parsed\<close>

text \<open>The properties of \<open>StudyPlan\<close>. They parse its immutable data, here once for all.\<close>

record study_plan =
  pl_id :: string
  pl_sha256 :: string
  pl_wall :: rat
  pl_source :: plan_source
  pl_runtime :: runtime_identity
  pl_tasks :: "task_binding list"
  pl_conditions :: "(string \<times> plan_condition) list"
  pl_runs :: "planned_run list"

definition condition_names :: "string list" where
  "condition_names = [''baseline'', ''provider'', ''model'', ''max_steps'', ''framework'', ''framework_version'']"

fun keyed_conditions :: "digests \<Rightarrow> (string \<times> plan_condition) list \<Rightarrow> pyval list
    \<Rightarrow> (string \<times> plan_condition) list planned" where
  "keyed_conditions D result [] = Inr result"
| "keyed_conditions D result (v # vs) =
     (case v of
        PDict d \<Rightarrow>
          and_then (condition_of_plan_mapping (map (\<lambda>name. (name, dget d name)) condition_names)) (\<lambda>c.
            (let key = condition_key D c in
             if py_ne (dget d ''key'') (PStr key) \<or> key \<in> fst ` set result
             then Inl ''condition key is invalid or duplicated''
             else keyed_conditions D (result @ [(key, c)]) vs))
      | _ \<Rightarrow> Inl ''invalid condition entry'')"

definition parsed_plan :: "digests \<Rightarrow> pydict \<Rightarrow> study_plan planned" where
  "parsed_plan D p =
     and_then (plan_source_of_plan (dget p ''source'')) (\<lambda>source.
     and_then (runtime_of_plan (dget p ''runtime'')) (\<lambda>runtime.
     and_then (map_planned task_of_plan (as_list (dget p ''tasks''))) (\<lambda>tasks.
     and_then (keyed_conditions D [] (as_list (dget p ''conditions''))) (\<lambda>conditions.
     and_then (plan_runs p) (\<lambda>runs.
     Inr \<lparr>pl_id = py_str (dget p ''study_id''), pl_sha256 = py_str (dget p ''plan_sha256''),
       pl_wall = py_float (dget p ''study_wall_s''), pl_source = source, pl_runtime = runtime,
       pl_tasks = tasks, pl_conditions = conditions, pl_runs = runs\<rparr>)))))"

text \<open>\<open>_coerce_plan\<close> of a plan or its document; a path is loaded with \<open>load_plan\<close> first.\<close>

definition coerce_plan :: "digests \<Rightarrow> pyval \<Rightarrow> py_exc + study_plan" where
  "coerce_plan D v = of_planned (and_then (validated_plan D v) (parsed_plan D))"

definition planned_ids :: "study_plan \<Rightarrow> string list" where
  "planned_ids P = map pr_run_id (pl_runs P)"

definition task_and_condition :: "study_plan \<Rightarrow> planned_run \<Rightarrow> (task_binding \<times> plan_condition) planned" where
  "task_and_condition P run =
     (case find (\<lambda>t. tb_id t = pr_task run) (pl_tasks P) of
        None \<Rightarrow> Inl ''run task does not bind the plan''
      | Some t \<Rightarrow>
          if tb_sha256 t \<noteq> pr_task_sha256 run then Inl ''run task does not bind the plan''
          else (case map_of (pl_conditions P) (pr_condition run) of
            None \<Rightarrow> Inl ''run condition does not bind the plan''
          | Some c \<Rightarrow> Inr (t, c)))"

section \<open>Listing\<close>

text \<open>A directory of receipts: its entries and, apart, the entry \<open>artifacts\<close>.\<close>

type_synonym layout = "entries \<times> artifact_dir"

definition layout_of :: "receipt_dir \<Rightarrow> layout" where
  "layout_of s = (pd_root s, pd_artifacts s)"

definition bounded_names :: "string list \<Rightarrow> py_exc + string list" where
  "bounded_names xs =
     (if 4096 < length xs then Inl (receipt_error ''cannot safely enumerate receipt directory'')
      else Inr (sort xs))"

definition directory_entries :: "layout \<Rightarrow> py_exc + string list" where
  "directory_entries L =
     bounded_names (map fst (fst L) @ (case snd L of NoArtifacts \<Rightarrow> [] | _ \<Rightarrow> [''artifacts'']))"

text \<open>The receipts of a listing, as the run id of each name and its bytes.\<close>

fun receipt_entries :: "string list \<Rightarrow> layout \<Rightarrow> string list \<Rightarrow> py_exc + (string \<times> string) list" where
  "receipt_entries planned L [] = Inr []"
| "receipt_entries planned L (name # rest) =
     (if name = ''artifacts''
      then (if snd L = UnsafeArtifacts then Inl (receipt_error ''artifacts must be one real directory'')
        else receipt_entries planned L rest)
      else if ends_with ''.json'' name
      then (let run_id = take (length name - 5) name in
        case map_of (fst L) name of
          Some (File _ b) \<Rightarrow>
            if run_id \<in> set planned
            then bind_exc (receipt_entries planned L rest) (\<lambda>es. Inr ((run_id, b) # es))
            else Inl (receipt_error (''foreign receipt extras filename/run_id mismatch or unsafe entry: '' @ name))
        | _ \<Rightarrow> Inl (receipt_error (''foreign receipt extras filename/run_id mismatch or unsafe entry: '' @ name)))
      else Inl (receipt_error (''unexpected receipt-directory entry: '' @ name)))"

definition read_receipt_entry :: "world \<Rightarrow> string \<Rightarrow> string \<Rightarrow> py_exc + pydict" where
  "read_receipt_entry W name b =
     (if max_receipt_bytes < int (length b) then Inl (receipt_error (''receipt exceeds bounded size: '' @ name))
      else (case json_text W b of
        Inl _ \<Rightarrow> Inl (receipt_error (''cannot parse receipt: '' @ name))
      | Inr (PDict d) \<Rightarrow> Inr d
      | Inr _ \<Rightarrow> Inl (receipt_error (''receipt is not an object: '' @ name))))"

definition artifact_name :: "pyval \<Rightarrow> py_exc + string" where
  "artifact_name v =
     (case v of
        PDict d \<Rightarrow> (case dget d ''path'' of
          PStr path \<Rightarrow> (case path_parts path of
            [folder, name] \<Rightarrow> if folder = ''artifacts'' \<and> \<not> is_absolute path then Inr name
              else Inl (receipt_error ''receipt artifact path is unsafe'')
          | _ \<Rightarrow> Inl (receipt_error ''receipt artifact path is unsafe''))
        | _ \<Rightarrow> Inl (receipt_error ''receipt artifact metadata is invalid''))
      | _ \<Rightarrow> Inl (receipt_error ''receipt artifact metadata is invalid''))"

definition artifact_names :: "pydict \<Rightarrow> py_exc + string list" where
  "artifact_names receipt = map_exc artifact_name (artifact_entries receipt)"

section \<open>The binding of a receipt\<close>

text \<open>The artifact directory as the validator sees it.\<close>

fun artifact_of :: "node \<Rightarrow> artifact" where
  "artifact_of (File _ b) = Regular b"
| "artifact_of Other = NotRegular"

definition world_at :: "world \<Rightarrow> layout \<Rightarrow> world" where
  "world_at W L = W\<lparr>
     artifacts_dir := (case snd L of
         NoArtifacts \<Rightarrow> None
       | Artifacts es \<Rightarrow> Some (\<lambda>name. map_option artifact_of (map_of es name))
       | UnsafeArtifacts \<Rightarrow> Some (\<lambda>_. None)),
     artifacts_real := (snd L \<noteq> UnsafeArtifacts)\<rparr>"

definition issue_text :: "issue \<Rightarrow> string" where
  "issue_text i = issue_path i @ '': '' @ issue_message i"

definition exactly_bound :: "digests \<Rightarrow> planned_run \<Rightarrow> task_binding \<Rightarrow> pydict \<Rightarrow> bool" where
  "exactly_bound D run t receipt \<longleftrightarrow>
     (case (dget receipt ''execution'', dget receipt ''task'', dget receipt ''baseline'') of
        (PDict execution, PDict embedded, PDict _) \<Rightarrow>
          (case dget embedded ''definition'' of
             PDict definition \<Rightarrow>
               py_eq (dget receipt ''run_id'') (PStr (pr_run_id run)) \<and>
               dget execution ''requested_canonical'' = PBool True \<and>
               py_eq (dget embedded ''sha256'') (PStr (tb_sha256 t)) \<and>
               py_eq (dget definition ''id'') (PStr (tb_id t)) \<and>
               canonical_json_sha256 D (PDict definition) = tb_sha256 t \<and>
               py_eq (dget receipt ''freeze'') (PStr (tb_freeze t)) \<and>
               py_eq (dget definition ''freeze'') (PStr (tb_freeze t))
           | _ \<Rightarrow> False)
      | _ \<Rightarrow> False)"

definition observed_condition :: "pydict \<Rightarrow> pydict" where
  "observed_condition receipt =
     (let baseline = as_dict (dget receipt ''baseline''); execution = as_dict (dget receipt ''execution'');
          framework = (case dget baseline ''framework'' of PDict f \<Rightarrow> f | _ \<Rightarrow> [])
      in [(''baseline'', dget baseline ''name''), (''provider'', dget baseline ''provider''),
          (''model'', dget baseline ''model''), (''max_steps'', dget execution ''configured_steps''),
          (''framework'', dget framework ''name''),
          (''framework_version'', dget framework ''installed_version'')])"

definition validate_receipt_binding :: "world \<Rightarrow> study_plan \<Rightarrow> planned_run \<Rightarrow> pydict \<Rightarrow> py_exc + pydict" where
  "validate_receipt_binding W P run receipt =
     (let name = pr_run_id run @ ''.json'';
          execution = as_dict (dget receipt ''execution'') in
      case validate_loaded_receipt W True (PDict receipt) of
        None \<Rightarrow> Inl (type_error ''unhashable type'')
      | Some issues \<Rightarrow>
          if issues \<noteq> []
          then Inl (receipt_error (''independent validation rejected '' @ name @ '': '' @
            join ''; '' (map issue_text issues)))
          else if dget receipt ''canonical'' \<noteq> PBool True
          then Inl (receipt_error (''receipt '' @ name @ '' is exploratory/noncanonical''))
          else if py_ne (dget receipt ''release'') (PStr (ps_release (pl_source P))) \<or>
            \<not> is_dict (dget receipt ''source'') \<or>
            py_ne (dget receipt ''source'') (PDict (receipt_source (pl_source P)))
          then Inl (receipt_error (''receipt '' @ name @ '' source/release differs from the plan''))
          else bind_exc (of_planned (task_and_condition P run)) (\<lambda>(t, c).
            if \<not> exactly_bound (the_digests W) run t receipt
            then Inl (receipt_error (''receipt '' @ name @ '' is not exactly bound to its planned run''))
            else if py_ne (PDict (observed_condition receipt)) (PDict (condition_to_dict c)) \<or>
              py_ne (dget execution ''configured_wall_s'') (PFloat (tb_wall t))
            then Inl (receipt_error (''receipt '' @ name @ '' condition/budget differs from the plan''))
            else Inr receipt))"

section \<open>Every receipt of a directory\<close>

fun bound_receipts :: "world \<Rightarrow> study_plan \<Rightarrow> (string \<times> string) list
    \<Rightarrow> py_exc + (string \<times> pydict \<times> string list) list" where
  "bound_receipts W P [] = Inr []"
| "bound_receipts W P ((run_id, b) # entries) =
     bind_exc (read_receipt_entry W (run_id @ ''.json'') b) (\<lambda>raw.
       if py_ne (dget raw ''run_id'') (PStr run_id)
       then Inl (receipt_error (''receipt filename/run_id mismatch: '' @ run_id @ ''.json''))
       else (case find (\<lambda>r. pr_run_id r = run_id) (pl_runs P) of
         None \<Rightarrow> Inl (exc ''KeyError'' run_id)
       | Some run \<Rightarrow>
           bind_exc (validate_receipt_binding W P run raw) (\<lambda>receipt.
           bind_exc (artifact_names receipt) (\<lambda>names.
           bind_exc (bound_receipts W P entries) (\<lambda>rs. Inr ((run_id, receipt, names) # rs))))))"

definition artifacts_match :: "artifact_dir \<Rightarrow> string list \<Rightarrow> py_exc + unit" where
  "artifacts_match arts required =
     (case arts of
        Artifacts es \<Rightarrow>
          bind_exc (bounded_names (map fst es)) (\<lambda>names.
            if set names \<noteq> set required
            then Inl (receipt_error ''receipt artifacts are orphaned, missing, or unexpected'')
            else (case filter (\<lambda>name. map_of es name = Some Other) names of
              name # _ \<Rightarrow> Inl (receipt_error (''artifact is not a regular file: '' @ name))
            | [] \<Rightarrow> Inr ()))
      | _ \<Rightarrow> if required \<noteq> [] then Inl (receipt_error ''receipt artifacts are missing their directory'')
             else Inr ())"

text \<open>\<open>None\<close> is a directory that does not exist.\<close>

definition validated_receipts :: "world \<Rightarrow> study_plan \<Rightarrow> layout option \<Rightarrow> bool
    \<Rightarrow> py_exc + (string \<times> pydict) list" where
  "validated_receipts W P directory require_complete =
     (case directory of
        None \<Rightarrow> if require_complete then Inl (receipt_error ''receipt directory is not a directory'') else Inr []
      | Some L \<Rightarrow>
          bind_exc (directory_entries L) (\<lambda>names.
          bind_exc (receipt_entries (planned_ids P) L names) (\<lambda>entries.
          if require_complete \<and> set (map fst entries) \<noteq> set (planned_ids P)
          then Inl (receipt_error ''receipt set is missing planned receipts or does not exactly match plan'')
          else bind_exc (bound_receipts (world_at W L) P entries) (\<lambda>rs.
          bind_exc (artifacts_match (snd L) (concat (map (\<lambda>(_, _, names). names) rs))) (\<lambda>_.
          Inr (map (\<lambda>(run_id, receipt, _). (run_id, receipt)) rs))))))"

definition receipt_duration :: "string \<Rightarrow> pydict \<Rightarrow> py_exc + rat" where
  "receipt_duration run_id receipt =
     (case dget receipt ''duration_s'' of
        PInt i \<Rightarrow> if i < 0 then Inl (receipt_error (''receipt '' @ run_id @ ''.json has an invalid duration_s''))
          else Inr (of_int i)
      | PFloat q \<Rightarrow> if q < 0 then Inl (receipt_error (''receipt '' @ run_id @ ''.json has an invalid duration_s''))
          else Inr q
      | _ \<Rightarrow> Inl (receipt_error (''receipt '' @ run_id @ ''.json has an invalid duration_s'')))"

section \<open>Still the plan's task, framework, source and runtime\<close>

definition current_task :: "digests \<Rightarrow> (string \<Rightarrow> py_exc + pydict) \<Rightarrow> task_binding \<Rightarrow> py_exc + pydict" where
  "current_task D load binding =
     bind_exc (load (tb_id binding)) (\<lambda>task.
     bind_exc (of_planned (task_of_definition D (tb_id binding) task)) (\<lambda>t.
     if t \<noteq> binding then Inl (execution_error (''frozen task changed after planning: '' @ tb_id binding))
     else Inr task))"

definition pair_repr :: "string \<times> string \<Rightarrow> string" where
  "pair_repr p = ''('' @ str_repr (fst p) @ '', '' @ str_repr (snd p) @ '')''"

definition require_current_framework :: "(string \<Rightarrow> string option) \<Rightarrow> plan_condition \<Rightarrow> py_exc + unit" where
  "require_current_framework versions c =
     bind_exc (of_planned (framework_identity versions (cn_baseline c))) (\<lambda>observed.
     if observed \<noteq> (cn_framework c, cn_version c)
     then Inl (execution_error (''planned framework differs from installed framework: expected='' @
       pair_repr (cn_framework c, cn_version c) @ '', observed='' @ pair_repr observed))
     else Inr ())"

text \<open>\<open>top_dir\<close> is the resolved path of the source repository.\<close>

definition source_binding :: "digests \<Rightarrow> string \<Rightarrow> checkout \<Rightarrow> source_provenance option \<Rightarrow> plan_source planned" where
  "source_binding D top_dir co given =
     (case given of
        Some provenance \<Rightarrow> plan_source_of_provenance provenance
      | None \<Rightarrow>
          (case source_provenance_of D co of
             Inl e \<Rightarrow> Inl (''cannot identify canonical plan source at '' @ top_dir @ '': '' @ exc_text e)
           | Inr provenance \<Rightarrow> plan_source_of_provenance provenance))"

definition to_provenance :: "plan_source \<Rightarrow> source_provenance" where
  "to_provenance s = \<lparr>sp_commit = Some (ps_commit s), sp_dirty = ps_dirty s, sp_tree = ps_tree s\<rparr>"

definition execution_source :: "digests \<Rightarrow> string \<Rightarrow> checkout \<Rightarrow> source_provenance option \<Rightarrow> study_plan
    \<Rightarrow> py_exc + source_provenance" where
  "execution_source D top_dir co given P =
     (case source_binding D top_dir co given of
        Inl message \<Rightarrow> Inl (execution_error (''cannot execute with an unverified source: '' @ message))
      | Inr observed \<Rightarrow>
          if observed \<noteq> pl_source P
          then Inl (execution_error ''current executable source differs from the frozen plan source'')
          else Inr (to_provenance observed))"

definition execution_runtime :: "digests \<Rightarrow> (string \<times> string) list \<Rightarrow> study_plan \<Rightarrow> py_exc + runtime_identity" where
  "execution_runtime D package P =
     bind_exc (of_planned (current_runtime D package)) (\<lambda>observed.
     if observed \<noteq> pl_runtime P
     then Inl (execution_error ''current executable runtime differs from the frozen plan'')
     else Inr observed)"

end
