(* ===== verification/Study_Run.thy ===== *)
theory Study_Run
  imports Study_Receipts
begin

text \<open>
  The execution of a plan, \<open>src/btb/harness/repetition.py\<close> from \<open>_worker_environment\<close> to
  \<open>execute_plan\<close>. Every run is attempted in a work root of its own; the parent validates what the
  worker staged, removes the work root and only then publishes. Whatever goes wrong, the parent
  writes the one receipt of the run itself, or raises.

  The worker, the clock and the work root are arguments (\<open>parent\<close>, \<open>episode\<close>). The state is the
  receipt directory with its coming failures, and how often the clock has been read.
\<close>

section \<open>The world of the parent process\<close>

text \<open>
  A worker is a process, which sees its request, its environment and its timeout and tells whether
  it timed out, its return code (none when it could not start) and whether its process group could
  not be stopped; or an injected executor, which may raise.
\<close>

datatype worker =
    Spawned "pydict \<Rightarrow> (string \<times> string) list \<Rightarrow> rat \<Rightarrow> bool \<times> int option \<times> bool"
  | Injected "py_exc option"

text \<open>
  What happens around one attempt: whether the work root can be made and its path, the worker, what
  it leaves in its staging directory and what it does to the receipt directory, the inventory of
  the work root, whether that can be removed, and the times of the parent's own receipt.
\<close>

record episode =
  ep_unmade :: "py_exc option"
  ep_root :: string
  ep_worker :: worker
  ep_stage :: "layout option"
  ep_effect :: "layout \<Rightarrow> layout"
  ep_inventory :: "py_exc + pydict"
  ep_unremoved :: "py_exc option"
  ep_started :: string
  ep_ended :: clock_reading

record parent =
  pa_world :: world
  pa_surroundings :: surroundings
  pa_versions :: "string \<Rightarrow> string option"
  pa_load :: "string \<Rightarrow> py_exc + pydict"
  pa_repo :: string
  pa_checkout :: checkout
  pa_given :: "source_provenance option"
  pa_package_parent :: string
  pa_package :: "(string \<times> string) list"
  pa_clock :: "nat \<Rightarrow> rat"
  pa_cap :: "rat option"
  pa_episode :: "string \<Rightarrow> episode"

record execution =
  ex_dir :: receipt_dir
  ex_ticks :: nat

type_synonym 'a parent_op = "(execution, 'a) op"

definition on_dir :: "'a file_op \<Rightarrow> 'a parent_op" where
  "on_dir m s = (case m (ex_dir s) of (r, d) \<Rightarrow> (r, s\<lparr>ex_dir := d\<rparr>))"

definition of_sum :: "py_exc + 'a \<Rightarrow> ('s, 'a) op" where
  "of_sum r s = (r, s)"

definition read_clock :: "parent \<Rightarrow> rat parent_op" where
  "read_clock E s = (Inr (pa_clock E (ex_ticks s)), s\<lparr>ex_ticks := ex_ticks s + 1\<rparr>)"

definition digests_of :: "parent \<Rightarrow> digests" where
  "digests_of E = the_digests (pa_world E)"

definition host_of :: "parent \<Rightarrow> host" where
  "host_of E = \<lparr>h_digests = digests_of E, h_surroundings = pa_surroundings E, h_fault = (\<lambda>_. None)\<rparr>"

text \<open>\<open>validated_receipts\<close> of the receipt directory as it is.\<close>

definition receipts_now :: "parent \<Rightarrow> study_plan \<Rightarrow> (string \<times> pydict) list parent_op" where
  "receipts_now E P s = (validated_receipts (pa_world E) P (Some (layout_of (ex_dir s))) False, s)"

section \<open>The worker process\<close>

definition credential_name :: "string option \<Rightarrow> string option" where
  "credential_name provider =
     (case provider of
        None \<Rightarrow> None
      | Some p \<Rightarrow> map_of [(''anthropic'', ''ANTHROPIC_API_KEY''), (''deepseek'', ''DEEPSEEK_API_KEY''),
          (''openai'', ''OPENAI_API_KEY'')] p)"

definition passed_on :: "surroundings \<Rightarrow> string \<Rightarrow> (string \<times> string) list" where
  "passed_on S name =
     (case environ S name of Some (c # value) \<Rightarrow> [(name, c # value)] | _ \<Rightarrow> [])"

definition worker_environment :: "surroundings \<Rightarrow> string \<Rightarrow> string \<Rightarrow> string option \<Rightarrow> (string \<times> string) list" where
  "worker_environment S package_parent work_root provider =
     [(''PATH'', case environ S ''PATH'' of None \<Rightarrow> [] | Some path \<Rightarrow> path),
      (''PYTHONPATH'', package_parent), (''PYTHONNOUSERSITE'', ''1''), (''HOME'', work_root),
      (''TMPDIR'', work_root), (''TMP'', work_root), (''TEMP'', work_root),
      (''XDG_CONFIG_HOME'', work_root @ ''/config''), (''XDG_CACHE_HOME'', work_root @ ''/cache'')] @
     concat (map (passed_on S) [''LANG'', ''LC_ALL'', ''LC_CTYPE'', ''PLAYWRIGHT_BROWSERS_PATH'']) @
     (case credential_name provider of None \<Rightarrow> [] | Some name \<Rightarrow> passed_on S name)"

definition worker_request :: "study_plan \<Rightarrow> pydict \<Rightarrow> planned_run \<Rightarrow> plan_condition \<Rightarrow> string \<Rightarrow> pydict" where
  "worker_request P task run c stage =
     [(''baseline'', PStr (cn_baseline c)), (''provider'', opt_text (cn_provider c)),
      (''model'', opt_text (cn_model c)), (''max_steps'', opt_int (cn_steps c)),
      (''run_id'', PStr (pr_run_id run)), (''task'', PDict task), (''receipt_dir'', PStr stage),
      (''source'', PDict (plan_source_to_dict (pl_source P))),
      (''runtime'', PDict (runtime_to_dict (pl_runtime P)))]"

text \<open>What the parent makes of a process: timed out, not stopped, and the cause of a failure.\<close>

definition worker_verdict :: "bool \<times> int option \<times> bool \<Rightarrow> bool \<times> bool \<times> py_exc option" where
  "worker_verdict result =
     (case result of (timed_out, return_code, teardown_error) \<Rightarrow>
        (timed_out \<and> \<not> teardown_error, teardown_error,
         if teardown_error then Some (runtime_error ''repetition worker process group did not quiesce'')
         else if return_code = None then Some (runtime_error ''repetition worker could not start'')
         else if return_code \<noteq> Some 0 then Some (runtime_error ''repetition worker exited without a receipt'')
         else None))"

section \<open>The parent's own receipt\<close>

definition parent_builder :: "parent \<Rightarrow> study_plan \<Rightarrow> pydict \<Rightarrow> planned_run \<Rightarrow> plan_condition \<Rightarrow> string
    \<Rightarrow> py_exc + builder" where
  "parent_builder E P task run c started =
     receipt_builder_for (pa_surroundings E) (pa_versions E)
       \<lparr>rr_canonical = True, rr_source = Some (to_provenance (pl_source P)),
        rr_checkout = source_provenance_of (digests_of E) (pa_checkout E),
        rr_release = ps_release (pl_source P), rr_started = started\<rparr>
       task (pr_run_id run) (cn_baseline c) (cn_provider c) (cn_model c) (cn_steps c)"

definition bind_parent_filesystem_descriptor :: "host \<Rightarrow> builder \<Rightarrow> plan_condition \<Rightarrow> pydict option
    \<Rightarrow> py_exc option \<Rightarrow> (builder \<times> temporary list) file_op" where
  "bind_parent_filesystem_descriptor H b c inventory cleanup_error =
     (let state = (if cleanup_error = None then ''cleaned'' else ''cleanup_failed'');
          bound = (\<lambda>v. b\<lparr>b_filesystem := Some (filesystem_dict state v (cleanup_error_value H b cleanup_error))\<rparr>)
      in if cn_baseline c \<notin> {''browser-use'', ''browser-use-full''} then ret (b, [])
         else (case inventory of
           None \<Rightarrow> ret (bound PNone, [])
         | Some listing \<Rightarrow>
             (let payload = canonical_json (float_text (h_digests H)) (PDict listing) @ [char_of (10::nat)];
                  name = b_run_id b @ ''.browser-use-sandbox-inventory.json''
              in seq (write_bytes_to_temp name payload) (\<lambda>t.
                 ret (bound (PDict (inventory_metadata H listing name payload)), [t])))))"

definition failure_payload :: "host \<Rightarrow> clock_reading \<Rightarrow> builder \<Rightarrow> py_exc \<Rightarrow> string \<Rightarrow> string \<Rightarrow> string" where
  "failure_payload H clk b e stage status =
     (let b' = fst (ensure_learned_filesystem_state H (b, \<lparr>receipt_files = [], artifact_files = []\<rparr>));
          failure = PDict (failure_dict H b' e stage)
      in json_document H (PDict (receipt_of H clk status failure (b'\<lparr>b_evaluation := None, b_outcome := None\<rparr>))))"

definition note_evidence :: "host \<Rightarrow> py_exc option \<Rightarrow> string \<Rightarrow> builder \<Rightarrow> builder" where
  "note_evidence H e stage b = (case e of None \<Rightarrow> b | Some x \<Rightarrow> record_evidence_failure H x stage b)"

text \<open>
  What an attempt found: the inventory of the work root and its error, and the error of removing
  it.
\<close>

record leftovers =
  lo_inventory :: "pydict option"
  lo_inventory_error :: "py_exc option"
  lo_cleanup_error :: "py_exc option"

definition cleanup_root :: "episode \<Rightarrow> leftovers" where
  "cleanup_root ep =
     \<lparr>lo_inventory = (case ep_inventory ep of Inl _ \<Rightarrow> None | Inr d \<Rightarrow> Some d),
      lo_inventory_error = (case ep_inventory ep of Inl e \<Rightarrow> Some e | Inr _ \<Rightarrow> None),
      lo_cleanup_error = ep_unremoved ep\<rparr>"

text \<open>\<open>except Exception: h; raise e from it\<close>.\<close>

definition raising :: "py_exc \<Rightarrow> ('s, 'a) op \<Rightarrow> ('s, unit) op \<Rightarrow> ('s, 'a) op" where
  "raising e m h s = (case m s of
      (Inl _, s') \<Rightarrow> (case h s' of (Inl e', s'') \<Rightarrow> (Inl e', s'') | (Inr _, s'') \<Rightarrow> (Inl e, s''))
    | (Inr x, s') \<Rightarrow> (Inr x, s'))"

definition write_parent_failure :: "host \<Rightarrow> clock_reading \<Rightarrow> builder \<Rightarrow> plan_condition \<Rightarrow> py_exc
    \<Rightarrow> string \<Rightarrow> string \<Rightarrow> leftovers \<Rightarrow> unit file_op" where
  "write_parent_failure H clk b c e stage status lo =
     (let b1 = note_evidence H (lo_inventory_error lo) ''parent_work_root_inventory'' b;
          b2 = note_evidence H (lo_cleanup_error lo) ''parent_work_root_cleanup'' b1;
          unpublished = execution_error ''parent could not publish its sole terminal receipt''
      in seq (raising unpublished open_receipt_directory (ret ())) (\<lambda>_.
         seq (raising unpublished
           (bind_parent_filesystem_descriptor H b2 c (lo_inventory lo) (lo_cleanup_error lo))
           (discard_publication [])) (\<lambda>(b3, temps).
         (let payload = failure_payload H clk b3 e stage status in
          seq (raising unpublished
            (check (int (length payload) \<le> max_receipt_bytes)
              (receipt_error ''parent failure receipt exceeds bounded size'')) (discard_publication temps)) (\<lambda>_.
          raising unpublished
            (commit_publication \<lparr>pub_run_id = b_run_id b3, pub_payload = payload, pub_artifacts = temps\<rparr>)
            (ret ()))))))"

section \<open>One attempt\<close>

definition stage_receipt :: "world \<Rightarrow> study_plan \<Rightarrow> planned_run \<Rightarrow> layout option \<Rightarrow> py_exc + pydict" where
  "stage_receipt W P run stage =
     bind_exc (validated_receipts W P stage False) (\<lambda>indexed.
     (case indexed of
        [(run_id, receipt)] \<Rightarrow> if run_id = pr_run_id run then Inr receipt
          else Inl (receipt_error ''staged worker output must contain exactly its planned receipt'')
      | _ \<Rightarrow> Inl (receipt_error ''staged worker output must contain exactly its planned receipt'')))"

definition staged_artifacts :: "layout option \<Rightarrow> entries" where
  "staged_artifacts stage = (case stage of Some (_, Artifacts es) \<Rightarrow> es | _ \<Rightarrow> [])"

text \<open>Runs the worker within what is left of the study and of the run's budget.\<close>

definition launch :: "parent \<Rightarrow> study_plan \<Rightarrow> pydict \<Rightarrow> planned_run \<Rightarrow> task_binding \<Rightarrow> plan_condition \<Rightarrow> rat
    \<Rightarrow> (bool \<times> bool \<times> py_exc option) parent_op" where
  "launch E P task run t c deadline =
     (let ep = pa_episode E (pr_run_id run) in
      case ep_worker ep of
        Injected e \<Rightarrow> ret (False, False, e)
      | Spawned process \<Rightarrow>
          seq (read_clock E) (\<lambda>now.
          (let left = min (tb_wall t) (deadline - now);
               timeout = (case pa_cap E of None \<Rightarrow> left | Some cap \<Rightarrow> min left cap) in
           if timeout \<le> 0 then fail (execution_error ''worker timeout must be finite and positive'')
           else ret (worker_verdict (process
             (worker_request P task run c (ep_root ep @ ''/receipts''))
             (worker_environment (pa_surroundings E) (pa_package_parent E) (ep_root ep) (cn_provider c))
             timeout)))))"

definition worker_effect :: "episode \<Rightarrow> unit parent_op" where
  "worker_effect ep s =
     (let d = ex_dir s; L = ep_effect ep (layout_of d)
      in (Inr (), s\<lparr>ex_dir := d\<lparr>pd_root := fst L, pd_artifacts := snd L\<rparr>\<rparr>))"

text \<open>What the parent knows when the worker is gone: the staged receipt and its publication, if any.\<close>

record worked =
  wk_timed_out :: bool
  wk_teardown :: bool
  wk_cause :: "py_exc option"
  wk_staged :: "(pydict \<times> publication) option"

definition past :: "parent \<Rightarrow> rat \<Rightarrow> bool parent_op" where
  "past E deadline = seq (read_clock E) (\<lambda>now. ret (deadline - now < 0))"

text \<open>
  \<open>.exists()\<close> of the receipt's path. It follows symbolic links, so the code does not see a link to
  a missing file under that name; here every entry counts. Such a link is refused by the commit,
  whose \<open>os.link\<close> fails on any entry of that name.
\<close>

definition no_direct_write :: "planned_run \<Rightarrow> unit parent_op" where
  "no_direct_write run s =
     check (lookup Root (pr_run_id run @ ''.json'') (ex_dir s) = None)
       (execution_error ''worker or injected executor wrote directly to canonical receipt_dir'') s"

definition take_staged :: "parent \<Rightarrow> study_plan \<Rightarrow> planned_run \<Rightarrow> (pydict \<times> publication) parent_op" where
  "take_staged E P run =
     (let stage = ep_stage (pa_episode E (pr_run_id run)) in
      seq (of_sum (stage_receipt (pa_world E) P run stage)) (\<lambda>receipt.
      seq (on_dir (prepare_publication (host_of E) (staged_artifacts stage) (pr_run_id run) receipt)) (\<lambda>pub.
      ret (receipt, pub))))"

definition after_worker :: "parent \<Rightarrow> study_plan \<Rightarrow> planned_run \<Rightarrow> rat \<Rightarrow> bool \<times> bool \<times> py_exc option \<Rightarrow> worked parent_op" where
  "after_worker E P run deadline result =
     (case result of (timed_out, stuck, cause) \<Rightarrow>
      seq (no_direct_write run) (\<lambda>_.
      seq (if timed_out then ret True else past E deadline) (\<lambda>late.
      if late \<or> stuck
      then ret \<lparr>wk_timed_out = late, wk_teardown = stuck, wk_cause = cause, wk_staged = None\<rparr>
      else seq (always (take_staged E P run) Inr Inl) (\<lambda>staged.
        seq (past E deadline) (\<lambda>late.
        ret \<lparr>wk_timed_out = late, wk_teardown = False,
          wk_cause = (case (cause, staged) of (None, Inl e) \<Rightarrow> Some e | _ \<Rightarrow> cause),
          wk_staged = (case staged of Inl _ \<Rightarrow> None | Inr x \<Rightarrow> Some x)\<rparr>)))))"

definition run_worker :: "parent \<Rightarrow> study_plan \<Rightarrow> pydict \<Rightarrow> planned_run \<Rightarrow> task_binding \<Rightarrow> plan_condition
    \<Rightarrow> rat \<Rightarrow> worked parent_op" where
  "run_worker E P task run t c deadline =
     (let ep = pa_episode E (pr_run_id run) in
      seq (of_sum (parent_builder E P task run c (ep_started ep))) (\<lambda>_.
      seq (launch E P task run t c deadline) (\<lambda>result.
      seq (worker_effect ep) (\<lambda>_. after_worker E P run deadline result))))"

text \<open>How an attempt ends: with the staged receipt, with the parent's receipt, or with the study.\<close>

datatype ending = Published pydict | FellBack | Stopped string

definition fall_back :: "parent \<Rightarrow> builder \<Rightarrow> planned_run \<Rightarrow> plan_condition \<Rightarrow> worked \<Rightarrow> py_exc \<Rightarrow> string \<Rightarrow> string
    \<Rightarrow> leftovers \<Rightarrow> ending \<Rightarrow> ending parent_op" where
  "fall_back E b run c w e stage status lo ending =
     on_dir (seq (case wk_staged w of None \<Rightarrow> ret () | Some (_, pub) \<Rightarrow> discard_publication (pub_artifacts pub)) (\<lambda>_.
       seq (write_parent_failure (host_of E) (ep_ended (pa_episode E (pr_run_id run))) b c e stage status lo) (\<lambda>_.
       ret ending)))"

definition settle :: "parent \<Rightarrow> builder \<Rightarrow> planned_run \<Rightarrow> plan_condition \<Rightarrow> worked \<Rightarrow> leftovers \<Rightarrow> ending parent_op" where
  "settle E b run c w lo =
     (let cause_or = (\<lambda>message. case wk_cause w of Some e \<Rightarrow> e | None \<Rightarrow> runtime_error message) in
      case lo_cleanup_error lo of
        Some e \<Rightarrow> fall_back E b run c w e ''parent_work_root_cleanup'' ''setup_error'' lo
          (Stopped ''parent_work_root_cleanup_failed'')
      | None \<Rightarrow> (case lo_inventory_error lo of
        Some e \<Rightarrow> fall_back E b run c w e ''parent_work_root_inventory'' ''setup_error'' lo
          (Stopped ''parent_work_root_inventory_failed'')
      | None \<Rightarrow>
          if wk_timed_out w
          then fall_back E b run c w (exc ''TimeoutError'' ''repetition worker exceeded the outer study deadline'')
            ''outer_study_deadline'' ''timeout'' lo (Stopped ''study_wall_deadline_exhausted'')
          else if wk_teardown w
          then fall_back E b run c w (cause_or ''repetition worker process group did not quiesce'')
            ''worker_process_group_teardown'' ''setup_error'' lo (Stopped ''worker_process_group_teardown_failed'')
          else (case wk_staged w of
            None \<Rightarrow> fall_back E b run c w (cause_or ''worker returned without a staged terminal receipt'')
              ''repetition_executor_unhandled'' ''setup_error'' lo FellBack
          | Some (receipt, pub) \<Rightarrow>
              seq (always (on_dir (commit_publication pub)) (\<lambda>_. None) Some) (\<lambda>failure.
              case failure of
                None \<Rightarrow> ret (Published receipt)
              | Some e \<Rightarrow> fall_back E b run c (w\<lparr>wk_staged := None\<rparr>) e ''parent_receipt_publication'' ''setup_error''
                  lo FellBack))))"

definition attempt :: "parent \<Rightarrow> study_plan \<Rightarrow> pydict \<Rightarrow> planned_run \<Rightarrow> task_binding \<Rightarrow> plan_condition
    \<Rightarrow> builder \<Rightarrow> rat \<Rightarrow> ending parent_op" where
  "attempt E P task run t c b deadline =
     (let ep = pa_episode E (pr_run_id run) in
      seq (of_sum (case ep_unmade ep of Some e \<Rightarrow> Inl e | None \<Rightarrow> Inr ())) (\<lambda>_.
      seq (run_worker E P task run t c deadline) (\<lambda>w.
      settle E b run c w (cleanup_root ep))))"

section \<open>The study\<close>

record execution_report =
  er_study :: string
  er_sha256 :: string
  er_attempted :: "string list"
  er_completed :: "string list"
  er_skipped :: "string list"
  er_unstarted :: "string list"
  er_reason :: "string option"

text \<open>The variables of the loop of \<open>execute_plan\<close>.\<close>

record progress =
  pg_existing :: "(string \<times> pydict) list"
  pg_attempted :: "string list"
  pg_completed :: "string list"
  pg_skipped :: "string list"

definition unstarted :: "(string \<times> pydict) list \<Rightarrow> planned_run list \<Rightarrow> string list" where
  "unstarted existing runs = filter (\<lambda>i. i \<notin> fst ` set existing) (map pr_run_id runs)"

definition report_of :: "study_plan \<Rightarrow> progress \<Rightarrow> string list \<Rightarrow> string option \<Rightarrow> execution_report" where
  "report_of P g rest reason =
     \<lparr>er_study = pl_id P, er_sha256 = pl_sha256 P, er_attempted = pg_attempted g,
      er_completed = pg_completed g, er_skipped = pg_skipped g, er_unstarted = rest, er_reason = reason\<rparr>"

text \<open>What is checked before a run starts: the directory, the task, the framework; then its builder.\<close>

definition prepare_run :: "parent \<Rightarrow> study_plan \<Rightarrow> (string \<times> pydict) list \<Rightarrow> planned_run \<Rightarrow> task_binding
    \<Rightarrow> plan_condition \<Rightarrow> (pydict \<times> builder) parent_op" where
  "prepare_run E P existing run t c =
     seq (receipts_now E P) (\<lambda>now.
     seq (check (set (map fst now) = set (map fst existing))
       (receipt_error ''receipt directory changed during execution'')) (\<lambda>_.
     seq (of_sum (current_task (digests_of E) (pa_load E) t)) (\<lambda>task.
     seq (of_sum (require_current_framework (pa_versions E) c)) (\<lambda>_.
     seq (of_sum (parent_builder E P task run c (ep_started (pa_episode E (pr_run_id run))))) (\<lambda>b.
     ret (task, b))))))"

text \<open>Whether the wall budget of a task no longer fits before the deadline.\<close>

definition past_budget :: "parent \<Rightarrow> rat \<Rightarrow> task_binding \<Rightarrow> bool parent_op" where
  "past_budget E deadline t = seq (read_clock E) (\<lambda>now. ret (deadline - now < tb_wall t))"

text \<open>A run is attempted, and completed unless its attempt raises, which leaves no report.\<close>

definition tried :: "string \<Rightarrow> progress \<Rightarrow> progress" where
  "tried run_id g =
     g\<lparr>pg_attempted := pg_attempted g @ [run_id], pg_completed := pg_completed g @ [run_id]\<rparr>"

fun execute_runs :: "parent \<Rightarrow> study_plan \<Rightarrow> rat \<Rightarrow> progress \<Rightarrow> planned_run list \<Rightarrow> execution_report parent_op" where
  "execute_runs E P deadline g [] = ret (report_of P g [] None)"
| "execute_runs E P deadline g (run # rest) =
     (if pr_run_id run \<in> fst ` set (pg_existing g)
      then execute_runs E P deadline (g\<lparr>pg_skipped := pg_skipped g @ [pr_run_id run]\<rparr>) rest
      else seq (of_sum (of_planned (task_and_condition P run))) (\<lambda>(t, c).
        seq (past_budget E deadline t) (\<lambda>exhausted.
        if exhausted
        then ret (report_of P g (unstarted (pg_existing g) (run # rest)) (Some ''study_wall_deadline_exhausted''))
        else seq (prepare_run E P (pg_existing g) run t c) (\<lambda>(task, b).
          seq (past_budget E deadline t) (\<lambda>exhausted.
          if exhausted
          then ret (report_of P g (unstarted (pg_existing g) (run # rest)) (Some ''study_wall_deadline_exhausted''))
          else seq (attempt E P task run t c b deadline) (\<lambda>ending.
            case ending of
              Stopped reason \<Rightarrow>
                ret (report_of P (tried (pr_run_id run) g) (unstarted (pg_existing g) rest) (Some reason))
            | FellBack \<Rightarrow> execute_runs E P deadline (tried (pr_run_id run) g) rest
            | Published receipt \<Rightarrow>
                execute_runs E P deadline
                  (tried (pr_run_id run) g\<lparr>pg_existing := pg_existing g @ [(pr_run_id run, receipt)]\<rparr>) rest))))))"

definition teardown_failed :: "pydict \<Rightarrow> bool" where
  "teardown_failed receipt =
     (case dget receipt ''execution'' of
        PDict execution \<Rightarrow> (case dget execution ''failure'' of
          PDict failure \<Rightarrow> dget failure ''stage'' = PStr ''worker_process_group_teardown''
        | _ \<Rightarrow> False)
      | _ \<Rightarrow> False)"

definition consumed :: "(string \<times> pydict) list \<Rightarrow> planned_run list \<Rightarrow> py_exc + rat" where
  "consumed existing runs =
     bind_exc (map_exc (\<lambda>r. receipt_duration (pr_run_id r) (the (map_of existing (pr_run_id r))))
       (filter (\<lambda>r. pr_run_id r \<in> fst ` set existing) runs)) (\<lambda>durations. Inr (sum_list durations))"

definition resume :: "parent \<Rightarrow> study_plan \<Rightarrow> execution_report parent_op" where
  "resume E P =
     seq (receipts_now E P) (\<lambda>existing.
     (let runs = pl_runs P; start = \<lparr>pg_existing = existing, pg_attempted = [], pg_completed = [], pg_skipped = []\<rparr>;
          present = filter (\<lambda>i. i \<in> fst ` set existing) (planned_ids P) in
      if list_ex (teardown_failed \<circ> snd) existing
      then ret (report_of P (start\<lparr>pg_skipped := present\<rparr>) (unstarted existing runs)
        (Some ''worker_process_group_teardown_failed''))
      else seq (of_sum (consumed existing runs)) (\<lambda>used.
        seq (read_clock E) (\<lambda>now.
        execute_runs E P (now + (pl_wall P - used)) start runs))))"

text \<open>The directory exists or is made; it is listed once, within its bound.\<close>

definition ensure_receipt_directory :: "unit parent_op" where
  "ensure_receipt_directory s =
     (case directory_entries (layout_of (ex_dir s)) of Inl e \<Rightarrow> (Inl e, s) | Inr _ \<Rightarrow> (Inr (), s))"

definition execute_plan :: "parent \<Rightarrow> pyval \<Rightarrow> execution_report parent_op" where
  "execute_plan E plan =
     seq (of_sum (coerce_plan (digests_of E) plan)) (\<lambda>P.
     seq (of_sum (execution_source (digests_of E) (pa_repo E) (pa_checkout E) (pa_given E) P)) (\<lambda>_.
     seq (of_sum (execution_runtime (digests_of E) (pa_package E) P)) (\<lambda>_.
     seq ensure_receipt_directory (\<lambda>_.
     resume E P))))"

end
