(* ===== verification/Publication_Properties.thy ===== *)
theory Publication_Properties
  imports Publication
begin

text \<open>
  What a publication leaves behind, whatever operation fails: a published receipt has all its
  artifacts, and a publication rolled back without a further failure has left the directory as it
  was, up to one artifact that was linked and could not be observed. A roll back that fails itself
  still only removes, but may leave the receipt without its artifacts. Quarantined names, which nothing reads, are left out
  of the view.
\<close>

section \<open>Views\<close>

definition quarantined :: "string \<Rightarrow> bool" where
  "quarantined name \<longleftrightarrow> starts_with quarantine_prefix name"

record view =
  v_at :: "place \<Rightarrow> string \<Rightarrow> node option"
  v_committed :: "(string \<times> file_stat) list"
  v_temp :: "(string \<times> file_stat option) option"
  v_linked :: bool

definition view_of :: "receipt_dir \<Rightarrow> view" where
  "view_of s = \<lparr>v_at = (\<lambda>p name. if quarantined name then None else lookup p name s),
     v_committed = pd_committed s, v_temp = pd_temp s, v_linked = pd_linked s\<rparr>"

definition place_upd :: "place \<Rightarrow> string \<Rightarrow> node option \<Rightarrow> view \<Rightarrow> view" where
  "place_upd p name n v = v\<lparr>v_at := (v_at v)(p := (v_at v p)(name := n))\<rparr>"

text \<open>Triples over views: \<open>Q\<close> on a value, \<open>E\<close> on an exception.\<close>

definition triple :: "(view \<Rightarrow> bool) \<Rightarrow> 'a file_op \<Rightarrow> ('a \<Rightarrow> view \<Rightarrow> bool) \<Rightarrow> (view \<Rightarrow> bool) \<Rightarrow> bool" where
  "triple P m Q E \<longleftrightarrow> (\<forall>s. P (view_of s) \<longrightarrow>
     (case m s of (Inl _, s') \<Rightarrow> E (view_of s') | (Inr x, s') \<Rightarrow> Q x (view_of s')))"

lemma triple_seq:
  assumes "triple P m Q E" and "\<And>x. triple (Q x) (f x) R E"
  shows "triple P (seq m f) R E"
  using assms unfolding triple_def seq_def by (fastforce split: prod.splits sum.splits)

lemma triple_weaken:
  assumes "triple P m Q E" and "\<And>v. P' v \<Longrightarrow> P v" and "\<And>x v. Q x v \<Longrightarrow> Q' x v" and "\<And>v. E v \<Longrightarrow> E' v"
  shows "triple P' m Q' E'"
  using assms unfolding triple_def by (fastforce split: prod.splits sum.splits)

lemma triple_ret: "triple (Q x) (ret x) Q E"
  by (simp add: triple_def ret_def)

lemma triple_check: "triple P (check b e) (\<lambda>_ v. b \<and> P v) P"
  by (simp add: triple_def check_def ret_def fail_def)

lemma triple_pre: "(b \<Longrightarrow> c \<Longrightarrow> triple P m Q E) \<Longrightarrow> triple (\<lambda>v. P v \<and> b \<and> c) m Q E"
  by (auto simp: triple_def)

lemma same_owned_iff [simp]:
  "same_owned_regular_file n st \<longleftrightarrow> (\<exists>m. n = Some m \<and> stat_of m = Some st)"
  by (simp add: same_owned_regular_file_def split: option.splits)

section \<open>Operations that keep the view\<close>

definition quiet :: "'a file_op \<Rightarrow> bool" where
  "quiet m \<longleftrightarrow> (\<forall>s. view_of (snd (m s)) = view_of s)"

lemma triple_quiet: "quiet m \<Longrightarrow> triple P m (\<lambda>_. P) P"
  unfolding triple_def quiet_def by (auto split: prod.splits sum.splits) (metis snd_conv)+

lemma quiet_seq: "quiet m \<Longrightarrow> (\<And>x. quiet (f x)) \<Longrightarrow> quiet (seq m f)"
  unfolding quiet_def seq_def by (auto split: prod.splits sum.splits) (metis snd_conv)+

lemma quiet_basic:
  "quiet (ret x)" "quiet (fail e)" "quiet (check b e)" "quiet (step e)" "quiet (get_entry p name)"
  "quiet (fresh_name stem)" "quiet verify_directory" "quiet fsync" "quiet (created_stat p name)"
  by (auto simp: quiet_def ret_def fail_def check_def step_def get_entry_def fresh_name_def
      verify_directory_def fsync_def created_stat_def view_of_def lookup_def split: list.splits option.splits
      intro!: ext) (case_tac p; simp)+

lemma quiet_observe: "quiet (stat_entry p name)" "quiet (owned_file_stat p name c)" "quiet (expect_same p name st e)"
  by (auto simp: stat_entry_def owned_file_stat_def expect_same_def Let_def quiet_basic
      intro!: quiet_seq split: option.splits)

lemma seq_Inr: "m s = (Inr x, s') \<Longrightarrow> seq m f s = f x s'"
  by (simp add: seq_def)

lemma seq_simps [simp]:
  "seq (ret x) f = f x" "seq (fail e) f = fail e" "seq (check b e) f = (if b then f () else fail e)"
  "seq (get_entry p name) g s = g (lookup p name s) s"
  by (auto simp: seq_def ret_def fail_def check_def get_entry_def fun_eq_iff)

lemma quiet_open: "quiet (open_artifacts False)"
  unfolding open_artifacts_def
proof (rule quiet_seq [OF quiet_basic(7)])
  have "quiet (seq verify_directory (\<lambda>_. ret True))" by (intro quiet_seq quiet_basic)
  then show "quiet (\<lambda>s. case pd_artifacts s of
         Artifacts _ \<Rightarrow> seq verify_directory (\<lambda>_. ret True) s
       | UnsafeArtifacts \<Rightarrow> fail (receipt_error ''canonical artifact directory is unsafe'') s
       | NoArtifacts \<Rightarrow>
           if \<not> False then ret False s
           else seq (step (receipt_error ''cannot create receipt artifact directory'')) (\<lambda>_ s.
             seq verify_directory (\<lambda>_. ret True) (s\<lparr>pd_artifacts := Artifacts []\<rparr>)) s)" for x
    by (auto simp: quiet_def ret_def fail_def split: artifact_dir.splits)
qed

lemma lookup_put:
  "lookup p' name' (snd (put_entry p name n s)) = (if p' = p \<and> name' = name then Some n else lookup p' name' s)"
  by (cases p; cases p') (auto simp: lookup_def put_entry_def update_conv')

lemma lookup_drop:
  "lookup p' name' (snd (drop_entry p name s)) = (if p' = p \<and> name' = name then None else lookup p' name' s)"
  by (cases p; cases p') (auto simp: lookup_def drop_entry_def delete_conv' split: artifact_dir.splits)

lemma locals_entries [simp]:
  "pd_committed (set_entries p e s) = pd_committed s" "pd_temp (set_entries p e s) = pd_temp s"
  "pd_linked (set_entries p e s) = pd_linked s" "pd_faults (set_entries p e s) = pd_faults s"
  by (cases p; simp)+

lemma view_put:
  "view_of (snd (put_entry p name n s)) = (if quarantined name then view_of s else place_upd p name (Some n) (view_of s))"
  by (auto simp: view_of_def place_upd_def lookup_put fun_eq_iff) (auto simp: put_entry_def)

lemma view_drop:
  "view_of (snd (drop_entry p name s)) = (if quarantined name then view_of s else place_upd p name None (view_of s))"
  by (auto simp: view_of_def place_upd_def lookup_drop fun_eq_iff) (auto simp: drop_entry_def)

lemma put_drop_Inr [simp]: "fst (put_entry p name n s) = Inr ()" "fst (drop_entry p name s) = Inr ()"
  by (simp_all add: put_entry_def drop_entry_def)

lemma step_cases:
  obtains s' where "step e s = (Inr (), s')" "\<And>p name. lookup p name s' = lookup p name s" "view_of s' = view_of s"
      "pd_faults s = [] \<Longrightarrow> s' = s"
  | s' where "step e s = (Inl e, s')" "view_of s' = view_of s" "pd_faults s \<noteq> []"
proof -
  have l: "lookup p name (s\<lparr>pd_faults := fs\<rparr>) = lookup p name s" for p name fs
    by (cases p) (simp_all add: lookup_def)
  have "view_of (s\<lparr>pd_faults := fs\<rparr>) = view_of s" for fs by (auto simp: view_of_def l fun_eq_iff)
  with l that show ?thesis
    by (cases "pd_faults s"; cases "hd (pd_faults s)") (auto simp: step_def)
qed

text \<open>What happens to a name that \<open>unlink_owned\<close> has moved to quarantine is invisible.\<close>

lemma unlink_moved:
  assumes "lookup p q s = Some n" and "stat_of n = Some st" and "quarantined q"
  shows "view_of (snd (seq (stat_entry p q) (\<lambda>m.
         if m = None then ret False
         else if same_owned_regular_file m st
         then seq (stat_entry p q) (\<lambda>current.
           if \<not> same_owned_regular_file current st then ret False
           else seq (step os_failure) (\<lambda>_. seq (drop_entry p q) (\<lambda>_. ret True)))
         else always (link_entry p q name) (\<lambda>_. False) (\<lambda>_. False)) s)) = view_of s"
    (is "view_of (snd (seq _ ?rest s)) = _")
proof (cases rule: step_cases [of os_failure s])
  case (1 s1)
  have "quiet (?rest (Some n))"
    using assms by (auto intro!: quiet_seq quiet_observe quiet_basic) (simp add: quiet_def view_drop)
  with 1 assms show ?thesis by (simp add: seq_def stat_entry_def get_entry_def quiet_def)
qed (simp add: seq_def stat_entry_def)

lemma triple_unlink:
  assumes "\<not> quarantined name"
  shows "triple P (unlink_owned p name st)
    (\<lambda>r v'. \<exists>v. P v \<and> (r \<longrightarrow> (\<exists>n. v_at v p name = Some n \<and> stat_of n = Some st) \<and> v' = place_upd p name None v) \<and>
       (\<not> r \<longrightarrow> v' = v \<or> v' = place_upd p name None v))
    (\<lambda>v'. \<exists>v. P v \<and> (v' = v \<or> v' = place_upd p name None v))"
  unfolding triple_def
proof (intro allI impI)
  fix s assume P: "P (view_of s)"
  show "case unlink_owned p name st s of (Inl _, s') \<Rightarrow> \<exists>v. P v \<and> (view_of s' = v \<or> view_of s' = place_upd p name None v)
    | (Inr r, s') \<Rightarrow> \<exists>v. P v \<and> (r \<longrightarrow> (\<exists>n. v_at v p name = Some n \<and> stat_of n = Some st) \<and> view_of s' = place_upd p name None v) \<and>
        (\<not> r \<longrightarrow> view_of s' = v \<or> view_of s' = place_upd p name None v)"
  proof (cases rule: step_cases [of os_failure s])
    case (2 s1)
    with P show ?thesis by (auto simp: unlink_owned_def seq_def stat_entry_def)
  next
    case (1 s1)
    note first = 1
    show ?thesis
    proof (cases "\<exists>n. lookup p name s1 = Some n \<and> stat_of n = Some st")
      case False
      with P 1 show ?thesis by (auto simp: unlink_owned_def seq_def stat_entry_def get_entry_def ret_def)
    next
      case True
      then obtain n where n: "lookup p name s1 = Some n" "stat_of n = Some st" by blast
      define q where "q = quarantine_prefix @ nat_str (pd_next_name s1) @ ''.tmp''"
      define s2 where "s2 = s1\<lparr>pd_next_name := pd_next_name s1 + 1\<rparr>"
      have s2: "lookup p' name' s2 = lookup p' name' s1" for p' name'
        by (cases p') (simp_all add: lookup_def s2_def)
      then have v2: "view_of s2 = view_of s" using 1 by (auto simp: view_of_def fun_eq_iff s2_def)
      have q: "quarantined q" "q \<noteq> name" using assms by (auto simp: q_def quarantined_def)
      show ?thesis
      proof (cases rule: step_cases [of os_failure s2])
        case (2 s3)
        with P 1 n v2 show ?thesis
          by (auto simp: unlink_owned_def seq_def stat_entry_def get_entry_def fresh_name_def always_def ret_def s2_def)
      next
        case (1 s3)
        let ?s4 = "snd (put_entry p q n (snd (drop_entry p name s3)))"
        have "lookup p q ?s4 = Some n" by (simp add: lookup_put)
        note rest = unlink_moved [OF this n(2) q(1), of name]
        have v4: "view_of ?s4 = place_upd p name None (view_of s)"
          using q v2 1 assms by (simp add: view_put view_drop)
        have at: "v_at (view_of s) p name = Some n"
          using n(1) assms unfolding first(2) by (simp add: view_of_def)
        have a1: "stat_entry p name s = (Inr (Some n), s1)"
          by (simp add: stat_entry_def seq_def get_entry_def first(1) n)
        have a2: "fresh_name quarantine_prefix s1 = (Inr q, s2)" by (simp add: fresh_name_def q_def s2_def)
        have a3: "always (seq (step os_failure) (\<lambda>_. seq (drop_entry p name) (\<lambda>_. put_entry p q n)))
            (\<lambda>_. True) (\<lambda>_. False) s2 = (Inr True, ?s4)"
          by (simp add: always_def seq_def 1 drop_entry_def put_entry_def)
        have "unlink_owned p name st s = seq (stat_entry p q) (\<lambda>m.
         if m = None then ret False
         else if same_owned_regular_file m st
         then seq (stat_entry p q) (\<lambda>current.
           if \<not> same_owned_regular_file current st then ret False
           else seq (step os_failure) (\<lambda>_. seq (drop_entry p q) (\<lambda>_. ret True)))
         else always (link_entry p q name) (\<lambda>_. False) (\<lambda>_. False)) ?s4"
          by (simp add: unlink_owned_def seq_Inr [of "stat_entry p name", OF a1] seq_Inr [of "fresh_name _", OF a2] seq_Inr [of "always _ _ _", OF a3] n)
        with rest v4 P at n(2) show ?thesis
          by (auto intro!: exI [of _ "view_of s"] split: prod.splits sum.splits)
      qed
    qed
  qed
qed

lemma triple_link:
  assumes "\<not> quarantined source" and "\<not> quarantined target"
  shows "triple P (link_entry p source target)
    (\<lambda>_ v'. \<exists>v n. P v \<and> v_at v p source = Some n \<and> v_at v p target = None \<and> v' = place_upd p target (Some n) v) P"
  unfolding triple_def
proof (intro allI impI)
  fix s assume P: "P (view_of s)"
  show "case link_entry p source target s of (Inl _, s') \<Rightarrow> P (view_of s')
    | (Inr _, s') \<Rightarrow> \<exists>v n. P v \<and> v_at v p source = Some n \<and> v_at v p target = None \<and>
        view_of s' = place_upd p target (Some n) v"
  proof (cases rule: step_cases [of os_failure s])
    case (2 s1)
    with P show ?thesis by (simp add: link_entry_def seq_def)
  next
    case (1 s1)
    have at: "v_at (view_of s) p name = lookup p name s1" if "\<not> quarantined name" for name
      using that by (simp add: view_of_def 1(2))
    have "link_entry p source target s = (case (lookup p source s1, lookup p target s1) of
        (Some n, None) \<Rightarrow> put_entry p target n
      | (None, _) \<Rightarrow> fail (exc ''FileNotFoundError'' source)
      | _ \<Rightarrow> fail (exc ''FileExistsError'' target)) s1"
      by (simp add: link_entry_def seq_def get_entry_def 1(1))
    moreover have "view_of (snd (put_entry p target n s1)) = place_upd p target (Some n) (view_of s)" for n
      using assms by (simp add: view_put 1(3))
    ultimately show ?thesis
      using P 1(3) at [OF assms(1)] at [OF assms(2)]
      by (auto simp: fail_def put_entry_def split: option.splits)
  qed
qed

lemma triple_owned:
  assumes "\<not> quarantined name"
  shows "triple P (owned_file_stat p name None)
    (\<lambda>st v. P v \<and> (\<exists>n. v_at v p name = Some n \<and> stat_of n = Some st)) P"
  unfolding triple_def
proof (intro allI impI)
  fix s assume P: "P (view_of s)"
  show "case owned_file_stat p name None s of (Inl _, s') \<Rightarrow> P (view_of s')
    | (Inr st, s') \<Rightarrow> P (view_of s') \<and> (\<exists>n. v_at (view_of s') p name = Some n \<and> stat_of n = Some st)"
  proof (cases rule: step_cases [of "receipt_error (''publication temporary disappeared: '' @ name)" s])
    case (2 s1)
    with P show ?thesis by (simp add: owned_file_stat_def seq_def)
  next
    case (1 s1)
    have "P (view_of s1)" using P 1(3) by simp
    moreover have "v_at (view_of s1) p name = lookup p name s1" using assms by (simp add: view_of_def)
    ultimately show ?thesis
      unfolding owned_file_stat_def seq_Inr [of "step _", OF 1(1)]
      by (cases "lookup p name s1"; cases "stat_of (the (lookup p name s1))") (auto simp: fail_def ret_def)
  qed
qed

section \<open>The temporary of the receipt\<close>

lemma lookup_frames [simp]:
  "lookup p name (s\<lparr>pd_faults := fs\<rparr>) = lookup p name s" "lookup p name (s\<lparr>pd_next_name := n\<rparr>) = lookup p name s"
  "lookup p name (s\<lparr>pd_next_inode := n\<rparr>) = lookup p name s" "lookup p name (s\<lparr>pd_committed := c\<rparr>) = lookup p name s"
  "lookup p name (s\<lparr>pd_temp := t\<rparr>) = lookup p name s" "lookup p name (s\<lparr>pd_linked := b\<rparr>) = lookup p name s"
  by (cases p; simp add: lookup_def)+

lemma view_frames [simp]:
  "view_of (s\<lparr>pd_faults := fs\<rparr>) = view_of s" "view_of (s\<lparr>pd_next_name := n\<rparr>) = view_of s"
  "view_of (s\<lparr>pd_next_inode := n\<rparr>) = view_of s"
  "view_of (s\<lparr>pd_committed := c\<rparr>) = (view_of s)\<lparr>v_committed := c\<rparr>"
  "view_of (s\<lparr>pd_temp := t\<rparr>) = (view_of s)\<lparr>v_temp := t\<rparr>" "view_of (s\<lparr>pd_linked := b\<rparr>) = (view_of s)\<lparr>v_linked := b\<rparr>"
  by (auto simp: view_of_def fun_eq_iff)

lemma view_fields [simp]:
  "v_committed (view_of s) = pd_committed s" "v_temp (view_of s) = pd_temp s" "v_linked (view_of s) = pd_linked s"
  by (simp_all add: view_of_def)

lemma seq_entries [simp]:
  "seq (put_entry p name n) f s = f () (snd (put_entry p name n s))"
  "seq (drop_entry p name) f s = f () (snd (drop_entry p name s))"
  by (simp_all add: seq_def put_entry_def drop_entry_def)

definition public :: "string \<Rightarrow> bool" where
  "public name \<longleftrightarrow> \<not> starts_with temp_prefix name"

lemma public_visible: "public name \<Longrightarrow> \<not> quarantined name"
proof
  assume "public name" "quarantined name"
  then have "name = quarantine_prefix @ drop (length quarantine_prefix) name"
    by (metis append_take_drop_id quarantined_def starts_with_def)
  moreover have "quarantine_prefix = temp_prefix @ ''cleanup-''"
    by (simp add: quarantine_prefix_def temp_prefix_def)
  ultimately have "starts_with temp_prefix name" by (metis append_assoc starts_with_append)
  with \<open>public name\<close> show False by (simp add: public_def)
qed

lemma nat_str_digit: "\<exists>d t. nat_str n = d # t \<and> d \<in> set ''0123456789''"
proof (induction n rule: nat_str.induct)
  case (1 n)
  have d: "digit n \<in> set ''0123456789''" unfolding digit.simps by (rule nth_mem) simp
  show ?case
  proof (cases "n < 10")
    case True
    with d show ?thesis by (simp add: nat_str.simps [of n])
  next
    case False
    with 1 obtain c t where "nat_str (n div 10) = c # t" "c \<in> set ''0123456789''" by blast
    with False show ?thesis by (simp add: nat_str.simps [of n])
  qed
qed

lemma temp_name:
  "\<not> public (temp_prefix @ nat_str k @ ''.tmp'')" "\<not> quarantined (temp_prefix @ nat_str k @ ''.tmp'')"
proof -
  obtain d t where "nat_str k = d # t" "d \<in> set ''0123456789''" using nat_str_digit by blast
  then show "\<not> quarantined (temp_prefix @ nat_str k @ ''.tmp'')"
    by (auto simp: quarantined_def quarantine_prefix_def temp_prefix_def starts_with_def)
qed (simp add: public_def)

lemma triple_fresh:
  "triple P (fresh_name temp_prefix) (\<lambda>temp v. P v \<and> \<not> public temp \<and> \<not> quarantined temp) E"
  by (simp add: triple_def fresh_name_def temp_name)

lemma triple_create:
  assumes "\<not> quarantined name"
  shows "triple P (create_file p name e)
    (\<lambda>r v'. \<exists>v. P v \<and> v' = place_upd p name (Some (File (fst r) [])) v) P"
  unfolding triple_def
proof (intro allI impI)
  fix s assume P: "P (view_of s)"
  show "case create_file p name e s of (Inl _, s') \<Rightarrow> P (view_of s')
    | (Inr r, s') \<Rightarrow> \<exists>v. P v \<and> view_of s' = place_upd p name (Some (File (fst r) [])) v"
  proof (cases rule: step_cases [of e s])
    case (2 s1)
    with P show ?thesis by (simp add: create_file_def seq_def)
  next
    case (1 s1)
    have "view_of (snd (put_entry p name (File n []) (s1\<lparr>pd_next_inode := m\<rparr>))) =
        place_upd p name (Some (File n [])) (view_of s)" for n m
      using assms 1(3) by (simp add: view_put)
    then show ?thesis
      unfolding create_file_def seq_Inr [of "step _", OF 1(1)] using P 1(3)
      by (cases "lookup p name s1") (auto simp: fail_def ret_def)
  qed
qed

lemma triple_write:
  assumes "\<not> quarantined name"
  shows "triple P (write_all p name i payload)
    (\<lambda>_ v'. \<exists>v. P v \<and> v' = place_upd p name (Some (File i payload)) v)
    (\<lambda>v'. \<exists>v n. P v \<and> v' = place_upd p name (Some (File i (take n payload))) v)"
  unfolding triple_def
proof (intro allI impI)
  fix s assume P: "P (view_of s)"
  have "view_of (set_entries p (AList.update name m (entries_of p (s\<lparr>pd_faults := fs\<rparr>))) (s\<lparr>pd_faults := fs\<rparr>))
      = place_upd p name (Some m) (view_of s)" for m fs
    using view_put [of p name m "s\<lparr>pd_faults := fs\<rparr>"] assms by (simp add: put_entry_def)
  with P show "case write_all p name i payload s of
      (Inl _, s') \<Rightarrow> \<exists>v n. P v \<and> view_of s' = place_upd p name (Some (File i (take n payload))) v
    | (Inr _, s') \<Rightarrow> \<exists>v. P v \<and> view_of s' = place_upd p name (Some (File i payload)) v"
    by (cases "pd_faults s"; cases "hd (pd_faults s)") (auto simp: write_all_def seq_def put_entry_def fail_def)
qed

lemma triple_created:
  assumes "\<not> quarantined name"
  shows "triple P (created_stat p name)
    (\<lambda>c v. P v \<and> (\<forall>i b. v_at v p name = Some (File i b) \<longrightarrow> c = (i, length b))) E"
  using assms by (auto simp: triple_def created_stat_def view_of_def)

lemma triple_owned_created:
  "triple P (owned_file_stat p name (Some c)) (\<lambda>st v. P v \<and> st = c) P"
proof -
  have "st = c" if "owned_file_stat p name (Some c) s = (Inr st, s')" for s st s'
    using that by (auto simp: owned_file_stat_def seq_def get_entry_def fail_def ret_def
        split: prod.splits sum.splits option.splits if_splits)
  with triple_quiet [OF quiet_observe(2), of P p name "Some c"] show ?thesis
    by (fastforce simp: triple_def split: prod.splits sum.splits)
qed

lemma triple_on_error:
  assumes "triple P m Q E'" and "triple E' h (\<lambda>_. E) E"
  shows "triple P (on_error m h) Q E"
  using assms unfolding triple_def on_error_def by (fastforce split: prod.splits sum.splits)

lemma triple_note:
  "triple P (note_committed t st) (\<lambda>_ v'. \<exists>v. P v \<and> v' = v\<lparr>v_committed := v_committed v @ [(t, st)]\<rparr>) E"
  "triple P (note_temp name c) (\<lambda>_ v'. \<exists>v. P v \<and> v' = v\<lparr>v_temp := Some (name, c)\<rparr>) E"
  "triple P note_linked (\<lambda>_ v'. \<exists>v. P v \<and> v' = v\<lparr>v_linked := True\<rparr>) E"
  unfolding triple_def note_committed_def note_temp_def note_linked_def
  by auto

section \<open>Committing the artifacts\<close>

definition temps :: "temporary list \<Rightarrow> string set" where
  "temps arts = set (map fst arts)"

definition targets :: "temporary list \<Rightarrow> string set" where
  "targets arts = set (map (fst \<circ> snd) arts)"

definition arts_wf :: "temporary list \<Rightarrow> bool" where
  "arts_wf arts \<longleftrightarrow> distinct (map (fst \<circ> snd) arts) \<and>
     (\<forall>t \<in> temps arts. \<not> public t \<and> \<not> quarantined t) \<and> (\<forall>t \<in> targets arts. public t)"

text \<open>
  The artifacts between the start and the end of a commit: the committed names hold the files of
  their temporaries, and at most one more name is linked already.
\<close>

definition art_inv :: "view \<Rightarrow> temporary list \<Rightarrow> string option \<Rightarrow> view \<Rightarrow> bool" where
  "art_inv v0 arts extra v \<longleftrightarrow>
     (\<forall>name. name \<notin> temps arts \<union> targets arts \<longrightarrow> v_at v Art name = v_at v0 Art name) \<and>
     (\<forall>name \<in> temps arts. v_at v Art name \<in> {v_at v0 Art name, None}) \<and>
     (\<forall>name \<in> targets arts. name \<notin> fst ` set (v_committed v) \<and> Some name \<noteq> extra \<longrightarrow>
        v_at v Art name = v_at v0 Art name) \<and>
     (\<forall>(target, st) \<in> set (v_committed v). v_at v0 Art target = None \<and>
        (\<exists>temp st0 n. (temp, target, st0) \<in> set arts \<and> v_at v0 Art temp = Some n \<and>
           stat_of n = Some st \<and> v_at v Art target = Some n)) \<and>
     (\<forall>t. extra = Some t \<longrightarrow> t \<in> targets arts \<and> v_at v0 Art t = None)"

definition arts_done :: "view \<Rightarrow> temporary list \<Rightarrow> temporary list \<Rightarrow> view \<Rightarrow> bool" where
  "arts_done v0 arts ts v \<longleftrightarrow> art_inv v0 arts None v \<and> map fst (v_committed v) = map (fst \<circ> snd) ts \<and>
     v_at v Root = v_at v0 Root \<and> \<not> v_linked v \<and> v_temp v = None"

definition arts_stopped :: "view \<Rightarrow> temporary list \<Rightarrow> view \<Rightarrow> bool" where
  "arts_stopped v0 arts v \<longleftrightarrow> (\<exists>extra. art_inv v0 arts extra v) \<and> v_at v Root = v_at v0 Root \<and>
     \<not> v_linked v \<and> v_temp v = None"

lemma place_upd_simps [simp]:
  "v_at (place_upd p name n v) = (v_at v)(p := (v_at v p)(name := n))"
  "v_committed (place_upd p name n v) = v_committed v" "v_temp (place_upd p name n v) = v_temp v"
  "v_linked (place_upd p name n v) = v_linked v"
  by (simp_all add: place_upd_def)

lemma arts_stoppedI: "arts_done v0 arts ts v \<Longrightarrow> arts_stopped v0 arts v"
  by (auto simp: arts_done_def arts_stopped_def)

lemma in_temps: "(temp, target, st) \<in> set arts \<Longrightarrow> temp \<in> temps arts \<and> target \<in> targets arts"
  by (force simp: temps_def targets_def)

lemma arts_disjoint: "arts_wf arts \<Longrightarrow> name \<in> temps arts \<Longrightarrow> name \<notin> targets arts"
  unfolding arts_wf_def by blast

lemma arts_unlinked:
  assumes "arts_wf arts" and "temp \<in> temps arts" and "arts_done v0 arts ts v"
  shows "arts_done v0 arts ts (place_upd Art temp None v)"
proof -
  have inv: "art_inv v0 arts None v" using assms(3) by (simp add: arts_done_def)
  have other: "temp \<notin> targets arts" using arts_disjoint [OF assms(1,2)] .
  have committed: "target \<noteq> temp" if "(target, st) \<in> set (v_committed v)" for target st
    using inv that in_temps other unfolding art_inv_def by fast
  have "art_inv v0 arts None (place_upd Art temp None v)"
    using inv other committed assms(2) unfolding art_inv_def by (auto split: if_splits)
  then show ?thesis using assms(3) by (simp add: arts_done_def)
qed

lemma arts_linked:
  assumes "arts_wf arts" and "arts = ts @ (temp, target, st0) # rest" and "arts_done v0 arts ts v"
    and "v_at v Art temp = Some n" and "v_at v Art target = None"
  shows "art_inv v0 arts (Some target) (place_upd Art target (Some n) v)" (is ?stopped)
    and "stat_of n = Some st \<Longrightarrow> arts_done v0 arts (ts @ [(temp, target, st0)])
      (place_upd Art target (Some n) v\<lparr>v_committed := v_committed v @ [(target, st)]\<rparr>)" (is "_ \<Longrightarrow> ?done")
proof -
  have inv: "art_inv v0 arts None v" and cs: "fst ` set (v_committed v) = targets ts"
    using assms(3) unfolding arts_done_def targets_def by (simp, metis set_map)
  have mem: "temp \<in> temps arts" "target \<in> targets arts" using assms(2) by (auto simp: temps_def targets_def)
  have "target \<notin> targets ts"
    using assms(1,2) by (auto simp: arts_wf_def targets_def)
  then have new: "target \<notin> fst ` set (v_committed v)" using cs by simp
  then have fresh: "v_at v0 Art target = None" using inv mem(2) assms(5) by (auto simp: art_inv_def)
  have old: "v_at v0 Art temp = Some n" using inv mem(1) assms(4) by (auto simp: art_inv_def)
  have "target \<notin> temps arts" using arts_disjoint [OF assms(1)] mem(2) by blast
  then show stopped: ?stopped
    using inv new fresh mem(2) by (fastforce simp: art_inv_def)
  assume st: "stat_of n = Some st"
  have entry: "(temp, target, st0) \<in> set arts" using assms(2) by simp
  have "art_inv v0 arts None (place_upd Art target (Some n) v\<lparr>v_committed := v_committed v @ [(target, st)]\<rparr>)"
    using stopped st fresh old entry unfolding art_inv_def by (cases st0) auto
  then show ?done using assms(3) by (simp add: arts_done_def)
qed

lemma triple_commit_artifact:
  assumes wf: "arts_wf arts" and t: "arts = ts @ t # rest"
  shows "triple (arts_done v0 arts ts) (commit_artifact t) (\<lambda>_. arts_done v0 arts (ts @ [t])) (arts_stopped v0 arts)"
proof -
  obtain temp target expected where [simp]: "t = (temp, target, expected)" by (cases t) auto
  have mem: "temp \<in> temps arts" "target \<in> targets arts" using t by (auto simp: temps_def targets_def)
  then have names: "\<not> quarantined temp" "\<not> quarantined target"
    using wf public_visible by (auto simp: arts_wf_def)
  let ?P = "arts_done v0 arts ts" and ?Q = "arts_done v0 arts (ts @ [t])" and ?E = "arts_stopped v0 arts"
  let ?L = "\<lambda>v'. \<exists>v n. ?P v \<and> v_at v Art temp = Some n \<and> v_at v Art target = None \<and> v' = place_upd Art target (Some n) v"
  have t': "arts = ts @ (temp, target, expected) # rest" using t by simp
  have L: "?E v" if L: "?L v" for v
  proof -
    obtain w n where w: "?P w" "v_at w Art temp = Some n" "v_at w Art target = None"
      "v = place_upd Art target (Some n) w" using L by blast
    then show ?thesis
      using arts_linked(1) [OF wf t' w(1-3)] by (auto simp: arts_stopped_def arts_done_def)
  qed
  note keep = triple_weaken [OF triple_quiet]
  have before: "triple ?P (expect_same Art temp expected e) (\<lambda>_. ?P) ?E" "triple ?P verify_directory (\<lambda>_. ?P) ?E" for e
    by (rule keep [OF _ _ _ arts_stoppedI], auto simp: quiet_observe quiet_basic)+
  have after: "triple ?Q (expect_same p name st e) (\<lambda>_. ?Q) ?E" "triple ?Q verify_directory (\<lambda>_. ?Q) ?E"
    "triple ?Q fsync (\<lambda>_. ?Q) ?E" "triple ?Q (check b e) (\<lambda>_. ?Q) ?E" for p name st e b
    by (rule keep [OF _ _ _ arts_stoppedI], auto simp: quiet_observe quiet_basic)+
  have link: "triple ?P (link_entry Art temp target) (\<lambda>_. ?L) ?E"
    by (rule triple_weaken [OF triple_link [OF names]]) (assumption, assumption, erule arts_stoppedI)
  have owned: "triple ?L (owned_file_stat Art target None)
      (\<lambda>st v. ?L v \<and> (\<exists>n. v_at v Art target = Some n \<and> stat_of n = Some st)) ?E"
    by (rule triple_weaken [OF triple_owned [OF names(2)]]) (assumption, assumption, erule L)
  have note': "triple (\<lambda>v. ?L v \<and> (\<exists>n. v_at v Art target = Some n \<and> stat_of n = Some st))
      (note_committed target st) (\<lambda>_. ?Q) ?E" for st
    using arts_linked(2) [OF wf t', where st = st and ?v0.0 = v0]
    by (intro triple_weaken [OF triple_note(1) [where E = ?E and
          P = "\<lambda>v. ?L v \<and> (\<exists>n. v_at v Art target = Some n \<and> stat_of n = Some st)"]]) auto
  have checked: "triple (\<lambda>v. ?L v \<and> (\<exists>n. v_at v Art target = Some n \<and> stat_of n = Some st)) (check b e)
      (\<lambda>_ v. ?L v \<and> (\<exists>n. v_at v Art target = Some n \<and> stat_of n = Some st)) ?E" for st b e
    by (rule triple_weaken [OF triple_check]) (assumption, elim conjE, intro conjI, assumption+, elim conjE, erule L)
  have unlink: "triple ?Q (unlink_owned Art temp expected) (\<lambda>_. ?Q) ?E"
    by (rule triple_weaken [OF triple_unlink [OF names(1), of ?Q]], assumption)
      (use arts_unlinked [OF wf mem(1)] arts_stoppedI in blast)+
  have "triple ?P (commit_artifact (temp, target, expected)) (\<lambda>_. ?Q) ?E"
    unfolding commit_artifact_def Let_def prod.case
    by (rule triple_seq before link owned checked note' after unlink)+
  then show ?thesis by simp
qed

lemma triple_commit_artifacts:
  assumes wf: "arts_wf arts" and "arts = ts @ rest"
  shows "triple (arts_done v0 arts ts) (each commit_artifact rest) (\<lambda>_. arts_done v0 arts arts) (arts_stopped v0 arts)"
  using assms(2)
proof (induction rest arbitrary: ts)
  case Nil
  then show ?case using triple_ret [of "\<lambda>_. arts_done v0 ts ts" "()"] by simp
next
  case (Cons t rest)
  then show ?case
    using triple_seq [OF triple_commit_artifact [OF wf, of ts t rest] Cons.IH [of "ts @ [t]"]] by simp
qed

section \<open>Committing the receipt\<close>

definition published_name :: "publication \<Rightarrow> string" where
  "published_name pub = pub_run_id pub @ ''.json''"

definition root_inv :: "view \<Rightarrow> publication \<Rightarrow> view \<Rightarrow> bool" where
  "root_inv v0 pub v \<longleftrightarrow>
     (\<forall>name. public name \<and> name \<noteq> published_name pub \<longrightarrow> v_at v Root name = v_at v0 Root name) \<and>
     (\<forall>temp c. v_temp v = Some (temp, c) \<longrightarrow> \<not> public temp \<and> \<not> quarantined temp) \<and>
     (if v_linked v
      then v_at v0 Root (published_name pub) = None \<and>
        (\<exists>temp i. v_temp v = Some (temp, Some (i, length (pub_payload pub))) \<and> \<not> quarantined temp \<and>
           v_at v Root (published_name pub) = Some (File i (pub_payload pub)))
      else v_at v Root (published_name pub) = v_at v0 Root (published_name pub))"

definition arts_all :: "view \<Rightarrow> publication \<Rightarrow> view \<Rightarrow> bool" where
  "arts_all v0 pub v \<longleftrightarrow> art_inv v0 (pub_artifacts pub) None v \<and>
     map fst (v_committed v) = map (fst \<circ> snd) (pub_artifacts pub)"

text \<open>The receipt is as \<open>linked\<close> says, and \<open>A\<close> holds of the artifacts.\<close>

definition root_blind :: "(view \<Rightarrow> bool) \<Rightarrow> bool" where
  "root_blind A \<longleftrightarrow> (\<forall>v name n c b. A (place_upd Root name n v) = A v \<and> A (v\<lparr>v_temp := c\<rparr>) = A v \<and>
     A (v\<lparr>v_linked := b\<rparr>) = A v)"

definition committing :: "(view \<Rightarrow> bool) \<Rightarrow> view \<Rightarrow> publication \<Rightarrow> bool \<Rightarrow> view \<Rightarrow> bool" where
  "committing A v0 pub linked v \<longleftrightarrow> A v \<and> root_inv v0 pub v \<and> v_linked v = linked"

lemma art_inv_root [simp]:
  "art_inv v0 arts extra (place_upd Root name n v) = art_inv v0 arts extra v"
  "art_inv v0 arts extra (v\<lparr>v_temp := c\<rparr>) = art_inv v0 arts extra v"
  "art_inv v0 arts extra (v\<lparr>v_linked := b\<rparr>) = art_inv v0 arts extra v"
  by (simp_all add: art_inv_def)

lemma committing_temp:
  assumes "root_blind A" and "\<not> public temp" and "\<not> quarantined temp" and "public (published_name pub)"
  shows "committing A v0 pub linked v \<Longrightarrow> committing A v0 pub linked (place_upd Root temp n v)"
    and "committing A v0 pub False v \<Longrightarrow> committing A v0 pub False (v\<lparr>v_temp := Some (temp, c)\<rparr>)"
  using assms by (auto simp: committing_def root_blind_def root_inv_def)

lemma committing_linked:
  assumes "root_blind A" and "\<not> public temp" and "\<not> quarantined temp" and "public (published_name pub)" and "committing A v0 pub False v"
    and "v_at v Root temp = Some (File i (pub_payload pub))" and "v_temp v = Some (temp, Some (i, length (pub_payload pub)))"
    and "v_at v Root (published_name pub) = None"
  shows "committing A v0 pub True
    (place_upd Root (published_name pub) (Some (File i (pub_payload pub))) v\<lparr>v_linked := True\<rparr>)"
  using assms by (auto simp: committing_def root_blind_def root_inv_def)

lemma triple_commit_receipt:
  assumes blind: "root_blind A" and name: "public (published_name pub)"
  shows "triple (committing A v0 pub False) (commit_receipt pub) (\<lambda>_. committing A v0 pub True)
    (\<lambda>v. \<exists>linked. committing A v0 pub linked v)"
proof -
  let ?G = "committing A v0 pub False" and ?T = "committing A v0 pub True"
  let ?E = "\<lambda>v. \<exists>linked. committing A v0 pub linked v"
  let ?payload = "pub_payload pub" and ?target = "published_name pub"
  note keep = triple_weaken [OF triple_quiet]
  have quiet: "quiet verify_directory" "quiet fsync" "quiet (expect_same p name st e)" "quiet (check b e)" for p name st e b
    by (simp_all add: quiet_basic quiet_observe)
  have G: "triple ?G m (\<lambda>_. ?G) ?E" and T: "triple ?T m (\<lambda>_. ?T) ?E" if "quiet m" for m
    by (rule keep [OF that], assumption, assumption, blast)+
  have body: "triple ?G (seq (note_temp temp None) (\<lambda>_.
      seq (create_file Root temp os_failure) (\<lambda>(inode, _).
      seq (on_error
             (seq (write_all Root temp inode ?payload) (\<lambda>_. seq fsync (\<lambda>_.
              seq (created_stat Root temp) (\<lambda>c. seq (owned_file_stat Root temp (Some c)) (\<lambda>st.
              seq (note_temp temp (Some st)) (\<lambda>_. seq verify_directory (\<lambda>_. ret st)))))))
             (seq (created_stat Root temp) (\<lambda>st. note_temp temp (Some st)))) (\<lambda>st.
      seq (link_entry Root temp ?target) (\<lambda>_.
      seq note_linked (\<lambda>_.
      seq (expect_same Root ?target st (receipt_error ''receipt target changed during publication'')) (\<lambda>_.
      seq (expect_same Root temp st (receipt_error ''receipt temporary changed during publication'')) (\<lambda>_.
      seq (unlink_owned Root temp st) (\<lambda>removed.
      seq (check removed (receipt_error ''receipt temporary changed during publication'')) (\<lambda>_.
      seq fsync (\<lambda>_. verify_directory))))))))))) (\<lambda>_. ?T) ?E"
    if temp: "\<not> public temp" "\<not> quarantined temp" for temp
  proof -
    let ?W = "\<lambda>i v. ?G v \<and> v_at v Root temp = Some (File i ?payload)"
    let ?V = "\<lambda>i st v. ?W i v \<and> st = (i, length ?payload) \<and> v_temp v = Some (temp, Some (i, length ?payload))"
    note mine = committing_temp [OF blind temp name]
    have note0: "triple ?G (note_temp temp c) (\<lambda>_. ?G) ?E" for c
      by (rule triple_weaken [OF triple_note(2) [where P = ?G and E = ?E]]) (auto intro: mine)
    have create: "triple ?G (create_file Root temp os_failure) (\<lambda>_. ?G) ?E"
      by (rule triple_weaken [OF triple_create [OF temp(2), of ?G]]) (auto intro: mine)
    have created: "triple ?G (created_stat Root temp) (\<lambda>_. ?G) ?E"
      by (rule G) (rule quiet_basic)
    have written: "triple ?G (write_all Root temp i ?payload) (\<lambda>_. ?W i) ?G" for i
      by (rule triple_weaken [OF triple_write [OF temp(2), of ?G]]) (auto intro: mine)
    have W: "triple (?W i) m (\<lambda>_. ?W i) ?G" if "quiet m" for i m
      by (rule keep [OF that], assumption, assumption, erule conjunct1)
    have observed: "triple (?W i) (created_stat Root temp) (\<lambda>c v. ?W i v \<and> c = (i, length ?payload)) ?G" for i
      by (rule triple_weaken [OF triple_created [OF temp(2), of "?W i"]]) auto
    have owned: "triple (\<lambda>v. ?W i v \<and> c = (i, length ?payload)) (owned_file_stat Root temp (Some c))
        (\<lambda>st v. ?W i v \<and> st = (i, length ?payload)) ?G" for i c
      by (rule triple_weaken [OF triple_owned_created [of "\<lambda>v. ?W i v \<and> c = (i, length ?payload)"]]) auto
    have note1: "triple (\<lambda>v. ?W i v \<and> st = (i, length ?payload)) (note_temp temp (Some st)) (\<lambda>_. ?V i st) ?G" for i st
      by (rule triple_weaken [OF triple_note(2) [where P = "\<lambda>v. ?W i v \<and> st = (i, length ?payload)" and E = ?G]])
        (auto intro: mine)
    have V: "triple (?V i st) verify_directory (\<lambda>_. ?V i st) ?G" for i st
      by (rule keep [OF quiet(1)], assumption, assumption, elim conjE, assumption)
    have filled: "triple ?G (seq (write_all Root temp i ?payload) (\<lambda>_. seq fsync (\<lambda>_.
              seq (created_stat Root temp) (\<lambda>c. seq (owned_file_stat Root temp (Some c)) (\<lambda>st.
              seq (note_temp temp (Some st)) (\<lambda>_. seq verify_directory (\<lambda>_. ret st))))))) (\<lambda>st. ?V i st) ?G" for i
      by (rule triple_seq written W [OF quiet(2)] observed owned note1 V triple_ret)+
    have link: "triple (?V i st) (link_entry Root temp ?target)
        (\<lambda>_ v'. \<exists>v. ?V i st v \<and> v_at v Root ?target = None \<and> v' = place_upd Root ?target (Some (File i ?payload)) v) ?E" for i st
      by (rule triple_weaken [OF triple_link [OF temp(2) public_visible [OF name], of "?V i st"]]) auto
    have linked: "triple (\<lambda>v'. \<exists>v. ?V i st v \<and> v_at v Root ?target = None \<and> v' = place_upd Root ?target (Some (File i ?payload)) v)
        note_linked (\<lambda>_. ?T) ?E" for i st
      by (rule triple_weaken [OF triple_note(3) [where E = ?E and
            P = "\<lambda>v'. \<exists>v. ?V i st v \<and> v_at v Root ?target = None \<and> v' = place_upd Root ?target (Some (File i ?payload)) v"]])
        (use committing_linked [OF blind temp name] in auto)
    have unlink: "triple ?T (unlink_owned Root temp st) (\<lambda>_. ?T) ?E" for st
      by (rule triple_weaken [OF triple_unlink [OF temp(2), of ?T]]) (use mine(1) in blast)+
    have handler: "triple ?G (seq (created_stat Root temp) (\<lambda>st. note_temp temp (Some st))) (\<lambda>_. ?E) ?E"
      by (rule triple_seq [OF created]) (rule triple_weaken [OF note0], auto)
    show ?thesis
    proof (rule triple_seq [OF note0], rule triple_seq [OF create])
      fix x :: "nat \<times> nat"
      obtain inode z where x: "x = (inode, z)" by (cases x)
      show "triple ?G (case x of (inode, _) \<Rightarrow>
        seq (on_error
             (seq (write_all Root temp inode ?payload) (\<lambda>_. seq fsync (\<lambda>_.
              seq (created_stat Root temp) (\<lambda>c. seq (owned_file_stat Root temp (Some c)) (\<lambda>st.
              seq (note_temp temp (Some st)) (\<lambda>_. seq verify_directory (\<lambda>_. ret st)))))))
             (seq (created_stat Root temp) (\<lambda>st. note_temp temp (Some st)))) (\<lambda>st.
        seq (link_entry Root temp ?target) (\<lambda>_.
        seq note_linked (\<lambda>_.
        seq (expect_same Root ?target st (receipt_error ''receipt target changed during publication'')) (\<lambda>_.
        seq (expect_same Root temp st (receipt_error ''receipt temporary changed during publication'')) (\<lambda>_.
        seq (unlink_owned Root temp st) (\<lambda>removed.
        seq (check removed (receipt_error ''receipt temporary changed during publication'')) (\<lambda>_.
        seq fsync (\<lambda>_. verify_directory))))))))) (\<lambda>_. ?T) ?E"
        unfolding x prod.case
        by (rule triple_seq [OF triple_on_error [OF filled handler]] triple_seq [OF link] triple_seq [OF linked]
            triple_seq [OF T] triple_seq [OF unlink] T quiet)+
    qed
  qed
  show ?thesis
    unfolding commit_receipt_def Let_def published_name_def [symmetric]
    by (rule triple_seq [OF G [OF quiet(1)]], rule triple_seq [OF triple_fresh [of ?G]], rule triple_pre, rule body)
qed

lemma blind_arts: "root_blind (arts_all v0 pub)"
  by (simp add: root_blind_def arts_all_def)

lemma triple_commit_body:
  assumes wf: "arts_wf (pub_artifacts pub)" and "public (published_name pub)"
    and "v_committed v0 = []" and "\<not> v_linked v0" and "v_temp v0 = None"
  shows "triple (\<lambda>v. v = v0) (commit_body pub) (\<lambda>_. committing (arts_all v0 pub) v0 pub True)
    (\<lambda>v. arts_stopped v0 (pub_artifacts pub) v \<or> (\<exists>linked. committing (arts_all v0 pub) v0 pub linked v))"
    (is "triple _ _ _ ?E")
proof -
  let ?arts = "pub_artifacts pub"
  have start: "arts_done v0 ?arts [] v0"
    using assms(3-5) by (auto simp: arts_done_def art_inv_def)
  have finish: "committing (arts_all v0 pub) v0 pub False v" if "arts_done v0 ?arts ?arts v" for v
    using that by (auto simp: committing_def arts_all_def root_inv_def arts_done_def)
  have keep: "triple (\<lambda>v. v = v0) m (\<lambda>_ v. v = v0) ?E" if "quiet m" for m
    by (rule triple_weaken [OF triple_quiet [OF that]], assumption, assumption) (use arts_stoppedI [OF start] in auto)
  have arts: "triple (\<lambda>v. v = v0) (each (\<lambda>t. if present then commit_artifact t else fail e) ?arts)
      (\<lambda>_. committing (arts_all v0 pub) v0 pub False) ?E" for present e
  proof (cases "present \<or> ?arts = []")
    case True
    have "triple (\<lambda>v. v = v0) (each commit_artifact ?arts) (\<lambda>_. committing (arts_all v0 pub) v0 pub False) ?E"
      by (rule triple_weaken [OF triple_commit_artifacts [OF wf, of "[]" ?arts v0]]) (use start finish in auto)
    with True show ?thesis by (cases present) auto
  next
    case False
    then obtain t rest where "?arts = t # rest" by (cases ?arts) auto
    with False keep [OF quiet_basic(2)] show ?thesis by (auto simp: triple_def fail_def)
  qed
  have receipt: "triple (committing (arts_all v0 pub) v0 pub False) (commit_receipt pub) (\<lambda>_. committing (arts_all v0 pub) v0 pub True) ?E"
    by (rule triple_weaken [OF triple_commit_receipt [OF blind_arts assms(2)]]) auto
  have opened: "quiet (if ?arts = [] then open_artifacts False else ret True)"
    by (simp add: quiet_open quiet_basic)
  show ?thesis
    unfolding commit_body_def
    by (rule triple_seq [OF keep [OF opened]] triple_seq [OF keep [OF quiet_basic(7)]] triple_seq [OF arts] receipt)+
qed

section \<open>Wherever a commit stops\<close>

lemma start_view:
  "v_at (view_of (start_commit s)) p name = (if quarantined name then None else lookup p name s)"
  "v_committed (view_of (start_commit s)) = []" "\<not> v_linked (view_of (start_commit s))"
  "v_temp (view_of (start_commit s)) = None"
  by (simp_all add: start_commit_def view_of_def)

lemma public_lookup: "public name \<Longrightarrow> v_at (view_of s) p name = lookup p name s"
  by (simp add: view_of_def public_visible)

lemma public_receipt: "safe_component (pub_run_id pub) \<Longrightarrow> public (published_name pub)"
  by (cases "pub_run_id pub")
    (auto simp: public_def published_name_def starts_with_def temp_prefix_def safe_component_def word_char_def)

lemma body_outcome:
  assumes "arts_wf (pub_artifacts pub)" and "safe_component (pub_run_id pub)"
    and "commit_body pub (start_commit s) = (r, s')"
  shows "case r of Inr _ \<Rightarrow> committing (arts_all (view_of (start_commit s)) pub) (view_of (start_commit s)) pub True (view_of s')
    | Inl _ \<Rightarrow> arts_stopped (view_of (start_commit s)) (pub_artifacts pub) (view_of s') \<or>
        (\<exists>linked. committing (arts_all (view_of (start_commit s)) pub) (view_of (start_commit s)) pub linked (view_of s'))"
  using triple_commit_body [OF assms(1) public_receipt [OF assms(2)] start_view(2-4), of s] assms(3)
  by (auto simp: triple_def split: sum.splits)

lemma all_published:
  assumes "arts_wf (pub_artifacts pub)" and "arts_all (view_of (start_commit s)) pub (view_of s')"
    and "(temp, target, st) \<in> set (pub_artifacts pub)"
  shows "lookup Art target s = None \<and> lookup Art temp s \<noteq> None \<and> lookup Art target s' = lookup Art temp s"
proof -
  have mem: "temp \<in> temps (pub_artifacts pub)" "target \<in> targets (pub_artifacts pub)" using in_temps [OF assms(3)] by auto
  then have names: "\<not> quarantined temp" "public target" using assms(1) by (auto simp: arts_wf_def)
  have "target \<in> set (map fst (v_committed (view_of s')))"
    using assms(2,3) unfolding arts_all_def by force
  then obtain c where "(target, c) \<in> set (v_committed (view_of s'))" by auto
  then obtain temp' st' n where n: "v_at (view_of (start_commit s)) Art target = None" "(temp', target, st') \<in> set (pub_artifacts pub)"
    "v_at (view_of (start_commit s)) Art temp' = Some n" "v_at (view_of s') Art target = Some n"
    using assms(2) unfolding arts_all_def art_inv_def by fast
  have "temp' = temp" using n(2) assms(1,3) unfolding arts_wf_def
    by (metis comp_apply distinct_map fst_conv inj_onD snd_conv)
  with n names show ?thesis by (simp add: start_view public_lookup public_visible)
qed

lemma body_receipt_complete:
  assumes "arts_wf (pub_artifacts pub)" and "safe_component (pub_run_id pub)"
    and "lookup Root (published_name pub) s = None"
    and "commit_body pub (start_commit s) = (r, s')" and "lookup Root (published_name pub) s' \<noteq> None"
  shows "committing (arts_all (view_of (start_commit s)) pub) (view_of (start_commit s)) pub True (view_of s')"
    and "\<exists>i. lookup Root (published_name pub) s' = Some (File i (pub_payload pub))"
    and "(temp, target, st) \<in> set (pub_artifacts pub) \<Longrightarrow>
       lookup Art target s = None \<and> lookup Art temp s \<noteq> None \<and> lookup Art target s' = lookup Art temp s"
proof -
  let ?v0 = "view_of (start_commit s)"
  note public = public_receipt [OF assms(2)]
  have v: "v_at ?v0 Root (published_name pub) = None" "v_at (view_of s') Root (published_name pub) \<noteq> None"
    using assms(3,5) public by (simp_all add: start_view public_lookup)
  have "\<not> arts_stopped ?v0 (pub_artifacts pub) (view_of s')" "\<not> committing (arts_all ?v0 pub) ?v0 pub False (view_of s')"
    using v by (auto simp: arts_stopped_def committing_def root_inv_def)
  then show finished: "committing (arts_all ?v0 pub) ?v0 pub True (view_of s')"
    using body_outcome [OF assms(1,2,4)] by (auto split: sum.splits) (metis (full_types))
  show "\<exists>i. lookup Root (published_name pub) s' = Some (File i (pub_payload pub))"
    using finished public by (auto simp: committing_def root_inv_def public_lookup)
  show "(temp, target, st) \<in> set (pub_artifacts pub) \<Longrightarrow>
       lookup Art target s = None \<and> lookup Art temp s \<noteq> None \<and> lookup Art target s' = lookup Art temp s"
    using all_published [OF assms(1)] finished unfolding committing_def by blast
qed

section \<open>A roll back under faults\<close>

text \<open>Whatever fails, a roll back only removes.\<close>

definition only_removed :: "view \<Rightarrow> view \<Rightarrow> bool" where
  "only_removed v0 v \<longleftrightarrow>
     (\<forall>p name. v_at v p name = v_at v0 p name \<or> v_at v p name = None) \<and>
     v_committed v = v_committed v0 \<and> v_temp v = v_temp v0 \<and> v_linked v = v_linked v0"

lemma only_removed_refl [simp]: "only_removed v v"
  by (simp add: only_removed_def)

lemma triple_sees:
  assumes "\<And>s. P (view_of s) \<Longrightarrow> \<exists>m'. m s = m' s \<and> triple P m' Q E"
  shows "triple P m Q E"
  unfolding triple_def
proof (intro allI impI)
  fix s assume P: "P (view_of s)"
  from assms [OF this] obtain m' where "m s = m' s" "triple P m' Q E" by blast
  with P show "case m s of (Inl _, s') \<Rightarrow> E (view_of s') | (Inr x, s') \<Rightarrow> Q x (view_of s')"
    unfolding triple_def by auto
qed

lemma triple_each:
  "(\<And>x. x \<in> set xs \<Longrightarrow> triple P (f x) (\<lambda>_. P) P) \<Longrightarrow> triple P (each f xs) (\<lambda>_. P) P"
proof (induction xs)
  case Nil
  show ?case by (simp add: triple_def ret_def)
next
  case (Cons x xs)
  have "triple P (seq (f x) (\<lambda>_. each f xs)) (\<lambda>_. P) P"
    by (rule triple_seq [where Q = "\<lambda>_. P"]) (use Cons in auto)
  then show ?case by simp
qed

lemma triple_removes:
  assumes "\<not> quarantined name"
  shows "triple (only_removed v0) (seq (unlink_owned p name st) (\<lambda>_. ret ())) (\<lambda>_. only_removed v0) (only_removed v0)"
proof (rule triple_seq [where Q = "\<lambda>_. only_removed v0"])
  have down: "only_removed v0 v \<Longrightarrow> only_removed v0 (place_upd p name None v)" for v
    by (auto simp: only_removed_def place_upd_def)
  show "triple (only_removed v0) (unlink_owned p name st) (\<lambda>_. only_removed v0) (only_removed v0)"
    by (rule triple_weaken [OF triple_unlink [OF assms, of "only_removed v0"]]) (use down in blast)+
qed (rule triple_quiet [OF quiet_basic(1)])

lemma triple_roll_back:
  assumes temp: "\<And>name c. v_temp v0 = Some (name, c) \<Longrightarrow> \<not> quarantined name"
    and targets: "\<And>name st. (name, st) \<in> set (v_committed v0) \<Longrightarrow> \<not> quarantined name"
    and temps: "\<And>name target st. (name, target, st) \<in> set (pub_artifacts pub) \<Longrightarrow> \<not> quarantined name"
    and receipt: "\<not> quarantined (pub_run_id pub @ ''.json'')"
  shows "triple (only_removed v0) (roll_back pub) (\<lambda>_. only_removed v0) (only_removed v0)"
proof -
  let ?R = "only_removed v0"
  note stay = triple_quiet [OF quiet_basic(1)] triple_quiet [OF quiet_basic(8)]
  have fields: "pd_temp s = v_temp v0" "pd_linked s = v_linked v0" "pd_committed s = v_committed v0"
    if "?R (view_of s)" for s
    using that by (simp_all add: only_removed_def)
  have 1: "triple ?R unlink_receipt_temp (\<lambda>_. ?R) ?R"
  proof (rule triple_sees)
    fix s assume "?R (view_of s)"
    note f = fields [OF this]
    show "\<exists>m'. unlink_receipt_temp s = m' s \<and> triple ?R m' (\<lambda>_. ?R) ?R"
    proof (cases "\<exists>name st. v_temp v0 = Some (name, Some st)")
      case True
      then obtain name st where eq: "v_temp v0 = Some (name, Some st)" by blast
      then have "unlink_receipt_temp s = seq (unlink_owned Root name st) (\<lambda>_. ret ()) s"
        by (simp add: unlink_receipt_temp_def f)
      with triple_removes [OF temp [OF eq], of v0 Root st] show ?thesis by (intro exI conjI)
    next
      case False
      then have "unlink_receipt_temp s = ret () s"
        by (auto simp: unlink_receipt_temp_def f split: option.splits)
      with stay(1) [of ?R "()"] show ?thesis by (intro exI conjI)
    qed
  qed
  have 2: "triple ?R (unlink_receipt (pub_run_id pub @ ''.json'')) (\<lambda>_. ?R) ?R"
  proof (rule triple_sees)
    fix s assume "?R (view_of s)"
    note f = fields [OF this]
    show "\<exists>m'. unlink_receipt (pub_run_id pub @ ''.json'') s = m' s \<and> triple ?R m' (\<lambda>_. ?R) ?R"
    proof (cases "\<exists>name st. v_temp v0 = Some (name, Some st) \<and> v_linked v0")
      case True
      then obtain name st where "v_temp v0 = Some (name, Some st)" "v_linked v0" by blast
      then have "unlink_receipt (pub_run_id pub @ ''.json'') s =
          seq (unlink_owned Root (pub_run_id pub @ ''.json'') st) (\<lambda>_. ret ()) s"
        by (simp add: unlink_receipt_def f)
      with triple_removes [OF receipt, of v0 Root st] show ?thesis by (intro exI conjI)
    next
      case False
      then have "unlink_receipt (pub_run_id pub @ ''.json'') s = ret () s"
        by (auto simp: unlink_receipt_def f split: option.splits)
      with stay(1) [of ?R "()"] show ?thesis by (intro exI conjI)
    qed
  qed
  have 3: "triple ?R unlink_committed (\<lambda>_. ?R) ?R"
  proof (rule triple_sees)
    fix s assume "?R (view_of s)"
    note f = fields [OF this]
    have "triple ?R (each (\<lambda>(target, st). seq (unlink_owned Art target st) (\<lambda>_. ret ())) (rev (v_committed v0))) (\<lambda>_. ?R) ?R"
      by (rule triple_each) (use targets triple_removes in auto)
    then show "\<exists>m'. unlink_committed s = m' s \<and> triple ?R m' (\<lambda>_. ?R) ?R"
      unfolding unlink_committed_def f by blast
  qed
  have 4: "triple ?R (unlink_temporaries (pub_artifacts pub)) (\<lambda>_. ?R) ?R"
    unfolding unlink_temporaries_def by (rule triple_each) (use temps triple_removes in auto)
  have 5: "triple ?R (\<lambda>s. seq (case pd_artifacts s of
            Artifacts _ \<Rightarrow> seq unlink_committed (\<lambda>_. seq (unlink_temporaries (pub_artifacts pub)) (\<lambda>_. fsync))
          | _ \<Rightarrow> ret ()) (\<lambda>_. fsync) s) (\<lambda>_. ?R) ?R"
  proof (rule triple_sees)
    fix s :: receipt_dir
    have "triple ?R (seq (case pd_artifacts s of
            Artifacts _ \<Rightarrow> seq unlink_committed (\<lambda>_. seq (unlink_temporaries (pub_artifacts pub)) (\<lambda>_. fsync))
          | _ \<Rightarrow> ret ()) (\<lambda>_. fsync)) (\<lambda>_. ?R) ?R"
      using triple_seq [OF 3 triple_seq [OF 4 stay(2)]]
      by (cases "pd_artifacts s") (auto intro: triple_seq stay)
    then show "\<exists>m'. seq (case pd_artifacts s of
            Artifacts _ \<Rightarrow> seq unlink_committed (\<lambda>_. seq (unlink_temporaries (pub_artifacts pub)) (\<lambda>_. fsync))
          | _ \<Rightarrow> ret ()) (\<lambda>_. fsync) s = m' s \<and> triple ?R m' (\<lambda>_. ?R) ?R" by blast
  qed
  show ?thesis unfolding roll_back_def by (rule triple_seq [OF 1 triple_seq [OF 2 5]])
qed

lemma body_names:
  assumes "arts_wf (pub_artifacts pub)" and "safe_component (pub_run_id pub)"
    and "commit_body pub (start_commit s) = (b, s1)"
  shows "v_temp (view_of s1) = Some (name, c) \<Longrightarrow> \<not> quarantined name"
    and "(name, st) \<in> set (v_committed (view_of s1)) \<Longrightarrow> \<not> quarantined name"
    and "(name, target, st) \<in> set (pub_artifacts pub) \<Longrightarrow> \<not> quarantined name"
    and "\<not> quarantined (pub_run_id pub @ ''.json'')"
proof -
  let ?v0 = "view_of (start_commit s)"
  have state: "arts_stopped ?v0 (pub_artifacts pub) (view_of s1) \<or>
      (\<exists>linked. committing (arts_all ?v0 pub) ?v0 pub linked (view_of s1))"
    using body_outcome [OF assms] by (cases b) auto
  then show "v_temp (view_of s1) = Some (name, c) \<Longrightarrow> \<not> quarantined name"
    by (auto simp: arts_stopped_def committing_def root_inv_def)
  obtain extra where "art_inv ?v0 (pub_artifacts pub) extra (view_of s1)"
    using state by (auto simp: arts_stopped_def committing_def arts_all_def)
  then have committed: "\<exists>temp st0. (temp, name, st0) \<in> set (pub_artifacts pub)"
    if "(name, st) \<in> set (v_committed (view_of s1))"
    using that unfolding art_inv_def by fast
  show "(name, st) \<in> set (v_committed (view_of s1)) \<Longrightarrow> \<not> quarantined name"
    using committed in_temps assms(1) public_visible unfolding arts_wf_def by blast
  show "(name, target, st) \<in> set (pub_artifacts pub) \<Longrightarrow> \<not> quarantined name"
    using assms(1) in_temps by (auto simp: arts_wf_def)
  show "\<not> quarantined (pub_run_id pub @ ''.json'')"
    using public_visible [OF public_receipt [OF assms(2)]] by (simp add: published_name_def)
qed

text \<open>
  C30: The receipt is published last. When the steps of a commit stop, at their end or because an
  operation failed, and before any roll back, a receipt that is there and was not there before has
  exactly its payload, and all its artifacts are there, each the file of its temporary under a name
  that was free. A commit as a whole, its roll back included and whatever fails in it, leaves such
  a receipt only with exactly its payload, and with all those artifacts if it returns; if it
  raises, the roll back may have removed some of them but has changed none.
\<close>
theorem receipt_is_published_last:
  assumes "arts_wf (pub_artifacts pub)" and "safe_component (pub_run_id pub)"
    and "lookup Root (published_name pub) s = None"
    and "commit_body pub (start_commit s) = (b, s1)" and "commit_publication pub s = (r, s')"
  shows "(lookup Root (published_name pub) s1 \<noteq> None \<longrightarrow>
      (\<exists>i. lookup Root (published_name pub) s1 = Some (File i (pub_payload pub))) \<and>
      (\<forall>(temp, target, st) \<in> set (pub_artifacts pub).
         lookup Art target s = None \<and> lookup Art temp s \<noteq> None \<and> lookup Art target s1 = lookup Art temp s)) \<and>
    (lookup Root (published_name pub) s' \<noteq> None \<longrightarrow>
      (\<exists>i. lookup Root (published_name pub) s' = Some (File i (pub_payload pub))) \<and>
      (\<forall>(temp, target, st) \<in> set (pub_artifacts pub).
         lookup Art target s = None \<and> lookup Art temp s \<noteq> None \<and>
         (lookup Art target s' = lookup Art temp s \<or> isl r \<and> lookup Art target s' = None)))"
proof -
  note body = body_receipt_complete [OF assms(1-4)]
  note public = public_receipt [OF assms(2)]
  have down: "only_removed (view_of s1) (view_of s')"
  proof (cases b)
    case (Inr u)
    with assms(4,5) show ?thesis by (simp add: commit_publication_def on_error_def)
  next
    case (Inl e)
    then have s': "s' = snd (roll_back pub s1)"
      using assms(4,5) by (auto simp: commit_publication_def on_error_def split: prod.splits sum.splits)
    have "triple (only_removed (view_of s1)) (roll_back pub) (\<lambda>_. only_removed (view_of s1)) (only_removed (view_of s1))"
      by (rule triple_roll_back [OF body_names [OF assms(1,2,4)]])
    then show ?thesis unfolding s' triple_def
      by (cases "roll_back pub s1") (auto split: sum.splits dest!: spec [of _ s1])
  qed
  have shrunk: "lookup p name s' = lookup p name s1 \<or> lookup p name s' = None"
    if "public name" for p name
    using down that by (simp add: only_removed_def public_lookup [symmetric])
  have same: "s' = s1" if "\<not> isl r"
    using that assms(4,5)
    by (cases b) (auto simp: commit_publication_def on_error_def split: prod.splits sum.splits)
  have visible: "lookup Root (published_name pub) s1 \<noteq> None" if "lookup Root (published_name pub) s' \<noteq> None"
    using that shrunk [OF public, of Root] by auto
  have goal2: "(\<exists>i. lookup Root (published_name pub) s' = Some (File i (pub_payload pub))) \<and>
      (\<forall>(temp, target, st) \<in> set (pub_artifacts pub).
         lookup Art target s = None \<and> lookup Art temp s \<noteq> None \<and>
         (lookup Art target s' = lookup Art temp s \<or> isl r \<and> lookup Art target s' = None))"
    if kept: "lookup Root (published_name pub) s' \<noteq> None"
  proof (intro conjI ballI)
    note v = visible [OF kept]
    show "\<exists>i. lookup Root (published_name pub) s' = Some (File i (pub_payload pub))"
      using body(2) [OF v] shrunk [OF public, of Root] kept by auto
    fix t assume t: "t \<in> set (pub_artifacts pub)"
    obtain temp target st where eq: "t = (temp, target, st)" by (cases t)
    have "public target" using t in_temps assms(1) unfolding eq by (fastforce simp: arts_wf_def)
    with body(3) [OF v t [unfolded eq]] shrunk [of target Art] same
    show "case t of (temp, target, st) \<Rightarrow> lookup Art target s = None \<and> lookup Art temp s \<noteq> None \<and>
         (lookup Art target s' = lookup Art temp s \<or> isl r \<and> lookup Art target s' = None)"
      unfolding eq prod.case by metis
  qed
  show ?thesis using body(2,3) goal2 by blast
qed

section \<open>Rolling back\<close>

text \<open>An operation on a file system that does not fail: a value, and a function of the view.\<close>

definition calm :: "'a file_op \<Rightarrow> (view \<Rightarrow> view) \<Rightarrow> bool" where
  "calm m f \<longleftrightarrow> (\<forall>s. pd_faults s = [] \<longrightarrow>
     (\<exists>x s'. m s = (Inr x, s') \<and> pd_faults s' = [] \<and> view_of s' = f (view_of s)))"

definition unlink_eff :: "place \<Rightarrow> string \<Rightarrow> file_stat \<Rightarrow> view \<Rightarrow> view" where
  "unlink_eff p name st v =
     (if \<exists>n. v_at v p name = Some n \<and> stat_of n = Some st then place_upd p name None v else v)"

lemma calm_ret: "calm (ret x) (\<lambda>v. v)"
  by (simp add: calm_def ret_def)

lemma calm_seq:
  assumes "calm m f" and "\<And>x. calm (k x) g"
  shows "calm (seq m k) (\<lambda>v. g (f v))"
  unfolding calm_def
proof (intro allI impI)
  fix s :: receipt_dir
  assume "pd_faults s = []"
  with assms(1) obtain x s1 where s1: "m s = (Inr x, s1)" "pd_faults s1 = []" "view_of s1 = f (view_of s)"
    unfolding calm_def by blast
  with assms(2) [of x] show "\<exists>x s'. seq m k s = (Inr x, s') \<and> pd_faults s' = [] \<and> view_of s' = g (f (view_of s))"
    unfolding calm_def by (metis seq_Inr)
qed

lemma calm_cases:
  "(\<And>s. \<exists>m f'. calm m f' \<and> c s = m s \<and> f (view_of s) = f' (view_of s)) \<Longrightarrow> calm c f"
  unfolding calm_def by metis

lemma step_calm: "pd_faults s = [] \<Longrightarrow> step e s = (Inr (), s)"
  by (simp add: step_def)

lemma calm_fsync: "calm fsync (\<lambda>v. v)"
  by (simp add: calm_def fsync_def step_calm)

lemma faults_entries [simp]:
  "pd_faults (snd (put_entry p name n s)) = pd_faults s" "pd_faults (snd (drop_entry p name s)) = pd_faults s"
  by (simp_all add: put_entry_def drop_entry_def)

lemma calm_unlink: "calm (unlink_owned p name st) (unlink_eff p name st)"
  unfolding calm_def
proof (intro allI impI)
  fix s :: receipt_dir
  assume s: "pd_faults s = []"
  have stat: "stat_entry p name' s' = (Inr (lookup p name' s'), s')" if "pd_faults s' = []" for name' s'
    using that by (simp add: stat_entry_def seq_def step_calm get_entry_def)
  show "\<exists>x s'. unlink_owned p name st s = (Inr x, s') \<and> pd_faults s' = [] \<and> view_of s' = unlink_eff p name st (view_of s)"
  proof (cases "\<exists>n. lookup p name s = Some n \<and> stat_of n = Some st")
    case False
    then have "unlink_owned p name st s = (Inr False, s)"
      by (auto simp: unlink_owned_def seq_def stat [OF s] ret_def)
    moreover have "unlink_eff p name st (view_of s) = view_of s" using False by (auto simp: unlink_eff_def view_of_def)
    ultimately show ?thesis using s by (intro exI conjI) auto
  next
    case True
    then obtain n where n: "lookup p name s = Some n" "stat_of n = Some st" by blast
    define q where "q = quarantine_prefix @ nat_str (pd_next_name s) @ ''.tmp''"
    define s2 where "s2 = s\<lparr>pd_next_name := pd_next_name s + 1\<rparr>"
    define s4 where "s4 = snd (put_entry p q n (snd (drop_entry p name s2)))"
    have q: "quarantined q" by (simp add: q_def quarantined_def)
    have s4: "pd_faults s4 = []" "lookup p q s4 = Some n" using s by (simp_all add: s4_def s2_def lookup_put)
    have a1: "stat_entry p name s = (Inr (Some n), s)" using stat [OF s] n by simp
    have a2: "fresh_name quarantine_prefix s = (Inr q, s2)" by (simp add: fresh_name_def q_def s2_def)
    have a3: "always (seq (step os_failure) (\<lambda>_. seq (drop_entry p name) (\<lambda>_. put_entry p q n)))
        (\<lambda>_. True) (\<lambda>_. False) s2 = (Inr True, s4)"
      using s by (simp add: always_def seq_def step_calm s2_def s4_def drop_entry_def put_entry_def)
    have a4: "stat_entry p q s4 = (Inr (Some n), s4)" using stat [OF s4(1)] s4(2) by simp
    have a5: "step os_failure s4 = (Inr (), s4)" using s4(1) by (rule step_calm)
    have "unlink_owned p name st s = (Inr True, snd (drop_entry p q s4))"
      by (simp add: unlink_owned_def seq_Inr [of "stat_entry p name", OF a1] seq_Inr [of "fresh_name _", OF a2]
          seq_Inr [of "always _ _ _", OF a3] seq_Inr [of "stat_entry p q", OF a4] seq_Inr [of "step _", OF a5] n ret_def)
    moreover have "view_of (snd (drop_entry p q s4)) = unlink_eff p name st (view_of s)"
      using n q by (auto simp: view_drop view_put s4_def s2_def unlink_eff_def) (auto simp: view_of_def)
    ultimately show ?thesis using s4(1) by (intro exI conjI) auto
  qed
qed

definition unlink_all :: "(string \<times> file_stat) list \<Rightarrow> view \<Rightarrow> view" where
  "unlink_all xs v = foldl (\<lambda>v (name, st). unlink_eff Art name st v) v xs"

lemma unlink_all_simps [simp]:
  "unlink_all [] v = v" "unlink_all ((name, st) # xs) v = unlink_all xs (unlink_eff Art name st v)"
  by (simp_all add: unlink_all_def)

lemma unlink_eff_simps [simp]:
  "v_committed (unlink_eff p name st v) = v_committed v" "v_temp (unlink_eff p name st v) = v_temp v"
  "v_linked (unlink_eff p name st v) = v_linked v"
  by (simp_all add: unlink_eff_def)

lemma unlink_eff_other: "p' \<noteq> p \<or> name' \<noteq> name \<Longrightarrow> v_at (unlink_eff p name st v) p' name' = v_at v p' name'"
  by (auto simp: unlink_eff_def)

lemma unlink_all_root: "v_at (unlink_all xs v) Root = v_at v Root"
  by (induction xs arbitrary: v) (auto simp: unlink_eff_def)

lemma unlink_all_other: "name \<notin> fst ` set xs \<Longrightarrow> v_at (unlink_all xs v) Art name = v_at v Art name"
  by (induction xs arbitrary: v) (auto simp: unlink_eff_other)

lemma unlink_all_None: "v_at v Art name = None \<Longrightarrow> v_at (unlink_all xs v) Art name = None"
  by (induction xs arbitrary: v) (auto simp: unlink_eff_def)

lemma unlink_all_removes:
  "(name, st) \<in> set xs \<Longrightarrow> v_at v Art name = Some n \<Longrightarrow> stat_of n = Some st \<Longrightarrow>
     v_at (unlink_all xs v) Art name = None"
proof (induction xs arbitrary: v)
  case (Cons x xs)
  obtain name' st' where x: "x = (name', st')" by (cases x) auto
  show ?case
  proof (cases "v_at (unlink_eff Art name' st' v) Art name")
    case None
    then show ?thesis using unlink_all_None by (simp add: x)
  next
    case (Some m)
    then have "m = n" using Cons.prems(2) by (auto simp: unlink_eff_def split: if_splits)
    moreover have "(name, st) \<noteq> (name', st')"
      using Some Cons.prems(2,3) by (auto simp: unlink_eff_def split: if_splits)
    ultimately show ?thesis using Cons Some by (auto simp: x)
  qed
qed simp

lemma unlink_all_absent: "v_at v Art = (\<lambda>_. None) \<Longrightarrow> unlink_all xs v = v"
  by (induction xs) (auto simp: unlink_eff_def)

lemma calm_each:
  "calm (each (\<lambda>(name, st). seq (unlink_owned Art name st) (\<lambda>_. ret ())) xs) (unlink_all xs)"
proof (induction xs)
  case Nil
  show ?case using calm_ret by (simp add: unlink_all_def)
next
  case (Cons x xs)
  obtain name st where x: "x = (name, st)" by (cases x) auto
  have "calm (seq (unlink_owned Art name st) (\<lambda>_. ret ())) (unlink_eff Art name st)"
    by (rule calm_seq [OF calm_unlink calm_ret])
  from calm_seq [OF this Cons.IH] show ?case by (simp add: x)
qed

definition roll_back_eff :: "publication \<Rightarrow> view \<Rightarrow> view" where
  "roll_back_eff pub v =
     (let v1 = (case v_temp v of Some (temp, Some st) \<Rightarrow> unlink_eff Root temp st v | _ \<Rightarrow> v);
          v2 = (case v_temp v of Some (_, Some st) \<Rightarrow>
                  if v_linked v then unlink_eff Root (published_name pub) st v1 else v1 | _ \<Rightarrow> v1)
      in unlink_all (map (\<lambda>(temp, _, st). (temp, st)) (pub_artifacts pub))
           (unlink_all (rev (v_committed v)) v2))"

lemma calm_roll_back: "calm (roll_back pub) (roll_back_eff pub)"
proof -
  have gone: "calm (seq (unlink_owned p name st) (\<lambda>_. ret ())) (unlink_eff p name st)" for p name st
    by (rule calm_seq [OF calm_unlink calm_ret])
  have temp: "calm unlink_receipt_temp
      (\<lambda>v. case v_temp v of Some (temp, Some st) \<Rightarrow> unlink_eff Root temp st v | _ \<Rightarrow> v)"
    by (rule calm_cases) (auto simp: unlink_receipt_temp_def intro: gone calm_ret split: option.splits)
  have receipt: "calm (unlink_receipt (published_name pub))
      (\<lambda>v. case v_temp v of Some (_, Some st) \<Rightarrow>
         if v_linked v then unlink_eff Root (published_name pub) st v else v | _ \<Rightarrow> v)"
    by (rule calm_cases) (auto simp: unlink_receipt_def intro: gone calm_ret split: option.splits)
  have committed: "calm unlink_committed (\<lambda>v. unlink_all (rev (v_committed v)) v)"
    by (rule calm_cases) (auto simp: unlink_committed_def intro: calm_each)
  have "unlink_temporaries arts = each (\<lambda>(name, st). seq (unlink_owned Art name st) (\<lambda>_. ret ()))
      (map (\<lambda>(temp, _, st). (temp, st)) arts)" for arts
    by (induction arts) (auto simp: unlink_temporaries_def)
  then have temporaries: "calm (unlink_temporaries arts) (unlink_all (map (\<lambda>(temp, _, st). (temp, st)) arts))" for arts
    using calm_each by simp
  let ?arts = "map (\<lambda>(temp, _, st). (temp, st)) (pub_artifacts pub)"
  have artifacts: "calm (\<lambda>s. seq (case pd_artifacts s of
            Artifacts _ \<Rightarrow> seq unlink_committed (\<lambda>_. seq (unlink_temporaries (pub_artifacts pub)) (\<lambda>_. fsync))
          | _ \<Rightarrow> ret ()) (\<lambda>_. fsync) s) (\<lambda>v. unlink_all ?arts (unlink_all (rev (v_committed v)) v))"
  proof (rule calm_cases)
    fix s :: receipt_dir
    show "\<exists>m f. calm m f \<and> seq (case pd_artifacts s of
            Artifacts _ \<Rightarrow> seq unlink_committed (\<lambda>_. seq (unlink_temporaries (pub_artifacts pub)) (\<lambda>_. fsync))
          | _ \<Rightarrow> ret ()) (\<lambda>_. fsync) s = m s \<and>
        unlink_all ?arts (unlink_all (rev (v_committed (view_of s))) (view_of s)) = f (view_of s)"
    proof (cases "\<exists>e. pd_artifacts s = Artifacts e")
      case True
      let ?m = "seq (seq unlink_committed (\<lambda>_. seq (unlink_temporaries (pub_artifacts pub)) (\<lambda>_. fsync))) (\<lambda>_. fsync)"
      have "calm ?m (\<lambda>v. unlink_all ?arts (unlink_all (rev (v_committed v)) v))"
        by (rule calm_seq [OF calm_seq [OF committed calm_seq [OF temporaries calm_fsync]] calm_fsync])
      then show ?thesis using True
        by (intro exI [of _ ?m] exI [of _ "\<lambda>v. unlink_all ?arts (unlink_all (rev (v_committed v)) v)"]) auto
    next
      case False
      then have "v_at (view_of s) Art = (\<lambda>_. None)" and none: "(case pd_artifacts s of
            Artifacts _ \<Rightarrow> seq unlink_committed (\<lambda>_. seq (unlink_temporaries (pub_artifacts pub)) (\<lambda>_. fsync))
          | _ \<Rightarrow> ret ()) = ret ()"
        by (auto simp: view_of_def lookup_def fun_eq_iff split: artifact_dir.splits)
      then have "unlink_all ?arts (unlink_all (rev (v_committed (view_of s))) (view_of s)) = view_of s"
        by (simp add: unlink_all_absent)
      with none calm_fsync show ?thesis by (intro exI [of _ fsync] exI [of _ "\<lambda>v. v"]) auto
    qed
  qed
  have eff: "roll_back_eff pub = (\<lambda>v. (\<lambda>v. unlink_all ?arts (unlink_all (rev (v_committed v)) v))
      ((\<lambda>v. case v_temp v of Some (_, Some st) \<Rightarrow>
         if v_linked v then unlink_eff Root (published_name pub) st v else v | _ \<Rightarrow> v)
       ((\<lambda>v. case v_temp v of Some (temp, Some st) \<Rightarrow> unlink_eff Root temp st v | _ \<Rightarrow> v) v)))"
    by (auto simp: roll_back_eff_def Let_def fun_eq_iff split: option.splits)
  show ?thesis
    unfolding roll_back_def eff published_name_def [symmetric]
    by (rule calm_seq [OF temp]) (rule calm_seq [OF receipt artifacts])
qed

lemma art_rolls_back:
  assumes wf: "arts_wf (pub_artifacts pub)" and inv: "art_inv v0 (pub_artifacts pub) extra v"
    and "public name" and "Some name \<noteq> extra" and w: "v_at w Art = v_at v Art"
  shows "v_at (unlink_all (map (\<lambda>(temp, _, st). (temp, st)) (pub_artifacts pub)) (unlink_all (rev (v_committed v)) w)) Art name
    = v_at v0 Art name"
proof -
  have "name \<notin> temps (pub_artifacts pub)" using wf assms(3) by (auto simp: arts_wf_def)
  moreover have "fst ` set (map (\<lambda>(temp, _, st). (temp, st)) (pub_artifacts pub)) = temps (pub_artifacts pub)"
    by (force simp: temps_def)
  ultimately have t: "v_at (unlink_all (map (\<lambda>(temp, _, st). (temp, st)) (pub_artifacts pub)) u) Art name = v_at u Art name" for u
    by (intro unlink_all_other) simp
  show ?thesis
  proof (cases "name \<in> fst ` set (v_committed v)")
    case True
    then obtain st where st: "(name, st) \<in> set (v_committed v)" by auto
    then obtain n where "v_at v0 Art name = None" "v_at v Art name = Some n" "stat_of n = Some st"
      using inv unfolding art_inv_def by fast
    moreover from this st have "v_at (unlink_all (rev (v_committed v)) w) Art name = None"
      using w by (intro unlink_all_removes [of name st]) auto
    ultimately show ?thesis using t by simp
  next
    case False
    then have "v_at (unlink_all (rev (v_committed v)) w) Art name = v_at v Art name"
      using w by (subst unlink_all_other) auto
    moreover have "v_at v Art name = v_at v0 Art name"
      using inv False assms(3,4) \<open>name \<notin> temps _\<close> unfolding art_inv_def by blast
    ultimately show ?thesis using t by simp
  qed
qed

lemma stopped_rolls_back:
  assumes "arts_wf (pub_artifacts pub)" and "arts_stopped v0 (pub_artifacts pub) v"
  shows "v_at (roll_back_eff pub v) Root = v_at v0 Root"
    and "\<exists>extra. (\<forall>t. extra = Some t \<longrightarrow> t \<in> targets (pub_artifacts pub) \<and> v_at v0 Art t = None) \<and>
      (\<forall>name. public name \<and> Some name \<noteq> extra \<longrightarrow> v_at (roll_back_eff pub v) Art name = v_at v0 Art name)"
proof -
  have eff: "roll_back_eff pub v = unlink_all (map (\<lambda>(temp, _, st). (temp, st)) (pub_artifacts pub))
      (unlink_all (rev (v_committed v)) v)" "v_at v Root = v_at v0 Root"
    using assms(2) by (simp_all add: arts_stopped_def roll_back_eff_def)
  then show "v_at (roll_back_eff pub v) Root = v_at v0 Root" by (simp add: unlink_all_root)
  obtain extra where inv: "art_inv v0 (pub_artifacts pub) extra v" using assms(2) by (auto simp: arts_stopped_def)
  show "\<exists>extra. (\<forall>t. extra = Some t \<longrightarrow> t \<in> targets (pub_artifacts pub) \<and> v_at v0 Art t = None) \<and>
      (\<forall>name. public name \<and> Some name \<noteq> extra \<longrightarrow> v_at (roll_back_eff pub v) Art name = v_at v0 Art name)"
    using inv art_rolls_back [OF assms(1) inv] unfolding eff art_inv_def by blast
qed

lemma committing_rolls_back:
  assumes "arts_wf (pub_artifacts pub)" and "committing (arts_all v0 pub) v0 pub linked v" and "public name"
  shows "v_at (roll_back_eff pub v) p name = v_at v0 p name"
proof -
  let ?v1 = "case v_temp v of Some (temp, Some st) \<Rightarrow> unlink_eff Root temp st v | _ \<Rightarrow> v"
  let ?v2 = "case v_temp v of Some (_, Some st) \<Rightarrow>
      if v_linked v then unlink_eff Root (published_name pub) st ?v1 else ?v1 | _ \<Rightarrow> ?v1"
  have inv: "art_inv v0 (pub_artifacts pub) None v" and root: "root_inv v0 pub v"
    using assms(2) by (auto simp: committing_def arts_all_def)
  have eff: "roll_back_eff pub v = unlink_all (map (\<lambda>(temp, _, st). (temp, st)) (pub_artifacts pub))
      (unlink_all (rev (v_committed v)) ?v2)"
    by (simp add: roll_back_eff_def Let_def)
  have other: "v_at ?v1 Root name' = v_at v Root name'" if "public name'" for name'
    using that root by (auto simp: root_inv_def split: option.splits intro!: unlink_eff_other)
  show ?thesis
  proof (cases p)
    case Art
    have "v_at ?v2 Art = v_at v Art" by (auto simp: unlink_eff_def split: option.splits)
    then show ?thesis using art_rolls_back [OF assms(1) inv assms(3)] by (simp add: eff Art)
  next
    case Root
    have "v_at ?v2 Root name = v_at v0 Root name"
    proof (cases "name = published_name pub \<and> v_linked v")
      case True
      then obtain temp i where v: "v_at v0 Root name = None" "v_temp v = Some (temp, Some (i, length (pub_payload pub)))"
        "v_at v Root name = Some (File i (pub_payload pub))" using root by (auto simp: root_inv_def)
      with True other [OF assms(3)] show ?thesis by (auto simp: unlink_eff_def)
    next
      case False
      then have "v_at ?v2 Root name = v_at ?v1 Root name" by (auto simp: unlink_eff_other split: option.splits)
      moreover have "v_at v Root name = v_at v0 Root name" using False root assms(3) by (auto simp: root_inv_def split: if_splits)
      ultimately show ?thesis using other [OF assms(3)] by simp
    qed
    then show ?thesis by (simp add: eff Root unlink_all_root)
  qed
qed

lemma committed_publication:
  assumes "arts_wf (pub_artifacts pub)" and "safe_component (pub_run_id pub)"
    and "committing (arts_all (view_of (start_commit s)) pub) (view_of (start_commit s)) pub True (view_of s')"
  shows "(\<exists>i. lookup Root (published_name pub) s' = Some (File i (pub_payload pub))) \<and>
    (\<forall>(temp, target, st) \<in> set (pub_artifacts pub). lookup Art target s' = lookup Art temp s) \<and>
    (\<forall>name. public name \<and> name \<noteq> published_name pub \<longrightarrow> lookup Root name s' = lookup Root name s) \<and>
    (\<forall>name. public name \<and> name \<notin> targets (pub_artifacts pub) \<longrightarrow> lookup Art name s' = lookup Art name s)"
proof (intro conjI allI impI)
  let ?v0 = "view_of (start_commit s)"
  have at0: "v_at ?v0 p name = lookup p name s" if "public name" for p name
    using that by (simp add: start_view public_visible)
  have parts: "arts_all ?v0 pub (view_of s')" "art_inv ?v0 (pub_artifacts pub) None (view_of s')"
    "root_inv ?v0 pub (view_of s')" "v_linked (view_of s')"
    using assms(3) by (simp_all add: committing_def arts_all_def)
  have mine: "name \<notin> temps (pub_artifacts pub)" if "public name" for name
    using that assms(1) by (auto simp: arts_wf_def)
  show "\<exists>i. lookup Root (published_name pub) s' = Some (File i (pub_payload pub))"
    using parts(3,4) public_receipt [OF assms(2)] by (auto simp: root_inv_def public_lookup)
  show "\<forall>(temp, target, st) \<in> set (pub_artifacts pub). lookup Art target s' = lookup Art temp s"
    using all_published [OF assms(1) parts(1)] by blast
  show "lookup Root name s' = lookup Root name s" if "public name \<and> name \<noteq> published_name pub" for name
    using parts(3) that at0 [of name Root] public_lookup [of name s' Root] by (simp add: root_inv_def)
  show "lookup Art name s' = lookup Art name s" if "public name \<and> name \<notin> targets (pub_artifacts pub)" for name
    using parts(2) that mine [of name] at0 [of name Art] public_lookup [of name s' Art] by (simp add: art_inv_def)
qed

text \<open>
  C29: A publication is all or nothing. If a commit raises and its roll back meets no further
  failure, then every name of the directory is as it was, temporaries apart, and so is every name of
  the artifact directory, except for at most one artifact of this publication that the roll back
  does not know. If the commit returns, then the receipt and all artifacts are in place and every
  other name is as it was.
\<close>
theorem publication_all_or_nothing:
  assumes "arts_wf (pub_artifacts pub)" and "safe_component (pub_run_id pub)"
    and "commit_publication pub s = (r, s')"
  shows "case r of
      Inl _ \<Rightarrow> pd_faults (snd (commit_body pub (start_commit s))) = [] \<longrightarrow>
        (\<forall>name. public name \<longrightarrow> lookup Root name s' = lookup Root name s) \<and>
        (\<exists>extra. (\<forall>t. extra = Some t \<longrightarrow> t \<in> targets (pub_artifacts pub) \<and> lookup Art t s = None) \<and>
           (\<forall>name. public name \<and> Some name \<noteq> extra \<longrightarrow> lookup Art name s' = lookup Art name s))
    | Inr _ \<Rightarrow> (\<exists>i. lookup Root (published_name pub) s' = Some (File i (pub_payload pub))) \<and>
        (\<forall>(temp, target, st) \<in> set (pub_artifacts pub). lookup Art target s' = lookup Art temp s) \<and>
        (\<forall>name. public name \<and> name \<noteq> published_name pub \<longrightarrow> lookup Root name s' = lookup Root name s) \<and>
        (\<forall>name. public name \<and> name \<notin> targets (pub_artifacts pub) \<longrightarrow> lookup Art name s' = lookup Art name s)"
proof -
  let ?v0 = "view_of (start_commit s)"
  obtain b s1 where body: "commit_body pub (start_commit s) = (b, s1)" by fastforce
  note outcome = body_outcome [OF assms(1,2) body]
  have at0: "v_at ?v0 p name = lookup p name s" if "public name" for p name
    using that by (simp add: start_view public_visible)
  show ?thesis
  proof (cases b)
    case (Inr u)
    then have eqs: "r = Inr u" "s' = s1"
      using assms(3) body by (auto simp: commit_publication_def on_error_def)
    have "committing (arts_all ?v0 pub) ?v0 pub True (view_of s')" using outcome Inr eqs by simp
    from committed_publication [OF assms(1,2) this] show ?thesis by (simp add: eqs)
  next
    case (Inl e)
    show ?thesis
    proof (cases "pd_faults s1 = []")
      case True
      then obtain x s2 where s2: "roll_back pub s1 = (Inr x, s2)" "view_of s2 = roll_back_eff pub (view_of s1)"
        using calm_roll_back [of pub] unfolding calm_def by blast
      then have eqs: "r = Inl e" "s' = s2"
        using assms(3) body Inl by (auto simp: commit_publication_def on_error_def)
      have at: "v_at (roll_back_eff pub (view_of s1)) p name = lookup p name s'" if "public name" for p name
        using public_lookup [OF that, of s2 p] s2(2) eqs by simp
      from outcome Inl consider "arts_stopped ?v0 (pub_artifacts pub) (view_of s1)"
        | linked where "committing (arts_all ?v0 pub) ?v0 pub linked (view_of s1)" by auto
      then show ?thesis
      proof cases
        case 1
        have t: "public t" if "t \<in> targets (pub_artifacts pub)" for t using that assms(1) by (simp add: arts_wf_def)
        show ?thesis
          using stopped_rolls_back [OF assms(1) 1] at at0 t unfolding eqs(1) by (simp add: fun_eq_iff) metis
      next
        case 2
        have "lookup p name s' = lookup p name s" if "public name" for p name
          using committing_rolls_back [OF assms(1) 2 that] at [OF that] at0 [OF that] by metis
        then show ?thesis by (auto simp: eqs(1) intro: exI [of _ None])
      qed
    next
      case False
      then show ?thesis
        using assms(3) body Inl by (auto simp: commit_publication_def on_error_def split: prod.splits sum.splits)
    qed
  qed
qed

section \<open>A concrete publication\<close>

definition demo_publication :: publication where
  "demo_publication = \<lparr>pub_run_id = ''r1'', pub_payload = ''{}'',
     pub_artifacts = [(''.btb-repeat-7.tmp'', ''r1.trace.zip'', (3, 2))]\<rparr>"

definition demo_directory :: "nat option list \<Rightarrow> receipt_dir" where
  "demo_directory faults = \<lparr>pd_root = [], pd_artifacts = Artifacts [(''.btb-repeat-7.tmp'', File 3 ''ab'')],
     pd_next_inode = 9, pd_next_name = 8, pd_faults = faults, pd_committed = [], pd_temp = None, pd_linked = False\<rparr>"

lemma demo_publication_wf:
  "arts_wf (pub_artifacts demo_publication)" "safe_component (pub_run_id demo_publication)"
  "published_name demo_publication = ''r1.json''"
  by (simp add: demo_publication_def arts_wf_def temps_def targets_def public_def quarantined_def starts_with_def
      temp_prefix_def quarantine_prefix_def)
    (code_simp, simp add: demo_publication_def published_name_def)

text \<open>The roll back misses an artifact that was linked and could not be observed.\<close>

lemma roll_back_misses_an_artifact:
  "case commit_publication demo_publication (demo_directory (replicate 4 None @ [Some 0])) of
     (Inl _, s) \<Rightarrow> lookup Root ''r1.json'' s = None \<and> lookup Art ''r1.trace.zip'' s = Some (File 3 ''ab'')
   | _ \<Rightarrow> False"
  by code_simp

text \<open>
  A receipt that outlives its artifact: the synchronization after the receipt was linked fails, and
  so does moving the receipt away in the roll back, which goes on to remove the artifact.
\<close>

definition demo_faults :: "nat option list" where
  "demo_faults = replicate 28 None @ [Some 0] @ replicate 2 None @ [Some 0]"

lemma roll_back_leaves_a_receipt:
  "case commit_publication demo_publication (demo_directory demo_faults) of
     (Inl _, s) \<Rightarrow> lookup Root ''r1.json'' s \<noteq> None \<and> lookup Art ''r1.trace.zip'' s = None
   | _ \<Rightarrow> False"
  by code_simp

theorem receipt_is_published_last_witness:
  "lookup Art ''r1.trace.zip'' (snd (commit_body demo_publication (start_commit (demo_directory demo_faults)))) = Some (File 3 ''ab'') \<and>
   (\<exists>i. lookup Root ''r1.json'' (snd (commit_publication demo_publication (demo_directory demo_faults))) =
     Some (File i (pub_payload demo_publication)))"
proof -
  let ?s = "demo_directory demo_faults"
  obtain b s1 where run: "commit_body demo_publication (start_commit ?s) = (b, s1)" by fastforce
  obtain r s' where all: "commit_publication demo_publication ?s = (r, s')" by fastforce
  have "lookup Root ''r1.json'' (snd (commit_body demo_publication (start_commit ?s))) \<noteq> None"
    "lookup Root ''r1.json'' ?s = None" "lookup Art ''.btb-repeat-7.tmp'' ?s = Some (File 3 ''ab'')" by code_simp+
  moreover have "lookup Root ''r1.json'' (snd (commit_publication demo_publication ?s)) \<noteq> None"
    using roll_back_leaves_a_receipt by (auto split: prod.splits sum.splits)
  ultimately show ?thesis
    using receipt_is_published_last [OF demo_publication_wf(1,2) _ run all] run all
    by (simp add: demo_publication_wf(3)) (simp add: demo_publication_def)
qed

theorem publication_all_or_nothing_witness:
  "lookup Root ''r1.json'' (snd (commit_publication demo_publication (demo_directory (replicate 22 None @ [Some 0])))) = None"
proof -
  let ?s = "demo_directory (replicate 22 None @ [Some 0])"
  obtain r s' where run: "commit_publication demo_publication ?s = (r, s')" by fastforce
  have "isl (fst (commit_publication demo_publication ?s))" by code_simp
  moreover have "pd_faults (snd (commit_body demo_publication (start_commit ?s))) = []" by code_simp
  moreover have "lookup Root ''r1.json'' ?s = None" "public ''r1.json''" unfolding public_def by code_simp+
  ultimately show ?thesis
    using publication_all_or_nothing [OF demo_publication_wf(1,2) run] run by (auto split: sum.splits)
qed

end
