(* ===== verification/Publication_Frames.thy ===== *)
theory Publication_Frames
  imports Publication_Properties
begin

text \<open>
  What the operations of a publication leave alone, whatever fails: a public name of the receipt
  directory other than the published receipt, and, while artifacts are handled, everything outside
  the artifact directory. A commit that returns has published its receipt under a free name.
\<close>

named_theorems unmoved_intros \<open>operations that leave a part of the state alone\<close>

definition unmoved :: "('s \<Rightarrow> 'x) \<Rightarrow> ('s, 'a) op \<Rightarrow> bool" where
  "unmoved F m \<longleftrightarrow> (\<forall>s. F (snd (m s)) = F s)"

lemma unmovedD: "unmoved F m \<Longrightarrow> m s = (r, s') \<Longrightarrow> F s' = F s"
  unfolding unmoved_def by (metis snd_conv)

lemma unmoved_ret [unmoved_intros]: "unmoved F (ret x)"
  by (simp add: unmoved_def ret_def)

lemma unmoved_fail [unmoved_intros]: "unmoved F (fail e)"
  by (simp add: unmoved_def fail_def)

lemma unmoved_check [unmoved_intros]: "unmoved F (check b e)"
  by (simp add: check_def unmoved_ret unmoved_fail)

lemma unmoved_seq [unmoved_intros]: "unmoved F m \<Longrightarrow> (\<And>x. unmoved F (f x)) \<Longrightarrow> unmoved F (seq m f)"
  unfolding unmoved_def seq_def by (auto split: prod.splits sum.splits) (metis snd_conv)+

lemma unmoved_on_error [unmoved_intros]: "unmoved F m \<Longrightarrow> unmoved F h \<Longrightarrow> unmoved F (on_error m h)"
  unfolding unmoved_def on_error_def by (auto split: prod.splits sum.splits) (metis snd_conv)+

lemma unmoved_always [unmoved_intros]: "unmoved F m \<Longrightarrow> unmoved F (always m f g)"
  unfolding unmoved_def always_def by (auto split: prod.splits sum.splits) (metis snd_conv)+

lemma unmoved_each [unmoved_intros]: "(\<And>x. unmoved F (f x)) \<Longrightarrow> unmoved F (each f xs)"
  by (induction xs) (auto intro: unmoved_intros)

lemma unmoved_if [unmoved_intros]: "(b \<Longrightarrow> unmoved F m) \<Longrightarrow> (\<not> b \<Longrightarrow> unmoved F m') \<Longrightarrow> unmoved F (if b then m else m')"
  by simp

lemma unmoved_prod [unmoved_intros]: "(\<And>x y. unmoved F (f x y)) \<Longrightarrow> unmoved F (case p of (x, y) \<Rightarrow> f x y)"
  by (cases p) simp

text \<open>An operation that looks at the state is unmoved if it is so whatever it sees.\<close>

lemma unmoved_sees: "(\<And>s. \<exists>m'. m s = m' s \<and> unmoved F m') \<Longrightarrow> unmoved F m"
  unfolding unmoved_def by metis

section \<open>The parts\<close>

text \<open>The public names of the receipt directory outside \<open>Q\<close>, with the temporary; and the whole of it.\<close>

definition others :: "string set \<Rightarrow> receipt_dir \<Rightarrow> (string \<Rightarrow> node option) \<times> (string \<times> file_stat option) option" where
  "others Q s = (\<lambda>name. if public name \<and> name \<notin> Q then lookup Root name s else None, pd_temp s)"

definition root_part :: "receipt_dir \<Rightarrow> entries \<times> (string \<times> file_stat option) option \<times> bool" where
  "root_part s = (pd_root s, pd_temp s, pd_linked s)"

lemma others_of_root: "root_part s' = root_part s \<Longrightarrow> others Q s' = others Q s"
  by (auto simp: root_part_def others_def lookup_def)

lemma unmoved_others: "unmoved root_part m \<Longrightarrow> unmoved (others Q) m"
  unfolding unmoved_def by (blast intro: others_of_root)

lemma root_step [unmoved_intros]: "unmoved root_part (step e)"
  by (auto simp: unmoved_def step_def root_part_def split: list.splits option.splits)

lemma root_look [unmoved_intros]:
  "unmoved root_part (get_entry p name)" "unmoved root_part (fresh_name stem)"
  "unmoved root_part verify_directory" "unmoved root_part fsync" "unmoved root_part (created_stat p name)"
  "unmoved root_part (note_committed t st)"
  "unmoved root_part (put_entry Art name n)" "unmoved root_part (drop_entry Art name)"
  by (auto simp: verify_directory_def fsync_def intro: root_step)
    (simp_all add: unmoved_def root_part_def get_entry_def fresh_name_def created_stat_def note_committed_def
      put_entry_def drop_entry_def)

lemma root_observe [unmoved_intros]:
  "unmoved root_part (stat_entry p name)" "unmoved root_part (owned_file_stat p name c)"
  "unmoved root_part (expect_same p name st e)" "unmoved root_part open_receipt_directory"
  by (auto simp: stat_entry_def owned_file_stat_def expect_same_def open_receipt_directory_def
      intro!: unmoved_intros split: option.splits)

lemma root_create [unmoved_intros]: "unmoved root_part (create_file Art name e)"
proof -
  have "unmoved root_part (\<lambda>s. seq (put_entry Art name (File (pd_next_inode s) [])) (\<lambda>_. ret (pd_next_inode s, 0))
      (s\<lparr>pd_next_inode := pd_next_inode s + 1\<rparr>))"
    by (auto simp: unmoved_def root_part_def put_entry_def ret_def)
  then show ?thesis unfolding create_file_def by (intro unmoved_intros) auto
qed

lemma root_write [unmoved_intros]: "unmoved root_part (write_all Art name i payload)"
  by (auto simp: unmoved_def write_all_def root_part_def put_entry_def fail_def split: list.splits option.splits)

lemma root_link [unmoved_intros]: "unmoved root_part (link_entry Art from to)"
  unfolding link_entry_def by (intro unmoved_intros) (auto intro: unmoved_intros split: option.splits)

lemma root_unlink [unmoved_intros]: "unmoved root_part (unlink_owned Art name st)"
  unfolding unlink_owned_def by (intro unmoved_intros)

lemma root_open [unmoved_intros]: "unmoved root_part (open_artifacts create)"
  unfolding open_artifacts_def
proof (rule unmoved_seq, rule root_look(3), rule unmoved_sees)
  fix x :: unit and s :: receipt_dir
  have made: "unmoved root_part (\<lambda>s. seq verify_directory (\<lambda>_. ret True) (s\<lparr>pd_artifacts := Artifacts []\<rparr>))"
  proof -
    have "unmoved root_part (seq verify_directory (\<lambda>_. ret True))" by (intro unmoved_intros)
    then show ?thesis by (simp add: unmoved_def root_part_def)
  qed
  show "\<exists>m'. (case pd_artifacts s of
         Artifacts _ \<Rightarrow> seq verify_directory (\<lambda>_. ret True) s
       | UnsafeArtifacts \<Rightarrow> fail (receipt_error ''canonical artifact directory is unsafe'') s
       | NoArtifacts \<Rightarrow>
           if \<not> create then ret False s
           else seq (step (receipt_error ''cannot create receipt artifact directory'')) (\<lambda>_ s.
             seq verify_directory (\<lambda>_. ret True) (s\<lparr>pd_artifacts := Artifacts []\<rparr>)) s) = m' s \<and> unmoved root_part m'"
    by (cases "pd_artifacts s"; cases create) (auto intro: unmoved_intros made)
qed

lemma root_fill [unmoved_intros]: "unmoved root_part h \<Longrightarrow> unmoved root_part (fill_temporary Art name i payload h)"
  unfolding fill_temporary_def by (intro unmoved_intros)

lemma root_temporaries [unmoved_intros]:
  "unmoved root_part (write_bytes_to_temp name payload)"
  "unmoved root_part (copy_artifact_to_temp D staged name digest bytes)"
  "unmoved root_part (unlink_temporaries ts)" "unmoved root_part (discard_publication ts)"
  unfolding write_bytes_to_temp_def copy_artifact_to_temp_def unlink_temporaries_def discard_publication_def
  by (intro unmoved_intros; auto intro!: unmoved_intros split: option.splits node.splits)+

lemma root_copies [unmoved_intros]: "unmoved root_part (copy_artifacts D staged ts entries)"
  by (induction D staged ts entries rule: copy_artifacts.induct) (auto intro!: unmoved_intros)

lemma root_prepare [unmoved_intros]: "unmoved root_part (prepare_publication H staged run_id receipt)"
  unfolding prepare_publication_def Let_def
  by (intro unmoved_intros) (auto intro!: unmoved_intros split: sum.splits)

lemma root_commit_artifact [unmoved_intros]: "unmoved root_part (commit_artifact t)"
  unfolding commit_artifact_def Let_def by (intro unmoved_intros)

section \<open>The roll back\<close>

lemma others_put [unmoved_intros]:
  "\<not> public name \<or> name \<in> Q \<Longrightarrow> unmoved (others Q) (put_entry Root name n)"
  "\<not> public name \<or> name \<in> Q \<Longrightarrow> unmoved (others Q) (drop_entry Root name)"
  by (auto simp: unmoved_def others_def lookup_put lookup_drop fun_eq_iff) (simp_all add: put_entry_def drop_entry_def)

lemma others_fresh:
  assumes "\<And>name. \<not> public name \<Longrightarrow> unmoved (others Q) (f name)"
  shows "unmoved (others Q) (seq (fresh_name quarantine_prefix) f)"
proof -
  have "\<not> public (quarantine_prefix @ nat_str k @ ''.tmp'')" for k
    by (simp add: public_def quarantine_prefix_def temp_prefix_def starts_with_def)
  then show ?thesis
    using assms by (auto simp: unmoved_def seq_def fresh_name_def others_def)
qed

lemma others_unlink:
  assumes "\<not> public name \<or> name \<in> Q"
  shows "unmoved (others Q) (unlink_owned Root name st)"
  unfolding unlink_owned_def link_entry_def
  by (intro others_fresh unmoved_intros others_put(2) [OF assms])
    (auto intro!: unmoved_intros others_put unmoved_others [OF root_observe(1)] unmoved_others [OF root_step]
      unmoved_others [OF root_look(1)] assms split: option.splits)

lemma others_art: "unmoved root_part m \<Longrightarrow> others Q (snd (m s)) = others Q s"
  using unmoved_others unfolding unmoved_def by blast

lemma roll_back_leaves:
  assumes "\<And>temp c. pd_temp s = Some (temp, c) \<Longrightarrow> \<not> public temp"
  shows "others {published_name pub} (snd (roll_back pub s)) = others {published_name pub} s"
proof -
  let ?F = "others {published_name pub}"
  have temp: "?F (snd (unlink_receipt_temp s)) = ?F s"
  proof (cases "pd_temp s")
    case (Some t)
    then obtain temp c where t: "pd_temp s = Some (temp, c)" by (cases t) auto
    then have "unmoved ?F (seq (unlink_owned Root temp st) (\<lambda>_. ret ()))" for st
      using assms by (intro unmoved_intros others_unlink) auto
    with t show ?thesis by (auto simp: unlink_receipt_temp_def unmoved_def ret_def split: option.splits)
  qed (simp add: unlink_receipt_temp_def ret_def)
  have receipt: "unmoved ?F (unlink_receipt (published_name pub))"
  proof (rule unmoved_sees)
    fix s :: receipt_dir
    have "unmoved ?F (seq (unlink_owned Root (published_name pub) st) (\<lambda>_. ret ()))" for st
      by (intro unmoved_intros others_unlink) simp
    then show "\<exists>m'. unlink_receipt (published_name pub) s = m' s \<and> unmoved ?F m'"
      unfolding unlink_receipt_def by (auto intro: unmoved_ret split: option.splits)
  qed
  have committed: "unmoved ?F unlink_committed"
  proof (rule unmoved_sees)
    fix s :: receipt_dir
    have "unmoved root_part (each (\<lambda>(target, st). seq (unlink_owned Art target st) (\<lambda>_. ret ())) (rev (pd_committed s)))"
      by (intro unmoved_intros)
    then show "\<exists>m'. unlink_committed s = m' s \<and> unmoved ?F m'"
      unfolding unlink_committed_def by (blast intro: unmoved_others)
  qed
  have artifacts: "unmoved ?F (\<lambda>s. seq (case pd_artifacts s of
            Artifacts _ \<Rightarrow> seq unlink_committed (\<lambda>_. seq (unlink_temporaries (pub_artifacts pub)) (\<lambda>_. fsync))
          | _ \<Rightarrow> ret ()) (\<lambda>_. fsync) s)"
  proof (rule unmoved_sees)
    fix s :: receipt_dir
    have "unmoved ?F (seq (case pd_artifacts s of
            Artifacts _ \<Rightarrow> seq unlink_committed (\<lambda>_. seq (unlink_temporaries (pub_artifacts pub)) (\<lambda>_. fsync))
          | _ \<Rightarrow> ret ()) (\<lambda>_. fsync))"
      using committed unmoved_others [OF root_look(4)] unmoved_others [OF root_temporaries(3)]
      by (cases "pd_artifacts s") (simp_all add: unmoved_seq unmoved_ret)
    then show "\<exists>m'. seq (case pd_artifacts s of
            Artifacts _ \<Rightarrow> seq unlink_committed (\<lambda>_. seq (unlink_temporaries (pub_artifacts pub)) (\<lambda>_. fsync))
          | _ \<Rightarrow> ret ()) (\<lambda>_. fsync) s = m' s \<and> unmoved ?F m'" by blast
  qed
  have rest: "unmoved ?F (seq (unlink_receipt (published_name pub)) (\<lambda>_ s. seq (case pd_artifacts s of
            Artifacts _ \<Rightarrow> seq unlink_committed (\<lambda>_. seq (unlink_temporaries (pub_artifacts pub)) (\<lambda>_. fsync))
          | _ \<Rightarrow> ret ()) (\<lambda>_. fsync) s))"
    by (rule unmoved_seq [OF receipt artifacts])
  obtain r s1 where s1: "unlink_receipt_temp s = (r, s1)" by fastforce
  show ?thesis
    unfolding roll_back_def published_name_def [symmetric] using temp rest
    by (cases r) (auto simp: seq_def [of unlink_receipt_temp] s1 unmoved_def)
qed

section \<open>A commit that returns\<close>

lemma triple_unmoved:
  assumes "unmoved root_part m" and "\<And>v w. v_at v Root = v_at w Root \<Longrightarrow> v_temp v = v_temp w \<Longrightarrow>
      v_linked v = v_linked w \<Longrightarrow> P v \<Longrightarrow> P w"
  shows "triple P m (\<lambda>_. P) P"
proof -
  have "P (view_of (snd (m s)))" if "P (view_of s)" for s
  proof (rule assms(2) [OF _ _ _ that])
    have eq: "root_part (snd (m s)) = root_part s" using assms(1) by (simp add: unmoved_def)
    then show "v_at (view_of s) Root = v_at (view_of (snd (m s))) Root"
      by (simp add: view_of_def root_part_def lookup_def fun_eq_iff)
    show "v_temp (view_of s) = v_temp (view_of (snd (m s)))" "v_linked (view_of s) = v_linked (view_of (snd (m s)))"
      using eq by (simp_all add: root_part_def)
  qed
  then show ?thesis unfolding triple_def by (auto split: prod.splits sum.splits) (metis snd_conv)+
qed

lemma tripleD:
  assumes "triple P m Q E" and "P (view_of s)" and "m s = (r, s')"
  shows "case r of Inl _ \<Rightarrow> E (view_of s') | Inr x \<Rightarrow> Q x (view_of s')"
  using assms unfolding triple_def by force

lemma blind_True: "root_blind (\<lambda>_. True)"
  by (simp add: root_blind_def)

lemma triple_body_root:
  assumes "public (published_name pub)" and "\<not> v_linked v0" and "v_temp v0 = None"
  shows "triple (\<lambda>v. v = v0) (commit_body pub) (\<lambda>_. committing (\<lambda>_. True) v0 pub True)
    (\<lambda>v. \<exists>linked. committing (\<lambda>_. True) v0 pub linked v)"
proof -
  let ?G = "committing (\<lambda>_. True) v0 pub False" and ?E = "\<lambda>v. \<exists>linked. committing (\<lambda>_. True) v0 pub linked v"
  have start: "?G v0" using assms by (simp add: committing_def root_inv_def)
  have G: "triple ?G m (\<lambda>_. ?G) ?E" if "unmoved root_part m" for m
    by (rule triple_weaken [OF triple_unmoved [OF that, of ?G]]) (auto simp: committing_def root_inv_def)
  have "unmoved root_part (if pub_artifacts pub = [] then open_artifacts False else ret True)"
    and "unmoved root_part (each (\<lambda>t. if present then commit_artifact t else fail e) (pub_artifacts pub))" for present e
    by (intro unmoved_intros)+
  note parts = triple_seq [OF G [OF this(1)]] triple_seq [OF G [OF root_look(3)]] triple_seq [OF G [OF this(2)]]
  have "triple ?G (commit_body pub) (\<lambda>_. committing (\<lambda>_. True) v0 pub True) ?E"
    unfolding commit_body_def by (rule parts triple_commit_receipt [OF blind_True assms(1)])+
  then show ?thesis by (rule triple_weaken) (use start in auto)
qed

lemma commit_leaves:
  assumes "safe_component (pub_run_id pub)" and "commit_publication pub s = (r, s')"
    and "public name" and "name \<noteq> published_name pub"
  shows "lookup Root name s' = lookup Root name s"
proof -
  let ?v0 = "view_of (start_commit s)"
  note public = public_receipt [OF assms(1)]
  obtain b s1 where body: "commit_body pub (start_commit s) = (b, s1)" by fastforce
  have "\<exists>linked. committing (\<lambda>_. True) ?v0 pub linked (view_of s1)"
    using tripleD [OF triple_body_root [OF public start_view(3,4)] refl body] by (cases b) auto
  then obtain linked where inv: "root_inv ?v0 pub (view_of s1)" by (auto simp: committing_def)
  then have s1: "lookup Root name s1 = lookup Root name s"
    using assms(3,4) by (auto simp: root_inv_def public_lookup [symmetric] start_view public_visible)
  show ?thesis
  proof (cases b)
    case (Inr u)
    with assms(2) body s1 show ?thesis by (auto simp: commit_publication_def on_error_def)
  next
    case (Inl e)
    then have "s' = snd (roll_back pub s1)"
      using assms(2) body by (auto simp: commit_publication_def on_error_def split: prod.splits sum.splits)
    moreover have "\<not> public temp" if "pd_temp s1 = Some (temp, c)" for temp c
      using inv that by (simp add: root_inv_def)
    ultimately have "others {published_name pub} s' = others {published_name pub} s1"
      using roll_back_leaves [of s1 pub] by blast
    with s1 assms(3,4) show ?thesis by (auto simp: others_def fun_eq_iff) (metis (mono_tags, lifting))
  qed
qed

lemma commit_publishes:
  assumes "safe_component (pub_run_id pub)" and "commit_publication pub s = (Inr u, s')"
  shows "lookup Root (published_name pub) s = None"
    and "\<exists>i. lookup Root (published_name pub) s' = Some (File i (pub_payload pub))"
proof -
  let ?v0 = "view_of (start_commit s)"
  note public = public_receipt [OF assms(1)]
  have "commit_body pub (start_commit s) = (Inr u, s')"
    using assms(2) by (auto simp: commit_publication_def on_error_def split: prod.splits sum.splits)
  then have "committing (\<lambda>_. True) ?v0 pub True (view_of s')"
    using tripleD [OF triple_body_root [OF public start_view(3,4)] refl, of s] by force
  then have "root_inv ?v0 pub (view_of s')" "pd_linked s'" by (auto simp: committing_def)
  then show "lookup Root (published_name pub) s = None"
    and "\<exists>i. lookup Root (published_name pub) s' = Some (File i (pub_payload pub))"
    using public by (auto simp: root_inv_def public_lookup start_view public_visible)
qed

end
