(* ===== verification/Study_Properties.thy ===== *)
theory Study_Properties
  imports Study_Plan
begin

text \<open>
  What an accepted plan is: the balanced matrix of its tasks, conditions and repetitions, in an
  order its digests determine; and that a plan the builder makes is accepted.
\<close>

section \<open>Results\<close>

lemma and_then_Inr [simp]: "and_then r f = Inr y \<longleftrightarrow> (\<exists>x. r = Inr x \<and> f x = Inr y)"
  by (cases r) auto

lemma require_Inr [simp]: "require b m = Inr u \<longleftrightarrow> b"
  by (simp add: require_def)

lemma map_planned_Inr: "map_planned f xs = Inr ys \<longleftrightarrow> list_all2 (\<lambda>x y. f x = Inr y) xs ys"
proof (induction xs arbitrary: ys)
  case Nil
  then show ?case by auto
next
  case (Cons x xs)
  then show ?case by (cases ys) auto
qed

section \<open>Equal dicts\<close>

lemma py_eqd_dget:
  assumes "py_eqd d e" and "k \<in> set (map fst d)"
  shows "\<exists>w. map_of e k = Some w \<and> py_eq (dget d k) w"
  using assms
proof (induction d)
  case (Cons a d)
  obtain k' v where a: "a = (k', v)" by fastforce
  show ?case
  proof (cases "k = k'")
    case True
    with Cons.prems show ?thesis by (auto simp: a split: option.splits)
  next
    case False
    with Cons.prems have "py_eqd d e" "k \<in> set (map fst d)" by (auto simp: a split: option.splits)
    with Cons.IH False show ?thesis by (simp add: a)
  qed
qed simp

lemma dget_map_of: "map_of e k = Some w \<Longrightarrow> dget e k = w"
  by (simp add: dget_def)

lemma py_eqs_list_all2: "py_eqs xs ys \<longleftrightarrow> list_all2 py_eq xs ys"
proof (induction xs arbitrary: ys)
  case Nil
  then show ?case by (cases ys) auto
next
  case (Cons x xs)
  then show ?case by (cases ys) auto
qed

lemma run_fields:
  "dget (run_to_dict r) ''ordinal'' = PInt (pr_ordinal r)" "dget (run_to_dict r) ''run_id'' = PStr (pr_run_id r)"
  "dget (run_to_dict r) ''task_id'' = PStr (pr_task r)" "dget (run_to_dict r) ''task_sha256'' = PStr (pr_task_sha256 r)"
  "dget (run_to_dict r) ''condition_key'' = PStr (pr_condition r)"
  "dget (run_to_dict r) ''repetition'' = PInt (pr_repetition r)"
  "dget (run_to_dict r) ''random_order_sha256'' = PStr (pr_order r)"
  by (simp_all add: run_to_dict_def)

lemma py_eq_int: "is_int v \<Longrightarrow> py_eq v (PInt i) \<Longrightarrow> int_of_py v = i"
  by (cases v) (auto split: if_splits)

lemma run_of_equal_mapping:
  assumes "py_eq x (PDict (run_to_dict r0))" and "run_of_mapping x = Inr r"
  shows "r = r0"
proof -
  obtain d where x: "x = PDict d" using assms(2) by (cases x) (auto simp: run_of_mapping_def)
  have keys: "set (map fst d) = {''ordinal'', ''run_id'', ''task_id'', ''task_sha256'', ''condition_key'',
      ''repetition'', ''random_order_sha256''}"
    using assms(2) by (auto simp: x run_of_mapping_def key_set_def split: if_splits)
  have eqd: "py_eqd d (run_to_dict r0)" using assms(1) by (simp add: x)
  have eq: "py_eq (dget d k) (dget (run_to_dict r0) k)" if "k \<in> set (map fst d)" for k
    using py_eqd_dget [OF eqd that] dget_map_of by metis
  have vals: "py_eq (dget d ''ordinal'') (PInt (pr_ordinal r0))" "dget d ''run_id'' = PStr (pr_run_id r0)"
    "dget d ''task_id'' = PStr (pr_task r0)" "dget d ''task_sha256'' = PStr (pr_task_sha256 r0)"
    "dget d ''condition_key'' = PStr (pr_condition r0)" "py_eq (dget d ''repetition'') (PInt (pr_repetition r0))"
    "dget d ''random_order_sha256'' = PStr (pr_order r0)"
    using eq keys by (fastforce simp: run_fields)+
  have "is_int v" if "positive_steps v" for v using that by (cases v) (auto simp: positive_steps_def)
  then show ?thesis
    using assms(2) vals py_eq_int
    by (auto simp: x run_of_mapping_def split: if_splits del: py_eq.simps intro!: planned_run.equality)
qed

lemma runs_of_equal:
  assumes "list_all2 py_eq xs (map (\<lambda>r. PDict (run_to_dict r)) rs0)" and "map_planned run_of_mapping xs = Inr rs"
  shows "rs = rs0"
  using assms
proof (induction rs0 arbitrary: xs rs)
  case (Cons r0 rs0)
  then obtain x xs' r rs' where "xs = x # xs'" "rs = r # rs'" "py_eq x (PDict (run_to_dict r0))"
    "run_of_mapping x = Inr r" "list_all2 py_eq xs' (map (\<lambda>r. PDict (run_to_dict r)) rs0)"
    "map_planned run_of_mapping xs' = Inr rs'"
    by (auto simp: list_all2_Cons2)
  with Cons.IH run_of_equal_mapping show ?case by blast
qed auto

section \<open>The matrix\<close>

lemma set_matrix:
  "set (matrix s) = set (st_tasks s) \<times> set (st_conditions s) \<times> {1..st_repetitions s}"
  by (auto simp: matrix_def set_upto1)

lemma length_matrix:
  "length (matrix s) = length (st_tasks s) * length (st_conditions s) * nat (st_repetitions s)"
proof -
  have "length (concat (map (\<lambda>c. map (\<lambda>n. (t, c, n)) ns) cs)) = length cs * length ns" for t :: task_binding and ns :: "int list" and cs :: "plan_condition list"
    by (induction cs) auto
  then have "length (concat (map (\<lambda>t. concat (map (\<lambda>c. map (\<lambda>n. (t, c, n)) ns) cs)) ts)) = length ts * (length cs * length ns)"
    for ts :: "task_binding list" and ns :: "int list" and cs :: "plan_condition list"
    by (induction ts) auto
  then show ?thesis by (simp add: matrix_def)
qed

lemma number_runs_length [simp]: "length (number_runs rs) = length rs"
  by (simp add: number_runs_def)

lemma number_runs_facts:
  "map pr_ordinal (number_runs rs) = upto1 (length rs)"
  "map pr_run_id (number_runs rs) = map pr_run_id rs" "map pr_order (number_runs rs) = map pr_order rs"
  "map (\<lambda>r. f (pr_task r) (pr_task_sha256 r) (pr_condition r) (pr_repetition r)) (number_runs rs) =
     map (\<lambda>r. f (pr_task r) (pr_task_sha256 r) (pr_condition r) (pr_repetition r)) rs"
  by (rule nth_equalityI; simp; simp add: number_runs_def)+

text \<open>The label of a run, and the one its cell of the matrix gives it.\<close>

definition run_label :: "planned_run \<Rightarrow> string \<times> string \<times> string \<times> int" where
  "run_label r = (pr_task r, pr_task_sha256 r, pr_condition r, pr_repetition r)"

definition cell_label :: "digests \<Rightarrow> task_binding \<times> plan_condition \<times> int \<Rightarrow> string \<times> string \<times> string \<times> int" where
  "cell_label D cell = (case cell of (t, c, n) \<Rightarrow> (tb_id t, tb_sha256 t, condition_key D c, n))"

definition balanced :: "digests \<Rightarrow> study \<Rightarrow> planned_run list \<Rightarrow> bool" where
  "balanced D s rs \<longleftrightarrow>
     distinct (matrix s) \<and> mset (map run_label rs) = mset (map (cell_label D) (matrix s)) \<and>
     map pr_ordinal rs = upto1 (length rs) \<and> distinct (map pr_run_id rs) \<and>
     sorted (map (\<lambda>r. (pr_order r, pr_run_id r)) rs)"

lemma study_runs_balanced:
  assumes "study_runs D h s = Inr rs"
  shows "balanced D s rs"
proof -
  let ?raw = "map (matrix_run D h (st_seed s)) (matrix s)"
  let ?sorted = "sort_key (\<lambda>r. (pr_order r, pr_run_id r)) ?raw"
  have ids: "distinct (map pr_run_id ?raw)" and rs: "rs = number_runs ?sorted"
    using assms by (auto simp: study_runs_def Let_def split: if_splits)
  have "distinct (matrix s)" using ids by (simp add: distinct_map)
  moreover have "mset (map run_label rs) = mset (map (cell_label D) (matrix s))"
  proof -
    have "map run_label rs = map run_label ?sorted"
      unfolding rs run_label_def by (rule number_runs_facts(4))
    also have "mset (map run_label ?sorted) = mset (map run_label ?raw)" by (simp only: mset_map mset_sort)
    also have "map run_label ?raw = map (cell_label D) (matrix s)"
      by (auto simp: run_label_def cell_label_def matrix_run_def Let_def)
    finally show ?thesis .
  qed
  moreover have "map pr_ordinal rs = upto1 (length rs)" by (simp add: rs number_runs_facts)
  moreover have "distinct (map pr_run_id rs)"
  proof -
    have "mset (map pr_run_id ?sorted) = mset (map pr_run_id ?raw)" by (simp only: mset_map mset_sort)
    with ids have "distinct (map pr_run_id ?sorted)" using mset_eq_imp_distinct_iff by blast
    then show ?thesis unfolding rs number_runs_facts(2) .
  qed
  moreover have "sorted (map (\<lambda>r. (pr_order r, pr_run_id r)) rs)"
  proof -
    have "map (\<lambda>r. (pr_order r, pr_run_id r)) rs = zip (map pr_order rs) (map pr_run_id rs)"
      by (simp add: zip_map_map zip_same_conv_map)
    also have "\<dots> = map (\<lambda>r. (pr_order r, pr_run_id r)) ?sorted"
      unfolding rs number_runs_facts by (simp add: zip_map_map zip_same_conv_map)
    finally show ?thesis by (simp add: sorted_sort_key del: map_map)
  qed
  ultimately show ?thesis by (simp add: balanced_def)
qed

lemma number_runs_mem: "r \<in> set (number_runs rs) \<Longrightarrow> \<exists>x \<in> set rs. \<exists>i. r = x\<lparr>pr_ordinal := i\<rparr>"
  by (auto simp: number_runs_def set_zip)

text \<open>The letters and digits of ASCII, and \<open>- . _\<close>.\<close>

abbreviation path_codes :: "nat set" where
  "path_codes \<equiv> {48..57} \<union> {65..90} \<union> {97..122} \<union> {45, 46, 95}"

lemma safe_component_chars: "safe_component s \<Longrightarrow> c \<in> set s \<Longrightarrow> of_char c \<in> path_codes"
  by (auto simp: safe_component_def list_all_iff word_char_def Let_def dest!: bspec)

text \<open>Where the id, the label and the place of a run come from.\<close>

lemma study_runs_made:
  assumes "study_runs D h s = Inr rs" and "r \<in> set rs"
  shows "pr_order r = order_digest D (st_seed s) (pr_run_id r)" and "safe_component (pr_run_id r)"
    and "\<exists>(t, c, n) \<in> set (matrix s). pr_run_id r = ''btb-r1-'' @ run_digest D h t c n \<and>
      run_label r = cell_label D (t, c, n)"
proof -
  let ?raw = "map (matrix_run D h (st_seed s)) (matrix s)"
  have safe: "list_all (\<lambda>r. safe_component (pr_run_id r)) ?raw"
    and rs: "rs = number_runs (sort_key (\<lambda>r. (pr_order r, pr_run_id r)) ?raw)"
    using assms(1) by (auto simp: study_runs_def Let_def split: if_splits)
  obtain x i where x: "x \<in> set ?raw" and r: "r = x\<lparr>pr_ordinal := i\<rparr>"
    using number_runs_mem [of r "sort_key (\<lambda>r. (pr_order r, pr_run_id r)) ?raw"] assms(2)
    unfolding rs set_sort by blast
  then obtain t c n where cell: "(t, c, n) \<in> set (matrix s)" and "x = matrix_run D h (st_seed s) (t, c, n)"
    by auto
  with r have fields: "pr_run_id r = ''btb-r1-'' @ run_digest D h t c n"
    "pr_order r = order_digest D (st_seed s) (pr_run_id r)" "run_label r = cell_label D (t, c, n)"
    by (simp_all add: matrix_run_def Let_def run_label_def cell_label_def)
  show "pr_order r = order_digest D (st_seed s) (pr_run_id r)" by (rule fields(2))
  show "\<exists>(t, c, n) \<in> set (matrix s). pr_run_id r = ''btb-r1-'' @ run_digest D h t c n \<and>
      run_label r = cell_label D (t, c, n)"
    using cell fields(1,3) by blast
  have "pr_run_id r = pr_run_id x" by (simp add: r)
  with safe x show "safe_component (pr_run_id r)" unfolding list_all_iff by metis
qed

section \<open>Sorted dicts\<close>

lemma sorted_pairs_map: "sorted_pairs d = map (map_prod id json_sorted) d"
  by (induction d) auto

lemma sorted_items_map: "sorted_items xs = map json_sorted xs"
  by (induction xs) auto

lemma keys_sorted: "set (map fst (sort_key fst (sorted_pairs d))) = set (map fst d)"
  by (auto simp: sorted_pairs_map image_image)

lemma dget_sorted:
  assumes "distinct (map fst d)"
  shows "dget (sort_key fst (sorted_pairs d)) k = json_sorted (dget d k)"
proof -
  have distinct: "distinct (map fst (sorted_pairs d))" using assms by (simp add: sorted_pairs_map comp_def)
  have "mset (map fst (sort_key fst (sorted_pairs d))) = mset (map fst (sorted_pairs d))"
    by (simp only: mset_map mset_sort)
  with distinct have "distinct (map fst (sort_key fst (sorted_pairs d)))"
    using mset_eq_imp_distinct_iff by blast
  with distinct have "map_of (sort_key fst (sorted_pairs d)) = map_of (sorted_pairs d)"
    by (simp add: map_of_inject_set)
  moreover have "map_of (sorted_pairs d) k = map_option json_sorted (map_of d k)"
    by (induction d) auto
  ultimately show ?thesis by (simp add: dget_def split: option.splits)
qed

lemma py_eq_sorted: "dict_wf v \<Longrightarrow> py_eq (json_sorted v) v"
proof (induction v)
  case (PList xs)
  then show ?case by (auto simp: sorted_items_map py_eqs_list_all2 list_all2_map1 intro!: list_all2_all_nthI)
next
  case (PDict d)
  have "\<exists>w'. map_of d k = Some w' \<and> py_eq w w'" if kw: "(k, w) \<in> set (sort_key fst (sorted_pairs d))" for k w
  proof -
    obtain w' where w': "(k, w') \<in> set d" "w = json_sorted w'" using kw by (auto simp: sorted_pairs_map)
    moreover have "dict_wf w'" "map_of d k = Some w'" using PDict.prems w'(1) by auto
    ultimately show ?thesis using PDict.IH by (fastforce simp: snds.simps)
  qed
  moreover have "length (sort_key fst (sorted_pairs d)) = length d" by (simp add: sorted_pairs_map)
  ultimately show ?case by (auto intro: py_eqd_sub)
qed auto

section \<open>Accepted plans\<close>

lemma validated_plan_cases:
  assumes "validated_plan D v = Inr p"
  obtains d s expected where "v = PDict d" "key_set d plan_fields" "claimed_study D d = Inr s"
    "plan_document D s = Inr expected" "p = sort_key fst (sorted_pairs d)" "py_eq (PDict p) (PDict expected)"
  using assms by (cases v) (auto simp: validated_plan_def split: if_splits)

lemma document_runs:
  assumes "plan_document D s = Inr document"
  obtains rs where "study_runs D (canonical_json_sha256 D (PDict (identity D s))) s = Inr rs"
    "map_of document ''runs'' = Some (PList (map (\<lambda>r. PDict (run_to_dict r)) rs))"
  using assms by (auto simp: plan_document_def Let_def identity_def comp_def)

lemma accepted_plan_runs:
  assumes "validated_plan D v = Inr p" and "plan_runs p = Inr rs"
  shows "\<exists>s. claimed_study D (as_dict v) = Inr s \<and>
    study_runs D (canonical_json_sha256 D (PDict (identity D s))) s = Inr rs"
proof -
  obtain d s expected where v: "v = PDict d" "key_set d plan_fields" "claimed_study D d = Inr s"
    "plan_document D s = Inr expected" "p = sort_key fst (sorted_pairs d)" "py_eq (PDict p) (PDict expected)"
    using assms(1) by (rule validated_plan_cases)
  obtain rs0 where rs0: "study_runs D (canonical_json_sha256 D (PDict (identity D s))) s = Inr rs0"
    "map_of expected ''runs'' = Some (PList (map (\<lambda>r. PDict (run_to_dict r)) rs0))"
    using v(4) by (rule document_runs)
  have "''runs'' \<in> set (map fst p)" unfolding v(5) keys_sorted using v(2) by (simp add: key_set_def plan_fields_def)
  then have "py_eq (dget p ''runs'') (PList (map (\<lambda>r. PDict (run_to_dict r)) rs0))"
    using py_eqd_dget [of p expected "''runs''"] v(6) rs0(2) by auto
  then obtain xs where "dget p ''runs'' = PList xs" "list_all2 py_eq xs (map (\<lambda>r. PDict (run_to_dict r)) rs0)"
    by (cases "dget p ''runs''") (auto simp: py_eqs_list_all2)
  then have "rs = rs0" using assms(2) runs_of_equal by (simp add: plan_runs_def)
  with rs0(1) v(1,3) show ?thesis by auto
qed

text \<open>
  C26: An accepted plan is a balanced matrix in the seeded order. If a serialized plan validates
  and its runs load, then the runs are exactly one for each task, condition and repetition of the
  study it claims, labelled with that task, its digest, the key of the condition and the
  repetition; no two tasks or conditions are the same; the run ids differ, are made of the digest
  of the study, the task, the condition and the repetition, and are path-safe; the place of a run
  is the digest of the seed and its id, and the runs are sorted by it and numbered \<open>1, 2, \<dots>\<close>.
\<close>
theorem accepted_plan_is_balanced:
  assumes "validated_plan D v = Inr p" and "plan_runs p = Inr rs"
  shows "\<exists>s. claimed_study D (as_dict v) = Inr s \<and> balanced D s rs \<and>
    length rs = length (st_tasks s) * length (st_conditions s) * nat (st_repetitions s) \<and>
    sorted (map (\<lambda>r. (pr_order r, pr_run_id r)) rs) \<and> map pr_ordinal rs = upto1 (length rs) \<and>
    (\<forall>r \<in> set rs.
       pr_order r = canonical_json_sha256 D (PDict
         [(''algorithm'', PStr ''sha256-seed-sort-v1''), (''version'', PStr ''1''),
          (''seed'', PStr (st_seed s)), (''run_id'', PStr (pr_run_id r))]) \<and>
       (\<exists>(t, c, n) \<in> set (matrix s). run_label r = cell_label D (t, c, n) \<and>
          pr_run_id r = ''btb-r1-'' @ run_digest D (canonical_json_sha256 D (PDict (identity D s))) t c n) \<and>
       length (pr_run_id r) \<le> 192 \<and>
       (\<forall>c \<in> set (pr_run_id r). of_char c \<in> path_codes))"
proof -
  obtain s where s: "claimed_study D (as_dict v) = Inr s"
    "study_runs D (canonical_json_sha256 D (PDict (identity D s))) s = Inr rs"
    using accepted_plan_runs [OF assms] by blast
  have b: "balanced D s rs" by (rule study_runs_balanced [OF s(2)])
  then have "length (map run_label rs) = length (map (cell_label D) (matrix s))"
    unfolding balanced_def by (intro mset_eq_length) simp
  then have len: "length rs = length (st_tasks s) * length (st_conditions s) * nat (st_repetitions s)"
    by (simp add: length_matrix)
  have made: "pr_order r = canonical_json_sha256 D (PDict
         [(''algorithm'', PStr ''sha256-seed-sort-v1''), (''version'', PStr ''1''),
          (''seed'', PStr (st_seed s)), (''run_id'', PStr (pr_run_id r))])"
    "\<exists>(t, c, n) \<in> set (matrix s). run_label r = cell_label D (t, c, n) \<and>
          pr_run_id r = ''btb-r1-'' @ run_digest D (canonical_json_sha256 D (PDict (identity D s))) t c n"
    "length (pr_run_id r) \<le> 192"
    "\<forall>c \<in> set (pr_run_id r). of_char c \<in> path_codes"
    if "r \<in> set rs" for r
  proof -
    note m = study_runs_made [OF s(2) that]
    show "pr_order r = canonical_json_sha256 D (PDict
         [(''algorithm'', PStr ''sha256-seed-sort-v1''), (''version'', PStr ''1''),
          (''seed'', PStr (st_seed s)), (''run_id'', PStr (pr_run_id r))])"
      using m(1) by (simp add: order_digest_def ordering_algorithm_def)
    show "\<exists>(t, c, n) \<in> set (matrix s). run_label r = cell_label D (t, c, n) \<and>
          pr_run_id r = ''btb-r1-'' @ run_digest D (canonical_json_sha256 D (PDict (identity D s))) t c n"
      using m(3) by blast
    show "length (pr_run_id r) \<le> 192" using m(2) by (simp add: safe_component_def)
    show "\<forall>c \<in> set (pr_run_id r). of_char c \<in> path_codes"
      using safe_component_chars [OF m(2)] by blast
  qed
  show ?thesis
    by (rule exI [of _ s], intro conjI ballI)
      (use s(1) b len made in \<open>simp_all add: balanced_def\<close>)
qed

section \<open>Reading back what was written\<close>

text \<open>
  Reading a plan depends on its values only up to a rendering: a function that keeps the leaves,
  works through lists, and keeps the keys of a dict with their rendered values. The document itself
  and the document read back from its canonical JSON are such.
\<close>

lemma document_at:
  assumes "plan_document D s = Inr document"
  shows "dget document ''study_id'' = PStr (st_id s)" "dget document ''seed'' = PStr (st_seed s)"
    "dget document ''repetitions'' = PInt (st_repetitions s)" "dget document ''study_wall_s'' = PFloat (st_wall s)"
    "dget document ''source'' = PDict (plan_source_to_dict (st_source s))"
    "dget document ''runtime'' = PDict (runtime_to_dict (st_runtime s))"
    "dget document ''tasks'' = PList (map (PDict \<circ> task_to_dict) (st_tasks s))"
    "dget document ''conditions'' = PList (map (\<lambda>c. PDict ((''key'', PStr (condition_key D c)) # condition_to_dict c)) (st_conditions s))"
    "distinct (map fst document)"
proof -
  obtain h rs where "document = identity D s @ [(''plan_identity_sha256'', PStr h), (''runs'', rs)] @
      [(''plan_sha256'', PStr (canonical_json_sha256 D (PDict (identity D s @ [(''plan_identity_sha256'', PStr h), (''runs'', rs)]))))]"
    using assms unfolding plan_document_def Let_def and_then_Inr by auto
  moreover obtain k where "document = identity D s @ [(''plan_identity_sha256'', PStr h), (''runs'', rs), (''plan_sha256'', PStr k)]"
    using calculation by simp
  ultimately show "dget document ''study_id'' = PStr (st_id s)" "dget document ''seed'' = PStr (st_seed s)"
    "dget document ''repetitions'' = PInt (st_repetitions s)" "dget document ''study_wall_s'' = PFloat (st_wall s)"
    "dget document ''source'' = PDict (plan_source_to_dict (st_source s))"
    "dget document ''runtime'' = PDict (runtime_to_dict (st_runtime s))"
    "dget document ''tasks'' = PList (map (PDict \<circ> task_to_dict) (st_tasks s))"
    "dget document ''conditions'' = PList (map (\<lambda>c. PDict ((''key'', PStr (condition_key D c)) # condition_to_dict c)) (st_conditions s))"
    "distinct (map fst document)"
    unfolding identity_def by simp_all
qed

locale rendering =
  fixes f :: "pyval \<Rightarrow> pyval"
  assumes leaf: "\<not> is_list v \<Longrightarrow> \<not> is_dict v \<Longrightarrow> f v = v"
    and list: "f (PList xs) = PList (map f xs)"
    and dict: "distinct (map fst d) \<Longrightarrow> is_dict (f (PDict d))"
    and keys: "distinct (map fst d) \<Longrightarrow> set (map fst (as_dict (f (PDict d)))) = set (map fst d)"
    and fields: "distinct (map fst d) \<Longrightarrow> dget (as_dict (f (PDict d))) k = f (dget d k)"
begin

lemma leaves [simp]:
  "f PNone = PNone" "f (PBool b) = PBool b" "f (PInt i) = PInt i" "f (PFloat q) = PFloat q" "f (PStr s) = PStr s"
  by (simp_all add: leaf)

lemma leaf_options [simp]: "f (opt_text t) = opt_text t" "f (opt_int i) = opt_int i"
  by (simp_all add: opt_text_def opt_int_def split: option.splits)

lemma dict_cases:
  assumes "distinct (map fst d)"
  obtains e where "f (PDict d) = PDict e" "set (map fst e) = set (map fst d)" "\<And>k. dget e k = f (dget d k)"
  using dict [OF assms] keys [OF assms] fields [OF assms] by (cases "f (PDict d)") auto

lemma key_set_iff: "set (map fst e) = set (map fst d) \<Longrightarrow> key_set e ks \<longleftrightarrow> key_set d ks"
  by (simp add: key_set_def)

end

interpretation plain: rendering id
  by unfold_locales simp_all

lemma json_sorted_leaf: "\<not> is_list v \<Longrightarrow> \<not> is_dict v \<Longrightarrow> json_sorted v = v"
  by (cases v) auto

lemma fst_sorted_pairs: "fst ` set (sorted_pairs d) = fst ` set d"
  by (auto simp: sorted_pairs_map image_image)

interpretation canonical_json: rendering json_sorted
  by unfold_locales (simp_all add: json_sorted_leaf sorted_items_map fst_sorted_pairs dget_sorted)

section \<open>Well-formed parts\<close>

definition source_wf :: "plan_source \<Rightarrow> bool" where
  "source_wf s \<longleftrightarrow> stripped_text (PStr (ps_release s)) \<and> git_commit_text (ps_commit s) \<and> \<not> ps_dirty s \<and>
     hex_text 64 (ps_tree s) \<and> ps_eligible s"

definition runtime_wf :: "runtime_identity \<Rightarrow> bool" where
  "runtime_wf r \<longleftrightarrow> ri_algorithm r = runtime_tree_algorithm \<and> ri_package r = ''btb'' \<and> hex_text 64 (ri_tree r)"

definition task_wf :: "task_binding \<Rightarrow> bool" where
  "task_wf t \<longleftrightarrow> tb_id t \<noteq> [] \<and> hex_text 64 (tb_sha256 t) \<and> tb_freeze t \<noteq> [] \<and> 1 \<le> tb_steps t \<and> 0 < tb_wall t"

definition condition_wf :: "plan_condition \<Rightarrow> bool" where
  "condition_wf c \<longleftrightarrow> supported_condition (cn_baseline c, cn_provider c, cn_model c, cn_steps c) \<and>
     (case cn_steps c of None \<Rightarrow> True | Some n \<Rightarrow> 1 \<le> n) \<and> cn_framework c = framework_name (cn_baseline c) \<and>
     stripped_text (PStr (cn_version c)) \<and>
     (cn_framework c = ''browser-use'' \<longrightarrow> cn_version c = browser_use_version)"

definition study_wf :: "digests \<Rightarrow> study \<Rightarrow> bool" where
  "study_wf D s \<longleftrightarrow> safe_study_id (st_id s) \<and> st_seed s \<noteq> [] \<and> 1 \<le> st_repetitions s \<and> 0 < st_wall s \<and>
     source_wf (st_source s) \<and> runtime_wf (st_runtime s) \<and> st_tasks s \<noteq> [] \<and> st_conditions s \<noteq> [] \<and>
     list_all task_wf (st_tasks s) \<and> list_all condition_wf (st_conditions s) \<and>
     sorted (map tb_id (st_tasks s)) \<and> sorted (map (condition_key D) (st_conditions s))"

lemma supported_texts:
  assumes "supported_condition (b, provider, model, steps)"
  shows "provider \<in> {None, Some ''deepseek'', Some ''anthropic'', Some ''openai''}"
    "model \<in> {Some ''deterministic-playwright'', Some ''deepseek-chat'', Some ''claude-sonnet-4-0'', Some ''gpt-4.1-mini''}"
  using assms by (auto simp: supported_condition_def split: if_splits)

lemma supported_normal:
  assumes "supported_condition (b, provider, model, steps)"
  shows "map_option (map lower_char \<circ> strip_while space_char) provider = provider \<and> provider \<noteq> Some []"
    "map_option (strip_while space_char) model = model \<and> model \<noteq> Some []"
proof -
  show "map_option (map lower_char \<circ> strip_while space_char) provider = provider \<and> provider \<noteq> Some []"
    using supported_texts(1) [OF assms] by (elim insertE emptyE; simp; code_simp)
  show "map_option (strip_while space_char) model = model \<and> model \<noteq> Some []"
    using supported_texts(2) [OF assms] by (elim insertE emptyE; simp; code_simp)
qed

lemma text_of_opt_text [simp]: "text_of (opt_text t) = t"
  by (simp add: text_of_def opt_text_def split: option.splits)

lemma opt_string_opt_text [simp]: "opt_string (opt_text t)"
  by (simp add: opt_string_def opt_text_def split: option.splits)

lemma opt_int_steps:
  "(if opt_int i = PNone then None else Some (int_of_py (opt_int i))) = i"
  "opt_int i = PNone \<or> positive_steps (opt_int i) \<longleftrightarrow> (case i of None \<Rightarrow> True | Some n \<Rightarrow> 1 \<le> n)"
  by (simp_all add: opt_int_def positive_steps_def split: option.splits)

lemma keys_filter: "set (map fst (filter (\<lambda>(k, _). k \<noteq> c) d)) = set (map fst d) - {c}"
  by (induction d) auto

lemma dget_filter: "dget (filter (\<lambda>(k, _). k \<noteq> c) d) k = (if k = c then PNone else dget d k)"
  by (induction d) auto

context rendering
begin

lemma source_back:
  assumes "source_wf s"
  shows "plan_source_of_plan (f (PDict (plan_source_to_dict s))) = Inr s"
proof -
  have "distinct (map fst (plan_source_to_dict s))" by (simp add: plan_source_to_dict_def)
  then obtain e where "f (PDict (plan_source_to_dict s)) = PDict e"
    "set (map fst e) = set (map fst (plan_source_to_dict s))" "\<And>k. dget e k = f (dget (plan_source_to_dict s) k)"
    by (rule dict_cases) blast
  then show ?thesis
    using assms by (simp add: plan_source_of_plan_def key_set_def plan_source_to_dict_def source_wf_def)
qed

lemma runtime_back:
  assumes "runtime_wf r"
  shows "runtime_of_plan (f (PDict (runtime_to_dict r))) = Inr r"
proof -
  have "distinct (map fst (runtime_to_dict r))" by (simp add: runtime_to_dict_def)
  then obtain e where "f (PDict (runtime_to_dict r)) = PDict e"
    "set (map fst e) = set (map fst (runtime_to_dict r))" "\<And>k. dget e k = f (dget (runtime_to_dict r) k)"
    by (rule dict_cases) blast
  then show ?thesis
    using assms by (simp add: runtime_of_plan_def key_set_def runtime_to_dict_def runtime_wf_def)
qed

lemma task_back:
  assumes "task_wf t"
  shows "task_of_plan (f (PDict (task_to_dict t))) = Inr t"
proof -
  let ?budget = "[(''steps'', PInt (tb_steps t)), (''wall_s'', PFloat (tb_wall t))]"
  have "distinct (map fst (task_to_dict t))" by (simp add: task_to_dict_def)
  then obtain e where e: "f (PDict (task_to_dict t)) = PDict e"
    "set (map fst e) = set (map fst (task_to_dict t))" "\<And>k. dget e k = f (dget (task_to_dict t) k)"
    by (rule dict_cases) blast
  have "distinct (map fst ?budget)" by simp
  then obtain b where b: "f (PDict ?budget) = PDict b" "\<And>k. dget b k = f (dget ?budget k)"
    by (rule dict_cases) blast
  show ?thesis
    using assms e(2) unfolding e(1)
    by (simp add: e(3) b task_of_plan_def key_set_def task_to_dict_def task_wf_def nonempty_text_def
        sha256_text_def positive_steps_def positive_number_def py_float_def)
qed

lemma condition_back:
  assumes "condition_wf c"
  shows "condition_entry D (f (PDict ((''key'', PStr (condition_key D c)) # condition_to_dict c))) = Inr c"
proof -
  let ?d = "(''key'', PStr (condition_key D c)) # condition_to_dict c"
  have "distinct (map fst ?d)" by (simp add: condition_to_dict_def)
  then obtain e where e: "f (PDict ?d) = PDict e" "set (map fst e) = set (map fst ?d)" "\<And>k. dget e k = f (dget ?d k)"
    by (rule dict_cases) blast
  let ?e = "filter (\<lambda>(k, _). k \<noteq> ''key'') e"
  have keys': "key_set ?e [''baseline'', ''provider'', ''model'', ''max_steps'', ''framework'', ''framework_version'']"
    unfolding key_set_def keys_filter e(2) by (simp add: condition_to_dict_def insert_Diff_if)
  have at: "dget ?e ''baseline'' = PStr (cn_baseline c)" "dget ?e ''provider'' = opt_text (cn_provider c)"
    "dget ?e ''model'' = opt_text (cn_model c)" "dget ?e ''max_steps'' = opt_int (cn_steps c)"
    "dget ?e ''framework'' = PStr (cn_framework c)" "dget ?e ''framework_version'' = PStr (cn_version c)"
    by (simp_all add: dget_filter e(3), simp_all add: condition_to_dict_def)
  have wf: "supported_condition (cn_baseline c, cn_provider c, cn_model c, cn_steps c)"
    "opt_int (cn_steps c) = PNone \<or> positive_steps (opt_int (cn_steps c))"
    using assms by (simp_all only: condition_wf_def opt_int_steps)
  have "normalized_condition_fields ?e = Inr (cn_baseline c, cn_provider c, cn_model c, cn_steps c)"
    using wf supported_normal [OF wf(1)] by (simp add: normalized_condition_fields_def at Let_def opt_int_steps)
  then have "condition_of_plan_mapping ?e = Inr c"
    using assms keys' by (simp add: condition_of_plan_mapping_def at condition_wf_def condition_with_def)
  moreover have "dget e ''key'' = PStr (condition_key D c)" by (simp add: e(3))
  moreover have "key_set e [''key'', ''baseline'', ''provider'', ''model'', ''max_steps'', ''framework'', ''framework_version'']"
    using e(2) by (simp add: key_set_def condition_to_dict_def)
  ultimately show ?thesis unfolding e(1) by (simp add: condition_entry_def)
qed

lemma map_back: "list_all P xs \<Longrightarrow> (\<And>x. P x \<Longrightarrow> g (f (h x)) = Inr x) \<Longrightarrow> map_planned g (map f (map h xs)) = Inr xs"
  by (induction xs) auto

lemma study_back:
  assumes "study_wf D s" and "plan_document D s = Inr document"
  shows "claimed_study D (as_dict (f (PDict document))) = Inr s"
proof -
  note at = document_at [OF assms(2)]
  obtain e where e: "f (PDict document) = PDict e" "\<And>k. dget e k = f (dget document k)"
    using at(9) by (rule dict_cases) blast
  have tasks: "map_planned task_of_plan (map f (map (PDict \<circ> task_to_dict) (st_tasks s))) = Inr (st_tasks s)"
    using assms(1) by (intro map_back [where P = task_wf]) (simp_all add: study_wf_def task_back)
  have conditions: "map_planned (condition_entry D)
      (map f (map (\<lambda>c. PDict ((''key'', PStr (condition_key D c)) # condition_to_dict c)) (st_conditions s))) = Inr (st_conditions s)"
    using assms(1) by (intro map_back [where P = condition_wf]) (simp_all add: study_wf_def condition_back)
  have "plan_lists e = Inr (map f (map (PDict \<circ> task_to_dict) (st_tasks s)),
      map f (map (\<lambda>c. PDict ((''key'', PStr (condition_key D c)) # condition_to_dict c)) (st_conditions s)))"
    using assms(1) by (simp add: plan_lists_def e(2) at list study_wf_def)
  then show ?thesis
    using assms(1) tasks conditions
    by (simp add: claimed_study_def e at source_back runtime_back study_wf_def positive_steps_def
        positive_number_def py_float_def del: map_map)
qed

end


section \<open>Runs read back\<close>

definition run_wf :: "planned_run \<Rightarrow> bool" where
  "run_wf r \<longleftrightarrow> 1 \<le> pr_ordinal r \<and> 1 \<le> pr_repetition r \<and> safe_component (pr_run_id r) \<and>
     hex_text 64 (pr_task_sha256 r) \<and> hex_text 64 (pr_order r)"

context rendering
begin

lemma run_back:
  assumes "run_wf r"
  shows "run_of_mapping (f (PDict (run_to_dict r))) = Inr r"
proof -
  have "distinct (map fst (run_to_dict r))" by (simp add: run_to_dict_def)
  then obtain e where "f (PDict (run_to_dict r)) = PDict e"
    "set (map fst e) = set (map fst (run_to_dict r))" "\<And>k. dget e k = f (dget (run_to_dict r) k)"
    by (rule dict_cases) blast
  then show ?thesis
    using assms by (simp add: run_of_mapping_def key_set_def run_to_dict_def run_wf_def positive_steps_def)
qed

lemma runs_back:
  assumes "plan_document D s = Inr document" and "study_runs D (canonical_json_sha256 D (PDict (identity D s))) s = Inr rs"
    and "list_all run_wf rs"
  shows "plan_runs (as_dict (f (PDict document))) = Inr rs"
proof -
  have "distinct (map fst document)" using assms(1) by (auto simp: plan_document_def Let_def identity_def)
  then obtain e where e: "f (PDict document) = PDict e" "\<And>k. dget e k = f (dget document k)"
    by (rule dict_cases) blast
  have "dget document ''runs'' = PList (map (PDict \<circ> run_to_dict) rs)"
    using assms(1,2) by (auto simp: plan_document_def Let_def identity_def)
  moreover have "map_planned run_of_mapping (map f (map (PDict \<circ> run_to_dict) rs)) = Inr rs"
    using assms(3) by (intro map_back [where P = run_wf]) (simp_all add: run_back)
  ultimately show ?thesis by (simp add: plan_runs_def e list del: map_map)
qed

end

section \<open>Built plans are accepted\<close>

lemma list_all_replicate [simp]: "list_all P (replicate n c) \<longleftrightarrow> n = 0 \<or> P c"
  by (induction n) auto

lemma insort_key_map: "insort_key g (h x) (map h ys) = map h (insort_key (\<lambda>a. g (h a)) x ys)"
  by (induction ys) auto

lemma sort_key_map: "sort_key g (map h xs) = map h (sort_key (g \<circ> h) xs)"
  by (induction xs) (simp_all add: insort_key_map comp_def)

lemma sort_key_sorted: "sort_key g (sort_key g xs) = sort_key g xs"
  by (rule sort_key_id_if_sorted) simp

lemma json_sorted_idem: "json_sorted (json_sorted v) = json_sorted v"
proof (induction v)
  case (PList xs)
  then show ?case by (simp add: sorted_items_map)
next
  case (PDict d)
  have "map (map_prod id json_sorted) (map (map_prod id json_sorted) d) = map (map_prod id json_sorted) d"
    using PDict by (fastforce simp: snds.simps)
  moreover have "fst \<circ> map_prod id json_sorted = fst" by auto
  ultimately have "sort_key fst (map (map_prod id json_sorted) (sort_key fst (map (map_prod id json_sorted) d))) =
      sort_key fst (map (map_prod id json_sorted) d)"
    by (metis sort_key_map sort_key_sorted)
  then show ?case by (simp add: sorted_pairs_map)
qed auto

lemma document_wf:
  assumes "plan_document D s = Inr document"
  shows "dict_wf (PDict document)"
proof -
  have "dict_wf (PDict (run_to_dict r))" "dict_wf (PDict (task_to_dict t))"
    "dict_wf (PDict ((''key'', PStr k) # condition_to_dict c))" for r t c k
    by (simp_all add: run_to_dict_def task_to_dict_def condition_to_dict_def opt_text_def opt_int_def split: option.splits)
  with assms show ?thesis
    by (auto simp: plan_document_def Let_def identity_def plan_source_to_dict_def runtime_to_dict_def)
qed

lemma document_keys: "plan_document D s = Inr document \<Longrightarrow> map fst document = plan_fields"
  by (auto simp: plan_document_def Let_def identity_def plan_fields_def)

lemma validated_document:
  assumes "study_wf D s" and "plan_document D s = Inr document"
  shows "validated_plan D (PDict document) = Inr (as_dict (json_sorted (PDict document)))"
    and "validated_plan D (json_sorted (PDict document)) = Inr (as_dict (json_sorted (PDict document)))"
proof -
  have eq: "py_eq (json_sorted (PDict document)) (PDict document)" by (rule py_eq_sorted [OF document_wf [OF assms(2)]])
  show "validated_plan D (PDict document) = Inr (as_dict (json_sorted (PDict document)))"
    using plain.study_back [OF assms] assms(2) document_keys [OF assms(2)] eq
    by (simp add: validated_plan_def key_set_def flip: list.set_map del: json_sorted.simps py_eq.simps)
  obtain e where e: "json_sorted (PDict document) = PDict e" by simp
  have "key_set e plan_fields"
    using keys_sorted [of document] document_keys [OF assms(2)] e by (simp add: key_set_def del: set_map)
  moreover have "claimed_study D e = Inr s" using canonical_json.study_back [OF assms] e by simp
  moreover have "json_sorted (PDict e) = PDict e" unfolding e [symmetric] by (rule json_sorted_idem)
  ultimately show "validated_plan D (json_sorted (PDict document)) = Inr (as_dict (json_sorted (PDict document)))"
    using assms(2) eq unfolding e by (simp add: validated_plan_def del: json_sorted.simps py_eq.simps)
qed

text \<open>What the environment provides: hexadecimal digests, and version texts without outer spaces.\<close>

definition hex_digests :: "digests \<Rightarrow> bool" where
  "hex_digests D \<longleftrightarrow> (\<forall>s. hex_text 64 (hex_sha256 D s))"

lemma task_binding_wf:
  "hex_digests D \<Longrightarrow> i \<noteq> [] \<Longrightarrow> task_of_definition D i d = Inr t \<Longrightarrow> task_wf t"
  by (auto simp: task_of_definition_def task_wf_def hex_digests_def canonical_json_sha256_def positive_steps_def
      positive_number_def py_float_def split: pyval.splits if_splits)

lemma condition_binding_wf:
  assumes "\<And>name version. versions name = Some version \<Longrightarrow> stripped_text (PStr version)"
    and "condition_of_mapping versions m = Inr c"
  shows "condition_wf c"
proof -
  obtain b provider model steps framework version where *:
    "normalized_condition_fields m = Inr (b, provider, model, steps)"
    "framework_identity versions b = Inr (framework, version)" "c = condition_with (b, provider, model, steps) framework version"
    using assms(2) by (auto simp: condition_of_mapping_def)
  have "supported_condition (b, provider, model, steps)" "case steps of None \<Rightarrow> True | Some n \<Rightarrow> 1 \<le> n"
    using *(1) by (auto simp: normalized_condition_fields_def Let_def positive_steps_def split: pyval.splits if_splits)
  moreover have "framework = framework_name b" "versions framework = Some version"
    "framework = ''browser-use'' \<longrightarrow> version = browser_use_version"
    using *(2) by (auto simp: framework_identity_def Let_def split: option.splits if_splits)
  ultimately show ?thesis using assms(1) *(3) by (simp add: condition_wf_def condition_with_def)
qed

lemma list_all2_list_all: "list_all2 R xs ys \<Longrightarrow> (\<And>x y. x \<in> set xs \<Longrightarrow> R x y \<Longrightarrow> P y) \<Longrightarrow> list_all P ys"
  unfolding list_all2_conv_all_nth list_all_length by (metis nth_mem)

lemma sort_key_not_Nil [simp]: "sort_key g xs = [] \<longleftrightarrow> xs = []"
  by (metis set_empty set_sort)

lemma built_study_wf:
  assumes hex: "hex_digests D" and "[] \<notin> set (rq_tasks q)"
    and versions: "\<And>name version. versions name = Some version \<Longrightarrow> stripped_text (PStr version)"
    and "built_study D versions load provenance (current_runtime D files) q = Inr s"
  shows "study_wf D s"
proof -
  obtain source rt tasks conditions where *: "request_error q = None"
    "plan_source_of_provenance provenance = Inr source" "current_runtime D files = Inr rt"
    "map_planned (\<lambda>i. and_then (load i) (task_of_definition D i)) (rq_tasks q) = Inr tasks"
    "map_planned (condition_of_mapping versions) (rq_conditions q) = Inr conditions"
    and s: "s = \<lparr>st_id = rq_id q, st_seed = py_str (rq_seed q), st_repetitions = int_of_py (rq_repetitions q),
            st_wall = py_float (rq_wall q), st_source = source, st_runtime = rt,
            st_tasks = sort_key tb_id tasks, st_conditions = sort_key (condition_key D) conditions\<rparr>"
    using assms(4) by (auto simp: built_study_def split: option.splits)
  have request: "safe_study_id (rq_id q)" "py_str (rq_seed q) \<noteq> []" "positive_steps (rq_repetitions q)"
    "positive_number (rq_wall q)" "rq_tasks q \<noteq> []" "rq_conditions q \<noteq> []"
    using *(1) by (auto simp: request_error_def split: if_splits)
  have "source_wf source"
    using *(2) by (auto simp: plan_source_of_provenance_def source_wf_def release_version_def stripped_text_def
        strip_while_def space_char_def split: option.splits if_splits)
  moreover have "runtime_wf rt"
    using *(3) hex by (auto simp: current_runtime_def runtime_wf_def Let_def hex_digests_def canonical_json_sha256_def split: if_splits)
  moreover have t: "list_all2 (\<lambda>i t. and_then (load i) (task_of_definition D i) = Inr t) (rq_tasks q) tasks"
    and c: "list_all2 (\<lambda>m c. condition_of_mapping versions m = Inr c) (rq_conditions q) conditions"
    using *(4,5) by (simp_all only: map_planned_Inr)
  moreover have "list_all task_wf tasks"
    using t
  proof (rule list_all2_list_all)
    fix i t
    assume "i \<in> set (rq_tasks q)" and "and_then (load i) (task_of_definition D i) = Inr t"
    then show "task_wf t" using assms(2) by (auto intro: task_binding_wf [OF hex, of i])
  qed
  moreover have "list_all condition_wf conditions"
    using c by (rule list_all2_list_all) (rule condition_binding_wf [where versions = versions], rule versions)
  moreover have "tasks \<noteq> []" "conditions \<noteq> []" using t c request(5,6) by auto
  moreover have "1 \<le> int_of_py (rq_repetitions q)" "0 < py_float (rq_wall q)"
    using request(3,4) by (auto simp: positive_steps_def positive_number_def py_float_def split: pyval.splits)
  ultimately show ?thesis using request(1,2)
    by (simp add: study_wf_def s list_all_iff)
qed

lemma list_all_map2:
  "(\<And>x y. y \<in> set ys \<Longrightarrow> x \<in> set xs \<Longrightarrow> P (f x y)) \<Longrightarrow> list_all P (map2 f xs ys)"
  by (auto simp: list_all_iff dest: set_zip_leftD set_zip_rightD)

lemma study_runs_wf:
  assumes "hex_digests D" and "study_wf D s" and "study_runs D h s = Inr rs"
  shows "list_all run_wf rs"
proof -
  let ?raw = "map (matrix_run D h (st_seed s)) (matrix s)"
  let ?sorted = "sort_key (\<lambda>r. (pr_order r, pr_run_id r)) ?raw"
  have rs: "rs = number_runs ?sorted" and safe: "list_all (\<lambda>r. safe_component (pr_run_id r)) ?raw"
    using assms(3) by (auto simp: study_runs_def Let_def split: if_splits)
  have "run_wf (r\<lparr>pr_ordinal := i\<rparr>)" if r: "r \<in> set ?sorted" and i: "i \<in> set (upto1 (length ?sorted))" for r i
  proof -
    obtain t c n where cell: "(t, c, n) \<in> set (matrix s)" "r = matrix_run D h (st_seed s) (t, c, n)" using r by auto
    have "safe_component (pr_run_id r)" using safe r by (auto simp: list_all_iff)
    moreover have "1 \<le> n" "task_wf t" using cell(1) assms(2) by (auto simp: set_matrix study_wf_def list_all_iff)
    moreover have "1 \<le> i" using i by (auto simp: set_upto1)
    ultimately show ?thesis using assms(1)
      by (simp add: run_wf_def cell(2) matrix_run_def Let_def order_digest_def hex_digests_def canonical_json_sha256_def task_wf_def)
  qed
  note numbered = this
  show ?thesis unfolding rs number_runs_def by (rule list_all_map2) (rule numbered)
qed

text \<open>
  C27: A plan that is built is accepted, now and when it is read back. Once the request, the source,
  the tasks and the conditions are bound and no two run ids collide, \<open>build_plan\<close> returns the plan,
  and validating the plan again returns the same plan; its runs load as they were planned.
\<close>
theorem built_plan_is_accepted:
  assumes "hex_digests D" and "[] \<notin> set (rq_tasks q)"
    and "\<And>name version. versions name = Some version \<Longrightarrow> stripped_text (PStr version)"
    and "built_study D versions load provenance (current_runtime D files) q = Inr s"
    and "plan_document D s = Inr document"
  shows "\<exists>p. build_plan D versions load provenance (current_runtime D files) q = Inr p \<and>
    py_eq (PDict p) (PDict document) \<and> validated_plan D (PDict p) = Inr p \<and>
    plan_runs p = study_runs D (canonical_json_sha256 D (PDict (identity D s))) s"
proof -
  have wf: "study_wf D s" by (rule built_study_wf [OF assms(1-4)])
  obtain p where p: "json_sorted (PDict document) = PDict p" by simp
  obtain rs where rs: "study_runs D (canonical_json_sha256 D (PDict (identity D s))) s = Inr rs"
    using assms(5) by (rule document_runs)
  show ?thesis
  proof (intro exI [of _ p] conjI)
    show "py_eq (PDict p) (PDict document)" using py_eq_sorted [OF document_wf [OF assms(5)]] by (simp only: p)
    show "build_plan D versions load provenance (current_runtime D files) q = Inr p"
      using validated_document(1) [OF wf assms(5)] assms(4,5) p by (simp add: build_plan_def)
    show "validated_plan D (PDict p) = Inr p"
      using validated_document(2) [OF wf assms(5)] by (simp only: p as_dict.simps)
    show "plan_runs p = study_runs D (canonical_json_sha256 D (PDict (identity D s))) s"
      using canonical_json.runs_back [OF assms(5) rs study_runs_wf [OF assms(1) wf rs]] by (simp only: p as_dict.simps rs)
  qed
qed

section \<open>A concrete study\<close>

text \<open>One task under one control; one run cannot collide, so a constant digest will do.\<close>

definition demo_digests :: digests where
  "demo_digests = \<lparr>hex_sha256 = (\<lambda>_. replicate 64 (CHR ''0'')), float_text = (\<lambda>_. ''1.0'')\<rparr>"

definition demo_definition :: pydict where
  "demo_definition =
     [(''id'', PStr ''t''), (''freeze'', PStr ''f''), (''budget'', PDict [(''steps'', PInt 1), (''wall_s'', PInt 60)])]"

definition demo_study :: study where
  "demo_study =
     \<lparr>st_id = ''s'', st_seed = ''7'', st_repetitions = 1, st_wall = 300,
      st_source = \<lparr>ps_release = release_version, ps_commit = replicate 40 (CHR ''a''), ps_dirty = False,
        ps_tree = replicate 64 (CHR ''b''), ps_eligible = True\<rparr>,
      st_runtime = \<lparr>ri_algorithm = runtime_tree_algorithm, ri_package = ''btb'', ri_tree = replicate 64 (CHR ''0'')\<rparr>,
      st_tasks = [\<lparr>tb_id = ''t'', tb_sha256 = replicate 64 (CHR ''0''), tb_freeze = ''f'', tb_steps = 1, tb_wall = 60\<rparr>],
      st_conditions = [\<lparr>cn_baseline = ''playwright-exact'', cn_provider = None,
        cn_model = Some ''deterministic-playwright'', cn_steps = None, cn_framework = ''playwright'', cn_version = ''1''\<rparr>]\<rparr>"

definition demo_request :: plan_request where
  "demo_request =
     \<lparr>rq_id = ''s'', rq_seed = PInt 7, rq_tasks = [''t''],
      rq_conditions = [[(''baseline'', PStr ''playwright-exact''), (''provider'', PNone),
        (''model'', PStr ''deterministic-playwright''), (''max_steps'', PNone)]],
      rq_repetitions = PInt 1, rq_wall = PInt 300\<rparr>"

definition demo_provenance :: source_provenance where
  "demo_provenance = \<lparr>sp_commit = Some (replicate 40 (CHR ''a'')), sp_dirty = False, sp_tree = replicate 64 (CHR ''b'')\<rparr>"

lemma demo_digest: "canonical_json_sha256 demo_digests v = replicate 64 (CHR ''0'')"
  by (simp add: canonical_json_sha256_def demo_digests_def)

lemma demo_built:
  "built_study demo_digests (\<lambda>_. Some ''1'') (\<lambda>_. Inr demo_definition) demo_provenance
     (current_runtime demo_digests [(''a.py'', ''x'')]) demo_request = Inr demo_study"
proof -
  have "current_runtime demo_digests [(''a.py'', ''x'')] = Inr (st_runtime demo_study)"
    by (simp add: current_runtime_def demo_digest bindable_file_def path_parts_def path_suffix_def
        before_char_def demo_study_def Let_def)
  moreover have "plan_source_of_provenance demo_provenance = Inr (st_source demo_study)"
    by (simp add: plan_source_of_provenance_def require_canonical_source_def demo_provenance_def demo_study_def
        git_commit_text_def hex_text_def)
  moreover have "request_error demo_request = None" by code_simp
  moreover have "task_of_definition demo_digests ''t'' demo_definition = Inr (hd (st_tasks demo_study))"
    by (simp add: task_of_definition_def demo_digest demo_definition_def demo_study_def positive_steps_def
        positive_number_def py_float_def)
  moreover have "condition_of_mapping (\<lambda>_. Some ''1'') (hd (rq_conditions demo_request)) = Inr (hd (st_conditions demo_study))"
    by code_simp
  moreover have "int_str 7 = ''7''" by code_simp
  ultimately show ?thesis
    by (simp add: built_study_def demo_request_def demo_study_def py_float_def)
qed

lemma demo_runs: "\<exists>rs. study_runs demo_digests h demo_study = Inr rs"
  by (simp add: study_runs_def matrix_def matrix_run_def demo_study_def run_digest_def order_digest_def demo_digest
      Let_def upto1_def safe_component_def word_char_def)

lemma demo_document: "\<exists>document. plan_document demo_digests demo_study = Inr document"
  using demo_runs by (fastforce simp: plan_document_def Let_def)

lemma demo_environment:
  "hex_digests demo_digests" "[] \<notin> set (rq_tasks demo_request)" "stripped_text (PStr ''1'')"
  by (simp_all add: hex_digests_def demo_digests_def hex_text_def demo_request_def stripped_text_def
      strip_while_def space_char_def)

lemma demo_plan:
  "\<exists>p rs. validated_plan demo_digests (PDict p) = Inr p \<and> plan_runs p = Inr rs"
proof -
  obtain document where document: "plan_document demo_digests demo_study = Inr document" using demo_document by blast
  obtain rs where rs: "study_runs demo_digests (canonical_json_sha256 demo_digests (PDict (identity demo_digests demo_study)))
      demo_study = Inr rs" using demo_runs by blast
  have wf: "study_wf demo_digests demo_study"
    by (rule built_study_wf [OF demo_environment(1,2) _ demo_built]) (auto simp: demo_environment)
  obtain p where p: "json_sorted (PDict document) = PDict p" by simp
  show ?thesis
    using validated_document(2) [OF wf document]
      canonical_json.runs_back [OF document rs study_runs_wf [OF demo_environment(1) wf rs]]
    by (metis p as_dict.simps(1))
qed

theorem accepted_plan_is_balanced_witness:
  "\<exists>p rs s. validated_plan demo_digests (PDict p) = Inr p \<and> plan_runs p = Inr rs \<and> balanced demo_digests s rs"
  using demo_plan accepted_plan_is_balanced [of demo_digests] by blast

theorem built_plan_is_accepted_witness:
  "\<exists>p. build_plan demo_digests (\<lambda>_. Some ''1'') (\<lambda>_. Inr demo_definition) demo_provenance
     (current_runtime demo_digests [(''a.py'', ''x'')]) demo_request = Inr p"
proof -
  obtain document where "plan_document demo_digests demo_study = Inr document" using demo_document by blast
  from built_plan_is_accepted [OF demo_environment(1,2) _ demo_built this]
  show ?thesis by (auto simp: demo_environment)
qed

end
