(* ===== verification/Study_Run_Properties.thy ===== *)
theory Study_Run_Properties
  imports Study_Run Publication_Frames Study_Properties
begin

text \<open>
  What the execution of a plan guarantees: an attempt that returns has published exactly one
  receipt, a staged one only after everything was cleaned up; the report of a study accounts for
  every planned run; and a receipt the parent had to write itself ends the study, because the
  code does not note it.
\<close>

section \<open>Running operations\<close>

lemma seq_InrE:
  assumes "seq m f s = (Inr y, s')"
  obtains x t where "m s = (Inr x, t)" and "f x t = (Inr y, s')"
  using assms by (auto simp: seq_def split: prod.splits sum.splits)

lemma Inr_iff [simp]:
  "ret x s = (Inr y, s') \<longleftrightarrow> y = x \<and> s' = s"
  "fail e s \<noteq> (Inr z, s')"
  "check b e s = (Inr u, s') \<longleftrightarrow> b \<and> s' = s"
  "of_sum r s = (Inr y, s') \<longleftrightarrow> r = Inr y \<and> s' = s"
  "raising e m h s = (Inr y, s') \<longleftrightarrow> m s = (Inr y, s')"
  by (auto simp: ret_def fail_def check_def of_sum_def raising_def split: prod.splits sum.splits)

lemma on_dir_Inr: "on_dir m x = (Inr y, x') \<longleftrightarrow> (\<exists>d. m (ex_dir x) = (Inr y, d) \<and> x' = x\<lparr>ex_dir := d\<rparr>)"
  by (auto simp: on_dir_def split: prod.splits)

lemma bind_exc_Inr: "bind_exc r f = Inr y \<longleftrightarrow> (\<exists>x. r = Inr x \<and> f x = Inr y)"
  by (cases r) auto

lemma unmoved_raising [unmoved_intros]: "unmoved F m \<Longrightarrow> unmoved F h \<Longrightarrow> unmoved F (raising e m h)"
  unfolding unmoved_def raising_def by (auto split: prod.splits sum.splits) (metis snd_conv)+

lemma unmoved_of_sum [unmoved_intros]: "unmoved F (of_sum r)"
  by (simp add: unmoved_def of_sum_def)

lemma unmoved_on_dir: "unmoved F m \<Longrightarrow> unmoved (F \<circ> ex_dir) (on_dir m)"
  unfolding unmoved_def on_dir_def by (auto split: prod.splits) (metis snd_conv)

lemma unmoved_seq_value:
  assumes "unmoved F m" and "\<And>s x s'. m s = (Inr x, s') \<Longrightarrow> unmoved F (f x)"
  shows "unmoved F (seq m f)"
  unfolding unmoved_def
proof
  fix s
  obtain r t where t: "m s = (r, t)" by fastforce
  show "F (snd (seq m f s)) = F s"
    using unmovedD [OF assms(1) t] assms(2) [of s _ t] t
    by (cases r) (auto simp: seq_def unmoved_def)
qed

section \<open>Receipts of the directory\<close>

text \<open>The public files of the receipt directory, but for those in \<open>Q\<close>.\<close>

definition files :: "string set \<Rightarrow> receipt_dir \<Rightarrow> string \<Rightarrow> node option" where
  "files Q d name = (if public name \<and> name \<notin> Q then lookup Root name d else None)"

definition receipt_file :: "string \<Rightarrow> string" where
  "receipt_file run_id = run_id @ ''.json''"

lemma public_file: "safe_component run_id \<Longrightarrow> public (receipt_file run_id)"
  using public_receipt [of "\<lparr>pub_run_id = run_id, pub_payload = [], pub_artifacts = []\<rparr>"]
  by (simp add: published_name_def receipt_file_def)

lemma files_root: "unmoved root_part m \<Longrightarrow> unmoved (files Q) m"
  by (auto simp: unmoved_def files_def root_part_def lookup_def fun_eq_iff)

lemma files_commit:
  "safe_component (pub_run_id pub) \<Longrightarrow> unmoved (files {receipt_file (pub_run_id pub)}) (commit_publication pub)"
  using commit_leaves [of pub] unfolding unmoved_def files_def fun_eq_iff receipt_file_def published_name_def
  by (metis prod.collapse singletonI)

lemma bind_parent_run_id:
  "bind_parent_filesystem_descriptor H b c inventory e d = (Inr (b', ts), d') \<Longrightarrow> b_run_id b' = b_run_id b"
  by (auto simp: bind_parent_filesystem_descriptor_def Let_def split: if_splits option.splits elim!: seq_InrE)

lemma note_evidence_run_id [simp]: "b_run_id (note_evidence H e stage b) = b_run_id b"
  by (simp add: note_evidence_def record_evidence_failure_def split: option.splits)

lemma root_bind_parent [unmoved_intros]:
  "unmoved root_part (bind_parent_filesystem_descriptor H b c inventory e)"
  unfolding bind_parent_filesystem_descriptor_def Let_def
  by (intro unmoved_intros) (auto intro!: unmoved_intros split: option.splits)

lemma files_parent_failure:
  assumes "safe_component (b_run_id b)"
  shows "unmoved (files {receipt_file (b_run_id b)}) (write_parent_failure H clk b c e stage status lo)"
  unfolding write_parent_failure_def Let_def
proof (rule unmoved_seq_value)
  let ?F = "files {receipt_file (b_run_id b)}"
  show "unmoved ?F (raising e' open_receipt_directory (ret ()))" for e'
    by (intro files_root unmoved_intros)
  let ?b2 = "note_evidence H (lo_cleanup_error lo) ''parent_work_root_cleanup''
    (note_evidence H (lo_inventory_error lo) ''parent_work_root_inventory'' b)"
  let ?bind = "bind_parent_filesystem_descriptor H ?b2 c (lo_inventory lo) (lo_cleanup_error lo)"
  show "unmoved ?F (seq (raising e' ?bind (discard_publication [])) (\<lambda>(b3, temps).
      seq (raising e' (check (int (length (failure_payload H clk b3 e stage status)) \<le> max_receipt_bytes) e'')
        (discard_publication temps)) (\<lambda>_.
      raising e' (commit_publication \<lparr>pub_run_id = b_run_id b3, pub_payload = failure_payload H clk b3 e stage status,
        pub_artifacts = temps\<rparr>) (ret ()))))" for e' e''
  proof (rule unmoved_seq_value)
    show "unmoved ?F (raising e' ?bind (discard_publication []))" by (intro files_root unmoved_intros)
    fix d x d'
    assume "raising e' ?bind (discard_publication []) d = (Inr x, d')"
    then obtain b3 temps where x: "x = (b3, temps)" "b_run_id b3 = b_run_id b"
      by (cases x) (auto dest: bind_parent_run_id)
    have "unmoved ?F (commit_publication \<lparr>pub_run_id = b_run_id b3,
        pub_payload = failure_payload H clk b3 e stage status, pub_artifacts = temps\<rparr>)"
      using files_commit [of "\<lparr>pub_run_id = b_run_id b3, pub_payload = failure_payload H clk b3 e stage status,
        pub_artifacts = temps\<rparr>"] assms by (simp add: x)
    then show "unmoved ?F (case x of (b3, temps) \<Rightarrow>
        seq (raising e' (check (int (length (failure_payload H clk b3 e stage status)) \<le> max_receipt_bytes) e'')
          (discard_publication temps)) (\<lambda>_.
        raising e' (commit_publication \<lparr>pub_run_id = b_run_id b3, pub_payload = failure_payload H clk b3 e stage status,
          pub_artifacts = temps\<rparr>) (ret ())))"
      by (auto simp: x(1) intro!: unmoved_seq unmoved_raising unmoved_check unmoved_ret files_root [OF root_temporaries(4)])
  qed
qed

text \<open>The parent's own receipt: the failure of a run at a stage.\<close>

definition failure_file :: "parent \<Rightarrow> planned_run \<Rightarrow> node \<Rightarrow> bool" where
  "failure_file E run n \<longleftrightarrow> (\<exists>i b e stage status. b_run_id b = pr_run_id run \<and> status \<in> {''setup_error'', ''timeout''} \<and>
     n = File i (failure_payload (host_of E) (ep_ended (pa_episode E (pr_run_id run))) b e stage status))"

lemma parent_failure_publishes:
  assumes "safe_component (b_run_id b)" and "write_parent_failure H clk b c e stage status lo d = (Inr u, d')"
  shows "lookup Root (receipt_file (b_run_id b)) d = None"
    and "\<exists>i b'. b_run_id b' = b_run_id b \<and>
      lookup Root (receipt_file (b_run_id b)) d' = Some (File i (failure_payload H clk b' e stage status))"
proof -
  let ?b2 = "note_evidence H (lo_cleanup_error lo) ''parent_work_root_cleanup''
    (note_evidence H (lo_inventory_error lo) ''parent_work_root_inventory'' b)"
  obtain b' temps d1 d2 where run: "open_receipt_directory d = (Inr (), d1)"
    "bind_parent_filesystem_descriptor H ?b2 c (lo_inventory lo) (lo_cleanup_error lo) d1 = (Inr (b', temps), d2)"
    "commit_publication \<lparr>pub_run_id = b_run_id b', pub_payload = failure_payload H clk b' e stage status,
      pub_artifacts = temps\<rparr> d2 = (Inr u, d')"
    using assms(2) unfolding write_parent_failure_def Let_def by (auto elim!: seq_InrE)
  have steps: "root_part d1 = root_part d" "root_part d2 = root_part d1" "b_run_id b' = b_run_id b"
    using unmovedD [OF root_observe(4) run(1)] unmovedD [OF root_bind_parent run(2)] bind_parent_run_id [OF run(2)]
    by simp_all
  note commit = commit_publishes [OF _ run(3)]
  show "lookup Root (receipt_file (b_run_id b)) d = None"
    using commit(1) assms(1) steps(1-3) by (simp add: receipt_file_def published_name_def root_part_def lookup_def)
  show "\<exists>i b'. b_run_id b' = b_run_id b \<and>
      lookup Root (receipt_file (b_run_id b)) d' = Some (File i (failure_payload H clk b' e stage status))"
    using commit(2) assms(1) steps(3) by (auto simp: receipt_file_def published_name_def)
qed

section \<open>One attempt\<close>

lemma parent_builder_run:
  assumes "parent_builder E P task run c started = Inr b"
  shows "b_run_id b = pr_run_id run" and "safe_component (pr_run_id run)"
  using assms
  by (auto simp: parent_builder_def receipt_builder_for_def make_receipt_builder_def post_init_def
      split: if_splits sum.splits option.splits)

lemma root_clock [unmoved_intros]: "unmoved (F \<circ> ex_dir) (read_clock E)"
  by (simp add: unmoved_def read_clock_def)

lemma root_launch [unmoved_intros]: "unmoved (F \<circ> ex_dir) (launch E P task run t c deadline)"
  by (auto simp: launch_def Let_def past_def intro!: unmoved_intros split: worker.splits)

lemma root_past [unmoved_intros]: "unmoved (F \<circ> ex_dir) (past E deadline)"
  by (auto simp: past_def intro!: unmoved_intros)

lemma root_no_direct_write [unmoved_intros]: "unmoved F (no_direct_write run)"
  by (simp add: unmoved_def no_direct_write_def check_def ret_def fail_def)

lemma root_take_staged [unmoved_intros]: "unmoved (root_part \<circ> ex_dir) (take_staged E P run)"
  unfolding take_staged_def Let_def by (intro unmoved_intros unmoved_on_dir)

lemma root_worker_effect: "ep_effect ep = id \<Longrightarrow> unmoved (root_part \<circ> ex_dir) (worker_effect ep)"
  by (simp add: unmoved_def worker_effect_def layout_of_def)

lemma root_after_worker [unmoved_intros]: "unmoved (root_part \<circ> ex_dir) (after_worker E P run deadline result)"
  unfolding after_worker_def by (intro unmoved_intros)

lemma root_run_worker:
  "ep_effect (pa_episode E (pr_run_id run)) = id \<Longrightarrow> unmoved (root_part \<circ> ex_dir) (run_worker E P task run t c deadline)"
  unfolding run_worker_def Let_def by (intro unmoved_intros root_worker_effect)

text \<open>A worker that was given time within its budget, finished and could be stopped.\<close>

definition worker_finished :: "parent \<Rightarrow> study_plan \<Rightarrow> pydict \<Rightarrow> planned_run \<Rightarrow> task_binding \<Rightarrow> plan_condition \<Rightarrow> bool" where
  "worker_finished E P task run t c \<longleftrightarrow>
     (let ep = pa_episode E (pr_run_id run) in
      case ep_worker ep of
        Injected _ \<Rightarrow> True
      | Spawned process \<Rightarrow> (\<exists>timeout return_code. 0 < timeout \<and> timeout \<le> tb_wall t \<and>
          process (worker_request P task run c (ep_root ep @ ''/receipts''))
            (worker_environment (pa_surroundings E) (pa_package_parent E) (ep_root ep) (cn_provider c)) timeout
          = (False, return_code, False)))"

lemma launch_finished:
  assumes "launch E P task run t c deadline x = (Inr (False, False, cause), x')"
  shows "worker_finished E P task run t c"
proof (cases "ep_worker (pa_episode E (pr_run_id run))")
  case (Injected e)
  then show ?thesis by (simp add: worker_finished_def)
next
  case (Spawned process)
  let ?result = "process (worker_request P task run c (ep_root (pa_episode E (pr_run_id run)) @ ''/receipts''))
    (worker_environment (pa_surroundings E) (pa_package_parent E) (ep_root (pa_episode E (pr_run_id run))) (cn_provider c))"
  obtain now y where now: "(let left = min (tb_wall t) (deadline - now);
         timeout = (case pa_cap E of None \<Rightarrow> left | Some cap \<Rightarrow> min left cap)
       in if timeout \<le> 0 then fail (execution_error ''worker timeout must be finite and positive'')
          else ret (worker_verdict (?result timeout))) y = (Inr (False, False, cause), x')"
    using assms Spawned unfolding launch_def Let_def by (auto elim: seq_InrE)
  let ?timeout = "case pa_cap E of None \<Rightarrow> min (tb_wall t) (deadline - now) | Some cap \<Rightarrow> min (min (tb_wall t) (deadline - now)) cap"
  have "0 < ?timeout" and verdict: "worker_verdict (?result ?timeout) = (False, False, cause)"
    using now by (auto simp: Let_def split: if_splits)
  moreover have "?timeout \<le> tb_wall t" by (auto simp: min_le_iff_disj split: option.splits)
  moreover obtain return_code where "?result ?timeout = (False, return_code, False)"
    using verdict by (cases "?result ?timeout") (auto simp: worker_verdict_def)
  ultimately show ?thesis unfolding worker_finished_def by (auto simp: Spawned Let_def)
qed

lemma take_staged_Inr:
  assumes "take_staged E P run x = (Inr (receipt, pub), x')"
  shows "stage_receipt (pa_world E) P run (ep_stage (pa_episode E (pr_run_id run))) = Inr receipt"
    and "pub_run_id pub = pr_run_id run" and "pub_payload pub = json_document (host_of E) (PDict receipt)"
  using assms
  by (auto simp: take_staged_def prepare_publication_def Let_def on_dir_Inr on_error_def elim!: seq_InrE
      split: sum.splits prod.splits if_splits)

lemma after_worker_Inr:
  assumes "after_worker E P run deadline result x = (Inr w, x')"
  shows "lookup Root (receipt_file (pr_run_id run)) (ex_dir x') = None"
    and "wk_staged w = Some (receipt, pub) \<Longrightarrow> \<exists>cause y y'. result = (False, False, cause) \<and>
      take_staged E P run y = (Inr (receipt, pub), y')"
proof -
  have "lookup Root (receipt_file (pr_run_id run)) (ex_dir x) = None"
    using assms by (auto simp: after_worker_def no_direct_write_def receipt_file_def split: prod.splits elim!: seq_InrE)
  moreover have "root_part (ex_dir x') = root_part (ex_dir x)"
    using unmovedD [OF root_after_worker assms] by simp
  ultimately show "lookup Root (receipt_file (pr_run_id run)) (ex_dir x') = None"
    by (simp add: root_part_def lookup_def)
  show "\<exists>cause y y'. result = (False, False, cause) \<and> take_staged E P run y = (Inr (receipt, pub), y')"
    if "wk_staged w = Some (receipt, pub)"
    using assms that
    by (auto simp: after_worker_def always_def split: prod.splits if_splits sum.splits elim!: seq_InrE) blast
qed

lemma run_worker_Inr:
  assumes "run_worker E P task run t c deadline x = (Inr w, x')"
  shows "lookup Root (receipt_file (pr_run_id run)) (ex_dir x') = None"
    and "wk_staged w = Some (receipt, pub) \<Longrightarrow>
      stage_receipt (pa_world E) P run (ep_stage (pa_episode E (pr_run_id run))) = Inr receipt \<and>
      pub_run_id pub = pr_run_id run \<and> pub_payload pub = json_document (host_of E) (PDict receipt) \<and>
      worker_finished E P task run t c"
proof -
  obtain result y y1 z where parts: "launch E P task run t c deadline y = (Inr result, y1)"
    "after_worker E P run deadline result z = (Inr w, x')"
    using assms unfolding run_worker_def Let_def by (auto elim!: seq_InrE)
  show "lookup Root (receipt_file (pr_run_id run)) (ex_dir x') = None"
    by (rule after_worker_Inr(1) [OF parts(2)])
  assume "wk_staged w = Some (receipt, pub)"
  then obtain cause u u' where staged: "result = (False, False, cause)" "take_staged E P run u = (Inr (receipt, pub), u')"
    using after_worker_Inr(2) [OF parts(2)] by blast
  show "stage_receipt (pa_world E) P run (ep_stage (pa_episode E (pr_run_id run))) = Inr receipt \<and>
      pub_run_id pub = pr_run_id run \<and> pub_payload pub = json_document (host_of E) (PDict receipt) \<and>
      worker_finished E P task run t c"
    using launch_finished [OF parts(1) [unfolded staged(1)]] take_staged_Inr [OF staged(2)] by simp
qed

text \<open>What an attempt leaves as the receipt of its run.\<close>

definition ended_with :: "parent \<Rightarrow> study_plan \<Rightarrow> pydict \<Rightarrow> planned_run \<Rightarrow> task_binding \<Rightarrow> plan_condition \<Rightarrow> ending
    \<Rightarrow> node \<Rightarrow> bool" where
  "ended_with E P task run t c ending n \<longleftrightarrow>
     (let ep = pa_episode E (pr_run_id run) in
      case ending of
        Published receipt \<Rightarrow> stage_receipt (pa_world E) P run (ep_stage ep) = Inr receipt \<and>
          (\<exists>i. n = File i (json_document (host_of E) (PDict receipt))) \<and>
          worker_finished E P task run t c \<and> (\<exists>inventory. ep_inventory ep = Inr inventory) \<and> ep_unremoved ep = None
      | _ \<Rightarrow> failure_file E run n)"

lemma fall_back_publishes:
  assumes "b_run_id b = pr_run_id run" and "safe_component (pr_run_id run)"
    and "fall_back E b run c w e stage status lo ending x = (Inr ending', x')"
    and "status \<in> {''setup_error'', ''timeout''}"
  shows "ending' = ending"
    and "\<exists>n. lookup Root (receipt_file (pr_run_id run)) (ex_dir x') = Some n \<and> failure_file E run n"
proof -
  obtain d d' where parts: "write_parent_failure (host_of E) (ep_ended (pa_episode E (pr_run_id run))) b c e stage status lo d = (Inr (), d')"
    "x' = x\<lparr>ex_dir := d'\<rparr>" "ending' = ending"
    using assms(3) unfolding fall_back_def by (auto simp: on_dir_Inr elim!: seq_InrE split: option.splits)
  then show "ending' = ending" by simp
  obtain i b' where f: "b_run_id b' = pr_run_id run" "lookup Root (receipt_file (pr_run_id run)) d' =
      Some (File i (failure_payload (host_of E) (ep_ended (pa_episode E (pr_run_id run))) b' e stage status))"
    using parent_failure_publishes(2) [OF _ parts(1)] assms(1,2) by auto
  then have "failure_file E run
      (File i (failure_payload (host_of E) (ep_ended (pa_episode E (pr_run_id run))) b' e stage status))"
    unfolding failure_file_def using assms(4) by blast
  with f show "\<exists>n. lookup Root (receipt_file (pr_run_id run)) (ex_dir x') = Some n \<and> failure_file E run n"
    by (simp add: parts(2))
qed

lemma files_fall_back:
  assumes "b_run_id b = pr_run_id run" and "safe_component (pr_run_id run)"
  shows "unmoved (files {receipt_file (pr_run_id run)} \<circ> ex_dir) (fall_back E b run c w e stage status lo ending)"
  unfolding fall_back_def
  by (intro unmoved_on_dir unmoved_seq unmoved_ret)
    (use files_parent_failure [of b] assms in \<open>auto intro!: unmoved_ret files_root [OF root_temporaries(4)] split: option.splits\<close>)

lemma files_settle:
  assumes "b_run_id b = pr_run_id run" and "safe_component (pr_run_id run)"
    and "\<And>receipt pub. wk_staged w = Some (receipt, pub) \<Longrightarrow> pub_run_id pub = pr_run_id run"
  shows "unmoved (files {receipt_file (pr_run_id run)} \<circ> ex_dir) (settle E b run c w lo)"
proof -
  note fell = files_fall_back [OF assms(1,2)]
  have "unmoved (files {receipt_file (pr_run_id run)} \<circ> ex_dir) (on_dir (commit_publication pub))"
    if "wk_staged w = Some (receipt, pub)" for receipt pub
    using files_commit [of pub] assms(2,3) that by (intro unmoved_on_dir) auto
  then show ?thesis
    unfolding settle_def Let_def
    by (auto intro!: unmoved_if fell unmoved_seq unmoved_always unmoved_ret split: option.splits)
qed

lemma settle_publishes:
  assumes "b_run_id b = pr_run_id run" and "safe_component (pr_run_id run)"
    and "\<And>receipt pub. wk_staged w = Some (receipt, pub) \<Longrightarrow>
      stage_receipt (pa_world E) P run (ep_stage (pa_episode E (pr_run_id run))) = Inr receipt \<and>
      pub_run_id pub = pr_run_id run \<and> pub_payload pub = json_document (host_of E) (PDict receipt) \<and>
      worker_finished E P task run t c"
    and "settle E b run c w (cleanup_root (pa_episode E (pr_run_id run))) x = (Inr ending, x')"
  shows "\<exists>n. lookup Root (receipt_file (pr_run_id run)) (ex_dir x') = Some n \<and> ended_with E P task run t c ending n"
proof -
  let ?ep = "pa_episode E (pr_run_id run)"
  let ?goal = "\<exists>n. lookup Root (receipt_file (pr_run_id run)) (ex_dir x') = Some n \<and> ended_with E P task run t c ending n"
  have fell: ?goal if "fall_back E b run c w' e stage status lo ending' y = (Inr ending, x')"
    "status \<in> {''setup_error'', ''timeout''}" "\<And>receipt. ending' \<noteq> Published receipt" for w' e stage status lo ending' y
    using fall_back_publishes [OF assms(1,2) that(1,2)] that(3)
    by (cases ending) (auto simp: ended_with_def)
  show ?thesis
  proof (cases "lo_cleanup_error (cleanup_root ?ep) = None \<and> lo_inventory_error (cleanup_root ?ep) = None \<and>
      \<not> wk_timed_out w \<and> \<not> wk_teardown w \<and> wk_staged w \<noteq> None")
    case False
    then show ?thesis
      using assms(4) unfolding settle_def Let_def
      by (auto split: option.splits if_splits intro: fell)
  next
    case True
    then obtain receipt pub where staged: "wk_staged w = Some (receipt, pub)" by auto
    note pub = assms(3) [OF staged]
    have run: "seq (always (on_dir (commit_publication pub)) (\<lambda>_. None) Some) (\<lambda>failure.
        case failure of
          None \<Rightarrow> ret (Published receipt)
        | Some e \<Rightarrow> fall_back E b run c (w\<lparr>wk_staged := None\<rparr>) e ''parent_receipt_publication'' ''setup_error''
            (cleanup_root ?ep) FellBack) x = (Inr ending, x')"
      using assms(4) True staged by (simp add: settle_def)
    then obtain failure y where y: "always (on_dir (commit_publication pub)) (\<lambda>_. None) Some x = (Inr failure, y)"
      "(case failure of None \<Rightarrow> ret (Published receipt)
        | Some e \<Rightarrow> fall_back E b run c (w\<lparr>wk_staged := None\<rparr>) e ''parent_receipt_publication'' ''setup_error''
            (cleanup_root ?ep) FellBack) y = (Inr ending, x')" by (rule seq_InrE)
    show ?thesis
    proof (cases failure)
      case (Some e)
      with y(2) show ?thesis by (auto intro: fell)
    next
      case None
      then obtain d where d: "commit_publication pub (ex_dir x) = (Inr (), d)" "x' = x\<lparr>ex_dir := d\<rparr>" "ending = Published receipt"
        using y by (auto simp: always_def on_dir_def split: prod.splits sum.splits)
      then have "\<exists>i. lookup Root (receipt_file (pr_run_id run)) (ex_dir x') = Some (File i (json_document (host_of E) (PDict receipt)))"
        using commit_publishes(2) [OF _ d(1)] pub assms(2) by (simp add: receipt_file_def published_name_def)
      moreover have "(\<exists>inventory. ep_inventory ?ep = Inr inventory) \<and> ep_unremoved ?ep = None"
        using True by (auto simp: cleanup_root_def split: sum.splits)
      ultimately show ?thesis using pub d(3) by (auto simp: ended_with_def)
    qed
  qed
qed

lemma attempt_parts:
  assumes "parent_builder E P task run c started = Inr b"
    and "attempt E P task run t c b deadline x = (Inr ending, x')"
  obtains w y where "run_worker E P task run t c deadline x = (Inr w, y)"
    and "settle E b run c w (cleanup_root (pa_episode E (pr_run_id run))) y = (Inr ending, x')"
  using assms(2) unfolding attempt_def Let_def by (auto elim!: seq_InrE)

lemma attempt_ends:
  assumes b: "parent_builder E P task run c started = Inr b"
    and run: "attempt E P task run t c b deadline x = (Inr ending, x')"
  shows "\<exists>n. lookup Root (receipt_file (pr_run_id run)) (ex_dir x') = Some n \<and> ended_with E P task run t c ending n"
proof -
  obtain w y where parts: "run_worker E P task run t c deadline x = (Inr w, y)"
    "settle E b run c w (cleanup_root (pa_episode E (pr_run_id run))) y = (Inr ending, x')"
    using attempt_parts [OF b run] .
  show ?thesis
    by (rule settle_publishes [OF parent_builder_run [OF b] run_worker_Inr(2) [OF parts(1)] parts(2)])
qed

lemma attempt_unmoved:
  assumes b: "parent_builder E P task run c started = Inr b" and "ep_effect (pa_episode E (pr_run_id run)) = id"
  shows "unmoved (files {receipt_file (pr_run_id run)} \<circ> ex_dir) (attempt E P task run t c b deadline)"
  unfolding attempt_def Let_def
proof (rule unmoved_seq [OF unmoved_of_sum], rule unmoved_seq_value)
  let ?F = "files {receipt_file (pr_run_id run)}"
  show "unmoved (?F \<circ> ex_dir) (run_worker E P task run t c deadline)"
    using root_run_worker [OF assms(2)] by (auto simp: unmoved_def files_def root_part_def lookup_def fun_eq_iff)
  show "unmoved (?F \<circ> ex_dir) (settle E b run c w (cleanup_root (pa_episode E (pr_run_id run))))"
    if "run_worker E P task run t c deadline y = (Inr w, y')" for y w y'
    using run_worker_Inr(2) [OF that] by (intro files_settle parent_builder_run [OF b]) blast
qed

lemma attempt_leaves:
  assumes b: "parent_builder E P task run c started = Inr b" and effect: "ep_effect (pa_episode E (pr_run_id run)) = id"
    and run: "attempt E P task run t c b deadline x = (Inr ending, x')"
  shows "lookup Root (receipt_file (pr_run_id run)) (ex_dir x) = None"
    and "public name \<Longrightarrow> name \<noteq> receipt_file (pr_run_id run) \<Longrightarrow> lookup Root name (ex_dir x') = lookup Root name (ex_dir x)"
proof -
  obtain w y where "run_worker E P task run t c deadline x = (Inr w, y)"
    using attempt_parts [OF b run] by blast
  then show "lookup Root (receipt_file (pr_run_id run)) (ex_dir x) = None"
    using run_worker_Inr(1) unmovedD [OF root_run_worker [OF effect]]
    by (fastforce simp: root_part_def lookup_def)
  have "files {receipt_file (pr_run_id run)} (ex_dir x') = files {receipt_file (pr_run_id run)} (ex_dir x)"
    using unmovedD [OF attempt_unmoved [OF b effect] run] by simp
  then show "public name \<Longrightarrow> name \<noteq> receipt_file (pr_run_id run) \<Longrightarrow> lookup Root name (ex_dir x') = lookup Root name (ex_dir x)"
    by (auto simp: files_def fun_eq_iff) (metis (mono_tags, lifting))
qed

section \<open>The loop\<close>

definition accounts :: "progress \<Rightarrow> string list \<Rightarrow> receipt_dir \<Rightarrow> execution_report \<Rightarrow> receipt_dir \<Rightarrow> bool" where
  "accounts g ids d R d' \<longleftrightarrow> (\<exists>tried.
     er_attempted R = pg_attempted g @ tried \<and> er_completed R = pg_completed g @ tried \<and> distinct tried \<and>
     set tried \<inter> set (er_unstarted R) = {} \<and>
     set tried \<union> set (er_unstarted R) = {i \<in> set ids. i \<notin> fst ` set (pg_existing g)} \<and>
     (\<forall>name. public name \<and> name \<notin> receipt_file ` set tried \<longrightarrow> lookup Root name d' = lookup Root name d) \<and>
     (\<forall>i \<in> set tried. lookup Root (receipt_file i) d' \<noteq> None) \<and> (er_reason R = None \<longrightarrow> er_unstarted R = []))"

definition noted :: "progress \<Rightarrow> string list \<Rightarrow> receipt_dir \<Rightarrow> bool" where
  "noted g ids d \<longleftrightarrow> (\<forall>i \<in> set ids. i \<in> fst ` set (pg_existing g) \<longleftrightarrow> lookup Root (receipt_file i) d \<noteq> None)"

lemma accounts_unstarted:
  "accounts g ids d (report_of P g (filter (\<lambda>i. i \<notin> fst ` set (pg_existing g)) ids) (Some reason)) d"
  by (auto simp: accounts_def report_of_def)

text \<open>One more run was tried; the others are accounted for.\<close>

lemma accounts_Cons:
  assumes rest: "accounts g' ids d1 R d'"
    and g': "pg_attempted g' = pg_attempted g @ [i]" "pg_completed g' = pg_completed g @ [i]"
    and existing: "fst ` set (pg_existing g') = fst ` set (pg_existing g) \<or> fst ` set (pg_existing g') = insert i (fst ` set (pg_existing g))"
    and i: "i \<notin> fst ` set (pg_existing g)" "i \<notin> set ids" "public (receipt_file i)" "lookup Root (receipt_file i) d1 \<noteq> None"
    and d1: "\<And>name. public name \<Longrightarrow> name \<noteq> receipt_file i \<Longrightarrow> lookup Root name d1 = lookup Root name d"
  shows "accounts g (i # ids) d R d'"
proof -
  obtain ts where t: "er_attempted R = pg_attempted g' @ ts" "er_completed R = pg_completed g' @ ts" "distinct ts"
    "set ts \<inter> set (er_unstarted R) = {}"
    "set ts \<union> set (er_unstarted R) = {j \<in> set ids. j \<notin> fst ` set (pg_existing g')}"
    "\<forall>name. public name \<and> name \<notin> receipt_file ` set ts \<longrightarrow> lookup Root name d' = lookup Root name d1"
    "\<forall>j \<in> set ts. lookup Root (receipt_file j) d' \<noteq> None" "er_reason R = None \<longrightarrow> er_unstarted R = []"
    using rest unfolding accounts_def by (elim exE conjE) (rule that)
  have fresh: "i \<notin> set ts" "i \<notin> set (er_unstarted R)" using t(5) i(2) by blast+
  have inj: "receipt_file i \<notin> receipt_file ` set ts" using fresh by (auto simp: receipt_file_def)
  have ids: "{j \<in> set ids. j \<notin> fst ` set (pg_existing g')} = {j \<in> set ids. j \<notin> fst ` set (pg_existing g)}"
    by (rule disjE [OF existing]) (use i(2) in auto)
  show ?thesis
    unfolding accounts_def
  proof (intro exI [of _ "i # ts"] conjI)
    show "er_attempted R = pg_attempted g @ i # ts" "er_completed R = pg_completed g @ i # ts" "distinct (i # ts)"
      using t(1-3) g' fresh by simp_all
    show "set (i # ts) \<inter> set (er_unstarted R) = {}" using t(4) fresh(2) by simp
    show "set (i # ts) \<union> set (er_unstarted R) = {j \<in> set (i # ids). j \<notin> fst ` set (pg_existing g)}"
      using t(5) i(1) unfolding ids by auto
    show "\<forall>name. public name \<and> name \<notin> receipt_file ` set (i # ts) \<longrightarrow> lookup Root name d' = lookup Root name d"
      using t(6) d1 by simp
    show "\<forall>j \<in> set (i # ts). lookup Root (receipt_file j) d' \<noteq> None"
      using t(6,7) inj i(3,4) by simp
    show "er_reason R = None \<longrightarrow> er_unstarted R = []" by (rule t(8))
  qed
qed

lemma ex_dir_prepare: "unmoved ex_dir (prepare_run E P existing run t c)"
proof -
  have "unmoved ex_dir (receipts_now E P)" by (simp add: unmoved_def receipts_now_def)
  then show ?thesis unfolding prepare_run_def by (intro unmoved_intros)
qed

lemma ex_dir_budget: "unmoved ex_dir (past_budget E deadline t)"
proof -
  have "unmoved ex_dir (read_clock E)" by (simp add: unmoved_def read_clock_def)
  then show ?thesis unfolding past_budget_def by (intro unmoved_intros)
qed

lemma prepare_run_Inr:
  assumes "prepare_run E P existing run t c x = (Inr (task, b), x')"
  shows "parent_builder E P task run c (ep_started (pa_episode E (pr_run_id run))) = Inr b" and "ex_dir x' = ex_dir x"
    and "\<exists>now. validated_receipts (pa_world E) P (Some (layout_of (ex_dir x))) False = Inr now \<and>
      fst ` set now = fst ` set existing"
  using assms unmovedD [OF ex_dir_prepare assms]
  by (auto simp: prepare_run_def receipts_now_def split: if_splits elim!: seq_InrE)

text \<open>What the loop does with a run that has no receipt.\<close>

lemma execute_run_cases:
  assumes run: "execute_runs E P deadline g (run # rest) x = (Inr R, x')" and "pr_run_id run \<notin> fst ` set (pg_existing g)"
  obtains (exhausted) "R = report_of P g (unstarted (pg_existing g) (run # rest)) (Some ''study_wall_deadline_exhausted'')"
      "ex_dir x' = ex_dir x"
  | (attempted) t c task b started ending y y' where
      "parent_builder E P task run c started = Inr b" "ex_dir y = ex_dir x"
      "attempt E P task run t c b deadline y = (Inr ending, y')"
      "case ending of
         Stopped reason \<Rightarrow> R = report_of P (tried (pr_run_id run) g) (unstarted (pg_existing g) rest) (Some reason) \<and> x' = y'
       | FellBack \<Rightarrow> execute_runs E P deadline (tried (pr_run_id run) g) rest y' = (Inr R, x')
       | Published receipt \<Rightarrow> execute_runs E P deadline
           (tried (pr_run_id run) g\<lparr>pg_existing := pg_existing g @ [(pr_run_id run, receipt)]\<rparr>) rest y' = (Inr R, x')"
proof -
  let ?exhausted = "ret (report_of P g (unstarted (pg_existing g) (run # rest)) (Some ''study_wall_deadline_exhausted''))"
  obtain t c e x1 where s1: "past_budget E deadline t x = (Inr e, x1)" and
    s2: "(if e then ?exhausted else seq (prepare_run E P (pg_existing g) run t c) (\<lambda>(task, b).
          seq (past_budget E deadline t) (\<lambda>exhausted. if exhausted then ?exhausted
          else seq (attempt E P task run t c b deadline) (\<lambda>ending. case ending of
              Stopped reason \<Rightarrow>
                ret (report_of P (tried (pr_run_id run) g) (unstarted (pg_existing g) rest) (Some reason))
            | FellBack \<Rightarrow> execute_runs E P deadline (tried (pr_run_id run) g) rest
            | Published receipt \<Rightarrow>
                execute_runs E P deadline
                  (tried (pr_run_id run) g\<lparr>pg_existing := pg_existing g @ [(pr_run_id run, receipt)]\<rparr>) rest)))) x1
      = (Inr R, x')"
    using run assms(2) by (auto elim!: seq_InrE)
  note dir1 = unmovedD [OF ex_dir_budget s1]
  show thesis
  proof (cases e)
    case True
    with s2 dir1 show thesis by (auto intro: exhausted)
  next
    case False
    then obtain task b x2 e' x3 where s3: "prepare_run E P (pg_existing g) run t c x1 = (Inr (task, b), x2)"
      and s5: "past_budget E deadline t x2 = (Inr e', x3)" and
      s6: "(if e' then ?exhausted
          else seq (attempt E P task run t c b deadline) (\<lambda>ending. case ending of
              Stopped reason \<Rightarrow>
                ret (report_of P (tried (pr_run_id run) g) (unstarted (pg_existing g) rest) (Some reason))
            | FellBack \<Rightarrow> execute_runs E P deadline (tried (pr_run_id run) g) rest
            | Published receipt \<Rightarrow>
                execute_runs E P deadline
                  (tried (pr_run_id run) g\<lparr>pg_existing := pg_existing g @ [(pr_run_id run, receipt)]\<rparr>) rest)) x3
      = (Inr R, x')"
      using s2 by (auto elim!: seq_InrE)
    note prepared = prepare_run_Inr [OF s3]
    have dir: "ex_dir x3 = ex_dir x"
      using dir1 prepared(2) unmovedD [OF ex_dir_budget s5] by simp
    show thesis
    proof (cases e')
      case True
      with s6 dir show thesis by (auto intro: exhausted)
    next
      case False
      with s6 obtain ending y' where "attempt E P task run t c b deadline x3 = (Inr ending, y')"
        "(case ending of
              Stopped reason \<Rightarrow>
                ret (report_of P (tried (pr_run_id run) g) (unstarted (pg_existing g) rest) (Some reason))
            | FellBack \<Rightarrow> execute_runs E P deadline (tried (pr_run_id run) g) rest
            | Published receipt \<Rightarrow>
                execute_runs E P deadline
                  (tried (pr_run_id run) g\<lparr>pg_existing := pg_existing g @ [(pr_run_id run, receipt)]\<rparr>) rest) y'
         = (Inr R, x')"
        by (auto elim!: seq_InrE)
      then show thesis
        by (intro attempted [OF prepared(1) dir]) (auto split: ending.splits)
    qed
  qed
qed

lemma noted_tried:
  assumes "noted g (i # ids) d" and "i \<notin> set ids" and "\<And>j. j \<in> set ids \<Longrightarrow> public (receipt_file j)"
    and "\<And>name. public name \<Longrightarrow> name \<noteq> receipt_file i \<Longrightarrow> lookup Root name d1 = lookup Root name d"
    and "fst ` set (pg_existing g') = fst ` set (pg_existing g) \<or> fst ` set (pg_existing g') = insert i (fst ` set (pg_existing g))"
  shows "noted g' ids d1"
proof -
  have "j \<in> fst ` set (pg_existing g') \<longleftrightarrow> lookup Root (receipt_file j) d1 \<noteq> None" if j: "j \<in> set ids" for j
  proof -
    have "j \<noteq> i" "receipt_file j \<noteq> receipt_file i" using assms(2) j by (auto simp: receipt_file_def)
    moreover from this(2) have "lookup Root (receipt_file j) d1 = lookup Root (receipt_file j) d"
      using assms(3) [OF j] assms(4) by blast
    moreover from \<open>j \<noteq> i\<close> have "j \<in> fst ` set (pg_existing g') \<longleftrightarrow> j \<in> fst ` set (pg_existing g)"
      using assms(5) by (elim disjE) simp_all
    ultimately show ?thesis using assms(1) j by (simp add: noted_def)
  qed
  then show ?thesis unfolding noted_def by blast
qed

lemma execute_runs_accounts:
  assumes "\<And>r. r \<in> set runs \<Longrightarrow> ep_effect (pa_episode E (pr_run_id r)) = id \<and> safe_component (pr_run_id r)"
    and "distinct (map pr_run_id runs)" and "noted g (map pr_run_id runs) (ex_dir x)"
    and "execute_runs E P deadline g runs x = (Inr R, x')"
  shows "accounts g (map pr_run_id runs) (ex_dir x) R (ex_dir x')"
  using assms
proof (induction runs arbitrary: g x)
  case Nil
  then show ?case by (simp add: accounts_def report_of_def)
next
  case (Cons run rest)
  let ?i = "pr_run_id run" and ?ids = "map pr_run_id rest"
  have rest: "?i \<notin> set ?ids" "distinct ?ids" and safe: "safe_component ?i" "ep_effect (pa_episode E ?i) = id"
    using Cons.prems(1,2) by auto
  have public: "public (receipt_file j)" if "j \<in> set ?ids" for j using that Cons.prems(1) by (auto intro!: public_file)
  show ?case
  proof (cases "?i \<in> fst ` set (pg_existing g)")
    case True
    let ?g = "g\<lparr>pg_skipped := pg_skipped g @ [?i]\<rparr>"
    have "execute_runs E P deadline ?g rest x = (Inr R, x')" using Cons.prems(4) True by simp
    then have "accounts ?g ?ids (ex_dir x) R (ex_dir x')"
      using Cons.prems(1,3) rest by (intro Cons.IH) (auto simp: noted_def)
    moreover have "{j \<in> set (?i # ?ids). j \<notin> fst ` set (pg_existing g)} = {j \<in> set ?ids. j \<notin> fst ` set (pg_existing g)}"
      using True by auto
    ultimately show ?thesis unfolding accounts_def list.map by simp
  next
    case False
    from Cons.prems(4) False show ?thesis
    proof (cases rule: execute_run_cases)
      case exhausted
      then show ?thesis
        using accounts_unstarted [of g "?i # ?ids" "ex_dir x" P] by (simp add: unstarted_def)
    next
      case (attempted t c task b started ending y y')
      note b = attempted(1) and dir = attempted(2) and run = attempted(3)
      have present: "lookup Root (receipt_file ?i) (ex_dir y') \<noteq> None" using attempt_ends [OF b run] by auto
      have other: "lookup Root name (ex_dir y') = lookup Root name (ex_dir x)" if "public name" "name \<noteq> receipt_file ?i" for name
        using attempt_leaves(2) [OF b safe(2) run that] dir by simp
      have one: "accounts g (?i # ?ids) (ex_dir x) R (ex_dir x')"
        if "accounts g' ?ids (ex_dir y') R (ex_dir x')" "pg_attempted g' = pg_attempted g @ [?i]"
          "pg_completed g' = pg_completed g @ [?i]"
          "fst ` set (pg_existing g') = fst ` set (pg_existing g) \<or> fst ` set (pg_existing g') = insert ?i (fst ` set (pg_existing g))" for g'
        using accounts_Cons [OF that False rest(1) public_file [OF safe(1)] present] other by simp
      have go: "accounts g (?i # ?ids) (ex_dir x) R (ex_dir x')"
        if "execute_runs E P deadline g' rest y' = (Inr R, x')" "pg_attempted g' = pg_attempted g @ [?i]"
          "pg_completed g' = pg_completed g @ [?i]"
          "fst ` set (pg_existing g') = fst ` set (pg_existing g) \<or> fst ` set (pg_existing g') = insert ?i (fst ` set (pg_existing g))" for g'
      proof (rule one [OF Cons.IH that(2-4)])
        show "noted g' ?ids (ex_dir y')"
          using noted_tried [OF _ rest(1) public other that(4)] Cons.prems(3) by simp
      qed (use Cons.prems(1) rest that(1) in auto)
      show ?thesis
      proof (cases ending)
        case (Stopped reason)
        let ?g = "tried ?i g"
        have R: "R = report_of P ?g (filter (\<lambda>j. j \<notin> fst ` set (pg_existing ?g)) ?ids) (Some reason)" "x' = y'"
          using attempted(4) Stopped by (simp_all add: unstarted_def tried_def)
        have "accounts ?g ?ids (ex_dir y') R (ex_dir x')" unfolding R by (rule accounts_unstarted)
        then show ?thesis using one [of ?g] by (simp add: tried_def)
      next
        case FellBack
        then show ?thesis using go [of "tried ?i g"] attempted(4) by (simp add: tried_def)
      next
        case (Published receipt)
        then show ?thesis
          using go [of "tried ?i g\<lparr>pg_existing := pg_existing g @ [(?i, receipt)]\<rparr>"] attempted(4) by (simp add: tried_def)
      qed
    qed
  qed
qed

section \<open>The receipts that are there\<close>

lemma ends_with_json: "ends_with ''.json'' (receipt_file i)" "take (length (receipt_file i) - 5) (receipt_file i) = i"
  by (simp_all add: ends_with_def receipt_file_def starts_with_def)

lemma receipt_file_of: "ends_with ''.json'' name \<Longrightarrow> receipt_file (take (length name - 5) name) = name"
proof -
  assume "ends_with ''.json'' name"
  then have "drop (length name - 5) name = ''.json''"
    using arg_cong [where f = rev, of "take 5 (rev name)"] by (simp add: ends_with_def starts_with_def take_rev numeral_eq_Suc)
  then show ?thesis by (metis append_take_drop_id receipt_file_def)
qed

lemma receipt_file_inject [simp]: "receipt_file i = receipt_file j \<longleftrightarrow> i = j"
  by (simp add: receipt_file_def)

lemma not_artifacts: "receipt_file i \<noteq> ''artifacts''"
proof
  assume "receipt_file i = ''artifacts''"
  moreover have "\<not> ends_with ''.json'' ''artifacts''" by code_simp
  ultimately show False using ends_with_json(1) [of i] by simp
qed

lemma receipt_entries_ids:
  assumes "receipt_entries planned L ns = Inr es"
  shows "fst ` set es = {i. receipt_file i \<in> set ns} \<and> fst ` set es \<subseteq> set planned"
  using assms
proof (induction ns arbitrary: es)
  case Nil
  then show ?case by simp
next
  case (Cons name ns)
  show ?case
  proof (cases "name = ''artifacts''")
    case True
    with Cons.prems have "receipt_entries planned L ns = Inr es" by (auto split: if_splits)
    from Cons.IH [OF this] True show ?thesis by (auto simp: not_artifacts)
  next
    case False
    then obtain b es' where b: "ends_with ''.json'' name" "es = (take (length name - 5) name, b) # es'"
      "take (length name - 5) name \<in> set planned" "receipt_entries planned L ns = Inr es'"
      using Cons.prems by (auto simp: Let_def bind_exc_Inr split: if_splits option.splits node.splits)
    have "{i. receipt_file i \<in> set (name # ns)} = insert (take (length name - 5) name) {i. receipt_file i \<in> set ns}"
      using receipt_file_of [OF b(1)] by (auto simp: ends_with_json(2))
    moreover have "fst ` set es = insert (take (length name - 5) name) (fst ` set es')" by (simp add: b(2))
    ultimately show ?thesis using Cons.IH [OF b(4)] b(3) by (metis insert_subset)
  qed
qed

lemma bound_receipts_ids: "bound_receipts W P es = Inr rs \<Longrightarrow> map fst rs = map fst es"
  by (induction es arbitrary: rs) (auto simp: bind_exc_Inr split: if_splits option.splits)

lemma validated_receipts_ids:
  assumes "validated_receipts W P (Some (layout_of d)) all_of_them = Inr now"
  shows "fst ` set now = {i. lookup Root (receipt_file i) d \<noteq> None}" and "fst ` set now \<subseteq> set (planned_ids P)"
proof -
  obtain ns es rs where parts: "directory_entries (layout_of d) = Inr ns"
    "receipt_entries (planned_ids P) (layout_of d) ns = Inr es" "bound_receipts (world_at W (layout_of d)) P es = Inr rs"
    "now = map (\<lambda>(run_id, receipt, _). (run_id, receipt)) rs"
    using assms by (auto simp: validated_receipts_def bind_exc_Inr split: if_splits)
  have "map fst now = map fst es" using bound_receipts_ids [OF parts(3)] parts(4) by (auto simp: comp_def case_prod_beta)
  then have ids: "fst ` set now = fst ` set es" by (metis list.set_map)
  have "receipt_file i \<in> set ns \<longleftrightarrow> lookup Root (receipt_file i) d \<noteq> None" for i
  proof -
    have "set ns = fst ` set (pd_root d) \<union> (if pd_artifacts d = NoArtifacts then {} else {''artifacts''})"
      using parts(1)
      by (cases "pd_artifacts d"; simp add: directory_entries_def bounded_names_def layout_of_def split: if_splits; hypsubst; simp)
    then show ?thesis by (auto simp: not_artifacts lookup_def map_of_eq_None_iff)
  qed
  then show "fst ` set now = {i. lookup Root (receipt_file i) d \<noteq> None}" "fst ` set now \<subseteq> set (planned_ids P)"
    using receipt_entries_ids [OF parts(2)] unfolding ids by blast+
qed

lemma coerced_plan:
  assumes "coerce_plan D plan = Inr P"
  shows "distinct (planned_ids P)" and "r \<in> set (pl_runs P) \<Longrightarrow> safe_component (pr_run_id r)"
proof -
  obtain p where p: "validated_plan D plan = Inr p" "plan_runs p = Inr (pl_runs P)"
    using assms by (auto simp: coerce_plan_def of_planned_def parsed_plan_def and_then_Inr map_sum_def split: sum.splits)
  from accepted_plan_runs [OF this] show "distinct (planned_ids P)"
    using study_runs_balanced by (auto simp: planned_ids_def balanced_def)
  have safe: "run_of_mapping v = Inr r \<Longrightarrow> safe_component (pr_run_id r)" for v r
    by (auto simp: run_of_mapping_def split: pyval.splits if_splits)
  show "safe_component (pr_run_id r)" if "r \<in> set (pl_runs P)"
    using p(2) that safe by (auto simp: plan_runs_def map_planned_Inr in_set_conv_nth list_all2_conv_all_nth)
qed

lemma resume_accounts:
  assumes effects: "\<forall>i. ep_effect (pa_episode E i) = id" and plan: "coerce_plan (digests_of E) plan = Inr P"
    and run: "resume E P x = (Inr R, x')"
  shows "er_completed R = er_attempted R \<and> distinct (er_attempted R) \<and>
    set (er_attempted R) \<inter> set (er_unstarted R) = {} \<and>
    set (er_attempted R) \<union> set (er_unstarted R) =
      {i \<in> set (planned_ids P). lookup Root (receipt_file i) (ex_dir x) = None} \<and>
    {i \<in> set (planned_ids P). lookup Root (receipt_file i) (ex_dir x') \<noteq> None} = set (planned_ids P) - set (er_unstarted R) \<and>
    (\<forall>name. public name \<and> name \<notin> receipt_file ` set (er_attempted R) \<longrightarrow>
       lookup Root name (ex_dir x') = lookup Root name (ex_dir x)) \<and>
    (er_reason R = None \<longrightarrow> er_unstarted R = [])"
proof -
  let ?ids = "planned_ids P"
  obtain existing where now: "validated_receipts (pa_world E) P (Some (layout_of (ex_dir x))) False = Inr existing"
    using run by (auto simp: resume_def receipts_now_def elim!: seq_InrE)
  let ?g = "\<lparr>pg_existing = existing, pg_attempted = [], pg_completed = [], pg_skipped = []\<rparr>"
  note ids = validated_receipts_ids [OF now]
  have safe: "public (receipt_file i)" if "i \<in> set ?ids" for i
    using coerced_plan(2) [OF plan] that by (auto simp: planned_ids_def intro: public_file)
  have "accounts ?g ?ids (ex_dir x) R (ex_dir x')"
  proof (cases "list_ex (teardown_failed \<circ> snd) existing")
    case True
    then have "x' = x" and R: "R = report_of P (?g\<lparr>pg_skipped := filter (\<lambda>i. i \<in> fst ` set existing) ?ids\<rparr>)
        (unstarted existing (pl_runs P)) (Some ''worker_process_group_teardown_failed'')"
      using run now by (auto simp: resume_def receipts_now_def seq_def ret_def Let_def)
    then show ?thesis
      unfolding accounts_def R by (intro exI [of _ "[]"]) (simp add: report_of_def unstarted_def planned_ids_def)
  next
    case False
    then obtain deadline where y: "execute_runs E P deadline ?g (pl_runs P) (x\<lparr>ex_ticks := ex_ticks x + 1\<rparr>) = (Inr R, x')"
      using run now by (auto simp: resume_def receipts_now_def read_clock_def Let_def elim!: seq_InrE)
    have "accounts ?g (map pr_run_id (pl_runs P)) (ex_dir (x\<lparr>ex_ticks := ex_ticks x + 1\<rparr>)) R (ex_dir x')"
    proof (rule execute_runs_accounts [OF _ _ _ y])
      show "noted ?g (map pr_run_id (pl_runs P)) (ex_dir (x\<lparr>ex_ticks := ex_ticks x + 1\<rparr>))"
        unfolding noted_def by (simp add: ids(1))
    qed (use coerced_plan [OF plan] effects in \<open>simp_all add: planned_ids_def\<close>)
    then show ?thesis by (simp add: planned_ids_def)
  qed
  then obtain ts where t: "er_attempted R = ts" "er_completed R = ts" "distinct ts" "set ts \<inter> set (er_unstarted R) = {}"
    "set ts \<union> set (er_unstarted R) = {i \<in> set ?ids. i \<notin> fst ` set existing}"
    "\<forall>name. public name \<and> name \<notin> receipt_file ` set ts \<longrightarrow> lookup Root name (ex_dir x') = lookup Root name (ex_dir x)"
    "\<forall>i \<in> set ts. lookup Root (receipt_file i) (ex_dir x') \<noteq> None" "er_reason R = None \<longrightarrow> er_unstarted R = []"
    unfolding accounts_def by (elim exE conjE) (simp add: that)
  have due: "{i \<in> set ?ids. i \<notin> fst ` set existing} = {i \<in> set ?ids. lookup Root (receipt_file i) (ex_dir x) = None}"
    by (auto simp: ids(1))
  have after: "lookup Root (receipt_file i) (ex_dir x') \<noteq> None \<longleftrightarrow> i \<notin> set (er_unstarted R)" if i: "i \<in> set ?ids" for i
  proof (cases "i \<in> set ts")
    case True
    with t(4,7) show ?thesis by blast
  next
    case False
    then have "lookup Root (receipt_file i) (ex_dir x') = lookup Root (receipt_file i) (ex_dir x)"
      using t(6) safe [OF i] by auto
    moreover have "i \<in> set (er_unstarted R) \<longleftrightarrow> lookup Root (receipt_file i) (ex_dir x) = None"
      using t(5) False i unfolding due by blast
    ultimately show ?thesis by simp
  qed
  show ?thesis
    using t(3,4,5,6,8) after unfolding t(1,2) due by blast
qed

section \<open>The study\<close>

text \<open>
  C31: One receipt for each attempt, and a staged one only after a clean end. If the attempt of a run
  returns, the receipt of the run is there. It is the staged receipt only if that was the one
  receipt in the staging directory and passed validation and binding, the worker was given a
  positive time within the run's budget, finished in it and its process group was stopped, and the
  work root was inventoried and removed; then its bytes are the rendering of that receipt.
  Otherwise it is a failure receipt of the parent, a timeout or a setup error. If the worker kept
  its hands off the receipt directory, there was no receipt before and no other public name changed.
\<close>
theorem attempt_publishes_one_receipt:
  assumes "parent_builder E P task run c started = Inr b"
    and "attempt E P task run t c b deadline x = (Inr ending, x')"
  shows "(\<exists>n. lookup Root (receipt_file (pr_run_id run)) (ex_dir x') = Some n \<and> ended_with E P task run t c ending n) \<and>
    (ep_effect (pa_episode E (pr_run_id run)) = id \<longrightarrow>
      lookup Root (receipt_file (pr_run_id run)) (ex_dir x) = None \<and>
      (\<forall>name. public name \<and> name \<noteq> receipt_file (pr_run_id run) \<longrightarrow>
         lookup Root name (ex_dir x') = lookup Root name (ex_dir x)))"
  using attempt_ends [OF assms] attempt_leaves [OF assms(1) _ assms(2)] by blast

text \<open>
  C32: The report of a study accounts for every planned run. If the workers keep their hands off the
  receipt directory and \<open>execute_plan\<close> returns a report, then every attempted run is completed, and
  the planned runs that had no receipt are exactly the attempted and the unstarted ones, which are
  different. A planned run has a receipt in the end exactly if it is not reported as unstarted, and
  nothing else in the directory has changed. A study that is not stopped has no unstarted runs.
\<close>
theorem study_accounts_for_every_run:
  assumes "\<forall>i. ep_effect (pa_episode E i) = id" and "coerce_plan (digests_of E) plan = Inr P"
    and "execute_plan E plan x = (Inr R, x')"
  shows "er_completed R = er_attempted R \<and> distinct (er_attempted R) \<and>
    set (er_attempted R) \<inter> set (er_unstarted R) = {} \<and>
    set (er_attempted R) \<union> set (er_unstarted R) =
      {i \<in> set (planned_ids P). lookup Root (receipt_file i) (ex_dir x) = None} \<and>
    {i \<in> set (planned_ids P). lookup Root (receipt_file i) (ex_dir x') \<noteq> None} = set (planned_ids P) - set (er_unstarted R) \<and>
    (\<forall>name. public name \<and> name \<notin> receipt_file ` set (er_attempted R) \<longrightarrow>
       lookup Root name (ex_dir x') = lookup Root name (ex_dir x)) \<and>
    (er_reason R = None \<longrightarrow> er_unstarted R = [])"
proof -
  have resumed: "resume E P x = (Inr R, x')"
    using assms(2,3)
    by (auto simp: execute_plan_def ensure_receipt_directory_def elim!: seq_InrE split: sum.splits)
  show ?thesis using resume_accounts [OF assms(1,2) resumed] .
qed

text \<open>The check before a run takes a receipt that was not noted for a foreign one.\<close>

lemma unnoted_receipt_stops:
  assumes "parent_builder E P task run c started = Inr b"
    and "attempt E P task run t c b deadline x = (Inr FellBack, x')"
    and "pr_run_id run \<notin> fst ` set (pg_existing g)" and "pr_run_id next_run \<notin> fst ` set (pg_existing g)"
    and "task_and_condition P next_run = Inr (t', c')" and "tb_wall t' \<le> deadline - pa_clock E (ex_ticks x')"
  shows "isl (fst (execute_runs E P deadline g (next_run # rest) x'))"
proof -
  let ?y = "x'\<lparr>ex_ticks := ex_ticks x' + 1\<rparr>"
  have clock: "past_budget E deadline t' x' = (Inr False, ?y)"
    using assms(6) by (simp add: past_budget_def read_clock_def seq_def ret_def)
  have "isl (fst (prepare_run E P (pg_existing g) next_run t' c' ?y))"
  proof (rule ccontr)
    assume "\<not> ?thesis"
    then obtain task' b' y' where "prepare_run E P (pg_existing g) next_run t' c' ?y = (Inr (task', b'), y')"
      by (metis eq_fst_iff isl_def sum.exhaust surj_pair)
    then obtain now where now: "validated_receipts (pa_world E) P (Some (layout_of (ex_dir x'))) False = Inr now"
      "fst ` set now = fst ` set (pg_existing g)"
      using prepare_run_Inr(3) by fastforce
    then have "pr_run_id run \<in> fst ` set (pg_existing g)"
      using attempt_ends [OF assms(1,2)] validated_receipts_ids(1) [OF now(1)] by auto
    with assms(3) show False ..
  qed
  then show ?thesis
    using assms(4,5) clock by (auto simp: seq_def of_sum_def of_planned_def isl_def split: prod.splits sum.splits)
qed

text \<open>
  C33: A receipt the parent wrote itself ends the study. Take any point of the loop at which a run
  is due, fits the deadline before and after it is prepared, and its attempt falls back to the
  parent's receipt, and let the run after it be due too and fit the deadline: then the loop raises,
  instead of going on. The loop does not note the receipt it has just published, so that its check
  before the next run takes it for a foreign one.
\<close>
theorem fallback_receipt_ends_the_study:
  assumes "pr_run_id run \<notin> fst ` set (pg_existing g)" and "task_and_condition P run = Inr (t, c)"
    and "past_budget E deadline t x = (Inr False, x1)"
    and "prepare_run E P (pg_existing g) run t c x1 = (Inr (task, b), x2)"
    and "past_budget E deadline t x2 = (Inr False, x3)"
    and "attempt E P task run t c b deadline x3 = (Inr FellBack, x4)"
    and "pr_run_id next_run \<notin> fst ` set (pg_existing g)" and "pr_run_id next_run \<noteq> pr_run_id run"
    and "task_and_condition P next_run = Inr (t', c')" and "tb_wall t' \<le> deadline - pa_clock E (ex_ticks x4)"
  shows "isl (fst (execute_runs E P deadline g (run # next_run # rest) x))"
proof -
  let ?g = "tried (pr_run_id run) g"
  have g: "pg_existing ?g = pg_existing g" by (simp add: tried_def)
  have "isl (fst (execute_runs E P deadline ?g (next_run # rest) x4))"
    by (rule unnoted_receipt_stops [OF prepare_run_Inr(1) [OF assms(4)] assms(6)])
      (use assms(1,7,9,10) g in simp_all)
  moreover have "execute_runs E P deadline g (run # next_run # rest) x =
      execute_runs E P deadline ?g (next_run # rest) x4"
    using assms(1,2) by (simp add: seq_def of_sum_def of_planned_def assms(3-6) del: execute_runs.simps(2)
        add: execute_runs.simps(2) [of E P deadline g run])
  ultimately show ?thesis by (simp only:)
qed

end
