(* ===== verification/Study_Parsing.thy ===== *)
theory Study_Parsing
  imports Study_Receipts Study_Properties
begin

text \<open>
  The accessors of a plan read back what it was built from: coercing a built plan parses its
  source, runtime, tasks, conditions and runs, and every run finds its task and condition.
\<close>

lemma condition_mapping_cong:
  assumes "\<And>ks. key_set d ks \<longleftrightarrow> key_set e ks" and "\<And>k. k \<in> set condition_names \<Longrightarrow> dget d k = dget e k"
  shows "condition_of_plan_mapping d = condition_of_plan_mapping e"
proof -
  have "dget d ''baseline'' = dget e ''baseline''" "dget d ''provider'' = dget e ''provider''"
    "dget d ''model'' = dget e ''model''" "dget d ''max_steps'' = dget e ''max_steps''"
    "dget d ''framework'' = dget e ''framework''" "dget d ''framework_version'' = dget e ''framework_version''"
    using assms(2) by (simp_all add: condition_names_def)
  then show ?thesis
    unfolding condition_of_plan_mapping_def normalized_condition_fields_def assms(1) by (simp only:)
qed

lemma dget_names: "k \<in> set ks \<Longrightarrow> dget (map (\<lambda>k. (k, g k)) ks) k = g k"
  by (induction ks) auto

lemma condition_entry_mapping:
  assumes "condition_entry D (PDict d) = Inr c"
  shows "condition_of_plan_mapping (map (\<lambda>name. (name, dget d name)) condition_names) = Inr c"
    and "dget d ''key'' = PStr (condition_key D c)"
proof -
  let ?e = "filter (\<lambda>(k, _). k \<noteq> ''key'') d"
  have d: "key_set d [''key'', ''baseline'', ''provider'', ''model'', ''max_steps'', ''framework'', ''framework_version'']"
    "condition_of_plan_mapping ?e = Inr c" "dget d ''key'' = PStr (condition_key D c)"
    using assms by (auto simp: condition_entry_def split: if_splits)
  have "set (map fst ?e) = set condition_names"
    using d(1) unfolding keys_filter by (simp add: key_set_def condition_names_def insert_Diff_if)
  then have "key_set ?e ks \<longleftrightarrow> key_set (map (\<lambda>name. (name, dget d name)) condition_names) ks" for ks
    by (simp add: key_set_def comp_def)
  then have "condition_of_plan_mapping ?e = condition_of_plan_mapping (map (\<lambda>name. (name, dget d name)) condition_names)"
    by (rule condition_mapping_cong) (auto simp: dget_names dget_filter condition_names_def)
  with d(2,3) show "condition_of_plan_mapping (map (\<lambda>name. (name, dget d name)) condition_names) = Inr c"
    "dget d ''key'' = PStr (condition_key D c)" by simp_all
qed

lemma keyed_conditions_of:
  assumes "list_all2 (\<lambda>v c. condition_entry D v = Inr c) vs cs"
    and "distinct (map fst result @ map (condition_key D) cs)"
  shows "keyed_conditions D result vs = Inr (result @ map (\<lambda>c. (condition_key D c, c)) cs)"
  using assms
proof (induction vs cs arbitrary: result rule: list_all2_induct)
  case Nil
  then show ?case by simp
next
  case (Cons v vs c cs)
  then obtain d where v: "v = PDict d" by (cases v) (auto simp: condition_entry_def)
  note entry = condition_entry_mapping [OF Cons.hyps(1) [unfolded v]]
  show ?case
    using Cons.prems Cons.IH [of "result @ [(condition_key D c, c)]"] unfolding v
    by (auto simp: entry Let_def)
qed

lemma document_parses:
  assumes hex: "hex_digests D" and wf: "study_wf D s" and document: "plan_document D s = Inr document"
    and runs: "study_runs D (canonical_json_sha256 D (PDict (identity D s))) s = Inr rs"
    and keys: "distinct (map (condition_key D) (st_conditions s))"
  shows "\<exists>P. coerce_plan D (PDict document) = Inr P \<and> pl_id P = st_id s \<and> pl_wall P = st_wall s \<and>
    pl_source P = st_source s \<and> pl_runtime P = st_runtime s \<and> pl_tasks P = st_tasks s \<and>
    pl_conditions P = map (\<lambda>c. (condition_key D c, c)) (st_conditions s) \<and> pl_runs P = rs"
proof -
  note at = document_at [OF document]
  obtain p where p: "json_sorted (PDict document) = PDict p" "\<And>k. dget p k = json_sorted (dget document k)"
    using at(9) by (rule canonical_json.dict_cases) blast
  have valid: "validated_plan D (PDict document) = Inr p"
    using validated_document(1) [OF wf document] p(1) by simp
  have "map_planned task_of_plan (map json_sorted (map (PDict \<circ> task_to_dict) (st_tasks s))) = Inr (st_tasks s)"
    using wf by (intro canonical_json.map_back [where P = task_wf]) (simp_all add: study_wf_def canonical_json.task_back del: json_sorted.simps)
  then have tasks: "map_planned task_of_plan (as_list (dget p ''tasks'')) = Inr (st_tasks s)"
    by (simp only: p(2) at canonical_json.list as_list.simps)
  let ?entry = "\<lambda>c. PDict ((''key'', PStr (condition_key D c)) # condition_to_dict c)"
  have "list_all2 (\<lambda>v c. condition_entry D v = Inr c) (map json_sorted (map ?entry (st_conditions s))) (st_conditions s)"
    using wf canonical_json.condition_back [of _ D]
    by (auto simp: study_wf_def list_all2_conv_all_nth list_all_length simp del: json_sorted.simps)
  then have conditions: "keyed_conditions D [] (as_list (dget p ''conditions'')) =
      Inr (map (\<lambda>c. (condition_key D c, c)) (st_conditions s))"
    using keyed_conditions_of [of D _ _ "[]"] keys by (simp only: p(2) at canonical_json.list as_list.simps) simp
  have loaded: "plan_runs p = Inr rs"
    using canonical_json.runs_back [OF document runs study_runs_wf [OF hex wf runs]] by (simp only: p(1) as_dict.simps)
  have parts: "plan_source_of_plan (dget p ''source'') = Inr (st_source s)"
    "runtime_of_plan (dget p ''runtime'') = Inr (st_runtime s)"
    using wf canonical_json.source_back canonical_json.runtime_back by (simp_all only: p(2) at study_wf_def)
  have texts: "dget p ''study_id'' = PStr (st_id s)" "dget p ''study_wall_s'' = PFloat (st_wall s)"
    by (simp_all add: p(2) at)
  show ?thesis
    by (simp add: coerce_plan_def of_planned_def valid parsed_plan_def tasks conditions loaded parts texts py_float_def)
qed

lemma sorted_distinct_keys: "distinct (map f xs) \<Longrightarrow> distinct (map f (sort_key g xs))"
proof -
  assume "distinct (map f xs)"
  moreover have "mset (map f (sort_key g xs)) = mset (map f xs)" by simp
  ultimately show ?thesis using mset_eq_imp_distinct_iff by metis
qed

lemma built_study_distinct:
  assumes "built_study D versions load provenance runtime q = Inr s"
  shows "distinct (map tb_id (st_tasks s))" and "distinct (map (condition_key D) (st_conditions s))"
proof -
  obtain source rt tasks conditions where *: "request_error q = None"
    "map_planned (\<lambda>i. and_then (load i) (task_of_definition D i)) (rq_tasks q) = Inr tasks"
    "distinct (map (condition_key D) conditions)"
    and s: "st_tasks s = sort_key tb_id tasks" "st_conditions s = sort_key (condition_key D) conditions"
    using assms by (auto simp: built_study_def split: option.splits)
  have id: "tb_id t = i" if bound: "and_then (load i) (task_of_definition D i) = Inr t" for i t
  proof -
    obtain d where "task_of_definition D i d = Inr t" using bound by auto
    then show ?thesis
      by (cases "dget d ''budget''"; cases "dget d ''freeze''") (auto simp: task_of_definition_def split: if_splits)
  qed
  have "map tb_id tasks = rq_tasks q"
    using *(2) unfolding map_planned_Inr by (induction rule: list_all2_induct) (use id in \<open>simp_all add: id\<close>)
  moreover have "distinct (rq_tasks q)" using *(1) by (auto simp: request_error_def split: if_splits)
  ultimately show "distinct (map tb_id (st_tasks s))" "distinct (map (condition_key D) (st_conditions s))"
    using *(3) by (simp_all add: s sorted_distinct_keys)
qed

text \<open>
  C34: A built plan parses. Once the request, the source, the tasks and the conditions are bound and
  no two run ids collide, coercing the plan document gives exactly the study it was built from: its
  identity, source, runtime, tasks, keyed conditions and numbered runs; and every run finds its own
  task and condition in it. So no accessor used by the execution raises on a built plan.
\<close>
theorem built_plan_parses:
  assumes "hex_digests D" and "[] \<notin> set (rq_tasks q)"
    and "\<And>name version. versions name = Some version \<Longrightarrow> stripped_text (PStr version)"
    and "built_study D versions load provenance (current_runtime D package) q = Inr s"
    and "plan_document D s = Inr document"
  shows "\<exists>P. coerce_plan D (PDict document) = Inr P \<and> pl_id P = st_id s \<and> pl_wall P = st_wall s \<and>
    pl_source P = st_source s \<and> pl_runtime P = st_runtime s \<and> pl_tasks P = st_tasks s \<and>
    pl_conditions P = map (\<lambda>c. (condition_key D c, c)) (st_conditions s) \<and>
    study_runs D (canonical_json_sha256 D (PDict (identity D s))) s = Inr (pl_runs P) \<and>
    (\<forall>r \<in> set (pl_runs P). \<exists>t c n. (t, c, n) \<in> set (matrix s) \<and> task_and_condition P r = Inr (t, c) \<and>
       run_label r = cell_label D (t, c, n))"
proof -
  have wf: "study_wf D s" by (rule built_study_wf [OF assms(1-4)])
  note unique = built_study_distinct [OF assms(4)]
  obtain rs where rs: "study_runs D (canonical_json_sha256 D (PDict (identity D s))) s = Inr rs"
    using assms(5) by (rule document_runs)
  obtain P where P: "coerce_plan D (PDict document) = Inr P" "pl_id P = st_id s" "pl_wall P = st_wall s"
    "pl_source P = st_source s" "pl_runtime P = st_runtime s" "pl_tasks P = st_tasks s"
    "pl_conditions P = map (\<lambda>c. (condition_key D c, c)) (st_conditions s)" "pl_runs P = rs"
    using document_parses [OF assms(1) wf assms(5) rs unique(2)] by blast
  have "\<exists>t c n. (t, c, n) \<in> set (matrix s) \<and> task_and_condition P r = Inr (t, c) \<and> run_label r = cell_label D (t, c, n)"
    if "r \<in> set rs" for r
  proof -
    have "run_label r \<in> cell_label D ` set (matrix s)"
      using study_runs_balanced [OF rs] that unfolding balanced_def by (metis image_eqI set_map set_mset_mset)
    then obtain cell where "cell \<in> set (matrix s)" "run_label r = cell_label D cell" by (elim imageE)
    then obtain t c n where cell: "(t, c, n) \<in> set (matrix s)" "run_label r = cell_label D (t, c, n)"
      by (metis prod_cases3)
    then have mem: "t \<in> set (st_tasks s)" "c \<in> set (st_conditions s)" by (auto simp: set_matrix)
    have label: "pr_task r = tb_id t" "pr_task_sha256 r = tb_sha256 t" "pr_condition r = condition_key D c"
      using cell(2) by (simp_all add: run_label_def cell_label_def)
    have "map_of (map (\<lambda>c. (condition_key D c, c)) (st_conditions s)) (condition_key D c) = Some c"
      using unique(2) mem(2) by (intro map_of_is_SomeI) (auto simp: comp_def)
    then have "task_and_condition P r = Inr (t, c)"
      using find_distinct [OF unique(1) mem(1)] by (simp add: task_and_condition_def P label)
    with cell show ?thesis by blast
  qed
  with P rs show ?thesis by blast
qed

end
