(* ===== verification/Study_Demo.thy ===== *)
theory Study_Demo
  imports Study_Run_Properties Study_Parsing
begin

text \<open>
  A concrete study for the theorems on execution: one run of the demonstration plan whose executor
  raises, so that the parent publishes the receipt of the run itself.
\<close>

definition demo_world :: world where
  "demo_world = \<lparr>hex_sha256 = hex_sha256 demo_digests, float_text = float_text demo_digests,
     schema_iter = (\<lambda>_. []), git_bytes = (\<lambda>_. None), artifacts_dir = None, artifacts_real = True,
     os_error = (\<lambda>_. []), json_text = (\<lambda>_. Inl ''bad''), zip_members = (\<lambda>_. Inl ''bad'')\<rparr>"

definition demo_episode :: episode where
  "demo_episode = \<lparr>ep_unmade = None, ep_root = ''/tmp/w'', ep_worker = Injected (Some (runtime_error ''lost'')),
     ep_stage = Some ([], NoArtifacts), ep_effect = id, ep_inventory = Inr [], ep_unremoved = None,
     ep_started = ''t0'', ep_ended = \<lparr>ended_at = ''t1'', elapsed = 2\<rparr>\<rparr>"

definition demo_parent :: parent where
  "demo_parent = \<lparr>pa_world = demo_world, pa_surroundings = \<lparr>environ = (\<lambda>_. None), home = ''/home/u''\<rparr>,
     pa_versions = (\<lambda>_. Some ''1''), pa_load = (\<lambda>_. Inr demo_definition), pa_repo = ''/repo'',
     pa_checkout = \<lparr>git_text = (\<lambda>_. None), checkout_files = []\<rparr>, pa_given = Some demo_provenance,
     pa_package_parent = ''/repo/src'', pa_package = [(''a.py'', ''x'')], pa_clock = (\<lambda>_. 0), pa_cap = None,
     pa_episode = (\<lambda>_. demo_episode)\<rparr>"

definition empty_dir :: receipt_dir where
  "empty_dir = \<lparr>pd_root = [], pd_artifacts = NoArtifacts, pd_next_inode = 1, pd_next_name = 1,
     pd_faults = [], pd_committed = [], pd_temp = None, pd_linked = False\<rparr>"

definition demo_id :: string where
  "demo_id = ''btb-r1-'' @ replicate 64 (CHR ''0'')"

definition demo_task :: task_binding where "demo_task = hd (st_tasks demo_study)"
definition demo_condition :: plan_condition where "demo_condition = hd (st_conditions demo_study)"

definition lost_builder :: builder where
  "lost_builder = \<lparr>b_run_id = demo_id, b_freeze = ''f'',
     b_baseline = playwright_provenance (\<lambda>_. Some ''1'') ''exact'' 60000, b_steps = PNone, b_wall = PInt 60,
     b_requested = True, b_task = Some demo_definition, b_prompt = None, b_release = release_version,
     b_source = Some demo_provenance, b_parser = parser_version, b_evaluator = evaluator_version,
     b_validator = validator_version, b_started = ''t0'', b_before = None, b_after = None, b_claim = None,
     b_injection = None, b_evaluation = None, b_outcome = None, b_trace = None, b_filesystem = None,
     b_evidence_failures = [], b_finalized = None, b_sensitive = [], b_effective_bound = False\<rparr>"

lemma demo_parts:
  "pa_episode demo_parent i = demo_episode" "pa_world demo_parent = demo_world" "pa_clock demo_parent n = 0"
  "digests_of demo_parent = demo_digests" "pa_repo demo_parent = ''/repo''" "pa_given demo_parent = Some demo_provenance"
  "pa_checkout demo_parent = \<lparr>git_text = (\<lambda>_. None), checkout_files = []\<rparr>" "pa_package demo_parent = [(''a.py'', ''x'')]"
  "pa_load demo_parent = (\<lambda>_. Inr demo_definition)" "pa_versions demo_parent = (\<lambda>_. Some ''1'')"
  by (simp_all add: demo_parent_def digests_of_def the_digests_def demo_world_def)

lemma demo_id_safe: "safe_component demo_id"
  by (simp add: safe_component_def demo_id_def word_char_def)

lemma demo_parent_builder:
  assumes "pl_source P = st_source demo_study" and "pr_run_id run = demo_id"
  shows "parent_builder demo_parent P demo_definition run demo_condition ''t0'' = Inr lost_builder"
  using demo_id_safe
  by (simp add: parent_builder_def receipt_builder_for_def make_receipt_builder_def post_init_def demo_study_def
      action_timeout_def task_budget_def demo_definition_def or_dict_def positive_number_def assms
      lost_builder_def demo_condition_def demo_provenance_def to_provenance_def ends_with_def starts_with_def demo_parent_def)

lemma empty_receipts: "validated_receipts W P (Some (layout_of empty_dir)) False = Inr []"
  "validated_receipts W P (Some ([], NoArtifacts)) False = Inr []"
  by (simp_all add: validated_receipts_def directory_entries_def bounded_names_def artifacts_match_def
      layout_of_def empty_dir_def)

lemma demo_worker:
  assumes "pl_source P = st_source demo_study" and "pr_run_id run = demo_id" and "ex_dir x = empty_dir"
  shows "run_worker demo_parent P demo_definition run demo_task demo_condition 300 x =
   (Inr \<lparr>wk_timed_out = False, wk_teardown = False, wk_cause = Some (runtime_error ''lost''), wk_staged = None\<rparr>,
    x\<lparr>ex_ticks := ex_ticks x + 2\<rparr>)"
  unfolding run_worker_def after_worker_def launch_def take_staged_def
  by (simp add: demo_parts demo_episode_def demo_parent_builder [OF assms(1,2)] stage_receipt_def empty_receipts
      seq_def of_sum_def ret_def fail_def worker_effect_def no_direct_write_def check_def past_def read_clock_def always_def
      layout_of_def lookup_def assms(3)) (simp add: empty_dir_def)

lemma demo_payload: "failure_payload (host_of demo_parent) clk lost_builder e stage status =
    json_document (host_of demo_parent) (PDict (receipt_of (host_of demo_parent) clk status
      (PDict (failure_dict (host_of demo_parent) lost_builder e stage)) lost_builder))"
  by (simp add: failure_payload_def ensure_learned_filesystem_state_def learned_def lost_builder_def
      playwright_provenance_def Let_def)

lemma demo_length:
  "length (json_document (host_of demo_parent) (PDict (receipt_of (host_of demo_parent) \<lparr>ended_at = ''t1'', elapsed = 2\<rparr>
     ''setup_error'' (PDict (failure_dict (host_of demo_parent) lost_builder (runtime_error ''lost'')
       ''repetition_executor_unhandled'')) lost_builder))) < 10000"
  by code_simp

lemma lost_commit:
  "\<exists>d. commit_publication \<lparr>pub_run_id = demo_id, pub_payload = payload, pub_artifacts = []\<rparr> empty_dir = (Inr (), d)"
proof -
  have n: "nat_str 1 = ''1''" "nat_str 2 = ''2''" by code_simp+
  show ?thesis
    by (simp add: empty_dir_def demo_id_def commit_publication_def on_error_def start_commit_def commit_body_def open_artifacts_def
        verify_directory_def step_def seq_def ret_def commit_receipt_def fresh_name_def n note_temp_def create_file_def
        get_entry_def lookup_def put_entry_def write_all_def fsync_def created_stat_def owned_file_stat_def link_entry_def
        note_linked_def expect_same_def check_def unlink_owned_def stat_entry_def always_def drop_entry_def temp_prefix_def
        quarantine_prefix_def same_owned_regular_file_def Let_def)
qed

definition demo_left :: leftovers where
  "demo_left = \<lparr>lo_inventory = Some [], lo_inventory_error = None, lo_cleanup_error = None\<rparr>"

lemma demo_cleanup: "cleanup_root demo_episode = demo_left"
  by (simp add: cleanup_root_def demo_episode_def demo_left_def)

lemma demo_ended: "ep_ended demo_episode = \<lparr>ended_at = ''t1'', elapsed = 2\<rparr>" "ep_unmade demo_episode = None"
  "ep_started demo_episode = ''t0''" "ep_effect demo_episode = id"
  by (simp_all add: demo_episode_def)

lemma demo_attempt:
  assumes "pl_source P = st_source demo_study" and "pr_run_id run = demo_id" and "ex_dir x = empty_dir"
  shows "\<exists>x'. attempt demo_parent P demo_definition run demo_task demo_condition lost_builder 300 x = (Inr FellBack, x')"
proof -
  let ?w = "\<lparr>wk_timed_out = False, wk_teardown = False, wk_cause = Some (runtime_error ''lost''), wk_staged = None\<rparr>"
  let ?payload = "failure_payload (host_of demo_parent) \<lparr>ended_at = ''t1'', elapsed = 2\<rparr> lost_builder (runtime_error ''lost'')
    ''repetition_executor_unhandled'' ''setup_error''"
  obtain d where d: "commit_publication \<lparr>pub_run_id = demo_id, pub_payload = ?payload, pub_artifacts = []\<rparr> empty_dir = (Inr (), d)"
    using lost_commit by blast
  have open_dir: "open_receipt_directory empty_dir = (Inr (), empty_dir)"
    by (simp add: open_receipt_directory_def verify_directory_def step_def seq_def empty_dir_def)
  have "cn_baseline demo_condition = ''playwright-exact''" "b_run_id lost_builder = demo_id"
    by (simp_all add: demo_condition_def demo_study_def lost_builder_def)
  moreover have "int (length ?payload) \<le> max_receipt_bytes"
    using demo_length unfolding demo_payload max_receipt_bytes_def by simp
  ultimately have "write_parent_failure (host_of demo_parent) \<lparr>ended_at = ''t1'', elapsed = 2\<rparr> lost_builder demo_condition
      (runtime_error ''lost'') ''repetition_executor_unhandled'' ''setup_error'' demo_left empty_dir = (Inr (), d)"
    by (simp add: write_parent_failure_def bind_parent_filesystem_descriptor_def note_evidence_def demo_left_def
        raising_def seq_def ret_def check_def open_dir d Let_def)
  then have "settle demo_parent lost_builder run demo_condition ?w demo_left (x\<lparr>ex_ticks := ex_ticks x + 2\<rparr>) =
      (Inr FellBack, x\<lparr>ex_ticks := ex_ticks x + 2, ex_dir := d\<rparr>)"
    by (simp add: settle_def fall_back_def on_dir_def seq_def ret_def demo_parts demo_ended assms(3) demo_left_def)
  then show ?thesis
    using demo_worker [OF assms]
    by (simp add: attempt_def demo_parts seq_def of_sum_def demo_cleanup demo_ended Let_def)
qed

definition demo_key :: string where "demo_key = ''condition-v1-'' @ replicate 64 (CHR ''0'')"

definition demo_run :: planned_run where
  "demo_run = \<lparr>pr_ordinal = 1, pr_run_id = demo_id, pr_task = ''t'', pr_task_sha256 = replicate 64 (CHR ''0''),
     pr_condition = demo_key, pr_repetition = 1, pr_order = replicate 64 (CHR ''0'')\<rparr>"

definition demo_parsed :: "string \<Rightarrow> study_plan" where
  "demo_parsed h = \<lparr>pl_id = ''s'', pl_sha256 = h, pl_wall = 300, pl_source = st_source demo_study,
     pl_runtime = st_runtime demo_study, pl_tasks = [demo_task],
     pl_conditions = [(demo_key, demo_condition)], pl_runs = [demo_run]\<rparr>"

lemma demo_fields:
  "pr_run_id demo_run = demo_id" "pl_source (demo_parsed h) = st_source demo_study" "pl_runs (demo_parsed h) = [demo_run]"
  "pl_wall (demo_parsed h) = 300" "pl_runtime (demo_parsed h) = st_runtime demo_study" "tb_wall demo_task = 60"
  by (simp_all add: demo_run_def demo_parsed_def demo_task_def demo_study_def)

lemma demo_binding: "task_and_condition (demo_parsed h) (demo_run\<lparr>pr_run_id := i\<rparr>) = Inr (demo_task, demo_condition)"
  "task_and_condition (demo_parsed h) demo_run = Inr (demo_task, demo_condition)"
  by (simp_all add: task_and_condition_def demo_parsed_def demo_run_def demo_task_def demo_study_def)

text \<open>The demonstration plan parses to that study of one run.\<close>

lemma demo_matrix: "study_runs demo_digests h demo_study = Inr [demo_run]"
  by (simp add: study_runs_def matrix_def matrix_run_def demo_study_def run_digest_def order_digest_def demo_digest
      Let_def upto1_def safe_component_def word_char_def number_runs_def demo_run_def demo_id_def demo_key_def condition_key_def)

lemma demo_parses: "\<exists>document h. coerce_plan demo_digests (PDict document) = Inr (demo_parsed h)"
proof -
  obtain document where document: "plan_document demo_digests demo_study = Inr document" using demo_document by blast
  have wf: "study_wf demo_digests demo_study"
    by (rule built_study_wf [OF demo_environment(1,2) _ demo_built]) (auto simp: demo_environment)
  obtain P where P: "coerce_plan demo_digests (PDict document) = Inr P" "pl_id P = st_id demo_study" "pl_wall P = st_wall demo_study"
    "pl_source P = st_source demo_study" "pl_runtime P = st_runtime demo_study" "pl_tasks P = st_tasks demo_study"
    "pl_conditions P = map (\<lambda>c. (condition_key demo_digests c, c)) (st_conditions demo_study)" "pl_runs P = [demo_run]"
    using document_parses [OF demo_environment(1) wf document demo_matrix] by (auto simp: demo_study_def)
  then have "P = (demo_parsed (pl_sha256 P))"
    by (cases P) (simp add: demo_parsed_def demo_task_def demo_condition_def demo_study_def condition_key_def demo_key_def demo_digest)
  with P(1) show ?thesis by metis
qed

lemma demo_task_current: "current_task demo_digests (\<lambda>_. Inr demo_definition) demo_task = Inr demo_definition"
  by (simp add: current_task_def of_planned_def task_of_definition_def demo_digest demo_definition_def demo_study_def
      demo_task_def positive_steps_def positive_number_def py_float_def)

lemma demo_framework: "require_current_framework (\<lambda>_. Some ''1'') demo_condition = Inr ()"
  by (simp add: require_current_framework_def of_planned_def framework_identity_def framework_name_def
      control_baselines_def demo_condition_def demo_study_def)

lemma demo_execute:
  assumes "coerce_plan demo_digests plan = Inr (demo_parsed h)"
  shows "\<exists>x'. execute_plan demo_parent plan \<lparr>ex_dir = empty_dir, ex_ticks = 0\<rparr> =
    (Inr (report_of (demo_parsed h) \<lparr>pg_existing = [], pg_attempted = [demo_id], pg_completed = [demo_id], pg_skipped = []\<rparr> [] None), x')"
proof -
  have source: "execution_source demo_digests ''/repo'' \<lparr>git_text = (\<lambda>_. None), checkout_files = []\<rparr> (Some demo_provenance) (demo_parsed h)
      = Inr (to_provenance (st_source demo_study))"
    by (simp add: execution_source_def source_binding_def plan_source_of_provenance_def require_canonical_source_def demo_provenance_def
        demo_study_def git_commit_text_def hex_text_def demo_fields)
  have runtime: "execution_runtime demo_digests [(''a.py'', ''x'')] (demo_parsed h) = Inr (st_runtime demo_study)"
    by (simp add: execution_runtime_def of_planned_def current_runtime_def demo_digest bindable_file_def path_parts_def path_suffix_def
        before_char_def demo_study_def demo_fields Let_def)
  have builder: "parent_builder demo_parent (demo_parsed h) demo_definition demo_run demo_condition ''t0'' = Inr lost_builder"
    by (simp add: demo_parent_builder demo_fields)
  have listing: "directory_entries (layout_of empty_dir) = Inr []"
    by (simp add: directory_entries_def bounded_names_def layout_of_def empty_dir_def)
  obtain x' where a: "attempt demo_parent (demo_parsed h) demo_definition demo_run demo_task demo_condition lost_builder 300
      \<lparr>ex_dir = empty_dir, ex_ticks = Suc (Suc (Suc 0))\<rparr> = (Inr FellBack, x')"
    using demo_attempt [of "demo_parsed h" demo_run "\<lparr>ex_dir = empty_dir, ex_ticks = Suc (Suc (Suc 0))\<rparr>"] by (auto simp: demo_fields)
  have "execute_plan demo_parent plan \<lparr>ex_dir = empty_dir, ex_ticks = 0\<rparr> =
    (Inr (report_of (demo_parsed h) \<lparr>pg_existing = [], pg_attempted = [demo_id], pg_completed = [demo_id], pg_skipped = []\<rparr> [] None), x')"
    by (simp add: execute_plan_def demo_parts assms ensure_receipt_directory_def resume_def receipts_now_def read_clock_def
        seq_def ret_def of_sum_def check_def consumed_def past_budget_def prepare_run_def demo_fields demo_binding of_planned_def
        demo_ended builder listing empty_receipts a tried_def source runtime demo_task_current demo_framework)
  then show ?thesis by blast
qed

theorem attempt_publishes_one_receipt_witness:
  "\<exists>x x'. attempt demo_parent (demo_parsed []) demo_definition demo_run demo_task demo_condition lost_builder 300 x = (Inr FellBack, x') \<and>
    lookup Root (receipt_file demo_id) (ex_dir x) = None \<and> lookup Root (receipt_file demo_id) (ex_dir x') \<noteq> None"
proof -
  let ?x = "\<lparr>ex_dir = empty_dir, ex_ticks = 0\<rparr>"
  obtain x' where a: "attempt demo_parent (demo_parsed []) demo_definition demo_run demo_task demo_condition lost_builder 300 ?x = (Inr FellBack, x')"
    using demo_attempt [of "demo_parsed []" demo_run ?x] by (auto simp: demo_fields)
  have b: "parent_builder demo_parent (demo_parsed []) demo_definition demo_run demo_condition ''t0'' = Inr lost_builder"
    by (simp add: demo_parent_builder demo_fields)
  from attempt_publishes_one_receipt [OF b a] a show ?thesis
    by (fastforce simp: demo_parts demo_ended demo_fields)
qed

theorem fallback_receipt_ends_the_study_witness:
  "isl (fst (execute_runs demo_parent (demo_parsed []) 300
    \<lparr>pg_existing = [], pg_attempted = [], pg_completed = [], pg_skipped = []\<rparr>
    [demo_run, demo_run\<lparr>pr_run_id := ''r2''\<rparr>] \<lparr>ex_dir = empty_dir, ex_ticks = 0\<rparr>))"
proof -
  let ?x = "\<lambda>n. \<lparr>ex_dir = empty_dir, ex_ticks = n\<rparr>"
  obtain x' where a: "attempt demo_parent (demo_parsed []) demo_definition demo_run demo_task demo_condition lost_builder 300
      (?x (Suc (Suc 0))) = (Inr FellBack, x')"
    using demo_attempt [of "demo_parsed []" demo_run "?x (Suc (Suc 0))"] by (auto simp: demo_fields)
  have budget: "past_budget demo_parent 300 demo_task (?x n) = (Inr False, ?x (Suc n))" for n
    by (simp add: past_budget_def read_clock_def seq_def ret_def demo_parts demo_fields)
  have prepared: "prepare_run demo_parent (demo_parsed []) [] demo_run demo_task demo_condition (?x n) =
      (Inr (demo_definition, lost_builder), ?x n)" for n
    by (simp add: prepare_run_def receipts_now_def seq_def ret_def of_sum_def check_def demo_parts demo_ended
        demo_parent_builder demo_fields empty_receipts demo_task_current demo_framework)
  show ?thesis
    by (rule fallback_receipt_ends_the_study [OF _ demo_binding(2) budget _ budget a, where t' = demo_task and c' = demo_condition])
      (simp_all add: demo_binding demo_parts demo_fields prepared demo_id_def)
qed

theorem study_accounts_for_every_run_witness:
  "\<exists>plan x R x'. execute_plan demo_parent plan x = (Inr R, x') \<and> er_attempted R = [demo_id] \<and> er_unstarted R = [] \<and>
    lookup Root (receipt_file demo_id) (ex_dir x) = None \<and> lookup Root (receipt_file demo_id) (ex_dir x') \<noteq> None"
proof -
  let ?x = "\<lparr>ex_dir = empty_dir, ex_ticks = 0\<rparr>"
  obtain document h where p: "coerce_plan (digests_of demo_parent) (PDict document) = Inr (demo_parsed h)"
    using demo_parses by (auto simp: demo_parts)
  define R where "R = report_of (demo_parsed h)
    \<lparr>pg_existing = [], pg_attempted = [demo_id], pg_completed = [demo_id], pg_skipped = []\<rparr> [] None"
  have R: "er_attempted R = [demo_id]" "er_unstarted R = []" by (simp_all add: R_def report_of_def)
  obtain x' where run: "execute_plan demo_parent (PDict document) ?x = (Inr R, x')"
    using demo_execute p unfolding demo_parts R_def by blast
  have ids: "planned_ids (demo_parsed h) = [demo_id]" by (simp add: planned_ids_def demo_fields)
  have "\<forall>i. ep_effect (pa_episode demo_parent i) = id" by (simp add: demo_parts demo_ended)
  note accounts = study_accounts_for_every_run [OF this p run, unfolded R ids]
  have "set [demo_id] \<union> set [] = {i \<in> set [demo_id]. lookup Root (receipt_file i) (ex_dir ?x) = None}"
    using accounts by (elim conjE)
  then have "demo_id \<in> {i \<in> set [demo_id]. lookup Root (receipt_file i) (ex_dir ?x) = None}"
    by (metis UnI1 list.set_intros(1))
  then have absent: "lookup Root (receipt_file demo_id) (ex_dir ?x) = None" by (simp only: mem_Collect_eq)
  have "{i \<in> set [demo_id]. lookup Root (receipt_file i) (ex_dir x') \<noteq> None} = set [demo_id] - set []"
    using accounts by (elim conjE)
  then have "demo_id \<in> {i \<in> set [demo_id]. lookup Root (receipt_file i) (ex_dir x') \<noteq> None}"
    by (simp only: list.set Diff_empty insertI1)
  then have "lookup Root (receipt_file demo_id) (ex_dir x') \<noteq> None" by (elim CollectE conjE)
  with run R absent show ?thesis by metis
qed

theorem built_plan_parses_witness:
  "\<exists>document P. coerce_plan demo_digests (PDict document) = Inr P \<and> pl_tasks P = st_tasks demo_study \<and>
    study_runs demo_digests (canonical_json_sha256 demo_digests (PDict (identity demo_digests demo_study))) demo_study = Inr (pl_runs P)"
proof -
  obtain document where document: "plan_document demo_digests demo_study = Inr document" using demo_document by blast
  from built_plan_parses [OF demo_environment(1,2) _ demo_built this] show ?thesis
    by (fastforce simp: demo_environment)
qed

end
