(* ===== verification/Sandbox.thy ===== *)
theory Sandbox
  imports Receipt_Builder
begin

text \<open>
  \<open>src/btb/harness/browser_use_sandbox.py\<close>: the directory of one learned run, owned by the parent.
  The parent makes it, runs a worker in it as the leader of a process group, empties that group,
  takes a bounded inventory and removes the directory.

  Nothing changes the directory while it is read: the group is empty by then. A file that cannot be
  opened and a directory that cannot be listed are entries of their own.
\<close>

abbreviation sandbox_error :: "string \<Rightarrow> py_exc" where
  "sandbox_error \<equiv> exc ''SandboxError''"

definition max_entries :: int where "max_entries = 4096"
definition max_file_bytes :: int where "max_file_bytes = 64 * 1024 * 1024"
definition max_total_bytes :: int where "max_total_bytes = 256 * 1024 * 1024"
definition max_worker_result_bytes :: int where "max_worker_result_bytes = max_file_bytes"
definition process_group_grace :: rat where "process_group_grace = 2"

section \<open>The inventory\<close>

text \<open>The entries of a directory come in the order of the scan.\<close>

datatype sandbox_entry =
    Plain string
  | Sealed string
  | Folder "(string \<times> sandbox_entry) list"
  | Shut
  | Symlink
  | Special

definition join_path :: "string \<Rightarrow> string \<Rightarrow> string" where
  "join_path relative name = (if relative = [] then name else relative @ ''/'' @ name)"

definition safe_relative :: "string \<Rightarrow> py_exc + string" where
  "safe_relative path =
     (if is_absolute path \<or> path_parts path = [] \<or> list_ex (\<lambda>p. p \<in> {[], ''.'', ''..''}) (path_parts path)
      then Inl (sandbox_error ''sandbox inventory contains an unsafe relative path'')
      else Inr (as_posix path))"

definition bounded_scandir_names :: "int \<Rightarrow> (string \<times> sandbox_entry) list \<Rightarrow> py_exc + (string \<times> sandbox_entry) list" where
  "bounded_scandir_names remaining_slots scanned =
     (if remaining_slots < 0 \<or> remaining_slots < int (length scanned)
      then Inl (sandbox_error ''sandbox inventory exceeds entry limit'')
      else Inr (sort_key fst scanned))"

text \<open>The variables of \<open>inventory_sandbox\<close> that \<open>visit\<close> changes.\<close>

record survey =
  sv_entries :: "pydict list"
  sv_total :: int
  sv_retained :: int

definition note_entry :: "pydict \<Rightarrow> survey \<Rightarrow> py_exc + survey" where
  "note_entry entry s =
     (let s' = s\<lparr>sv_entries := sv_entries s @ [entry]\<rparr> in
      if max_entries < int (length (sv_entries s'))
      then Inl (sandbox_error ''sandbox inventory exceeds entry limit'') else Inr s')"

definition directory_entry :: "string \<Rightarrow> pydict" where
  "directory_entry rendered = [(''path'', PStr rendered), (''type'', PStr ''directory'')]"

definition file_entry :: "digests \<Rightarrow> string \<Rightarrow> string \<Rightarrow> pydict" where
  "file_entry D rendered content =
     [(''path'', PStr rendered), (''type'', PStr ''regular_file''), (''size_bytes'', PInt (int (length content))),
      (''sha256'', PStr (hex_sha256 D content))]"

text \<open>A regular file is counted before it is opened.\<close>

definition note_file :: "digests \<Rightarrow> string \<Rightarrow> bool \<Rightarrow> string \<Rightarrow> survey \<Rightarrow> py_exc + survey" where
  "note_file D rendered readable content s =
     (let size = int (length content); s' = s\<lparr>sv_total := sv_total s + size\<rparr> in
      if max_file_bytes < size then Inl (sandbox_error ''sandbox inventory exceeds per-file byte limit'')
      else if max_total_bytes < sv_total s' then Inl (sandbox_error ''sandbox inventory exceeds total byte limit'')
      else if \<not> readable then Inl (sandbox_error ''cannot safely open sandbox file'')
      else note_entry (file_entry D rendered content) s')"

fun weight :: "sandbox_entry \<Rightarrow> nat" where
  "weight (Folder entries) = 2 + sum_list (map (\<lambda>(name, entry). weight entry) entries)"
| "weight _ = 1"

definition weights :: "(string \<times> sandbox_entry) list \<Rightarrow> nat" where
  "weights entries = sum_list (map (\<lambda>(name, entry). weight entry) entries)"

lemma weights_sort [simp]: "weights (sort_key f entries) = weights entries"
  by (simp add: weights_def flip: sum_mset_sum_list)

lemma weights_simps [simp]: "weights [] = 0" "weights ((name, entry) # rest) = weight entry + weights rest"
  "weight (Folder entries) = 2 + weights entries"
  by (simp_all add: weights_def)

declare weight.simps(1) [simp del]

lemma weight_positive [simp]: "0 < weight entry"
  by (cases entry) simp_all

text \<open>\<open>visit\<close> and the loop over the names it retains.\<close>

function (sequential) visit :: "digests \<Rightarrow> string \<Rightarrow> (string \<times> sandbox_entry) list \<Rightarrow> survey \<Rightarrow> py_exc + survey"
  and walk :: "digests \<Rightarrow> string \<Rightarrow> (string \<times> sandbox_entry) list \<Rightarrow> survey \<Rightarrow> py_exc + survey" where
  "visit D relative scanned s =
     (case bounded_scandir_names (max_entries - int (length (sv_entries s)) - sv_retained s) scanned of
        Inl e \<Rightarrow> Inl e
      | Inr named \<Rightarrow> walk D relative named (s\<lparr>sv_retained := sv_retained s + int (length named)\<rparr>))"
| "walk D relative [] s = Inr s"
| "walk D relative ((name, entry) # named) s =
     (let s1 = s\<lparr>sv_retained := sv_retained s - 1\<rparr> in
      case safe_relative (join_path relative name) of
        Inl e \<Rightarrow> Inl e
      | Inr rendered \<Rightarrow>
          (case (case entry of
               Symlink \<Rightarrow> Inl (sandbox_error (''sandbox inventory rejects symlink: '' @ rendered))
             | Folder inner \<Rightarrow>
                 (case note_entry (directory_entry rendered) s1 of
                    Inl e \<Rightarrow> Inl e
                  | Inr s2 \<Rightarrow> visit D (join_path relative name) inner s2)
             | Shut \<Rightarrow>
                 (case note_entry (directory_entry rendered) s1 of
                    Inl e \<Rightarrow> Inl e
                  | Inr _ \<Rightarrow> Inl (sandbox_error ''cannot safely open sandbox directory''))
             | Special \<Rightarrow> Inl (sandbox_error (''sandbox inventory rejects non-regular entry: '' @ rendered))
             | Plain content \<Rightarrow> note_file D rendered True content s1
             | Sealed content \<Rightarrow> note_file D rendered False content s1) of
             Inl e \<Rightarrow> Inl e
           | Inr s2 \<Rightarrow> walk D relative named s2))"
  by pat_completeness auto

termination
proof (relation "measure (\<lambda>x. case x of Inl (D, relative, scanned, s) \<Rightarrow> weights scanned + 1
    | Inr (D, relative, named, s) \<Rightarrow> weights named)", goal_cases)
  case (2 D relative scanned s named)
  then show ?case by (auto simp: bounded_scandir_names_def split: if_splits)
qed auto

definition path_of_entry :: "pydict \<Rightarrow> string" where
  "path_of_entry entry = py_str (dget entry ''path'')"

text \<open>
  The sandbox has its own \<open>canonical_json_bytes\<close>, with \<open>ensure_ascii=True\<close>: unlike the canonical
  JSON of the manifest it escapes DEL and everything beyond ASCII.
\<close>

definition ascii_string :: "string \<Rightarrow> string" where
  "ascii_string s = (let q = char_of (34::nat) in q # ascii_json s @ [q])"

fun ascii_canonical :: "(rat \<Rightarrow> string) \<Rightarrow> pyval \<Rightarrow> string"
  and ascii_items :: "(rat \<Rightarrow> string) \<Rightarrow> pyval list \<Rightarrow> string list"
  and ascii_pairs :: "(rat \<Rightarrow> string) \<Rightarrow> pydict \<Rightarrow> (string \<times> string) list" where
  "ascii_canonical ft PNone = ''null''"
| "ascii_canonical ft (PBool b) = (if b then ''true'' else ''false'')"
| "ascii_canonical ft (PInt i) = int_str i"
| "ascii_canonical ft (PFloat q) = ft q"
| "ascii_canonical ft (PStr s) = ascii_string s"
| "ascii_canonical ft (PList xs) = ''['' @ join '','' (ascii_items ft xs) @ '']''"
| "ascii_canonical ft (PDict d) =
     ''{'' @ join '','' (map (\<lambda>(k, t). ascii_string k @ '':'' @ t) (sort_key fst (ascii_pairs ft d))) @ ''}''"
| "ascii_items ft [] = []"
| "ascii_items ft (x # xs) = ascii_canonical ft x # ascii_items ft xs"
| "ascii_pairs ft [] = []"
| "ascii_pairs ft ((k, v) # d) = (k, ascii_canonical ft v) # ascii_pairs ft d"

definition sandbox_json_sha256 :: "digests \<Rightarrow> pyval \<Rightarrow> string" where
  "sandbox_json_sha256 D v = hex_sha256 D (ascii_canonical (float_text D) v)"

definition inventory_dict :: "digests \<Rightarrow> pydict list \<Rightarrow> int \<Rightarrow> pydict" where
  "inventory_dict D found total_bytes =
     (let entries = map PDict (sort_key path_of_entry found);
          files = filter (\<lambda>entry. dget entry ''type'' = PStr ''regular_file'') found in
      [(''version'', PInt 1), (''entries'', PList entries), (''entry_count'', PInt (int (length entries))),
       (''file_count'', PInt (int (length files))), (''total_bytes'', PInt total_bytes),
       (''inventory_sha256'', PStr (sandbox_json_sha256 D (PDict [(''entries'', PList entries)])))])"

definition inventory_sandbox :: "digests \<Rightarrow> sandbox_entry option \<Rightarrow> py_exc + pydict" where
  "inventory_sandbox D base =
     (case base of
        None \<Rightarrow> Inl (sandbox_error ''cannot lstat sandbox root'')
      | Some (Folder scanned) \<Rightarrow>
          (case visit D [] scanned \<lparr>sv_entries = [], sv_total = 0, sv_retained = 0\<rparr> of
             Inl e \<Rightarrow> Inl e
           | Inr s \<Rightarrow> Inr (inventory_dict D (sv_entries s) (sv_total s)))
      | Some Shut \<Rightarrow> Inl (sandbox_error ''cannot safely open sandbox directory'')
      | Some _ \<Rightarrow> Inl (sandbox_error ''sandbox root is not a real directory''))"

section \<open>The result of the worker\<close>

definition read_worker_result :: "world \<Rightarrow> sandbox_entry option \<Rightarrow> string \<Rightarrow> pydict option" where
  "read_worker_result W base name =
     (if name \<noteq> ''worker-result.json'' then None
      else (case base of
        Some (Folder entries) \<Rightarrow>
          (case map_of entries name of
             Some (Plain content) \<Rightarrow>
               if max_worker_result_bytes < int (length content) then None
               else (case json_text W content of Inr (PDict d) \<Rightarrow> Some d | _ \<Rightarrow> None)
           | _ \<Rightarrow> None)
      | _ \<Rightarrow> None))"

section \<open>The life of the directory\<close>

record sandbox_paths =
  sp_root :: string
  sp_temp_dir :: string
  sp_config_dir :: string
  sp_cache_dir :: string
  sp_browser_profile_dir :: string
  sp_downloads_dir :: string
  sp_agent_files_dir :: string

definition paths_under :: "string \<Rightarrow> sandbox_paths" where
  "paths_under base =
     \<lparr>sp_root = base, sp_temp_dir = base @ ''/tmp'', sp_config_dir = base @ ''/config'', sp_cache_dir = base @ ''/cache'',
      sp_browser_profile_dir = base @ ''/browser-profile'', sp_downloads_dir = base @ ''/downloads'',
      sp_agent_files_dir = base @ ''/agent-files''\<rparr>"

text \<open>The names under the root, in the order they are made.\<close>

definition child_names :: "string list" where
  "child_names = [''tmp'', ''config'', ''cache'', ''browser-profile'', ''downloads'', ''agent-files'']"

text \<open>
  What making a directory meets: the path \<open>mkdtemp\<close> makes and its resolved spelling, or their
  errors; the protected directories; for each child an error of \<open>mkdir\<close>, which leaves no child, or
  of \<open>chmod\<close>, which leaves it.
\<close>

record sandbox_setup =
  su_made :: "py_exc + string"
  su_chmod :: "py_exc option"
  su_resolved :: "py_exc + string"
  su_protected :: "string list"
  su_mkdir :: "string \<Rightarrow> py_exc option"
  su_child_chmod :: "string \<Rightarrow> py_exc option"

definition is_relative_to :: "string \<Rightarrow> string \<Rightarrow> bool" where
  "is_relative_to path parent \<longleftrightarrow>
     is_absolute path = is_absolute parent \<and>
     take (length (path_parts parent)) (path_parts path) = path_parts parent"

definition require_outside_repo_and_home :: "string list \<Rightarrow> string \<Rightarrow> py_exc + unit" where
  "require_outside_repo_and_home protected base =
     (if list_ex (is_relative_to base) protected
      then Inl (sandbox_error ''Browser Use sandbox must be outside the repository and home'') else Inr ())"

text \<open>The object, with the roots it has told its owner of, and the directory on disk.\<close>

record lifecycle =
  lc_root :: "string option"
  lc_told :: "string list"
  lc_paths :: "sandbox_paths option"
  lc_inventory :: "pydict option"
  lc_cleanup_error :: "py_exc option"
  lc_disk :: "sandbox_entry option"

definition new_lifecycle :: lifecycle where
  "new_lifecycle = \<lparr>lc_root = None, lc_told = [], lc_paths = None, lc_inventory = None, lc_cleanup_error = None, lc_disk = None\<rparr>"

definition register_root :: "string \<Rightarrow> lifecycle \<Rightarrow> lifecycle" where
  "register_root base st = st\<lparr>lc_root := Some base, lc_told := lc_told st @ [base]\<rparr>"

definition add_child :: "string \<Rightarrow> lifecycle \<Rightarrow> lifecycle" where
  "add_child name st =
     st\<lparr>lc_disk := (case lc_disk st of Some (Folder entries) \<Rightarrow> Some (Folder (entries @ [(name, Folder [])])) | other \<Rightarrow> other)\<rparr>"

fun make_children :: "sandbox_setup \<Rightarrow> string list \<Rightarrow> lifecycle \<Rightarrow> (py_exc + unit) \<times> lifecycle" where
  "make_children S [] st = (Inr (), st)"
| "make_children S (name # names) st =
     (case su_mkdir S name of
        Some e \<Rightarrow> (Inl e, st)
      | None \<Rightarrow>
          (case su_child_chmod S name of
             Some e \<Rightarrow> (Inl e, add_child name st)
           | None \<Rightarrow> make_children S names (add_child name st)))"

definition create_sandbox :: "sandbox_setup \<Rightarrow> lifecycle \<Rightarrow> (py_exc + sandbox_paths) \<times> lifecycle" where
  "create_sandbox S st =
     (if lc_root st \<noteq> None then (Inl (runtime_error ''sandbox already created''), st)
      else (case su_made S of
        Inl e \<Rightarrow> (Inl e, st)
      | Inr made \<Rightarrow>
          (let st1 = register_root made (st\<lparr>lc_disk := Some (Folder [])\<rparr>) in
           case su_chmod S of
             Some e \<Rightarrow> (Inl e, st1)
           | None \<Rightarrow>
               (case su_resolved S of
                  Inl e \<Rightarrow> (Inl e, st1)
                | Inr base \<Rightarrow>
                    (let st2 = register_root base st1 in
                     case require_outside_repo_and_home (su_protected S) base of
                       Inl e \<Rightarrow> (Inl e, st2)
                     | Inr _ \<Rightarrow>
                         (case make_children S child_names st2 of
                            (Inl e, st3) \<Rightarrow> (Inl e, st3)
                          | (Inr _, st3) \<Rightarrow> (Inr (paths_under base), st3\<lparr>lc_paths := Some (paths_under base)\<rparr>)))))))"

definition has_real_root :: "lifecycle \<Rightarrow> bool" where
  "has_real_root st \<longleftrightarrow>
     lc_root st \<noteq> None \<and> (case lc_disk st of Some (Folder _) \<Rightarrow> True | Some Shut \<Rightarrow> True | _ \<Rightarrow> False)"

definition capture_inventory :: "digests \<Rightarrow> lifecycle \<Rightarrow> (py_exc + pydict) \<times> lifecycle" where
  "capture_inventory D st =
     (if \<not> has_real_root st then (Inl (runtime_error ''sandbox root is not available for inventory''), st)
      else (case inventory_sandbox D (lc_disk st) of
        Inl e \<Rightarrow> (Inl e, st)
      | Inr found \<Rightarrow> (Inr found, st\<lparr>lc_inventory := Some found\<rparr>)))"

text \<open>\<open>rmtree\<close> gives what it leaves of an entry and its error, if any.\<close>

type_synonym remover = "sandbox_entry \<Rightarrow> sandbox_entry option \<times> py_exc option"

definition cleanup :: "remover \<Rightarrow> lifecycle \<Rightarrow> bool \<times> lifecycle" where
  "cleanup rmtree st =
     (if lc_root st = None then (True, st)
      else (case lc_disk st of
        None \<Rightarrow> (True, st)
      | Some entry \<Rightarrow>
          (case rmtree entry of (left, e) \<Rightarrow>
            (let st' = st\<lparr>lc_disk := left\<rparr>;
                 failure = (case e of Some _ \<Rightarrow> e
                   | None \<Rightarrow> if left \<noteq> None then Some (sandbox_error ''sandbox still exists after cleanup'') else None)
             in case failure of None \<Rightarrow> (True, st') | Some x \<Rightarrow> (False, st'\<lparr>lc_cleanup_error := Some x\<rparr>)))))"

definition receipt_state :: "lifecycle \<Rightarrow> string" where
  "receipt_state st =
     (if lc_root st = None then ''not_created''
      else if lc_cleanup_error st \<noteq> None then ''cleanup_failed'' else ''cleaned'')"

text \<open>The environment of the worker, in the order it is made.\<close>

definition selected_credential :: "surroundings \<Rightarrow> string \<Rightarrow> (string \<times> string) list" where
  "selected_credential S provider =
     (case map_of [(''anthropic'', ''ANTHROPIC_API_KEY''), (''deepseek'', ''DEEPSEEK_API_KEY''),
        (''openai'', ''OPENAI_API_KEY'')] provider of
        None \<Rightarrow> []
      | Some name \<Rightarrow> (case environ S name of Some (c # value) \<Rightarrow> [(name, c # value)] | _ \<Rightarrow> []))"

definition sandbox_environment :: "surroundings \<Rightarrow> sandbox_paths \<Rightarrow> string \<Rightarrow> (string \<times> string) list" where
  "sandbox_environment S paths provider =
     [(''PATH'', case environ S ''PATH'' of None \<Rightarrow> [] | Some path \<Rightarrow> path),
      (''HOME'', sp_root paths), (''TMPDIR'', sp_temp_dir paths), (''TEMP'', sp_temp_dir paths),
      (''TMP'', sp_temp_dir paths), (''BROWSER_USE_CONFIG_DIR'', sp_config_dir paths),
      (''XDG_CONFIG_HOME'', sp_config_dir paths), (''XDG_CACHE_HOME'', sp_cache_dir paths),
      (''ANONYMIZED_TELEMETRY'', ''false''), (''BROWSER_USE_CLOUD_SYNC'', ''false''),
      (''BROWSER_USE_SETUP_LOGGING'', ''false''), (''BROWSER_USE_LOGGING_LEVEL'', ''WARNING''),
      (''BROWSER_USE_VERSION_CHECK'', ''false''), (''BROWSER_USE_DISABLE_EXTENSIONS'', ''1''),
      (''BTB_BROWSER_USE_SANDBOX_ROOT'', sp_root paths)] @ selected_credential S provider"

section \<open>The process group\<close>

text \<open>
  A process ends on its own at some time or never, and some time after a signal or never; signals
  to a dead process do nothing. The group is its leader, a child of the parent, and what the leader
  left behind. Members do not multiply while the group is emptied.
\<close>

record process =
  po_ends :: "rat option"
  po_code :: int
  po_on_term :: "rat option"
  po_on_kill :: "rat option"

record group =
  gr_clock :: rat
  gr_leader :: process
  gr_reaped :: bool
  gr_others :: "process list"
  gr_unpolled :: bool
  gr_unreaped :: bool
  gr_denied :: bool

definition gone :: "rat \<Rightarrow> process \<Rightarrow> bool" where
  "gone now p \<longleftrightarrow> (case po_ends p of None \<Rightarrow> False | Some t \<Rightarrow> t \<le> now)"

definition hit :: "int \<Rightarrow> rat \<Rightarrow> process \<Rightarrow> process" where
  "hit signal now p =
     (if gone now p then p
      else (case (if signal = 9 then po_on_kill p else po_on_term p) of
        None \<Rightarrow> p
      | Some delay \<Rightarrow>
          (case po_ends p of
             Some t \<Rightarrow> if t \<le> now + delay then p else p\<lparr>po_ends := Some (now + delay), po_code := - signal\<rparr>
           | None \<Rightarrow> p\<lparr>po_ends := Some (now + delay), po_code := - signal\<rparr>)))"

text \<open>A leader that has ended but was not reaped is still a member.\<close>

definition members_left :: "group \<Rightarrow> bool" where
  "members_left g \<longleftrightarrow> \<not> gr_reaped g \<or> list_ex (\<lambda>p. \<not> gone (gr_clock g) p) (gr_others g)"

definition process_group_exists :: "group \<Rightarrow> py_exc + bool" where
  "process_group_exists g =
     (if \<not> members_left g then Inr False
      else if gr_denied g then Inl (sandbox_error ''cannot inspect Browser Use child process group'')
      else Inr True)"

definition signal_process_group :: "int \<Rightarrow> group \<Rightarrow> (py_exc + unit) \<times> group" where
  "signal_process_group signal g =
     (if \<not> members_left g then (Inr (), g)
      else if gr_denied g then (Inl (sandbox_error ''cannot signal Browser Use child process group''), g)
      else (Inr (), g\<lparr>gr_leader := hit signal (gr_clock g) (gr_leader g),
        gr_others := map (hit signal (gr_clock g)) (gr_others g)\<rparr>))"

text \<open>\<open>poll\<close> reaps a leader that has ended.\<close>

definition poll_leader :: "group \<Rightarrow> (py_exc + bool) \<times> group" where
  "poll_leader g =
     (if gr_unpolled g then (Inl (sandbox_error ''cannot inspect Browser Use child process''), g)
      else if gr_reaped g \<or> gone (gr_clock g) (gr_leader g) then (Inr False, g\<lparr>gr_reaped := True\<rparr>)
      else (Inr True, g))"

definition wait_for_leader_exit :: "rat \<Rightarrow> group \<Rightarrow> (py_exc + bool) \<times> group" where
  "wait_for_leader_exit timeout g =
     (if gr_unreaped g then (Inl (sandbox_error ''cannot reap Browser Use child process''), g)
      else (case po_ends (gr_leader g) of
        Some t \<Rightarrow>
          if t \<le> gr_clock g + timeout
          then (Inr True, g\<lparr>gr_clock := max (gr_clock g) t, gr_reaped := True\<rparr>)
          else (Inr False, g\<lparr>gr_clock := gr_clock g + timeout\<rparr>)
      | None \<Rightarrow> (Inr False, g\<lparr>gr_clock := gr_clock g + timeout\<rparr>)))"

text \<open>The loop that looks every 20 milliseconds until the deadline.\<close>

function await_exit :: "rat \<Rightarrow> group \<Rightarrow> (py_exc + bool) \<times> group" where
  "await_exit deadline g =
     (case process_group_exists g of
        Inl e \<Rightarrow> (Inl e, g)
      | Inr False \<Rightarrow> (Inr True, g)
      | Inr True \<Rightarrow>
          if deadline \<le> gr_clock g then (Inr False, g)
          else await_exit deadline (g\<lparr>gr_clock := gr_clock g + 1 / 50\<rparr>))"
  by pat_completeness auto

termination
proof (relation "measure (\<lambda>(deadline, g). nat \<lceil>50 * (deadline - gr_clock g)\<rceil>)", goal_cases)
  case (2 deadline g)
  then have "0 < 50 * (deadline - gr_clock g)" by simp
  moreover have "50 * (deadline - (gr_clock g + 1 / 50)) = 50 * (deadline - gr_clock g) - 1" by (simp add: algebra_simps)
  ultimately show ?case by simp linarith
qed simp

declare await_exit.simps [simp del]

definition wait_for_process_group_exit :: "rat \<Rightarrow> group \<Rightarrow> (py_exc + bool) \<times> group" where
  "wait_for_process_group_exit timeout g = await_exit (gr_clock g + timeout) g"

text \<open>Signals, waits, kills and waits again.\<close>

definition escalate :: "(rat \<Rightarrow> group \<Rightarrow> (py_exc + bool) \<times> group) \<Rightarrow> string \<Rightarrow> group \<Rightarrow> (py_exc + unit) \<times> group" where
  "escalate wait message g =
     (case signal_process_group 15 g of
        (Inl e, g1) \<Rightarrow> (Inl e, g1)
      | (Inr _, g1) \<Rightarrow>
          (case wait process_group_grace g1 of
             (Inl e, g2) \<Rightarrow> (Inl e, g2)
           | (Inr True, g2) \<Rightarrow> (Inr (), g2)
           | (Inr False, g2) \<Rightarrow>
               (case signal_process_group 9 g2 of
                  (Inl e, g3) \<Rightarrow> (Inl e, g3)
                | (Inr _, g3) \<Rightarrow>
                    (case wait process_group_grace g3 of
                       (Inl e, g4) \<Rightarrow> (Inl e, g4)
                     | (Inr True, g4) \<Rightarrow> (Inr (), g4)
                     | (Inr False, g4) \<Rightarrow> (Inl (sandbox_error message), g4)))))"

definition quiesce_process_group :: "group \<Rightarrow> (py_exc + unit) \<times> group" where
  "quiesce_process_group g =
     (case poll_leader g of
        (Inl e, g1) \<Rightarrow> (Inl e, g1)
      | (Inr leader_running, g1) \<Rightarrow>
          (case (if leader_running
             then escalate wait_for_leader_exit ''Browser Use child process did not exit'' g1
             else (Inr (), g1)) of
             (Inl e, g2) \<Rightarrow> (Inl e, g2)
           | (Inr _, g2) \<Rightarrow>
               (case process_group_exists g2 of
                  Inl e \<Rightarrow> (Inl e, g2)
                | Inr False \<Rightarrow> (Inr (), g2)
                | Inr True \<Rightarrow>
                    escalate wait_for_process_group_exit ''Browser Use child process group did not quiesce'' g2)))"

text \<open>\<open>communicate\<close> waits for the leader and reaps it, or times out.\<close>

definition communicate :: "rat \<Rightarrow> group \<Rightarrow> bool \<times> group" where
  "communicate timeout g =
     (case po_ends (gr_leader g) of
        Some t \<Rightarrow>
          if t \<le> gr_clock g + timeout
          then (False, g\<lparr>gr_clock := max (gr_clock g) t, gr_reaped := True\<rparr>)
          else (True, g\<lparr>gr_clock := gr_clock g + timeout\<rparr>)
      | None \<Rightarrow> (True, g\<lparr>gr_clock := gr_clock g + timeout\<rparr>))"

definition return_code :: "group \<Rightarrow> int option" where
  "return_code g = (if gr_reaped g then Some (po_code (gr_leader g)) else None)"

record worker_result =
  wr_payload :: "pydict option"
  wr_timed_out :: bool
  wr_return_code :: "int option"
  wr_teardown_error :: "string option"

text \<open>\<open>started\<close> is the group of the worker's process, and \<open>disk\<close> the directory when the group is empty.\<close>

definition run_sandbox_worker :: "world \<Rightarrow> (pydict \<Rightarrow> (string \<times> string) list \<Rightarrow> py_exc + group) \<Rightarrow> (group \<Rightarrow> sandbox_entry option)
    \<Rightarrow> surroundings \<Rightarrow> sandbox_paths \<Rightarrow> pydict \<Rightarrow> rat \<Rightarrow> string \<Rightarrow> py_exc + worker_result" where
  "run_sandbox_worker W started disk S paths request timeout provider =
     (if timeout \<le> 0 then Inl (value_error ''worker timeout must be positive'')
      else (case started request (sandbox_environment S paths provider) of
        Inl e \<Rightarrow> Inl e
      | Inr g \<Rightarrow>
          (case communicate timeout g of (timed_out, g1) \<Rightarrow>
            (case quiesce_process_group g1 of (quiesced, g2) \<Rightarrow>
              (let teardown = (case quiesced of Inl e \<Rightarrow> Some (exc_text e) | Inr _ \<Rightarrow> None) in
               Inr \<lparr>wr_payload = (if teardown \<noteq> None then None
                   else read_worker_result W (disk g2) ''worker-result.json''),
                 wr_timed_out = timed_out, wr_return_code = return_code g2, wr_teardown_error = teardown\<rparr>)))))"

end
