(* ===== verification/Sandbox_Properties.thy ===== *)
theory Sandbox_Properties
  imports Sandbox Study_Properties Builder_Properties
begin

text \<open>
  The inventory of a sandbox is exact, within its limits, and the validator accepts it unless a name
  has a backslash; the life of the directory is told truthfully; a process group is emptied in
  bounded time.
\<close>

section \<open>Paths\<close>

definition clean_name :: "string \<Rightarrow> bool" where
  "clean_name n \<longleftrightarrow> n \<notin> {[], ''.'', ''..''} \<and> CHR ''/'' \<notin> set n"

abbreviation path_text :: "string list \<Rightarrow> string" where
  "path_text \<equiv> join ''/''"

lemma split_path_text:
  "ps \<noteq> [] \<Longrightarrow> list_all (\<lambda>p. CHR ''/'' \<notin> set p) ps \<Longrightarrow> split_at (CHR ''/'') (path_text ps) = ps"
  by (induction "''/''" ps rule: join.induct) (auto simp: split_at_no_sep split_at_append)

lemma path_parts_text: "list_all clean_name ps \<Longrightarrow> path_parts (path_text ps) = ps"
proof (cases "ps = []")
  case False
  assume "list_all clean_name ps"
  then have "list_all (\<lambda>p. CHR ''/'' \<notin> set p) ps" "filter (\<lambda>p. p \<noteq> [] \<and> p \<noteq> ''.'') ps = ps"
    by (auto simp: list_all_iff clean_name_def intro!: filter_True)
  with False show ?thesis by (simp add: path_parts_def split_path_text)
qed (simp add: path_parts_def)

lemma join_snoc: "ps \<noteq> [] \<Longrightarrow> join s (ps @ [n]) = join s ps @ s @ n"
  by (induction s ps rule: join.induct) auto

lemma path_text_Nil: "list_all clean_name ps \<Longrightarrow> path_text ps = [] \<longleftrightarrow> ps = []"
  using path_parts_text [of ps] by (auto simp: path_parts_def)

lemma join_path_text: "list_all clean_name ps \<Longrightarrow> join_path (path_text ps) n = path_text (ps @ [n])"
  by (auto simp: join_path_def path_text_Nil join_snoc)

lemma relative_text:
  assumes "list_all clean_name ps"
  shows "\<not> is_absolute (path_text ps)"
proof
  assume "is_absolute (path_text ps)"
  then obtain s where s: "path_text ps = CHR ''/'' # s"
    by (cases "path_text ps") (auto simp: is_absolute_def starts_with_def)
  then have "ps \<noteq> []" by auto
  then have "split_at (CHR ''/'') (path_text ps) = ps"
    using assms by (intro split_path_text) (auto simp: list_all_iff clean_name_def)
  then have "[] \<in> set ps" by (metis list.set_intros(1) s split_at.simps(2))
  with assms show False by (auto simp: list_all_iff clean_name_def)
qed

lemma safe_path_text:
  assumes "list_all clean_name ps" and "ps \<noteq> []"
  shows "safe_relative (path_text ps) = Inr (path_text ps)"
proof -
  have "\<not> list_ex (\<lambda>p. p \<in> {[], ''.'', ''..''}) ps"
    using assms(1) by (auto simp: list_all_iff list_ex_iff clean_name_def)
  then show ?thesis
    using assms relative_text [OF assms(1)] path_parts_text [OF assms(1)] by (simp add: safe_relative_def as_posix_def)
qed

lemma safe_inventory_text:
  assumes "list_all clean_name ps" and "ps \<noteq> []"
  shows "safe_inventory_path (PStr (path_text ps)) \<longleftrightarrow> char_of (92::nat) \<notin> set (path_text ps)"
proof -
  have "\<not> list_ex (\<lambda>p. p \<in> {[], ''.'', ''..''}) ps"
    using assms(1) by (auto simp: list_all_iff list_ex_iff clean_name_def)
  then show ?thesis
    using assms relative_text [OF assms(1)] path_parts_text [OF assms(1)] path_text_Nil [OF assms(1)]
    by (simp add: safe_inventory_path_def as_posix_def)
qed

lemma path_text_inj: "list_all clean_name ps \<Longrightarrow> list_all clean_name qs \<Longrightarrow> path_text ps = path_text qs \<longleftrightarrow> ps = qs"
  using path_parts_text by metis

section \<open>The entries of a tree\<close>

text \<open>Every entry under a directory with the parts of its path, first as they come, then as they are visited.\<close>

definition inside :: "sandbox_entry \<Rightarrow> (string \<times> sandbox_entry) list" where
  "inside e = (case e of Folder inner \<Rightarrow> inner | _ \<Rightarrow> [])"

lemma inside_Folder [simp]: "inside (Folder inner) = inner"
  by (simp add: inside_def)

lemma weights_inside: "weights (inside e) < weight e"
  by (cases e) (simp_all add: inside_def)

function nodes :: "string list \<Rightarrow> (string \<times> sandbox_entry) list \<Rightarrow> (string list \<times> sandbox_entry) list" where
  "nodes ps [] = []"
| "nodes ps ((n, e) # es) = (ps @ [n], e) # nodes (ps @ [n]) (inside e) @ nodes ps es"
  by pat_completeness auto
termination by (relation "measure (\<lambda>(ps, es). weights es)") (auto intro: trans_less_add1 weights_inside)

function visited :: "string list \<Rightarrow> (string \<times> sandbox_entry) list \<Rightarrow> (string list \<times> sandbox_entry) list" where
  "visited ps [] = []"
| "visited ps ((n, e) # es) = (ps @ [n], e) # visited (ps @ [n]) (sort_key fst (inside e)) @ visited ps es"
  by pat_completeness auto
termination by (relation "measure (\<lambda>(ps, es). weights es)") (auto intro: trans_less_add1 weights_inside)

lemma nodes_mset: "mset (nodes ps es) = \<Sum>\<^sub># (image_mset (\<lambda>e. mset (nodes ps [e])) (mset es))"
  by (induction ps es rule: nodes.induct) simp_all

lemma nodes_sorted: "mset (nodes ps (sort_key f es)) = mset (nodes ps es)"
  by (simp only: nodes_mset [of ps "sort_key f es"] nodes_mset [of ps es] mset_sort)

lemma visited_nodes: "mset (visited ps es) = mset (nodes ps es)"
  by (induction ps es rule: visited.induct) (simp_all add: nodes_sorted)

lemma length_visited: "length es \<le> length (visited ps es)"
  by (induction ps es rule: visited.induct) auto

text \<open>
  What a file system keeps, the names of a directory are different and are names, and that the
  names are UTF-8. Other names reach Python with surrogate escapes, which the canonical JSON of the
  manifest cannot encode: no inventory with one is published.
\<close>

fun utf8 :: "string \<Rightarrow> bool" where
  "utf8 [] = True"
| "utf8 (a # s) =
     (let x = (of_char a :: nat); more = (\<lambda>lo hi c. lo \<le> (of_char c :: nat) \<and> (of_char c :: nat) \<le> hi) in
      if x < 128 then utf8 s
      else if x < 194 then False
      else if x < 224 then (case s of b # r \<Rightarrow> more 128 191 b \<and> utf8 r | _ \<Rightarrow> False)
      else if x < 240 then (case s of
          b # c # r \<Rightarrow> more (if x = 224 then 160 else 128) (if x = 237 then 159 else 191) b \<and>
            more 128 191 c \<and> utf8 r
        | _ \<Rightarrow> False)
      else if x < 245 then (case s of
          b # c # d # r \<Rightarrow> more (if x = 240 then 144 else 128) (if x = 244 then 143 else 191) b \<and>
            more 128 191 c \<and> more 128 191 d \<and> utf8 r
        | _ \<Rightarrow> False)
      else False)"

definition level_ok :: "(string \<times> sandbox_entry) list \<Rightarrow> bool" where
  "level_ok es \<longleftrightarrow> distinct (map fst es) \<and> list_all clean_name (map fst es) \<and> list_all utf8 (map fst es)"

definition well_named :: "string list \<Rightarrow> (string \<times> sandbox_entry) list \<Rightarrow> bool" where
  "well_named ps es \<longleftrightarrow> level_ok es \<and> (\<forall>x \<in> set (nodes ps es). level_ok (inside (snd x)))"

lemma well_named_Cons:
  assumes "well_named ps ((n, e) # es)"
  shows "well_named ps es" "clean_name n" "n \<notin> fst ` set es" "well_named (ps @ [n]) (inside e)"
  using assms by (auto simp: well_named_def level_ok_def)

lemma nodes_clean:
  assumes "well_named ps es" and "list_all clean_name ps" and "x \<in> set (nodes ps es)"
  shows "list_all clean_name (fst x) \<and> (\<exists>n rest. n \<in> fst ` set es \<and> fst x = ps @ n # rest)"
  using assms
proof (induction ps es arbitrary: x rule: nodes.induct)
  case (2 ps n e es)
  note n = well_named_Cons [OF "2.prems"(1)]
  have clean: "list_all clean_name (ps @ [n])" using n(2) "2.prems"(2) by simp
  from "2.prems"(3) consider "x = (ps @ [n], e)" | "x \<in> set (nodes (ps @ [n]) (inside e))" | "x \<in> set (nodes ps es)" by auto
  then show ?case
  proof cases
    case 1
    with clean show ?thesis by simp
  next
    case 2
    from "2.IH"(1) [OF n(4) clean this] show ?thesis by auto
  next
    case 3
    from "2.IH"(2) [OF n(1) "2.prems"(2) this] show ?thesis by auto
  qed
qed simp

lemma nodes_distinct:
  assumes "well_named ps es" and "list_all clean_name ps"
  shows "distinct (map fst (nodes ps es))"
  using assms
proof (induction ps es rule: nodes.induct)
  case (2 ps n e es)
  note n = well_named_Cons [OF "2.prems"(1)]
  have clean: "list_all clean_name (ps @ [n])" using n(2) "2.prems"(2) by simp
  note inner = nodes_clean [OF n(4) clean] and outer = nodes_clean [OF n(1) "2.prems"(2)]
  have "fst x \<noteq> fst y" if "x \<in> set (nodes (ps @ [n]) (inside e))" "y \<in> set (nodes ps es)" for x y
    using inner [OF that(1)] outer [OF that(2)] n(3) by force
  moreover have "fst x \<noteq> ps @ [n]" if "x \<in> set (nodes (ps @ [n]) (inside e))" for x using inner [OF that] by force
  moreover have "fst y \<noteq> ps @ [n]" if "y \<in> set (nodes ps es)" for y using outer [OF that] n(3) by force
  ultimately show ?case using "2.IH"(1) [OF n(4) clean] "2.IH"(2) [OF n(1) "2.prems"(2)] by fastforce
qed simp

section \<open>The walk\<close>

definition entry_size :: "sandbox_entry \<Rightarrow> int" where
  "entry_size e = (case e of Plain content \<Rightarrow> int (length content) | _ \<Rightarrow> 0)"

definition entry_fits :: "sandbox_entry \<Rightarrow> bool" where
  "entry_fits e \<longleftrightarrow> (case e of Folder _ \<Rightarrow> True | Plain content \<Rightarrow> int (length content) \<le> max_file_bytes | _ \<Rightarrow> False)"

definition sizes :: "(string list \<times> sandbox_entry) list \<Rightarrow> int" where
  "sizes ns = sum_list (map (entry_size \<circ> snd) ns)"

definition entry_of :: "digests \<Rightarrow> string list \<times> sandbox_entry \<Rightarrow> pydict" where
  "entry_of D x = (case snd x of Plain content \<Rightarrow> file_entry D (path_text (fst x)) content | _ \<Rightarrow> directory_entry (path_text (fst x)))"

lemma sizes_simps [simp]: "sizes [] = 0" "sizes (x # ns) = entry_size (snd x) + sizes ns" "sizes (ms @ ns) = sizes ms + sizes ns"
  by (simp_all add: sizes_def)

lemma entry_size_nonneg [simp]: "0 \<le> entry_size e"
  by (cases e) (simp_all add: entry_size_def)

lemma sizes_nonneg: "0 \<le> sizes ns"
  by (induction ns) simp_all

text \<open>The names that were read, listed or still retained, never exceed the limit.\<close>

definition bounded_survey :: "survey \<Rightarrow> bool" where
  "bounded_survey s \<longleftrightarrow> 0 \<le> sv_retained s \<and> int (length (sv_entries s)) + sv_retained s \<le> max_entries \<and> sv_total s \<le> max_total_bytes"

definition surveyed :: "digests \<Rightarrow> (string list \<times> sandbox_entry) list \<Rightarrow> survey \<Rightarrow> survey" where
  "surveyed D ns s = s\<lparr>sv_total := sv_total s + sizes ns, sv_entries := sv_entries s @ map (entry_of D) ns\<rparr>"

definition room_for :: "(string list \<times> sandbox_entry) list \<Rightarrow> survey \<Rightarrow> bool" where
  "room_for ns s \<longleftrightarrow> int (length (sv_entries s)) + sv_retained s + int (length ns) \<le> max_entries \<and>
     list_all (entry_fits \<circ> snd) ns \<and> sv_total s + sizes ns \<le> max_total_bytes"

text \<open>One entry, without what is under it.\<close>

lemma surveyed_simps [simp]:
  "sv_entries (surveyed D ns s) = sv_entries s @ map (entry_of D) ns" "sv_total (surveyed D ns s) = sv_total s + sizes ns"
  "sv_retained (surveyed D ns s) = sv_retained s" "surveyed D [] s = s"
  "surveyed D ns (surveyed D ms s) = surveyed D (ms @ ns) s"
  by (simp_all add: surveyed_def)

lemma visit_empty: "bounded_survey s \<Longrightarrow> visit D r [] s = Inr s"
  by (simp add: bounded_scandir_names_def bounded_survey_def)

lemma visit_Inr:
  "bounded_survey s \<Longrightarrow> visit D r cs s = Inr s' \<longleftrightarrow>
     int (length (sv_entries s)) + sv_retained s + int (length cs) \<le> max_entries \<and>
     walk D r (sort_key fst cs) (s\<lparr>sv_retained := sv_retained s + int (length cs)\<rparr>) = Inr s'"
  by (auto simp: bounded_scandir_names_def bounded_survey_def split: if_splits)

declare visit.simps [simp del]

lemma walk_Cons:
  assumes "list_all clean_name (ps @ [n])" and "1 \<le> sv_retained s" and "bounded_survey s"
  shows "walk D (path_text ps) ((n, e) # es) s = Inr s' \<longleftrightarrow>
    entry_fits e \<and> sv_total s + entry_size e \<le> max_total_bytes \<and>
    (\<exists>s2. visit D (path_text (ps @ [n])) (inside e)
        (surveyed D [(ps @ [n], e)] (s\<lparr>sv_retained := sv_retained s - 1\<rparr>)) = Inr s2 \<and>
      walk D (path_text ps) es s2 = Inr s')"
proof -
  have path: "join_path (path_text ps) n = path_text (ps @ [n])" using assms(1) by (simp add: join_path_text)
  have safe: "safe_relative (path_text (ps @ [n])) = Inr (path_text (ps @ [n]))" using assms(1) by (rule safe_path_text) simp
  have room: "\<not> max_entries \<le> int (length (sv_entries s))" "sv_total s \<le> max_total_bytes"
    using assms(2,3) by (auto simp: bounded_survey_def)
  show ?thesis
  proof (cases "\<exists>inner. e = Folder inner")
    case True
    with room path safe show ?thesis
      by (auto simp: note_entry_def Let_def surveyed_def entry_of_def entry_size_def entry_fits_def split: sum.splits)
  next
    case False
    let ?s1 = "surveyed D [(ps @ [n], e)] (s\<lparr>sv_retained := sv_retained s - 1\<rparr>)"
    have "visit D (path_text (ps @ [n])) (inside e) ?s1 = Inr ?s1" if "sv_total s + entry_size e \<le> max_total_bytes"
      using False assms(2,3) that by (cases e) (auto simp: inside_def bounded_survey_def entry_size_def intro!: visit_empty)
    moreover have "walk D (path_text ps) ((n, e) # es) s = Inr s' \<longleftrightarrow> entry_fits e \<and>
        sv_total s + entry_size e \<le> max_total_bytes \<and> walk D (path_text ps) es ?s1 = Inr s'"
      using False room path safe
      by (cases e) (auto simp: note_file_def note_entry_def Let_def surveyed_def entry_of_def entry_size_def entry_fits_def
          split: sum.splits)
    ultimately show ?thesis by auto
  qed
qed

lemma walk_exact:
  assumes "list_all clean_name ps" and "list_all (\<lambda>x. list_all clean_name (fst x)) (visited ps es)"
    and "bounded_survey t" and "int (length es) \<le> sv_retained t"
  shows "walk D (path_text ps) es t = Inr s' \<longleftrightarrow>
    room_for (visited ps es) (t\<lparr>sv_retained := sv_retained t - int (length es)\<rparr>) \<and>
    s' = surveyed D (visited ps es) (t\<lparr>sv_retained := sv_retained t - int (length es)\<rparr>)"
  using assms
proof (induction ps es arbitrary: t s' rule: visited.induct)
  case (1 ps)
  then show ?case by (auto simp: room_for_def bounded_survey_def)
next
  case (2 ps n e es)
  let ?inner = "sort_key fst (inside e)"
  let ?s1 = "surveyed D [(ps @ [n], e)] (t\<lparr>sv_retained := sv_retained t - 1\<rparr>)"
  let ?s2 = "surveyed D (visited (ps @ [n]) ?inner) ?s1"
  have clean: "list_all clean_name (ps @ [n])" "list_all (\<lambda>x. list_all clean_name (fst x)) (visited (ps @ [n]) ?inner)"
    "list_all (\<lambda>x. list_all clean_name (fst x)) (visited ps es)"
    using "2.prems"(2) by simp_all
  note sizes = sizes_nonneg [of "visited (ps @ [n]) ?inner"] sizes_nonneg [of "visited ps es"]
    length_visited [of ?inner "ps @ [n]"] length_visited [of es ps]
  have one: "visit D (path_text (ps @ [n])) (inside e) ?s1 = Inr s2 \<longleftrightarrow>
      room_for (visited (ps @ [n]) ?inner) ?s1 \<and> s2 = ?s2" if "sv_total t + entry_size e \<le> max_total_bytes" for s2
  proof -
    have s1: "bounded_survey ?s1" using "2.prems"(3,4) that by (simp add: bounded_survey_def)
    let ?t1 = "?s1\<lparr>sv_retained := sv_retained ?s1 + int (length (inside e))\<rparr>"
    have "walk D (path_text (ps @ [n])) ?inner ?t1 = Inr s2 \<longleftrightarrow> room_for (visited (ps @ [n]) ?inner) ?s1 \<and> s2 = ?s2"
      if "int (length (sv_entries ?s1)) + sv_retained ?s1 + int (length (inside e)) \<le> max_entries"
      using "2.IH"(1) [OF clean(1,2), of ?t1 s2] s1 that by (simp add: bounded_survey_def surveyed_def room_for_def)
    then show ?thesis
      unfolding visit_Inr [OF s1] using sizes(3) by (auto simp: room_for_def)
  qed
  have two: "walk D (path_text ps) es ?s2 = Inr s' \<longleftrightarrow>
      room_for (visited ps es) (?s2\<lparr>sv_retained := sv_retained t - 1 - int (length es)\<rparr>) \<and>
      s' = surveyed D (visited ps es) (?s2\<lparr>sv_retained := sv_retained t - 1 - int (length es)\<rparr>)"
    if "room_for (visited (ps @ [n]) ?inner) ?s1"
    using "2.IH"(2) [OF "2.prems"(1) clean(3), of ?s2 s'] "2.prems"(3,4) that
    by (simp add: bounded_survey_def room_for_def)
  have retained: "1 \<le> sv_retained t" using "2.prems"(4) by simp
  have same: "surveyed D (visited ps es) (?s2\<lparr>sv_retained := sv_retained t - 1 - int (length es)\<rparr>) =
      surveyed D (visited ps ((n, e) # es)) (t\<lparr>sv_retained := sv_retained t - int (length ((n, e) # es))\<rparr>)"
    by (simp add: surveyed_def algebra_simps)
  have room: "room_for (visited ps ((n, e) # es)) (t\<lparr>sv_retained := sv_retained t - int (length ((n, e) # es))\<rparr>) \<longleftrightarrow>
      entry_fits e \<and> sv_total t + entry_size e \<le> max_total_bytes \<and> room_for (visited (ps @ [n]) ?inner) ?s1 \<and>
      room_for (visited ps es) (?s2\<lparr>sv_retained := sv_retained t - 1 - int (length es)\<rparr>)"
    using sizes "2.prems"(4) by (auto simp: room_for_def)
  show ?case
    unfolding walk_Cons [OF clean(1) retained "2.prems"(3)] room same [symmetric] by (metis one two)
qed

section \<open>The inventory is exact\<close>

text \<open>The inventory of a list of entries with their paths.\<close>

definition inventory_of_nodes :: "digests \<Rightarrow> (string list \<times> sandbox_entry) list \<Rightarrow> pydict" where
  "inventory_of_nodes D ns = inventory_dict D (map (entry_of D) ns) (sizes ns)"

lemma path_of_entry_of [simp]: "path_of_entry (entry_of D x) = path_text (fst x)"
  by (cases "snd x") (simp_all add: entry_of_def path_of_entry_def directory_entry_def file_entry_def)

lemma path_text_inj_nodes:
  assumes "well_named [] es"
  shows "inj_on (\<lambda>x. path_text (fst x)) (set (nodes [] es))"
proof (rule inj_onI)
  fix x y
  assume xy: "x \<in> set (nodes [] es)" "y \<in> set (nodes [] es)" "path_text (fst x) = path_text (fst y)"
  then have "fst x = fst y"
    using nodes_clean [OF assms, of x] nodes_clean [OF assms, of y] path_text_inj by auto
  with xy nodes_distinct [OF assms] show "x = y" by (auto simp: distinct_map dest: inj_onD)
qed

lemma entries_inj:
  assumes "well_named [] es"
  shows "inj_on path_of_entry (entry_of D ` set (nodes [] es))"
  using path_text_inj_nodes [OF assms] by (auto simp: inj_on_def)

lemma inventory_of_nodes_cong:
  assumes "well_named [] es" and "mset ns = mset (nodes [] es)"
  shows "inventory_of_nodes D ns = inventory_of_nodes D (nodes [] es)"
proof -
  have ms: "mset (map (entry_of D) ns) = mset (map (entry_of D) (nodes [] es))" using assms(2) by simp
  have "set ns = set (nodes [] es)" using assms(2) by (rule mset_eq_setD)
  then have "inj_on path_of_entry (set (map (entry_of D) ns))" using entries_inj [OF assms(1)] by simp
  then have "sort_key path_of_entry (map (entry_of D) ns) = sort_key path_of_entry (map (entry_of D) (nodes [] es))"
    using ms by (intro sort_key_inj_key_eq) simp_all
  moreover have "sizes ns = sizes (nodes [] es)"
    using assms(2) by (simp add: sizes_def) (metis mset_map sum_mset_sum_list)
  moreover have "length (filter p (map (entry_of D) ns)) = length (filter p (map (entry_of D) (nodes [] es)))" for p
    using ms by (metis mset_filter size_mset)
  ultimately show ?thesis by (simp add: inventory_of_nodes_def inventory_dict_def Let_def)
qed

lemma inventory_iff:
  assumes "well_named [] es"
  shows "inventory_sandbox D (Some (Folder es)) = Inr found \<longleftrightarrow>
    int (length (nodes [] es)) \<le> max_entries \<and> list_all (entry_fits \<circ> snd) (nodes [] es) \<and>
    sizes (nodes [] es) \<le> max_total_bytes \<and> found = inventory_of_nodes D (nodes [] es)"
proof -
  let ?s = "\<lparr>sv_entries = [], sv_total = 0, sv_retained = 0\<rparr>" and ?ns = "visited [] (sort_key fst es)"
  have ms: "mset ?ns = mset (nodes [] es)" by (simp add: visited_nodes nodes_sorted)
  then have set: "set ?ns = set (nodes [] es)" and len: "length ?ns = length (nodes [] es)"
    by (auto dest: mset_eq_setD mset_eq_length)
  have clean: "list_all (\<lambda>x. list_all clean_name (fst x)) ?ns"
    using nodes_clean [OF assms] by (simp add: list_all_iff set)
  have s: "bounded_survey ?s" by (simp add: bounded_survey_def max_entries_def max_total_bytes_def)
  have "visit D [] es ?s = Inr s' \<longleftrightarrow> room_for ?ns ?s \<and> s' = surveyed D ?ns ?s" for s'
  proof -
    have "int (length es) \<le> int (length ?ns)" using length_visited [of "sort_key fst es" "[]"] by simp
    then show ?thesis
      using walk_exact [of "[]" "sort_key fst es" "?s\<lparr>sv_retained := int (length es)\<rparr>" D s'] clean
      unfolding visit_Inr [OF s] by (auto simp: bounded_survey_def room_for_def max_total_bytes_def)
  qed
  note run = this this [of "surveyed D ?ns ?s"]
  have "inventory_sandbox D (Some (Folder es)) = Inr found \<longleftrightarrow>
      room_for ?ns ?s \<and> found = inventory_of_nodes D ?ns"
  proof (cases "room_for ?ns ?s")
    case True
    with run(2) have "visit D [] es ?s = Inr (surveyed D ?ns ?s)" by simp
    with True show ?thesis by (auto simp: inventory_sandbox_def inventory_of_nodes_def)
  next
    case False
    with run(1) have "\<exists>e. visit D [] es ?s = Inl e" by (cases "visit D [] es ?s") auto
    with False show ?thesis by (auto simp: inventory_sandbox_def)
  qed
  moreover have "room_for ?ns ?s \<longleftrightarrow> int (length (nodes [] es)) \<le> max_entries \<and>
      list_all (entry_fits \<circ> snd) (nodes [] es) \<and> sizes (nodes [] es) \<le> max_total_bytes"
  proof -
    have "sizes ?ns = sizes (nodes [] es)"
      using ms by (simp add: sizes_def) (metis mset_map sum_mset_sum_list)
    then show ?thesis by (simp add: room_for_def len list_all_iff set)
  qed
  ultimately show ?thesis using inventory_of_nodes_cong [OF assms ms] by auto
qed

text \<open>The inventory as its readers understand it, written out.\<close>

definition entry_spec :: "digests \<Rightarrow> string list \<times> sandbox_entry \<Rightarrow> pyval" where
  "entry_spec D x = PDict ((''path'', PStr (path_text (fst x))) #
     (case snd x of
        Plain content \<Rightarrow>
          [(''type'', PStr ''regular_file''), (''size_bytes'', PInt (int (length content))),
           (''sha256'', PStr (hex_sha256 D content))]
      | _ \<Rightarrow> [(''type'', PStr ''directory'')]))"

definition inventory_spec :: "digests \<Rightarrow> (string list \<times> sandbox_entry) list \<Rightarrow> pydict" where
  "inventory_spec D ns =
     (let entries = PList (map (entry_spec D) (sort_key (\<lambda>x. path_text (fst x)) ns)) in
      [(''version'', PInt 1), (''entries'', entries), (''entry_count'', PInt (int (length ns))),
       (''file_count'', PInt (int (length (filter (\<lambda>x. \<exists>content. snd x = Plain content) ns)))),
       (''total_bytes'', PInt (sizes ns)),
       (''inventory_sha256'',
         PStr (hex_sha256 D (ascii_canonical (float_text D) (PDict [(''entries'', entries)]))))])"

lemma entry_spec_of: "PDict (entry_of D x) = entry_spec D x"
  by (cases "snd x") (simp_all add: entry_spec_def entry_of_def directory_entry_def file_entry_def)

lemma inventory_of_nodes_spec: "inventory_of_nodes D ns = inventory_spec D ns"
proof -
  have "dget (entry_of D x) ''type'' = PStr ''regular_file'' \<longleftrightarrow> (\<exists>content. snd x = Plain content)" for x
    by (cases "snd x") (simp_all add: entry_of_def directory_entry_def file_entry_def)
  then have files: "length (filter (\<lambda>entry. dget entry ''type'' = PStr ''regular_file'') (map (entry_of D) ns)) =
      length (filter (\<lambda>x. \<exists>content. snd x = Plain content) ns)"
    by (simp add: filter_map comp_def)
  have entries: "map PDict (sort_key path_of_entry (map (entry_of D) ns)) =
      map (entry_spec D) (sort_key (\<lambda>x. path_text (fst x)) ns)"
    by (simp add: sort_key_map comp_def entry_spec_of)
  show ?thesis
    unfolding inventory_of_nodes_def inventory_dict_def inventory_spec_def sandbox_json_sha256_def Let_def files entries
    by simp
qed

text \<open>
  C35: The inventory of a sandbox is exact. For every directory tree a file system can hold whose
  names are UTF-8, \<open>inventory_sandbox\<close> returns exactly if there are at most 4096 entries, every one
  a directory that can be listed or a regular file of at most 64 MiB that can be read, with at most
  256 MiB in all; and what it returns are the sorted paths of all entries, with the size and digest
  of each file, the totals, and the digest of the entries as JSON in ASCII. The order in which
  directories are scanned makes no difference.
\<close>
theorem inventory_exact:
  assumes "well_named [] es"
  shows "inventory_sandbox D (Some (Folder es)) = Inr found \<longleftrightarrow>
    int (length (nodes [] es)) \<le> 4096 \<and>
    (\<forall>x \<in> set (nodes [] es). (\<exists>sub. snd x = Folder sub) \<or>
       (\<exists>content. snd x = Plain content \<and> int (length content) \<le> 64 * 1024 * 1024)) \<and>
    sizes (nodes [] es) \<le> 256 * 1024 * 1024 \<and> found = inventory_spec D (nodes [] es)"
proof -
  have "entry_fits e \<longleftrightarrow> (\<exists>sub. e = Folder sub) \<or>
      (\<exists>content. e = Plain content \<and> int (length content) \<le> 64 * 1024 * 1024)" for e
    by (cases e) (simp_all add: entry_fits_def max_file_bytes_def)
  then show ?thesis
    using inventory_iff [OF assms, of D found]
    unfolding inventory_of_nodes_spec max_entries_def max_total_bytes_def list_all_iff comp_def by simp
qed

section \<open>The validator and the inventory\<close>

text \<open>Canonical JSON does not depend on the order of keys.\<close>

lemma canonical_pairs_map: "canonical_pairs ft d = map (map_prod id (canonical_json ft)) d"
  by (induction d) auto

lemma canonical_pairs_sort: "canonical_pairs ft (sort_key fst d) = sort_key fst (canonical_pairs ft d)"
  by (simp add: canonical_pairs_map sort_key_map comp_def)

lemma canonical_sorted:
  "canonical_json ft (json_sorted v) = canonical_json ft v"
  "canonical_items ft (sorted_items xs) = canonical_items ft xs"
  "canonical_pairs ft (sorted_pairs d) = canonical_pairs ft d"
proof (induction v and xs and d rule: json_sorted_sorted_items_sorted_pairs.induct)
  case (2 d)
  then show ?case by (simp add: canonical_pairs_sort sort_key_sorted)
qed simp_all

lemma canonical_items_map: "canonical_items ft xs = map (canonical_json ft) xs"
  by (induction xs) auto

text \<open>
  The two renderings of a value agree exactly where its strings have neither DEL nor a character
  beyond ASCII: one escapes those, the other keeps them.
\<close>

definition below_del :: "string \<Rightarrow> bool" where
  "below_del s \<longleftrightarrow> (\<forall>c \<in> set s. (of_char c :: nat) < 127)"

fun below_del_value :: "pyval \<Rightarrow> bool" where
  "below_del_value (PStr s) = below_del s"
| "below_del_value (PList xs) = (\<forall>x \<in> set xs. below_del_value x)"
| "below_del_value (PDict d) = (\<forall>(k, v) \<in> set d. below_del k \<and> below_del_value v)"
| "below_del_value _ = True"

fun floatless :: "pyval \<Rightarrow> bool" where
  "floatless (PFloat q) = False"
| "floatless (PList xs) = (\<forall>x \<in> set xs. floatless x)"
| "floatless (PDict d) = (\<forall>(k, v) \<in> set d. floatless v)"
| "floatless _ = True"

lemma below_del_simps [simp]:
  "below_del []" "below_del (c # s) \<longleftrightarrow> (of_char c :: nat) < 127 \<and> below_del s"
  "below_del (s @ t) \<longleftrightarrow> below_del s \<and> below_del t" "below_del (concat ss) \<longleftrightarrow> (\<forall>s \<in> set ss. below_del s)"
  by (auto simp: below_del_def)

lemma below_del_join: "below_del sep \<Longrightarrow> below_del (join sep ss) \<longleftrightarrow> (\<forall>s \<in> set ss. below_del s)"
  by (induction sep ss rule: join.induct) auto

lemma below_del_digits: "(of_char (hex_digit n) :: nat) < 127" "(of_char (digit n) :: nat) < 127"
proof -
  have "hex_digit n \<in> set ''0123456789abcdef''" "digit n \<in> set ''0123456789''"
    unfolding hex_digit_def digit.simps by (intro nth_mem; simp)+
  then show "(of_char (hex_digit n) :: nat) < 127" "(of_char (digit n) :: nat) < 127" by auto
qed

lemma below_del_nat_str: "below_del (nat_str n)"
  by (induction n rule: nat_str.induct) (subst nat_str.simps, simp add: below_del_digits(2) del: digit.simps)

lemma below_del_int_str: "below_del (int_str i)"
  by (simp add: int_str_def below_del_nat_str)

lemma below_del_json_char: "below_del (json_char c) \<longleftrightarrow> (of_char c :: nat) < 127"
  by (auto simp: json_char_def Let_def below_del_digits(1))

lemma below_del_json_string: "below_del (json_string s) \<longleftrightarrow> below_del s"
  by (simp add: json_string_def Let_def below_del_json_char) (simp add: below_del_def)

lemma below_del_ascii_json: "below_del (ascii_json s)"
proof (induction s rule: ascii_json.induct)
  case (2 a s)
  have escape: "below_del (code_point_escape n)" for n
    by (simp add: code_point_escape_def u_escape_def below_del_digits(1))
  from 2 show ?case
    by (simp add: Let_def escape u_escape_def below_del_digits(1) below_del_json_char split: list.splits)
qed simp

lemma ascii_json_below: "below_del s \<Longrightarrow> ascii_json s = concat (map json_char s)"
  by (induction s) (simp_all add: Let_def)

lemma ascii_maps:
  "ascii_items ft xs = map (ascii_canonical ft) xs" "ascii_pairs ft d = map (map_prod id (ascii_canonical ft)) d"
  by (induction xs, simp_all) (induction d, auto)

lemma ascii_canonical_below: "floatless v \<Longrightarrow> below_del (ascii_canonical ft v)"
proof (induction v)
  case (PDict d)
  have "below_del (ascii_canonical ft v)" if "(k, v) \<in> set d" for k v
    using that PDict by (fastforce simp: snds.simps)
  then show ?case
    by (auto simp: below_del_join ascii_maps ascii_string_def Let_def below_del_ascii_json)
qed (simp_all add: below_del_int_str below_del_join ascii_maps ascii_string_def Let_def below_del_ascii_json)

lemma canonical_below: "below_del (canonical_json ft v) \<Longrightarrow> below_del_value v"
proof (induction v)
  case (PDict d)
  have parts: "below_del (json_string k)" "below_del (canonical_json ft v)" if "(k, v) \<in> set d" for k v
  proof -
    have "(k, canonical_json ft v) \<in> set (sort_key fst (canonical_pairs ft d))"
      using that by (force simp: canonical_pairs_map)
    then show "below_del (json_string k)" "below_del (canonical_json ft v)"
      using PDict.prems by (auto simp: below_del_join dest!: bspec)
  qed
  then show ?case using PDict.IH by (fastforce simp: snds.simps below_del_json_string)
qed (auto simp: below_del_json_string below_del_join canonical_items_map)

lemma ascii_canonical_same: "below_del_value v \<Longrightarrow> ascii_canonical ft v = canonical_json ft v"
proof (induction v)
  case (PStr s)
  then show ?case by (simp add: ascii_string_def json_string_def Let_def ascii_json_below)
next
  case (PList xs)
  then have "map (ascii_canonical ft) xs = map (canonical_json ft) xs" by simp
  then show ?case by (simp only: ascii_canonical.simps canonical_json.simps ascii_maps canonical_items_map)
next
  case (PDict d)
  have "map (map_prod id (ascii_canonical ft)) d = map (map_prod id (canonical_json ft)) d"
    using PDict by (auto simp: snds.simps)
  then have pairs: "ascii_pairs ft d = canonical_pairs ft d" by (simp only: ascii_maps canonical_pairs_map)
  have "map (\<lambda>(k, t). ascii_string k @ '':'' @ t) (sort_key fst (canonical_pairs ft d)) =
      map (\<lambda>(k, t). json_string k @ '':'' @ t) (sort_key fst (canonical_pairs ft d))"
    using PDict.prems
    by (auto simp: ascii_string_def json_string_def Let_def ascii_json_below canonical_pairs_map)
  then show ?case unfolding ascii_canonical.simps canonical_json.simps pairs by (simp only:)
qed simp_all

lemma renderings_agree:
  "floatless v \<Longrightarrow> ascii_canonical ft v = canonical_json ft v \<longleftrightarrow> below_del_value v"
  using ascii_canonical_same canonical_below ascii_canonical_below by metis

text \<open>An entry as the validator reads it back.\<close>

definition read_entry :: "digests \<Rightarrow> string list \<times> sandbox_entry \<Rightarrow> pydict" where
  "read_entry D x = sort_key fst (sorted_pairs (entry_of D x))"

definition is_file :: "sandbox_entry \<Rightarrow> bool" where
  "is_file e \<longleftrightarrow> (case e of Plain _ \<Rightarrow> True | _ \<Rightarrow> False)"

lemma entry_keys: "distinct (map fst (entry_of D x))"
  by (cases "snd x") (simp_all add: entry_of_def directory_entry_def file_entry_def)

lemma dget_read_entry: "dget (read_entry D x) k = json_sorted (dget (entry_of D x) k)"
  by (simp add: read_entry_def dget_sorted entry_keys)

lemma key_set_read_entry: "key_set (read_entry D x) ks \<longleftrightarrow> key_set (entry_of D x) ks"
  by (simp add: read_entry_def key_set_def keys_sorted del: set_map)

lemma entry_facts:
  "dget (entry_of D x) ''path'' = PStr (path_text (fst x))"
  "dget (entry_of D x) ''type'' = PStr (if is_file (snd x) then ''regular_file'' else ''directory'')"
  "\<not> is_file (snd x) \<Longrightarrow> key_set (entry_of D x) [''path'', ''type'']"
  "snd x = Plain content \<Longrightarrow> dget (entry_of D x) ''size_bytes'' = PInt (int (length content)) \<and>
     dget (entry_of D x) ''sha256'' = PStr (hex_sha256 D content) \<and>
     key_set (entry_of D x) [''path'', ''type'', ''size_bytes'', ''sha256'']"
  by (cases "snd x"; simp add: entry_of_def directory_entry_def file_entry_def is_file_def key_set_def)+

definition plain_path :: "string list \<times> sandbox_entry \<Rightarrow> bool" where
  "plain_path x \<longleftrightarrow> char_of (92::nat) \<notin> set (path_text (fst x))"

lemma scan_entry_of:
  assumes "hex_digests D" and "entry_fits (snd x)" and "list_all clean_name (fst x)" and "fst x \<noteq> []"
  shows "scan_issues (scan_entry acc (i, PDict (read_entry D x))) = [] \<longleftrightarrow> scan_issues acc = [] \<and> plain_path x"
    and "plain_path x \<Longrightarrow> scan_entry acc (i, PDict (read_entry D x)) =
      acc\<lparr>scan_paths := scan_paths acc @ [path_text (fst x)], scan_bytes := scan_bytes acc + entry_size (snd x),
        scan_files := scan_files acc + (if is_file (snd x) then 1 else 0)\<rparr>"
proof -
  have safe: "safe_inventory_path (PStr (path_text (fst x))) \<longleftrightarrow> plain_path x"
    using assms(3,4) by (simp add: safe_inventory_text plain_path_def)
  have size: "file_entry_size (read_entry D x) = Some (entry_size (snd x))" if regular: "is_file (snd x)"
  proof -
    obtain content where e: "snd x = Plain content" using regular by (cases "snd x") (auto simp: is_file_def)
    have "int (length content) \<le> max_inventory_file_bytes"
      using assms(2) e by (simp add: entry_fits_def max_file_bytes_def max_inventory_file_bytes_def)
    then show ?thesis
      using entry_facts(4) [OF e] assms(1)
      by (simp add: file_entry_size_def dget_read_entry key_set_read_entry hex_digests_def entry_size_def e)
  qed
  have none: "entry_size (snd x) = 0" if "\<not> is_file (snd x)"
    using that by (cases "snd x") (simp_all add: is_file_def entry_size_def)
  show "scan_issues (scan_entry acc (i, PDict (read_entry D x))) = [] \<longleftrightarrow> scan_issues acc = [] \<and> plain_path x"
    by (cases "is_file (snd x)")
      (simp_all add: scan_entry_def Let_def dget_read_entry key_set_read_entry entry_facts(1,2) entry_facts(3) safe size)
  show "plain_path x \<Longrightarrow> scan_entry acc (i, PDict (read_entry D x)) =
      acc\<lparr>scan_paths := scan_paths acc @ [path_text (fst x)], scan_bytes := scan_bytes acc + entry_size (snd x),
        scan_files := scan_files acc + (if is_file (snd x) then 1 else 0)\<rparr>"
    by (cases "is_file (snd x)")
      (simp_all add: scan_entry_def Let_def dget_read_entry key_set_read_entry entry_facts(1,2) entry_facts(3) safe size none)
qed

lemma scan_nodes:
  assumes "hex_digests D"
    and "list_all (\<lambda>x. entry_fits (snd x) \<and> list_all clean_name (fst x) \<and> fst x \<noteq> []) ns"
  shows "scan_issues (foldl scan_entry acc (enumerate k (map (PDict \<circ> read_entry D) ns))) = [] \<longleftrightarrow>
      scan_issues acc = [] \<and> list_all plain_path ns"
    and "list_all plain_path ns \<Longrightarrow> foldl scan_entry acc (enumerate k (map (PDict \<circ> read_entry D) ns)) =
      acc\<lparr>scan_paths := scan_paths acc @ map (path_text \<circ> fst) ns, scan_bytes := scan_bytes acc + sizes ns,
        scan_files := scan_files acc + length (filter (is_file \<circ> snd) ns)\<rparr>"
  using assms(2)
proof (induction ns arbitrary: acc k)
  case (Cons x ns)
  { case 1 then show ?case using Cons.IH(1) scan_entry_of(1) [OF assms(1), of x] by simp }
  { case 2 then show ?case using Cons.IH(2) scan_entry_of(2) [OF assms(1), of x] by simp }
qed simp_all

lemma entry_path_type:
  "sort_key path_of_entry (map (entry_of D) ns) = map (entry_of D) (sort_key (path_text \<circ> fst) ns)"
  by (simp add: sort_key_map comp_def)

text \<open>The parsed inventory.\<close>

lemma read_inventory:
  assumes "json_sorted (PDict (inventory_of_nodes D ns)) = PDict p"
  defines "entries \<equiv> map (PDict \<circ> read_entry D) (sort_key (path_text \<circ> fst) ns)"
  shows "dget p ''version'' = PInt 1" "dget p ''entries'' = PList entries" "dget p ''entry_count'' = PInt (int (length ns))"
    "dget p ''file_count'' = PInt (int (length (filter (is_file \<circ> snd) ns)))" "dget p ''total_bytes'' = PInt (sizes ns)"
    "dget p ''inventory_sha256'' = PStr (sandbox_json_sha256 D (PDict [(''entries'', dget (inventory_of_nodes D ns) ''entries'')]))"
    "canonical_json_sha256 D (PDict [(''entries'', PList entries)]) =
      canonical_json_sha256 D (PDict [(''entries'', dget (inventory_of_nodes D ns) ''entries'')])"
    "key_set p [''version'', ''entries'', ''entry_count'', ''file_count'', ''total_bytes'', ''inventory_sha256'']"
proof -
  let ?d = "inventory_of_nodes D ns" and ?es = "map (PDict \<circ> entry_of D) (sort_key (path_text \<circ> fst) ns)"
  have p: "p = sort_key fst (sorted_pairs ?d)" using assms(1) by simp
  have d: "distinct (map fst ?d)" by (simp add: inventory_of_nodes_def inventory_dict_def Let_def)
  note at = dget_sorted [OF d, folded p]
  have sorted: "map json_sorted ?es = entries" by (simp add: entries_def read_entry_def comp_def)
  have "canonical_items ft entries = canonical_items ft ?es" for ft
    by (simp only: sorted [symmetric] sorted_items_map [symmetric] canonical_sorted)
  moreover have es: "dget (inventory_of_nodes D ns) ''entries'' = PList ?es"
    by (simp add: inventory_of_nodes_def inventory_dict_def Let_def entry_path_type)
  ultimately show "canonical_json_sha256 D (PDict [(''entries'', PList entries)]) =
      canonical_json_sha256 D (PDict [(''entries'', dget (inventory_of_nodes D ns) ''entries'')])"
    by (simp add: canonical_json_sha256_def)
  have files: "filter (\<lambda>entry. dget entry ''type'' = PStr ''regular_file'') (map (entry_of D) ns) =
      map (entry_of D) (filter (is_file \<circ> snd) ns)"
    by (simp add: filter_map comp_def entry_facts(2))
  show "dget p ''version'' = PInt 1" "dget p ''entry_count'' = PInt (int (length ns))"
    "dget p ''file_count'' = PInt (int (length (filter (is_file \<circ> snd) ns)))" "dget p ''total_bytes'' = PInt (sizes ns)"
    by (simp_all add: at inventory_of_nodes_def inventory_dict_def Let_def files)
  show "dget p ''entries'' = PList entries"
    by (simp add: at inventory_of_nodes_def inventory_dict_def Let_def sorted_items_map sorted [symmetric] entry_path_type
        del: json_sorted.simps(2))
  show "dget p ''inventory_sha256'' = PStr (sandbox_json_sha256 D (PDict [(''entries'', dget (inventory_of_nodes D ns) ''entries'')]))"
    by (simp add: at inventory_of_nodes_def inventory_dict_def Let_def)
  show "key_set p [''version'', ''entries'', ''entry_count'', ''file_count'', ''total_bytes'', ''inventory_sha256'']"
    unfolding p key_set_def keys_sorted by (simp add: inventory_of_nodes_def inventory_dict_def Let_def)
qed

lemma entries_below_del:
  fixes ns :: "(string list \<times> sandbox_entry) list"
  assumes "hex_digests D"
  defines "E \<equiv> PDict [(''entries'', dget (inventory_of_nodes D ns) ''entries'')]"
  shows "floatless E" and "below_del_value E \<longleftrightarrow> (\<forall>x \<in> set ns. below_del (path_text (fst x)))"
proof -
  have E: "E = PDict [(''entries'', PList (map (PDict \<circ> entry_of D) (sort_key (path_text \<circ> fst) ns)))]"
    by (simp add: E_def inventory_of_nodes_def inventory_dict_def Let_def entry_path_type)
  have "below_del (hex_sha256 D content)" for content
  proof -
    have "list_all (\<lambda>c. c \<in> set ''0123456789abcdef'') (hex_sha256 D content)"
      using assms(1) by (simp add: hex_digests_def hex_text_def)
    then show ?thesis by (auto simp: below_del_def list_all_iff dest!: bspec)
  qed
  then have "below_del_value (PDict (entry_of D x)) \<longleftrightarrow> below_del (path_text (fst x))" "floatless (PDict (entry_of D x))" for x
    by (cases "snd x"; simp add: entry_of_def directory_entry_def file_entry_def)+
  then show "floatless E" "below_del_value E \<longleftrightarrow> (\<forall>x \<in> set ns. below_del (path_text (fst x)))"
    unfolding E by simp_all
qed

text \<open>
  C36: The validator and the sandbox agree on inventories except for some characters. The inventory
  of any directory tree, published by the builder and read back from its canonical JSON, passes the
  validator's check of its content exactly if no name in the tree contains a backslash, which the
  sandbox accepts and the validator does not, and the digest of the entries in the sandbox's
  rendering, which escapes everything beyond ASCII, is that of the validator's, which does not; and
  the two renderings are the same text only if no name has DEL or a character beyond ASCII.
\<close>
theorem inventory_accepted:
  assumes "hex_digests (h_digests H)" and "the_digests W = h_digests H" and "well_named [] es"
    and "inventory_sandbox (h_digests H) (Some (Folder es)) = Inr listing"
    and "payload = canonical_json (float_text (h_digests H)) (PDict listing) @ [char_of (10::nat)]"
    and "E = PDict [(''entries'', dget listing ''entries'')]"
  shows "(inventory_content_issues W (inventory_metadata H listing name payload) payload (json_sorted (PDict listing)) = [] \<longleftrightarrow>
      (\<forall>x \<in> set (nodes [] es). char_of (92::nat) \<notin> set (path_text (fst x))) \<and>
      hex_sha256 W (ascii_canonical (float_text W) E) = hex_sha256 W (canonical_json (float_text W) E)) \<and>
    (ascii_canonical (float_text W) E = canonical_json (float_text W) E \<longleftrightarrow>
      (\<forall>x \<in> set (nodes [] es). \<forall>c \<in> set (path_text (fst x)). (of_char c :: nat) < 127))"
proof -
  let ?D = "h_digests H" and ?ns = "nodes [] es"
  let ?ms = "sort_key (path_text \<circ> fst) ?ns"
  have listing: "int (length ?ns) \<le> max_entries" "list_all (entry_fits \<circ> snd) ?ns" "sizes ?ns \<le> max_total_bytes"
    "listing = inventory_of_nodes ?D ?ns"
    using assms(4) unfolding inventory_iff [OF assms(3)] by auto
  obtain p where p: "json_sorted (PDict listing) = PDict p" by simp
  note read = read_inventory [OF p [unfolded listing(4)]]
  let ?entries = "map (PDict \<circ> read_entry ?D) ?ms"
  have each: "list_all (\<lambda>x. entry_fits (snd x) \<and> list_all clean_name (fst x) \<and> fst x \<noteq> []) ?ms"
    using listing(2) nodes_clean [OF assms(3)] by (force simp: list_all_iff)
  note scan = scan_nodes [OF assms(1) each, of "\<lparr>scan_issues = [], scan_paths = [], scan_bytes = 0, scan_files = 0\<rparr>" 0]
  have "inj_on (path_text \<circ> fst) (set ?ns)" using path_text_inj_nodes [OF assms(3)] by (simp add: comp_def)
  moreover have "distinct ?ns" using nodes_distinct [OF assms(3)] by (simp add: distinct_map)
  ultimately have paths: "sorted (map (path_text \<circ> fst) ?ms)" "distinct (map (path_text \<circ> fst) ?ms)"
    by (simp_all add: distinct_map)
  have "sizes ?ms = sizes ?ns" by (simp add: sizes_def) (metis mset_map mset_sort sum_mset_sum_list)
  moreover have "length (filter (is_file \<circ> snd) ?ms) = length (filter (is_file \<circ> snd) ?ns)"
    by (metis mset_filter mset_sort size_mset)
  ultimately have scanned: "scan_inventory ?entries = \<lparr>scan_issues = [], scan_paths = map (path_text \<circ> fst) ?ms,
      scan_bytes = sizes ?ns, scan_files = length (filter (is_file \<circ> snd) ?ns)\<rparr>" if "list_all plain_path ?ms"
    using scan(2) [OF that] by (simp add: scan_inventory_def)
  have meta: "dget (inventory_metadata H listing name payload) k = dget p k"
    if "k \<in> {''entry_count'', ''file_count'', ''total_bytes'', ''inventory_sha256''}" for k
  proof -
    have "distinct (map fst listing)" by (simp add: listing(4) inventory_of_nodes_def inventory_dict_def Let_def)
    then have "dget p k = json_sorted (dget listing k)" using dget_sorted [of listing k] p by simp
    with that show ?thesis
      by (auto simp: inventory_metadata_def listing(4) inventory_of_nodes_def inventory_dict_def Let_def)
  qed
  have digest: "hex_sha256 W = hex_sha256 (h_digests H)"
    using assms(2) by (metis digests.select_convs(1) the_digests_def)
  have own: "dget (inventory_metadata H listing name payload) ''size_bytes'' = PInt (int (length payload))"
    "dget (inventory_metadata H listing name payload) ''sha256'' = PStr (hex_sha256 W payload)"
    by (simp_all add: inventory_metadata_def digest)
  have E: "E = PDict [(''entries'', dget (inventory_of_nodes ?D ?ns) ''entries'')]"
    by (simp only: assms(6) listing(4))
  have same: "sandbox_json_sha256 ?D E = canonical_json_sha256 ?D E \<longleftrightarrow>
      hex_sha256 W (ascii_canonical (float_text W) E) = hex_sha256 W (canonical_json (float_text W) E)"
  proof -
    have "float_text W = float_text ?D" using assms(2) by (metis digests.select_convs(2) the_digests_def)
    with digest show ?thesis by (simp add: sandbox_json_sha256_def canonical_json_sha256_def)
  qed
  have "inventory_content_issues W (inventory_metadata H listing name payload) payload (PDict p) = [] \<longleftrightarrow>
      list_all plain_path ?ms \<and> sandbox_json_sha256 ?D E = canonical_json_sha256 ?D E"
  proof (cases "list_all plain_path ?ms")
    case True
    have "\<not> max_inventory_entries < length ?ns" "\<not> max_inventory_total_bytes < sizes ?ns"
      using listing(1,3) by (simp_all add: max_entries_def max_inventory_entries_def max_total_bytes_def max_inventory_total_bytes_def)
    then show ?thesis
      using True paths by (simp add: inventory_content_issues_def inventory_entry_issues_def Let_def read own meta scanned [OF True]
          assms(2) sorted_sort_id E [symmetric] eq_commute [of "canonical_json_sha256 ?D E"])
  next
    case False
    then have "scan_issues (scan_inventory ?entries) \<noteq> []" using scan(1) by (simp add: scan_inventory_def)
    with False show ?thesis by (simp add: inventory_content_issues_def inventory_entry_issues_def Let_def read own)
  qed
  moreover have "ascii_canonical (float_text W) E = canonical_json (float_text W) E \<longleftrightarrow>
      (\<forall>x \<in> set ?ns. below_del (path_text (fst x)))"
    using renderings_agree entries_below_del [OF assms(1), of ?ns] unfolding E by metis
  ultimately show ?thesis
    unfolding p same by (simp add: list_all_iff plain_path_def below_del_def)
qed

section \<open>Emptying a process group\<close>

text \<open>A process that a kill ends within the grace period, and a group the parent may signal and reap.\<close>

definition killable :: "process \<Rightarrow> bool" where
  "killable p \<longleftrightarrow> (case po_on_kill p of Some delay \<Rightarrow> delay \<le> process_group_grace | None \<Rightarrow> False)"

definition tame :: "group \<Rightarrow> bool" where
  "tame g \<longleftrightarrow> \<not> gr_denied g \<and> \<not> gr_unpolled g \<and> \<not> gr_unreaped g \<and> killable (gr_leader g) \<and> list_all killable (gr_others g)"

definition dead_by :: "rat \<Rightarrow> group \<Rightarrow> bool" where
  "dead_by t g \<longleftrightarrow> gone t (gr_leader g) \<and> list_all (gone t) (gr_others g)"

lemma gone_mono: "gone t p \<Longrightarrow> t \<le> t' \<Longrightarrow> gone t' p"
  by (auto simp: gone_def split: option.splits)

lemma hit_keeps [simp]: "killable (hit n t p) \<longleftrightarrow> killable p"
  by (auto simp: hit_def killable_def split: option.splits)

lemma hit_kills: "killable p \<Longrightarrow> gone (t + process_group_grace) (hit 9 t p)"
  by (auto simp: hit_def killable_def gone_def process_group_grace_def split: option.splits)

lemma tame_clock [simp]: "tame (g\<lparr>gr_clock := t\<rparr>) \<longleftrightarrow> tame g" "tame (g\<lparr>gr_reaped := r\<rparr>) \<longleftrightarrow> tame g"
  by (simp_all add: tame_def)

lemma signal_tame:
  assumes "tame g"
  obtains g' where "signal_process_group n g = (Inr (), g')" "tame g'" "gr_clock g' = gr_clock g" "gr_reaped g' = gr_reaped g"
    "n = 9 \<Longrightarrow> members_left g \<Longrightarrow> dead_by (gr_clock g + process_group_grace) g'"
proof (cases "members_left g")
  case True
  let ?g = "g\<lparr>gr_leader := hit n (gr_clock g) (gr_leader g), gr_others := map (hit n (gr_clock g)) (gr_others g)\<rparr>"
  have "tame ?g" using assms by (simp add: tame_def list_all_iff)
  moreover have "dead_by (gr_clock g + process_group_grace) ?g" if "n = 9"
    using assms that hit_kills by (simp add: dead_by_def tame_def list_all_iff)
  moreover have "signal_process_group n g = (Inr (), ?g)" using True assms by (simp add: signal_process_group_def tame_def)
  ultimately show ?thesis by (intro that [of ?g]) simp_all
next
  case False
  then show ?thesis using assms by (intro that [of g]) (simp_all add: signal_process_group_def)
qed

text \<open>
  What the escalation relies on: a wait tells the truth when it says that it is over, is over at its
  deadline when every member is dead by then, and does not last longer than that by more than one
  look.
\<close>

locale waiting =
  fixes wait :: "rat \<Rightarrow> group \<Rightarrow> (py_exc + bool) \<times> group"
    and over :: "group \<Rightarrow> bool"
    and ready :: "bool \<Rightarrow> bool"
  assumes truthful: "wait t g = (Inr True, g') \<Longrightarrow> over g'"
    and honest: "tame g \<Longrightarrow> ready (gr_reaped g) \<Longrightarrow> \<exists>b g'. wait process_group_grace g = (Inr b, g') \<and> tame g' \<and>
      gr_clock g \<le> gr_clock g' \<and> gr_clock g' \<le> gr_clock g + process_group_grace + 1 / 50 \<and>
      (dead_by (gr_clock g + process_group_grace) g \<longrightarrow> b) \<and> (\<not> b \<longrightarrow> members_left g' \<and> ready (gr_reaped g'))"
begin

lemma escalate_over: "fst (escalate wait message g) = Inr () \<Longrightarrow> over (snd (escalate wait message g))"
  by (auto simp: escalate_def dest: truthful split: prod.splits sum.splits bool.splits)

lemma escalate_ends:
  assumes "tame g" and "ready (gr_reaped g)"
  obtains g' where "escalate wait message g = (Inr (), g')" "over g'" "tame g'"
    "gr_clock g \<le> gr_clock g'" "gr_clock g' \<le> gr_clock g + 4 + 1 / 25"
proof -
  obtain g1 where g1: "signal_process_group 15 g = (Inr (), g1)" "tame g1" "gr_clock g1 = gr_clock g" "gr_reaped g1 = gr_reaped g"
    using signal_tame [OF assms(1)] by metis
  have "ready (gr_reaped g1)" using g1(4) assms(2) by simp
  then obtain b g2 where g2: "wait process_group_grace g1 = (Inr b, g2)" "tame g2" "gr_clock g1 \<le> gr_clock g2"
    "gr_clock g2 \<le> gr_clock g1 + process_group_grace + 1 / 50" "\<not> b \<longrightarrow> members_left g2 \<and> ready (gr_reaped g2)"
    using honest [OF g1(2)] by blast
  show ?thesis
  proof (cases b)
    case True
    with g1 g2 truthful show ?thesis
      by (intro that [of g2]) (auto simp: escalate_def process_group_grace_def)
  next
    case False
    obtain g3 where g3: "signal_process_group 9 g2 = (Inr (), g3)" "tame g3" "gr_clock g3 = gr_clock g2"
      "dead_by (gr_clock g2 + process_group_grace) g3" "gr_reaped g3 = gr_reaped g2"
      using signal_tame [OF g2(2), of 9] False g2(5) by metis
    have "ready (gr_reaped g3)" using g3(5) g2(5) False by simp
    then obtain b' g4 where g4: "wait process_group_grace g3 = (Inr b', g4)" "tame g4" "gr_clock g3 \<le> gr_clock g4"
      "gr_clock g4 \<le> gr_clock g3 + process_group_grace + 1 / 50" "b'"
      using honest [OF g3(2)] g3(3,4) by metis
    show ?thesis
      using g1 g2 False g3 g4 truthful [of process_group_grace g3 g4]
      by (intro that [of g4]) (auto simp: escalate_def process_group_grace_def)
  qed
qed

end

interpretation leader: waiting wait_for_leader_exit gr_reaped Not
proof
  show "gr_reaped g'" if "wait_for_leader_exit t g = (Inr True, g')" for t g g'
    using that by (auto simp: wait_for_leader_exit_def split: if_splits option.splits)
  show "\<exists>b g'. wait_for_leader_exit process_group_grace g = (Inr b, g') \<and> tame g' \<and>
      gr_clock g \<le> gr_clock g' \<and> gr_clock g' \<le> gr_clock g + process_group_grace + 1 / 50 \<and>
      (dead_by (gr_clock g + process_group_grace) g \<longrightarrow> b) \<and> (\<not> b \<longrightarrow> members_left g' \<and> \<not> gr_reaped g')" if "tame g" "\<not> gr_reaped g" for g
    using that
    by (auto simp: wait_for_leader_exit_def process_group_grace_def dead_by_def gone_def members_left_def tame_def
        split: option.splits)
qed

lemma await_exit_ends:
  assumes "\<not> gr_denied g"
  shows "\<exists>b c. await_exit deadline g = (Inr b, g\<lparr>gr_clock := c\<rparr>) \<and> gr_clock g \<le> c \<and>
    c \<le> max (gr_clock g) (deadline + 1 / 50) \<and> b = (\<not> members_left (g\<lparr>gr_clock := c\<rparr>)) \<and> (\<not> b \<longrightarrow> deadline \<le> c)"
  using assms
proof (induction deadline g rule: await_exit.induct)
  case (1 deadline g)
  show ?case
  proof (cases "members_left g \<and> gr_clock g < deadline")
    case True
    let ?g = "g\<lparr>gr_clock := gr_clock g + 1 / 50\<rparr>"
    have exists: "process_group_exists g = Inr True" using True "1.prems" by (simp add: process_group_exists_def)
    obtain b c where c: "await_exit deadline ?g = (Inr b, ?g\<lparr>gr_clock := c\<rparr>)" "gr_clock ?g \<le> c"
      "c \<le> max (gr_clock ?g) (deadline + 1 / 50)" "b = (\<not> members_left (?g\<lparr>gr_clock := c\<rparr>))" "\<not> b \<longrightarrow> deadline \<le> c"
      using "1.IH" [OF exists] True "1.prems" by fastforce
    then show ?thesis
      using True exists by (intro exI [of _ b] exI [of _ c]) (auto simp: await_exit.simps [of deadline g])
  next
    case False
    then show ?thesis
      using "1.prems" by (intro exI [of _ "\<not> members_left g"] exI [of _ "gr_clock g"])
        (auto simp: await_exit.simps [of deadline g] process_group_exists_def)
  qed
qed

lemma await_exit_True: "await_exit deadline g = (Inr True, g') \<Longrightarrow> \<not> members_left g'"
proof (induction deadline g rule: await_exit.induct)
  case (1 deadline g)
  then show ?case
    unfolding await_exit.simps [of deadline g]
    by (auto simp: process_group_exists_def split: if_splits)
qed

text \<open>The group is empty.\<close>

interpretation group: waiting wait_for_process_group_exit "\<lambda>g. \<not> members_left g" "\<lambda>reaped. reaped"
proof
  show "\<not> members_left g'" if "wait_for_process_group_exit t g = (Inr True, g')" for t g g'
    using that by (auto simp: wait_for_process_group_exit_def dest: await_exit_True)
  fix g
  assume g: "tame g" "gr_reaped g"
  let ?t = "gr_clock g + process_group_grace"
  obtain b c where c: "await_exit ?t g = (Inr b, g\<lparr>gr_clock := c\<rparr>)" "gr_clock g \<le> c"
    "c \<le> max (gr_clock g) (?t + 1 / 50)" "b = (\<not> members_left (g\<lparr>gr_clock := c\<rparr>))" "\<not> b \<longrightarrow> ?t \<le> c"
    using await_exit_ends [of g ?t] g by (auto simp: tame_def)
  have "c \<le> ?t + 1 / 50" using c(3) by (simp add: process_group_grace_def)
  moreover have "b" if "dead_by ?t g"
  proof (rule ccontr)
    assume "\<not> b"
    then have "?t \<le> c" "members_left (g\<lparr>gr_clock := c\<rparr>)" using c(4,5) by auto
    with that g(2) show False by (auto simp: dead_by_def members_left_def list_all_iff list_ex_iff dest: gone_mono)
  qed
  ultimately show "\<exists>b g'. wait_for_process_group_exit process_group_grace g = (Inr b, g') \<and> tame g' \<and>
      gr_clock g \<le> gr_clock g' \<and> gr_clock g' \<le> gr_clock g + process_group_grace + 1 / 50 \<and>
      (dead_by ?t g \<longrightarrow> b) \<and> (\<not> b \<longrightarrow> members_left g' \<and> gr_reaped g')"
    using c(1,2,4) g by (intro exI [of _ b] exI [of _ "g\<lparr>gr_clock := c\<rparr>"]) (simp add: wait_for_process_group_exit_def)
qed

text \<open>
  C37: A process group is emptied, and in bounded time. Whenever \<open>_quiesce_process_group\<close> returns, its
  leader is reaped and no member of the group is left. If the parent may inspect and signal the
  group and reap its leader, and every member dies at most two seconds after it was killed, whatever
  it does about the termination signal, then it does return, at most 8.08 seconds later.
\<close>
theorem quiesce_empties_the_group:
  "(fst (quiesce_process_group g) = Inr () \<longrightarrow> \<not> members_left (snd (quiesce_process_group g))) \<and>
   (tame g \<longrightarrow> fst (quiesce_process_group g) = Inr () \<and>
      gr_clock (snd (quiesce_process_group g)) \<le> gr_clock g + 8 + 2 / 25)"
proof (intro conjI impI)
  assume "fst (quiesce_process_group g) = Inr ()"
  then show "\<not> members_left (snd (quiesce_process_group g))"
    by (auto simp: quiesce_process_group_def process_group_exists_def dest: group.escalate_over
        split: prod.splits sum.splits if_splits)
next
  assume tame: "tame g"
  then obtain running g1 where poll: "poll_leader g = (Inr running, g1)" "tame g1" "gr_clock g1 = gr_clock g" "running = (\<not> gr_reaped g1)"
    by (cases "gr_reaped g \<or> gone (gr_clock g) (gr_leader g)") (auto simp: poll_leader_def tame_def)
  let ?first = "if running then escalate wait_for_leader_exit ''Browser Use child process did not exit'' g1 else (Inr (), g1)"
  obtain g2 where first: "?first = (Inr (), g2)" "tame g2" "gr_reaped g2" "gr_clock g2 \<le> gr_clock g + 4 + 1 / 25"
  proof (cases running)
    case True
    with poll(4) have "\<not> gr_reaped g1" by simp
    with leader.escalate_ends [OF poll(2)] obtain g2 where
      "escalate wait_for_leader_exit ''Browser Use child process did not exit'' g1 = (Inr (), g2)" "gr_reaped g2" "tame g2"
      "gr_clock g2 \<le> gr_clock g1 + 4 + 1 / 25" by metis
    with True poll(3) show ?thesis by (intro that [of g2]) simp_all
  next
    case False
    with poll show ?thesis by (intro that [of g1]) simp_all
  qed
  have "fst (quiesce_process_group g) = Inr () \<and> gr_clock (snd (quiesce_process_group g)) \<le> gr_clock g + 8 + 2 / 25"
  proof (cases "members_left g2")
    case True
    then have exists: "process_group_exists g2 = Inr True" using first(2) by (simp add: process_group_exists_def tame_def)
    obtain g3 where "escalate wait_for_process_group_exit ''Browser Use child process group did not quiesce'' g2 = (Inr (), g3)"
      "gr_clock g3 \<le> gr_clock g2 + 4 + 1 / 25"
      using group.escalate_ends [OF first(2,3)] by metis
    then show ?thesis using exists first(1,4) poll(1) by (simp add: quiesce_process_group_def)
  next
    case False
    then show ?thesis using first(1,4) poll(1) by (simp add: quiesce_process_group_def process_group_exists_def)
  qed
  then show "fst (quiesce_process_group g) = Inr ()" "gr_clock (snd (quiesce_process_group g)) \<le> gr_clock g + 8 + 2 / 25"
    by simp_all
qed

section \<open>The life of the directory\<close>

text \<open>
  What may happen to a lifecycle: its operations in any order, and whatever processes do to the
  directory while it is there, up to removing it.
\<close>

inductive lived :: "digests \<Rightarrow> lifecycle \<Rightarrow> bool" for D where
  lived_new: "lived D new_lifecycle"
| lived_create: "lived D st \<Longrightarrow> lived D (snd (create_sandbox S st))"
| lived_capture: "lived D st \<Longrightarrow> lived D (snd (capture_inventory D st))"
| lived_cleanup: "lived D st \<Longrightarrow> lived D (snd (cleanup rmtree st))"
| lived_work: "lived D st \<Longrightarrow> lc_disk st \<noteq> None \<Longrightarrow> lived D (st\<lparr>lc_disk := entry\<rparr>)"

definition accounted :: "lifecycle \<Rightarrow> bool" where
  "accounted st \<longleftrightarrow> (lc_disk st \<noteq> None \<longrightarrow> lc_root st \<noteq> None) \<and>
     (lc_root st = None \<longrightarrow> lc_told st = [] \<and> lc_cleanup_error st = None) \<and>
     (\<forall>base. lc_root st = Some base \<longrightarrow> base \<in> set (lc_told st))"

lemma make_children_keeps:
  "lc_root (snd (make_children S ns st)) = lc_root st \<and> lc_told (snd (make_children S ns st)) = lc_told st \<and>
   lc_cleanup_error (snd (make_children S ns st)) = lc_cleanup_error st"
  by (induction ns arbitrary: st) (auto simp: add_child_def split: option.splits)

lemma register_accounted: "accounted (register_root base st)"
  by (simp add: accounted_def register_root_def)

lemma accounted_cong:
  "lc_root st \<noteq> None \<Longrightarrow> accounted st \<Longrightarrow> lc_root st' = lc_root st \<Longrightarrow> lc_told st' = lc_told st \<Longrightarrow>
     lc_cleanup_error st' = lc_cleanup_error st \<Longrightarrow> accounted st'"
  by (simp add: accounted_def)

lemma create_accounted:
  assumes "accounted st"
  shows "accounted (snd (create_sandbox S st))"
proof (cases "lc_root st = None \<and> \<not> isl (su_made S)")
  case True
  then obtain made where made: "lc_root st = None" "su_made S = Inr made" by (cases "su_made S") auto
  let ?st1 = "register_root made (st\<lparr>lc_disk := Some (Folder [])\<rparr>)"
  show ?thesis
  proof (cases "su_chmod S = None \<and> \<not> isl (su_resolved S)")
    case True
    then obtain base where base: "su_chmod S = None" "su_resolved S = Inr base" by (cases "su_resolved S") auto
    let ?st2 = "register_root base ?st1"
    obtain r st3 where st3: "make_children S child_names ?st2 = (r, st3)" by fastforce
    note kept = make_children_keeps [of S child_names ?st2, unfolded st3 snd_conv]
    have "lc_root ?st2 \<noteq> None" by (simp add: register_root_def)
    then have "accounted st3"
      using kept register_accounted [of base ?st1] accounted_cong [of ?st2 st3] by blast
    then have "accounted (st3\<lparr>lc_paths := p\<rparr>)" for p by (simp add: accounted_def)
    with \<open>accounted st3\<close> register_accounted [of base ?st1] show ?thesis
      by (cases "require_outside_repo_and_home (su_protected S) base"; cases r)
        (simp_all add: create_sandbox_def made base st3)
  next
    case False
    then show ?thesis
      using made register_accounted [of made "st\<lparr>lc_disk := Some (Folder [])\<rparr>"]
      by (cases "su_chmod S"; cases "su_resolved S") (simp_all add: create_sandbox_def)
  qed
next
  case False
  then show ?thesis using assms by (cases "su_made S") (auto simp: create_sandbox_def)
qed

lemma lived_accounted: "lived D st \<Longrightarrow> accounted st"
proof (induction rule: lived.induct)
  case lived_new
  then show ?case by (simp add: accounted_def new_lifecycle_def)
next
  case (lived_create st S)
  then show ?case by (simp add: create_accounted)
next
  case (lived_capture st)
  then show ?case by (auto simp: capture_inventory_def accounted_def split: sum.splits)
next
  case (lived_cleanup st rmtree)
  then show ?case by (auto simp: cleanup_def accounted_def Let_def split: option.splits prod.splits)
next
  case (lived_work st entry)
  then show ?case by (auto simp: accounted_def split: option.splits)
qed

text \<open>
  C38: The recorded end of a sandbox is true. After any history of making, using, inventorying and
  removing its directory, with failures at every step: a directory that is on disk is known to the
  lifecycle and its owner was told of its path; a clean-up that says it succeeded leaves no
  directory; and when the clean-up was the last operation, the state \<open>not_created\<close> or \<open>cleaned\<close> means
  that there is no directory, and a failed clean-up is recorded as one.
\<close>
theorem lifecycle_truthful:
  assumes "lived D st" and "cleanup rmtree st = (ok, st')"
  shows "(lc_disk st \<noteq> None \<longrightarrow> (\<exists>base. lc_root st = Some base \<and> base \<in> set (lc_told st))) \<and>
    (ok \<longrightarrow> lc_disk st' = None) \<and>
    (receipt_state st' \<in> {''not_created'', ''cleaned''} \<longrightarrow> ok \<and> lc_disk st' = None) \<and>
    (\<not> ok \<longrightarrow> receipt_state st' = ''cleanup_failed'')"
  using lived_accounted [OF assms(1)] assms(2)
  by (auto simp: cleanup_def accounted_def receipt_state_def Let_def split: option.splits prod.splits if_splits)

section \<open>Concrete sandboxes\<close>

definition demo_tree :: "(string \<times> sandbox_entry) list" where
  "demo_tree = [(''d'', Folder [(''f'', Plain ''xy'')]), (''a'', Plain [])]"

lemma demo_nodes: "nodes [] demo_tree = [([''d''], Folder [(''f'', Plain ''xy'')]), ([''d'', ''f''], Plain ''xy''), ([''a''], Plain [])]"
  by (simp add: demo_tree_def inside_def)

lemma demo_named: "well_named [] demo_tree"
  unfolding well_named_def demo_nodes by (simp add: level_ok_def clean_name_def demo_tree_def inside_def)

lemma demo_limits:
  "int (length (nodes [] demo_tree)) \<le> max_entries" "list_all (entry_fits \<circ> snd) (nodes [] demo_tree)"
  "sizes (nodes [] demo_tree) \<le> max_total_bytes"
  unfolding demo_nodes by (simp_all add: max_entries_def entry_fits_def max_file_bytes_def max_total_bytes_def entry_size_def)

theorem inventory_exact_witness:
  "\<exists>found. inventory_sandbox demo_digests (Some (Folder demo_tree)) = Inr found \<and>
     dget found ''entry_count'' = PInt 3 \<and> dget found ''total_bytes'' = PInt 2"
  using inventory_exact [OF demo_named, of demo_digests]
  by (simp add: inventory_spec_def Let_def demo_nodes entry_size_def)

theorem inventory_accepted_witness:
  "\<exists>W H listing payload. inventory_content_issues W (inventory_metadata H listing ''r.json'' payload) payload
     (json_sorted (PDict listing)) = []"
proof -
  let ?H = "\<lparr>h_digests = demo_digests, h_surroundings = undefined, h_fault = undefined\<rparr> :: host"
  let ?W = "\<lparr>hex_sha256 = hex_sha256 demo_digests, float_text = float_text demo_digests,
     schema_iter = (\<lambda>_. []), git_bytes = (\<lambda>_. None), artifacts_dir = None, artifacts_real = True,
     os_error = (\<lambda>_. []), json_text = (\<lambda>_. Inl ''bad''), zip_members = (\<lambda>_. Inl ''bad'')\<rparr>"
  let ?listing = "inventory_of_nodes demo_digests (nodes [] demo_tree)"
  have digests: "hex_digests (h_digests ?H)" "the_digests ?W = h_digests ?H"
    by (simp_all add: demo_environment the_digests_def)
  have found: "inventory_sandbox (h_digests ?H) (Some (Folder demo_tree)) = Inr ?listing"
    using inventory_iff [OF demo_named] demo_limits by simp
  note accepted = inventory_accepted [OF digests demo_named found refl refl, of "''r.json''"]
  moreover have "\<forall>x \<in> set (nodes [] demo_tree). char_of (92::nat) \<notin> set (path_text (fst x))"
    unfolding demo_nodes by (simp add: char_of_def)
  moreover have "\<forall>x \<in> set (nodes [] demo_tree). \<forall>c \<in> set (path_text (fst x)). (of_char c :: nat) < 127"
    unfolding demo_nodes by simp
  ultimately show ?thesis by metis
qed

definition demo_process :: process where
  "demo_process = \<lparr>po_ends = None, po_code = 0, po_on_term = None, po_on_kill = Some 1\<rparr>"

definition demo_group :: group where
  "demo_group = \<lparr>gr_clock = 0, gr_leader = demo_process, gr_reaped = False, gr_others = [demo_process],
     gr_unpolled = False, gr_unreaped = False, gr_denied = False\<rparr>"

theorem quiesce_empties_the_group_witness:
  "members_left demo_group \<and> \<not> members_left (snd (quiesce_process_group demo_group))"
proof -
  have "tame demo_group"
    by (simp add: tame_def demo_group_def demo_process_def killable_def process_group_grace_def)
  with quiesce_empties_the_group [of demo_group] show ?thesis
    by (simp add: members_left_def demo_group_def)
qed

theorem lifecycle_truthful_witness:
  "\<exists>st rmtree. lc_disk st \<noteq> None \<and> fst (cleanup rmtree st) \<and> lc_disk (snd (cleanup rmtree st)) = None"
proof -
  let ?S = "\<lparr>su_made = Inr ''/tmp/x'', su_chmod = None, su_resolved = Inr ''/tmp/x'', su_protected = [''/home/u''],
    su_mkdir = (\<lambda>_. None), su_child_chmod = (\<lambda>_. None)\<rparr>"
  let ?st = "snd (create_sandbox ?S new_lifecycle)" and ?rm = "\<lambda>_. (None, None)"
  have "lc_disk ?st \<noteq> None" "lc_root ?st \<noteq> None"
    by (simp_all add: create_sandbox_def new_lifecycle_def register_root_def require_outside_repo_and_home_def is_relative_to_def
        path_parts_def child_names_def add_child_def is_absolute_def starts_with_def Let_def)
  then have "fst (cleanup ?rm ?st)" by (auto simp: cleanup_def)
  moreover have "lived demo_digests ?st" by (intro lived_create lived_new)
  ultimately show ?thesis
    using lifecycle_truthful [of demo_digests ?st ?rm] \<open>lc_disk ?st \<noteq> None\<close> by (metis prod.collapse)
qed

end
