(* ===== verification/Summary_Rates.thy ===== *)
theory Summary_Rates
  imports Receipt_Builder "HOL-Library.Log_Nat"
begin

text \<open>
  The rates and Wilson intervals of a summary, \<open>src/btb/harness/repetition_summary.py\<close> from
  \<open>WILSON_METHOD\<close> to \<open>_rate\<close>. Python computes them with \<open>decimal\<close> at 50 digits: every operation is
  its exact result, rounded half to even to 50 significant digits. Decimals are rationals here, with
  that rounding written out. No exponent is near the limits of \<open>decimal\<close>, and no value is negative
  except a difference, which is rounded before it is compared.
\<close>

section \<open>Rounding to 50 digits\<close>

definition half_even :: "rat \<Rightarrow> int" where
  "half_even y = (let low = \<lfloor>y\<rfloor>; part = y - of_int low in
     if part < 1 / 2 \<or> part = 1 / 2 \<and> even low then low else low + 1)"

text \<open>The exponent of the leading digit of a positive number.\<close>

definition leading_exponent :: "rat \<Rightarrow> int" where
  "leading_exponent x = (case quotient_of x of (a, b) \<Rightarrow>
     (let e = int (floorlog 10 (nat a)) - int (floorlog 10 (nat b)) in
      if 10 powi e \<le> x then e else e - 1))"

definition precision :: int where "precision = 50"

definition rounded :: "rat \<Rightarrow> rat" where
  "rounded x = (if x = 0 then 0
     else (let scale = 10 powi (precision - 1 - leading_exponent \<bar>x\<bar>) in of_int (half_even (x * scale)) / scale))"

fun isqrt :: "nat \<Rightarrow> nat" where
  "isqrt n = (if n = 0 then 0
     else (let r = 2 * isqrt (n div 4) in if (r + 1)\<^sup>2 \<le> n then r + 1 else r))"

declare isqrt.simps [simp del]

text \<open>\<open>Decimal.sqrt\<close> of a number that is not negative.\<close>

definition rounded_sqrt :: "rat \<Rightarrow> rat" where
  "rounded_sqrt x = (if x = 0 then 0
     else (let scale = 10 powi (precision - 1 - leading_exponent x div 2);
               y = x * scale\<^sup>2; r = of_nat (isqrt (nat \<lfloor>y\<rfloor>));
               half = (of_int r + 1 / 2)\<^sup>2
           in of_int (if y < half \<or> y = half \<and> even r then r else r + 1) / scale))"

section \<open>The interval\<close>

definition wilson_method :: string where
  "wilson_method = ''wilson-score-two-sided-no-continuity-correction''"

definition wilson_confidence_level :: string where "wilson_confidence_level = ''0.95''"
definition wilson_z :: rat where "wilson_z = 1959963984540054 / 10 ^ 15"
definition wilson_z_text :: string where "wilson_z_text = ''1.959963984540054''"
definition summary_decimal_places :: nat where "summary_decimal_places = 6"

text \<open>A number that is not negative, as \<open>_decimal\<close> prints it: rounded half up to millionths.\<close>

definition millionths :: "rat \<Rightarrow> nat" where
  "millionths x = nat \<lfloor>x * 10 ^ summary_decimal_places + 1 / 2\<rfloor>"

definition millionths_text :: "nat \<Rightarrow> string" where
  "millionths_text m =
     (let digits = nat_str (m mod 10 ^ summary_decimal_places) in
      nat_str (m div 10 ^ summary_decimal_places) @ ''.'' @
      replicate (summary_decimal_places - length digits) (CHR ''0'') @ digits)"

definition decimal :: "rat \<Rightarrow> string" where
  "decimal x = millionths_text (millionths x)"

definition wilson_center :: "rat \<Rightarrow> rat \<Rightarrow> rat" where
  "wilson_center p n =
     (let z2 = rounded (wilson_z * wilson_z);
          denominator = rounded (1 + rounded (z2 / n))
      in rounded (rounded (p + rounded (z2 / rounded (2 * n))) / denominator))"

definition wilson_margin :: "rat \<Rightarrow> rat \<Rightarrow> rat" where
  "wilson_margin p n =
     (let z2 = rounded (wilson_z * wilson_z);
          denominator = rounded (1 + rounded (z2 / n));
          spread = rounded (rounded (rounded (p * rounded (1 - p)) / n) + rounded (z2 / rounded (rounded (4 * n) * n)))
      in rounded (rounded (wilson_z * rounded_sqrt spread) / denominator))"

definition wilson_bounds :: "int \<Rightarrow> int \<Rightarrow> rat \<times> rat" where
  "wilson_bounds successes trials =
     (let n = of_int trials; p = rounded (of_int successes / n);
          center = wilson_center p n; margin = wilson_margin p n
      in (max 0 (rounded (center - margin)), min 1 (rounded (center + margin))))"

definition wilson_interval :: "int \<Rightarrow> int \<Rightarrow> py_exc + pydict" where
  "wilson_interval successes trials =
     (if trials < 1 \<or> \<not> (0 \<le> successes \<and> successes \<le> trials)
      then Inl (value_error ''Wilson interval requires 0 <= successes <= total and total > 0'')
      else (case wilson_bounds successes trials of (lower, upper) \<Rightarrow> Inr
        [(''method'', PStr wilson_method), (''confidence_level'', PStr wilson_confidence_level),
         (''z'', PStr wilson_z_text), (''continuity_correction'', PBool False),
         (''rounding_decimal_places'', PInt (int summary_decimal_places)),
         (''lower'', PStr (decimal lower)), (''upper'', PStr (decimal upper))]))"

definition rate :: "int \<Rightarrow> int \<Rightarrow> string" where
  "rate part denominator = decimal (rounded (of_int part / of_int denominator))"

end
