(* ===== verification/Summary_Rates_Properties.thy ===== *)
theory Summary_Rates_Properties
  imports Summary_Rates
begin

text \<open>
  The printed rates and intervals: the rounding of \<open>decimal\<close> is monotone and has a small error, so
  the bounds are ordered and are within a hundredth of a millionth of the correctly rounded ones.
\<close>

section \<open>The rounding\<close>

lemma digits_of:
  assumes "0 < (n :: nat)"
  shows "(10 :: rat) powi (int (floorlog 10 n) - 1) \<le> of_nat n" "of_nat n < (10 :: rat) powi int (floorlog 10 n)"
proof -
  have f: "10 ^ (floorlog 10 n - 1) \<le> n" "n < 10 ^ floorlog 10 n" using floorlog_bounds [of n 10] assms by simp_all
  have pos: "0 < floorlog 10 n" using f assms by (cases "floorlog 10 n") auto
  have "(10 :: rat) powi (int (floorlog 10 n) - 1) = of_nat (10 ^ (floorlog 10 n - 1))"
    using pos by (simp add: power_int_def nat_diff_distrib)
  then show "(10 :: rat) powi (int (floorlog 10 n) - 1) \<le> of_nat n" using f(1) by (simp only: of_nat_le_iff)
  have "(10 :: rat) powi int (floorlog 10 n) = of_nat (10 ^ floorlog 10 n)" by (simp add: power_int_def)
  then show "of_nat n < (10 :: rat) powi int (floorlog 10 n)" using f(2) by (simp only: of_nat_less_iff)
qed

lemma pow_quotient: "(10 :: rat) powi m / 10 powi n = 10 powi (m - n)"
  by (simp add: power_int_diff)

lemma leading_exponent:
  assumes "0 < x"
  shows "10 powi leading_exponent x \<le> x" "x < 10 powi (leading_exponent x + 1)"
proof -
  obtain a b where q: "quotient_of x = (a, b)" by force
  then have b: "0 < b" and x: "x = of_int a / of_int b" using quotient_of_denom_pos quotient_of_div by blast+
  with assms have a: "0 < a" by (simp add: zero_less_divide_iff)
  define A B :: rat where "A = of_int a" and "B = of_int b"
  let ?la = "int (floorlog 10 (nat a))" and ?lb = "int (floorlog 10 (nat b))"
  have A: "10 powi (?la - 1) \<le> A" "A < 10 powi ?la" and B: "10 powi (?lb - 1) \<le> B" "B < 10 powi ?lb"
    using digits_of [of "nat a"] digits_of [of "nat b"] a b by (simp_all add: A_def B_def)
  have pos: "0 < A" "0 < B" using a b by (simp_all add: A_def B_def)
  have "x < 10 powi ?la / 10 powi (?lb - 1)"
    unfolding x A_def [symmetric] B_def [symmetric] using A(2) B(1) pos by (intro frac_less) auto
  also have "\<dots> = 10 powi (?la - ?lb + 1)" unfolding pow_quotient by (simp only: algebra_simps)
  finally have up: "x < 10 powi (?la - ?lb + 1)" .
  have "10 powi (?la - 1) / 10 powi ?lb \<le> x"
    unfolding x A_def [symmetric] B_def [symmetric] using A(1) B(2) pos by (intro frac_le) auto
  moreover have "10 powi (?la - 1) / 10 powi ?lb = (10 :: rat) powi (?la - ?lb - 1)"
    unfolding pow_quotient by (simp only: algebra_simps)
  ultimately have down: "10 powi (?la - ?lb - 1) \<le> x" by simp
  show "10 powi leading_exponent x \<le> x" "x < 10 powi (leading_exponent x + 1)"
    using up down by (auto simp: leading_exponent_def q Let_def not_le)
qed

lemma leading_exponent_mono: "0 < x \<Longrightarrow> x \<le> y \<Longrightarrow> leading_exponent x \<le> leading_exponent y"
proof (rule ccontr)
  assume a: "0 < x" "x \<le> y" "\<not> leading_exponent x \<le> leading_exponent y"
  have "y < 10 powi (leading_exponent y + 1)" using leading_exponent [of y] a by simp
  also have "\<dots> \<le> 10 powi leading_exponent x" using a(3) by (intro power_int_increasing) auto
  also have "\<dots> \<le> x" using leading_exponent a(1) by simp
  finally show False using a(2) by simp
qed

lemma half_even_near: "\<bar>of_int (half_even y) - y\<bar> \<le> 1 / 2"
  using of_int_floor_le [of y] floor_correct [of y] unfolding half_even_def Let_def by (auto split: if_splits)

lemma half_even_int [simp]: "half_even (of_int i) = i"
  by (simp add: half_even_def)

lemma half_even_mono: "y \<le> z \<Longrightarrow> half_even y \<le> half_even z"
proof -
  assume le: "y \<le> z"
  then have f: "\<lfloor>y\<rfloor> \<le> \<lfloor>z\<rfloor>" by (rule floor_mono)
  show ?thesis
  proof (cases "\<lfloor>y\<rfloor> = \<lfloor>z\<rfloor>")
    case True
    then show ?thesis using le by (auto simp: half_even_def Let_def)
  next
    case False
    then show ?thesis using f by (auto simp: half_even_def Let_def)
  qed
qed

lemma rounded_0 [simp]: "rounded 0 = 0" by (simp add: rounded_def)

lemma scaled:
  assumes "0 < x"
  defines "scale \<equiv> (10 :: rat) powi (precision - 1 - leading_exponent x)"
  shows "0 < scale" "10 ^ 49 \<le> x * scale" "x * scale < 10 ^ 50"
    "10 powi leading_exponent x = 10 ^ 49 / scale" "10 powi (leading_exponent x + 1) = 10 ^ 50 / scale"
proof -
  show s: "0 < scale" by (simp add: scale_def)
  show e: "10 powi leading_exponent x = 10 ^ 49 / scale" "10 powi (leading_exponent x + 1) = 10 ^ 50 / scale"
    by (simp_all add: scale_def precision_def power_int_diff power_int_add)
  show "10 ^ 49 \<le> x * scale" "x * scale < 10 ^ 50"
    using leading_exponent [OF assms(1)] s unfolding e by (simp_all add: field_simps)
qed

lemma rounded_error:
  assumes "0 \<le> x"
  shows "\<bar>rounded x - x\<bar> \<le> x / 10 ^ 49 / 2"
proof (cases "x = 0")
  case False
  with assms have x: "0 < x" by simp
  let ?s = "(10 :: rat) powi (precision - 1 - leading_exponent x)"
  note s = scaled [OF x]
  have "rounded x - x = (of_int (half_even (x * ?s)) - x * ?s) / ?s"
    using s(1) x by (simp add: rounded_def Let_def diff_divide_distrib del: half_even_int)
  then have "\<bar>rounded x - x\<bar> = \<bar>of_int (half_even (x * ?s)) - x * ?s\<bar> / ?s"
    using s(1) by (simp add: abs_divide del: half_even_int)
  also have "\<dots> \<le> (1 / 2) / ?s" using half_even_near s(1) by (intro divide_right_mono) auto
  also have "\<dots> \<le> x / 10 ^ 49 / 2" using s(1,2) by (simp add: field_simps)
  finally show ?thesis .
qed simp

lemma rounded_positive:
  assumes "0 < x"
  shows "10 powi leading_exponent x \<le> rounded x" "rounded x \<le> 10 powi (leading_exponent x + 1)"
proof -
  let ?s = "(10 :: rat) powi (precision - 1 - leading_exponent x)"
  note s = scaled [OF assms]
  have r: "rounded x = of_int (half_even (x * ?s)) / ?s" using assms by (simp add: rounded_def Let_def)
  have "half_even (of_int (10 ^ 49)) \<le> half_even (x * ?s)" using s(2) by (intro half_even_mono) simp
  then have "(of_int (10 ^ 49) :: rat) \<le> of_int (half_even (x * ?s))" unfolding half_even_int of_int_le_iff .
  then show "10 powi leading_exponent x \<le> rounded x"
    unfolding r s(4) using s(1) by (intro divide_right_mono) simp_all
  have "half_even (x * ?s) \<le> half_even (of_int (10 ^ 50))" using s(3) by (intro half_even_mono) simp
  then have "(of_int (half_even (x * ?s)) :: rat) \<le> of_int (10 ^ 50)" unfolding half_even_int of_int_le_iff .
  then show "rounded x \<le> 10 powi (leading_exponent x + 1)"
    unfolding r s(5) using s(1) by (intro divide_right_mono) simp_all
qed

lemma rounded_nonneg [simp]: "0 \<le> x \<Longrightarrow> 0 \<le> rounded x"
  using rounded_positive(1) [of x] by (cases "x = 0") (auto intro: order_trans [of _ "10 powi leading_exponent x"])

lemma rounded_mono:
  assumes "0 \<le> x" "x \<le> y"
  shows "rounded x \<le> rounded y"
proof (cases "x = 0")
  case True
  then show ?thesis using assms by simp
next
  case False
  with assms have pos: "0 < x" "0 < y" by simp_all
  from leading_exponent_mono [OF pos(1) assms(2)]
  consider (same) "leading_exponent x = leading_exponent y" | (less) "leading_exponent x + 1 \<le> leading_exponent y" by linarith
  then show ?thesis
  proof cases
    case same
    let ?s = "(10 :: rat) powi (precision - 1 - leading_exponent y)"
    have "0 < ?s" by simp
    moreover have "half_even (x * ?s) \<le> half_even (y * ?s)" using assms(2) by (intro half_even_mono mult_right_mono) auto
    ultimately show ?thesis using pos by (simp add: rounded_def Let_def same divide_right_mono)
  next
    case less
    have "rounded x \<le> 10 powi (leading_exponent x + 1)" by (rule rounded_positive(2) [OF pos(1)])
    also have "\<dots> \<le> 10 powi leading_exponent y" using less by (intro power_int_increasing) auto
    also have "\<dots> \<le> rounded y" by (rule rounded_positive(1) [OF pos(2)])
    finally show ?thesis .
  qed
qed

lemma rounded_1 [simp]: "rounded 1 = 1"
proof -
  have "quotient_of 1 = (1, 1)" by simp
  then have "leading_exponent 1 = 0" by (simp add: leading_exponent_def)
  then show ?thesis by (simp add: rounded_def Let_def precision_def half_even_def)
qed

lemma rounded_le_1: "0 \<le> x \<Longrightarrow> x \<le> 1 \<Longrightarrow> rounded x \<le> 1"
  using rounded_mono [of x 1] by simp

section \<open>The square root\<close>

lemma isqrt: "(isqrt n)\<^sup>2 \<le> n \<and> n < (isqrt n + 1)\<^sup>2"
proof (induction n rule: isqrt.induct)
  case (1 n)
  show ?case
  proof (cases "n = 0")
    case True
    then show ?thesis by (simp add: isqrt.simps [of 0])
  next
    case False
    let ?r = "isqrt (n div 4)"
    have q: "?r\<^sup>2 \<le> n div 4" "n div 4 < (?r + 1)\<^sup>2" using 1 [OF False] by auto
    from q(1) have lo: "(2 * ?r)\<^sup>2 \<le> n" by (simp add: power_mult_distrib)
    from q(2) have "n div 4 + 1 \<le> (?r + 1)\<^sup>2" by simp
    then have "n < 4 * (?r + 1)\<^sup>2" by linarith
    then have hi: "n < (2 * ?r + 1 + 1)\<^sup>2" by (simp add: power2_eq_square algebra_simps)
    show ?thesis using lo hi False by (simp add: isqrt.simps [of n] Let_def not_le)
  qed
qed

abbreviation real_of :: "rat \<Rightarrow> real" where "real_of \<equiv> of_rat"

lemma rounded_sqrt_0 [simp]: "rounded_sqrt 0 = 0" by (simp add: rounded_sqrt_def)

lemma nearest_root:
  fixes y :: rat and r :: int
  assumes "0 \<le> y" "r = int (isqrt (nat \<lfloor>y\<rfloor>))"
  defines "half \<equiv> (of_int r + 1 / 2 :: rat)\<^sup>2"
  defines "m \<equiv> (if y < half \<or> y = half \<and> even r then r else r + 1)"
  shows "\<bar>of_int m - sqrt (real_of y)\<bar> \<le> 1 / 2"
proof -
  let ?n = "nat \<lfloor>y\<rfloor>" and ?s = "sqrt (real_of y)"
  have y: "(of_nat ?n :: rat) \<le> y" "y < of_nat ?n + 1" using assms(1) floor_correct [of y] by simp_all
  have r0: "0 \<le> r" using assms(2) by simp
  have "(of_nat ((isqrt ?n)\<^sup>2) :: rat) \<le> of_nat ?n" "(of_nat (?n + 1) :: rat) \<le> of_nat ((isqrt ?n + 1)\<^sup>2)"
    unfolding of_nat_le_iff using isqrt [of ?n] by simp_all
  then have "(of_int r :: rat)\<^sup>2 \<le> of_nat ?n" "of_nat ?n + 1 \<le> (of_int r + 1 :: rat)\<^sup>2"
    using assms(2) by (simp_all add: add.commute)
  with y have "(of_int r :: rat)\<^sup>2 \<le> y" "y < (of_int r + 1 :: rat)\<^sup>2" by linarith+
  then have "real_of ((of_int r)\<^sup>2) \<le> real_of y" "real_of y < real_of ((of_int r + 1)\<^sup>2)"
    unfolding of_rat_less_eq of_rat_less by simp_all
  then have bounds: "real_of_int r \<le> ?s" "?s < real_of_int r + 1"
    using r0 by (auto simp: of_rat_add of_rat_power intro!: real_le_rsqrt real_less_lsqrt)
  have half: "(y < half) = (?s < real_of_int r + 1 / 2)" "(y = half) = (?s = real_of_int r + 1 / 2)"
  proof -
    have h: "real_of half = (real_of_int r + 1 / 2)\<^sup>2" by (simp add: half_def of_rat_add of_rat_power of_rat_divide)
    have rh: "sqrt (real_of half) = real_of_int r + 1 / 2" unfolding h using r0 by simp
    show "(y < half) = (?s < real_of_int r + 1 / 2)" unfolding rh [symmetric] by (simp add: of_rat_less)
    show "(y = half) = (?s = real_of_int r + 1 / 2)" unfolding rh [symmetric] by simp
  qed
  show ?thesis using bounds unfolding m_def half by (auto simp: abs_if)
qed

lemma rounded_sqrt_error:
  assumes "0 \<le> x"
  shows "\<bar>real_of (rounded_sqrt x) - sqrt (real_of x)\<bar> \<le> sqrt (real_of x) / 10 ^ 49 / 2" "0 \<le> rounded_sqrt x"
proof -
  have "\<bar>real_of (rounded_sqrt x) - sqrt (real_of x)\<bar> \<le> sqrt (real_of x) / 10 ^ 49 / 2 \<and> 0 \<le> rounded_sqrt x"
  proof (cases "x = 0")
    case False
    with assms have x: "0 < x" by simp
    let ?e = "leading_exponent x"
    define c where "c = (10 :: rat) powi (precision - 1 - ?e div 2)"
    define y where "y = x * c\<^sup>2"
    define r where "r = int (isqrt (nat \<lfloor>y\<rfloor>))"
    define m where "m = (if y < (of_int r + 1 / 2)\<^sup>2 \<or> y = (of_int r + 1 / 2)\<^sup>2 \<and> even r then r else r + 1)"
    have c: "0 < c" by (simp add: c_def)
    have y: "0 \<le> y" using x by (simp add: y_def)
    have v: "rounded_sqrt x = of_int m / c" using False by (simp add: rounded_sqrt_def Let_def c_def y_def r_def m_def)
    have near: "\<bar>of_int m - sqrt (real_of y)\<bar> \<le> 1 / 2" using nearest_root [OF y r_def] unfolding m_def .
    have root: "sqrt (real_of y) = sqrt (real_of x) * real_of c"
      using c by (simp add: y_def of_rat_mult of_rat_power real_sqrt_mult)
    have "(10 ^ 49)\<^sup>2 = (10 :: rat) powi (2 * (?e div 2)) * c\<^sup>2"
      by (simp add: c_def precision_def power2_eq_square flip: power_int_add)
    also have "\<dots> \<le> 10 powi ?e * c\<^sup>2" by (intro mult_right_mono power_int_increasing) auto
    also have "\<dots> \<le> y" using leading_exponent(1) [OF x] by (simp add: y_def mult_right_mono)
    finally have "real_of ((10 ^ 49)\<^sup>2) \<le> real_of y" unfolding of_rat_less_eq .
    then have big: "10 ^ 49 \<le> sqrt (real_of y)" by (intro real_le_rsqrt) (simp add: of_rat_power)
    have "real_of (rounded_sqrt x) - sqrt (real_of x) = (of_int m - sqrt (real_of y)) / real_of c"
      using c by (simp add: v root of_rat_divide diff_divide_distrib)
    then have "\<bar>real_of (rounded_sqrt x) - sqrt (real_of x)\<bar> = \<bar>of_int m - sqrt (real_of y)\<bar> / real_of c"
      using c by (simp add: abs_divide)
    also have "\<dots> \<le> (1 / 2) / real_of c" using near c by (intro divide_right_mono) auto
    also have "\<dots> \<le> (sqrt (real_of y) / 10 ^ 49 / 2) / real_of c" using big c by (intro divide_right_mono) auto
    also have "\<dots> = sqrt (real_of x) / 10 ^ 49 / 2" using c by (simp add: root)
    finally have err: "\<bar>real_of (rounded_sqrt x) - sqrt (real_of x)\<bar> \<le> sqrt (real_of x) / 10 ^ 49 / 2" .
    have "0 \<le> r" by (simp add: r_def)
    then have "0 \<le> m" by (simp add: m_def)
    then show ?thesis using err c v by simp
  qed simp
  then show "\<bar>real_of (rounded_sqrt x) - sqrt (real_of x)\<bar> \<le> sqrt (real_of x) / 10 ^ 49 / 2" "0 \<le> rounded_sqrt x" by auto
qed

section \<open>Error bounds\<close>

text \<open>The relative error of one rounding, and numbers that differ by at most a multiple of it.\<close>

definition unit_error :: real where "unit_error = 1 / 10 ^ 49 / 2"

definition near :: "real \<Rightarrow> real \<Rightarrow> real \<Rightarrow> bool" where
  "near k x y \<longleftrightarrow> \<bar>x - y\<bar> \<le> k * unit_error"

lemma unit_error: "0 < unit_error" "unit_error \<le> 1 / 100"
  by (simp_all add: unit_error_def)

lemma near_weaken: "near k x y \<Longrightarrow> k \<le> l \<Longrightarrow> near l x y"
  using unit_error(1) by (auto simp: near_def intro: order_trans [OF _ mult_right_mono])

lemma near_refl [simp]: "near 0 x x" by (simp add: near_def)

lemma near_add: "near k a a' \<Longrightarrow> near l b b' \<Longrightarrow> near (k + l) (a + b) (a' + b')"
  unfolding near_def distrib_right by linarith

lemma near_diff: "near k a a' \<Longrightarrow> near l b b' \<Longrightarrow> near (k + l) (a - b) (a' - b')"
  unfolding near_def distrib_right by linarith

lemma near_mult:
  assumes "near k a a'" "near l b b'" "\<bar>b\<bar> \<le> B" "\<bar>a'\<bar> \<le> A"
  shows "near (k * B + A * l) (a * b) (a' * b')"
proof -
  have "\<bar>a * b - a' * b'\<bar> = \<bar>(a - a') * b + a' * (b - b')\<bar>" by (simp add: algebra_simps)
  also have "\<dots> \<le> \<bar>a - a'\<bar> * \<bar>b\<bar> + \<bar>a'\<bar> * \<bar>b - b'\<bar>" by (metis abs_mult abs_triangle_ineq)
  also have "\<dots> \<le> (k * unit_error) * B + A * (l * unit_error)"
    using assms unfolding near_def by (intro add_mono mult_mono) auto
  finally show ?thesis by (simp add: near_def algebra_simps)
qed

lemma abs_divide_le: "1 \<le> d \<Longrightarrow> \<bar>w / d\<bar> \<le> \<bar>w :: real\<bar>"
  by (simp add: abs_divide divide_le_eq mult_le_cancel_left1)

lemma near_divide:
  assumes "near k a a'" "\<bar>d - d'\<bar> \<le> l * unit_error * d'" "1 \<le> d" "1 \<le> d'" "\<bar>a'\<bar> \<le> A" "0 \<le> l"
  shows "near (k + A * l) (a / d) (a' / d')"
proof -
  have "a / d - a' / d' = (a - a') / d + a' * ((d' - d) / d') / d" using assms(3,4) by (simp add: field_simps)
  moreover have "\<bar>(a - a') / d\<bar> \<le> k * unit_error / 1"
    unfolding abs_divide using assms(1,3) by (intro frac_le) (auto simp: near_def)
  moreover have "\<bar>a' * ((d' - d) / d') / d\<bar> \<le> A * (l * unit_error)"
  proof -
    have "\<bar>(d' - d) / d'\<bar> \<le> l * unit_error" using assms(2,4) by (simp add: abs_divide divide_le_eq abs_minus_commute)
    then have "\<bar>a' * ((d' - d) / d')\<bar> \<le> A * (l * unit_error)"
      unfolding abs_mult using assms(5) by (intro mult_mono) auto
    moreover have "\<bar>a' * ((d' - d) / d') / d\<bar> \<le> \<bar>a' * ((d' - d) / d')\<bar>"
      by (rule abs_divide_le [OF assms(3)])
    ultimately show ?thesis by linarith
  qed
  ultimately have "\<bar>a / d - a' / d'\<bar> \<le> k * unit_error + A * (l * unit_error)" by linarith
  then show ?thesis by (simp add: near_def algebra_simps)
qed

lemma near_quotient: "near k a a' \<Longrightarrow> 1 \<le> d \<Longrightarrow> near k (a / d) (a' / d)"
  using near_divide [of k a a' d d 0 "\<bar>a'\<bar>"] by simp

lemma relative_error: "0 \<le> x \<Longrightarrow> \<bar>real_of (rounded x) - real_of x\<bar> \<le> unit_error * real_of x"
proof -
  assume "0 \<le> x"
  then have "rounded x - x \<le> x / 10 ^ 49 / 2" "x - rounded x \<le> x / 10 ^ 49 / 2" 
    using abs_le_D1 [OF rounded_error] abs_le_D2 [OF rounded_error] by fastforce+
  then have "real_of (rounded x - x) \<le> real_of (x / 10 ^ 49 / 2)" "real_of (x - rounded x) \<le> real_of (x / 10 ^ 49 / 2)"
    unfolding of_rat_less_eq by simp_all
  then show ?thesis by (intro abs_leI) (simp_all add: unit_error_def of_rat_divide of_rat_power of_rat_diff)
qed

lemma near_rounded:
  assumes "near k (real_of x) x'" "0 \<le> x" "real_of x \<le> B"
  shows "near (k + B) (real_of (rounded x)) x'"
proof -
  have "unit_error * real_of x \<le> unit_error * B" using assms(3) unit_error(1) by (intro mult_left_mono) auto
  then show ?thesis using relative_error [OF assms(2)] assms(1) unfolding near_def distrib_right by (simp add: mult.commute)
qed

lemma sqrt_near: "0 \<le> a \<Longrightarrow> 0 \<le> b \<Longrightarrow> \<bar>sqrt a - sqrt b\<bar> \<le> sqrt \<bar>a - b\<bar>"
proof (rule real_le_rsqrt)
  assume ab: "0 \<le> a" "0 \<le> b"
  have "(\<bar>sqrt a - sqrt b\<bar>)\<^sup>2 = \<bar>sqrt a - sqrt b\<bar> * \<bar>sqrt a - sqrt b\<bar>" by (simp add: power2_eq_square)
  also have "\<dots> \<le> \<bar>sqrt a - sqrt b\<bar> * \<bar>sqrt a + sqrt b\<bar>" using real_sqrt_ge_zero [OF ab(1)] real_sqrt_ge_zero [OF ab(2)] by (intro mult_left_mono) linarith+
  also have "\<dots> = \<bar>(sqrt a - sqrt b) * (sqrt a + sqrt b)\<bar>" by (simp only: abs_mult)
  also have "(sqrt a - sqrt b) * (sqrt a + sqrt b) = a - b" using ab by (simp add: algebra_simps)
  finally show "(\<bar>sqrt a - sqrt b\<bar>)\<^sup>2 \<le> \<bar>a - b\<bar>" .
qed

section \<open>The interval over the reals\<close>

definition exact_center :: "real \<Rightarrow> real \<Rightarrow> real" where
  "exact_center p n = (let z = real_of wilson_z in (p + z\<^sup>2 / (2 * n)) / (1 + z\<^sup>2 / n))"

definition exact_margin :: "real \<Rightarrow> real \<Rightarrow> real" where
  "exact_margin p n = (let z = real_of wilson_z in
     z * sqrt (p * (1 - p) / n + z\<^sup>2 / (4 * n\<^sup>2)) / (1 + z\<^sup>2 / n))"

lemma z: "0 < wilson_z" "wilson_z \<le> 2" "0 < real_of wilson_z" "real_of wilson_z \<le> 2" "(real_of wilson_z)\<^sup>2 \<le> 4"
proof -
  show r: "0 < wilson_z" "wilson_z \<le> 2" by (simp_all add: wilson_z_def)
  show "0 < real_of wilson_z" using r(1) by simp
  have "real_of wilson_z \<le> real_of 2" unfolding of_rat_less_eq by (rule r(2))
  then show "real_of wilson_z \<le> 2" by simp
  then have "(real_of wilson_z)\<^sup>2 \<le> 2\<^sup>2" using r(1) by (intro power_mono) auto
  then show "(real_of wilson_z)\<^sup>2 \<le> 4" by simp
qed

text \<open>The square of \<open>z\<close>, the divisor and the two products of \<open>n\<close>.\<close>

definition z2 :: rat where "z2 = rounded (wilson_z * wilson_z)"

lemma z2: "near 4 (real_of z2) ((real_of wilson_z)\<^sup>2)" "0 \<le> z2" "real_of z2 \<le> 4"
proof -
  have "near (0 + 4) (real_of (rounded (wilson_z * wilson_z))) ((real_of wilson_z)\<^sup>2)"
    using z by (intro near_rounded) (simp_all add: of_rat_mult power2_eq_square)
  then show "near 4 (real_of z2) ((real_of wilson_z)\<^sup>2)" by (simp add: z2_def)
  show "0 \<le> z2" using z(1) by (simp add: z2_def)
  have "z2 \<le> rounded (of_int 4)" unfolding z2_def using z mult_mono [of wilson_z 2 wilson_z 2] by (intro rounded_mono) auto
  also have "rounded (of_int 4) = 4"
    by (simp add: rounded_def leading_exponent_def Let_def precision_def half_even_def floorlog_def)
  finally have "real_of z2 \<le> real_of 4" unfolding of_rat_less_eq .
  then show "real_of z2 \<le> 4" by simp
qed

definition shrink :: "rat \<Rightarrow> rat" where
  "shrink n = rounded (1 + rounded (z2 / n))"

lemma over_n:
  assumes "1 \<le> (n :: rat)"
  shows "1 \<le> real_of n" "0 \<le> real_of x \<Longrightarrow> real_of x \<le> B \<Longrightarrow> real_of (x / n) \<le> B"
proof -
  show n: "1 \<le> real_of n" using assms of_rat_less_eq [of 1 n] by simp
  assume "0 \<le> real_of x" "real_of x \<le> B"
  then show "real_of (x / n) \<le> B" using n abs_divide_le [OF n, of "real_of x"] by (simp add: of_rat_divide)
qed

lemma shrink:
  assumes "1 \<le> n"
  shows "\<bar>real_of (shrink n) - (1 + (real_of wilson_z)\<^sup>2 / real_of n)\<bar> \<le> 18 * unit_error * (1 + (real_of wilson_z)\<^sup>2 / real_of n)"
    "1 \<le> shrink n" "1 \<le> real_of (shrink n)"
proof -
  note n = over_n [OF assms]
  have "near 4 (real_of (z2 / n)) ((real_of wilson_z)\<^sup>2 / real_of n)"
    unfolding of_rat_divide using z2(1) n(1) by (rule near_quotient)
  then have a: "near (4 + 4) (real_of (rounded (z2 / n))) ((real_of wilson_z)\<^sup>2 / real_of n)"
    using z2 n assms by (intro near_rounded) (auto intro: divide_nonneg_nonneg)
  have r: "0 \<le> rounded (z2 / n)" using z2 assms by simp
  have "real_of (rounded (z2 / n)) \<le> 8"
    using relative_error [of "z2 / n"] n(2) [of z2 4] z2 assms unit_error mult_mono [of unit_error 1 "real_of (z2 / n)" 4]
    by (auto simp: abs_le_iff)
  then have "near (0 + (4 + 4) + 10) (real_of (shrink n)) (1 + (real_of wilson_z)\<^sup>2 / real_of n)"
    unfolding shrink_def using near_add [OF near_refl a, of 1] r by (intro near_rounded) (simp_all add: of_rat_add)
  then have "\<bar>real_of (shrink n) - (1 + (real_of wilson_z)\<^sup>2 / real_of n)\<bar> \<le> 18 * unit_error * 1" by (simp add: near_def)
  also have "\<dots> \<le> 18 * unit_error * (1 + (real_of wilson_z)\<^sup>2 / real_of n)"
    using unit_error(1) n(1) by (intro mult_left_mono) (simp_all add: divide_nonneg_nonneg)
  finally show "\<bar>real_of (shrink n) - (1 + (real_of wilson_z)\<^sup>2 / real_of n)\<bar> \<le> 18 * unit_error * (1 + (real_of wilson_z)\<^sup>2 / real_of n)" .
  show s: "1 \<le> shrink n" unfolding shrink_def using rounded_mono [of 1 "1 + rounded (z2 / n)"] r by simp
  then show "1 \<le> real_of (shrink n)" by (rule over_n)
qed

lemma doubled:
  assumes "1 \<le> n"
  shows "\<bar>real_of (rounded (2 * n)) - 2 * real_of n\<bar> \<le> 1 * unit_error * (2 * real_of n)" "n \<le> rounded (2 * n)"
proof -
  show e: "\<bar>real_of (rounded (2 * n)) - 2 * real_of n\<bar> \<le> 1 * unit_error * (2 * real_of n)"
    using relative_error [of "2 * n"] assms by (simp add: of_rat_mult)
  have "unit_error * (2 * real_of n) \<le> 1 / 100 * (2 * real_of n)"
    using unit_error over_n [OF assms] by (intro mult_right_mono) auto
  then have "real_of n \<le> real_of (rounded (2 * n))" using abs_le_D2 [OF e] over_n(1) [OF assms] by linarith
  then show "n \<le> rounded (2 * n)" by (simp add: of_rat_less_eq)
qed

lemma center_near:
  assumes "1 \<le> n" "0 \<le> p" "p \<le> 1"
  shows "near 200 (real_of (wilson_center (rounded p) n)) (exact_center (real_of p) (real_of n))"
    "0 \<le> wilson_center (rounded p) n" "wilson_center (rounded p) n \<le> 1"
proof -
  note n = over_n [OF assms(1)]
  have p: "0 \<le> rounded p" "rounded p \<le> 1" "real_of (rounded p) \<le> 1" "real_of p \<le> 1"
    using assms rounded_le_1 [of p] of_rat_less_eq [of "rounded p" 1] of_rat_less_eq [of p 1] by simp_all
  have np: "near (0 + 1) (real_of (rounded p)) (real_of p)" using assms p by (intro near_rounded near_refl) auto
  have h: "1 \<le> real_of (rounded (2 * n))" "0 < rounded (2 * n)"
    using doubled(2) [OF assms(1)] assms(1) over_n(1) [of "rounded (2 * n)"] by simp_all
  have n2: "1 \<le> 2 * real_of n" using n(1) by linarith
  have "near (4 + 4 * 1) (real_of (z2 / rounded (2 * n))) ((real_of wilson_z)\<^sup>2 / (2 * real_of n))"
    unfolding of_rat_divide using z2(1) doubled(1) [OF assms(1)] h n2 z by (intro near_divide) auto
  moreover have q: "real_of (z2 / rounded (2 * n)) \<le> 4" using over_n(2) [of "rounded (2 * n)" z2 4] h z2 doubled(2) [OF assms(1)] assms(1) by simp
  ultimately have nq: "near (4 + 4 * 1 + 4) (real_of (rounded (z2 / rounded (2 * n)))) ((real_of wilson_z)\<^sup>2 / (2 * real_of n))"
    using z2 h by (intro near_rounded) auto
  have le: "rounded (z2 / rounded (2 * n)) \<le> rounded (z2 / n)"
    using z2 h doubled(2) [OF assms(1)] assms(1) by (intro rounded_mono divide_left_mono) auto
  have q0: "0 \<le> rounded (z2 / rounded (2 * n))" using z2 h by simp
  let ?N = "rounded p + rounded (z2 / rounded (2 * n))"
  have q1: "real_of (rounded (z2 / rounded (2 * n))) \<le> 8"
    using relative_error [of "z2 / rounded (2 * n)"] q z2 h unit_error mult_mono [of unit_error 1 "real_of (z2 / rounded (2 * n))" 4]
    by (auto simp: abs_le_iff)
  have N9: "real_of ?N \<le> 9" unfolding of_rat_add using p(3) q1 by linarith
  have nN: "near (0 + 1 + (4 + 4 * 1 + 4) + 9) (real_of (rounded ?N)) (real_of p + (real_of wilson_z)\<^sup>2 / (2 * real_of n))"
    using near_add [OF np nq] p(1) q0 N9 by (intro near_rounded) (simp_all add: of_rat_add)
  have N: "0 \<le> rounded ?N" "rounded ?N \<le> shrink n"
    unfolding shrink_def using p q0 le by (auto intro!: rounded_mono)
  have frac: "0 \<le> rounded ?N / shrink n" "rounded ?N / shrink n \<le> 1" using N shrink(2) [OF assms(1)] by auto
  have c: "wilson_center (rounded p) n = rounded (rounded ?N / shrink n)" by (simp add: wilson_center_def z2_def shrink_def Let_def)
  show "0 \<le> wilson_center (rounded p) n" "wilson_center (rounded p) n \<le> 1" unfolding c using frac rounded_le_1 by simp_all
  have "\<bar>real_of p + (real_of wilson_z)\<^sup>2 / (2 * real_of n)\<bar> \<le> 5"
  proof -
    have "\<bar>(real_of wilson_z)\<^sup>2 / (2 * real_of n)\<bar> \<le> \<bar>(real_of wilson_z)\<^sup>2\<bar>" by (rule abs_divide_le [OF n2])
    also have "\<dots> \<le> 4" using z(5) by simp
    finally have "\<bar>(real_of wilson_z)\<^sup>2 / (2 * real_of n)\<bar> \<le> 4" .
    moreover have "\<bar>real_of p\<bar> \<le> 1" using p(4) assms(2) by simp
    ultimately show ?thesis by linarith
  qed
  then have "near (0 + 1 + (4 + 4 * 1 + 4) + 9 + 5 * 18) (real_of (rounded ?N / shrink n)) (exact_center (real_of p) (real_of n))"
    unfolding exact_center_def Let_def of_rat_divide using nN shrink [OF assms(1)] n by (intro near_divide) auto
  then have "near (0 + 1 + (4 + 4 * 1 + 4) + 9 + 5 * 18 + 1) (real_of (wilson_center (rounded p) n)) (exact_center (real_of p) (real_of n))"
    unfolding c using frac of_rat_less_eq [of "rounded ?N / shrink n" 1] by (intro near_rounded) auto
  then show "near 200 (real_of (wilson_center (rounded p) n)) (exact_center (real_of p) (real_of n))" by (rule near_weaken) simp
qed

lemma real_le_1: "x \<le> 1 \<Longrightarrow> real_of x \<le> 1"
  using of_rat_less_eq [of x 1] by simp

lemma quadrupled:
  assumes "1 \<le> n"
  shows "\<bar>real_of (rounded (rounded (4 * n) * n)) - 4 * (real_of n)\<^sup>2\<bar> \<le> 4 * unit_error * (4 * (real_of n)\<^sup>2)"
    "1 \<le> rounded (rounded (4 * n) * n)"
proof -
  let ?d = "rounded (4 * n)"
  note n = over_n(1) [OF assms]
  have e: "\<bar>real_of ?d - 4 * real_of n\<bar> \<le> unit_error * (4 * real_of n)"
    using relative_error [of "4 * n"] assms by (simp add: of_rat_mult)
  have d1: "1 \<le> ?d" using rounded_mono [of 1 "4 * n"] assms by simp
  then have "1 \<le> ?d * n" using mult_mono [of 1 ?d 1 n] assms by simp
  then show "1 \<le> rounded (?d * n)" using rounded_mono [of 1 "?d * n"] by simp
  have e2: "\<bar>real_of ?d * real_of n - 4 * (real_of n)\<^sup>2\<bar> \<le> unit_error * (4 * (real_of n)\<^sup>2)"
  proof -
    have "\<bar>real_of ?d * real_of n - 4 * (real_of n)\<^sup>2\<bar> = \<bar>real_of ?d - 4 * real_of n\<bar> * real_of n"
      unfolding abs_mult_pos [OF order_trans [OF zero_le_one n]] by (simp add: power2_eq_square algebra_simps)
    also have "\<dots> \<le> unit_error * (4 * real_of n) * real_of n" using e n by (intro mult_right_mono) linarith+
    finally show ?thesis by (simp add: power2_eq_square algebra_simps)
  qed
  have small: "unit_error * (4 * (real_of n)\<^sup>2) \<le> 1 / 100 * (4 * (real_of n)\<^sup>2)" using unit_error by (intro mult_right_mono) auto
  then have le: "real_of ?d * real_of n \<le> 8 * (real_of n)\<^sup>2" using abs_le_D1 [OF e2] zero_le_power2 [of "real_of n"] by linarith
  have "\<bar>real_of (rounded (?d * n)) - real_of ?d * real_of n\<bar> \<le> unit_error * (real_of ?d * real_of n)"
    using relative_error [of "?d * n"] d1 assms by (simp add: of_rat_mult)
  also have "\<dots> \<le> unit_error * (8 * (real_of n)\<^sup>2)" using le unit_error by (intro mult_left_mono) auto
  finally have "\<bar>real_of (rounded (?d * n)) - 4 * (real_of n)\<^sup>2\<bar> \<le> unit_error * (8 * (real_of n)\<^sup>2) + unit_error * (4 * (real_of n)\<^sup>2)"
    using e2 by linarith
  also have "\<dots> \<le> 4 * unit_error * (4 * (real_of n)\<^sup>2)" using unit_error(1) by simp
  finally show "\<bar>real_of (rounded (?d * n)) - 4 * (real_of n)\<^sup>2\<bar> \<le> 4 * unit_error * (4 * (real_of n)\<^sup>2)" .
qed

definition spread :: "rat \<Rightarrow> rat \<Rightarrow> rat" where
  "spread p n = rounded (rounded (rounded (p * rounded (1 - p)) / n) + rounded (z2 / rounded (rounded (4 * n) * n)))"

lemma spread_near:
  assumes "1 \<le> n" "0 \<le> p" "p \<le> 1"
  shows "near 38 (real_of (spread (rounded p) n))
      (real_of p * (1 - real_of p) / real_of n + (real_of wilson_z)\<^sup>2 / (4 * (real_of n)\<^sup>2))"
    "0 \<le> spread (rounded p) n" "real_of (spread (rounded p) n) \<le> 16"
proof -
  let ?p = "rounded p" let ?q = "rounded (1 - ?p)" let ?b = "rounded (?p * ?q)" let ?c = "rounded (?b / n)"
  let ?f = "rounded (rounded (4 * n) * n)" let ?g = "rounded (z2 / ?f)"
  note n = over_n(1) [OF assms(1)] and f = quadrupled [OF assms(1)]
  have f0: "0 < ?f" "1 \<le> real_of ?f" using f(2) over_n(1) by auto
  have n4: "1 \<le> 4 * (real_of n)\<^sup>2" using n one_le_power [of "real_of n" 2] by linarith
  have p: "0 \<le> ?p" "?p \<le> 1" using assms rounded_le_1 by simp_all
  then have q: "0 \<le> ?q" "?q \<le> 1" using rounded_le_1 by simp_all
  have pq: "0 \<le> ?p * ?q" "?p * ?q \<le> 1" using p q mult_mono [of ?p 1 ?q 1] by simp_all
  then have b: "0 \<le> ?b" "?b \<le> 1" using rounded_le_1 by simp_all
  have bn: "0 \<le> ?b / n" "?b / n \<le> 1" using b assms(1) by auto
  then have c: "0 \<le> ?c" "?c \<le> 1" using rounded_le_1 by simp_all
  have np: "near (0 + 1) (real_of ?p) (real_of p)" using assms by (intro near_rounded near_refl real_le_1) auto
  have nq: "near (0 + (0 + 1) + 1) (real_of ?q) (1 - real_of p)"
    using near_diff [OF near_refl np, of 1] p by (intro near_rounded real_le_1) (simp_all add: of_rat_diff)
  have "near ((0 + 1) * 1 + 1 * (0 + (0 + 1) + 1)) (real_of (?p * ?q)) (real_of p * (1 - real_of p))"
    unfolding of_rat_mult using np nq q assms by (intro near_mult) simp_all
  then have "near ((0 + 1) * 1 + 1 * (0 + (0 + 1) + 1) + 1) (real_of ?b) (real_of p * (1 - real_of p))"
    using pq by (intro near_rounded real_le_1)
  from near_quotient [OF this n]
  have nc: "near ((0 + 1) * 1 + 1 * (0 + (0 + 1) + 1) + 1 + 1) (real_of ?c) (real_of p * (1 - real_of p) / real_of n)"
    using bn by (intro near_rounded real_le_1) (simp_all add: of_rat_divide)
  have zf: "real_of (z2 / ?f) \<le> 4" using over_n(2) [of ?f z2 4] z2 f(2) by simp
  have "near (4 + 4 * 4) (real_of (z2 / ?f)) ((real_of wilson_z)\<^sup>2 / (4 * (real_of n)\<^sup>2))"
    unfolding of_rat_divide using z2(1) f(1) f0 n4 z(5) by (intro near_divide) simp_all
  then have ng: "near (4 + 4 * 4 + 4) (real_of ?g) ((real_of wilson_z)\<^sup>2 / (4 * (real_of n)\<^sup>2))"
    using zf z2(2) f0 by (intro near_rounded) simp_all
  have u: "unit_error * real_of (z2 / ?f) \<le> 1 * 4" using zf z2 f0 unit_error by (intro mult_mono) simp_all
  have g: "0 \<le> ?g" "real_of ?g \<le> 8"
    using abs_le_D1 [OF relative_error [of "z2 / ?f"]] u zf z2(2) f0 by simp_all
  have cg: "0 \<le> ?c + ?g" "real_of (?c + ?g) \<le> 9"
    using c(1) g(1) add_mono [OF real_le_1 [OF c(2)] g(2)] by (simp_all add: of_rat_add)
  have v: "unit_error * real_of (?c + ?g) \<le> 1 / 100 * 9" using cg unit_error by (intro mult_mono) simp_all
  have "near (((0 + 1) * 1 + 1 * (0 + (0 + 1) + 1) + 1 + 1) + (4 + 4 * 4 + 4) + 9) (real_of (spread ?p n))
      (real_of p * (1 - real_of p) / real_of n + (real_of wilson_z)\<^sup>2 / (4 * (real_of n)\<^sup>2))"
    unfolding spread_def using near_add [OF nc ng] cg by (intro near_rounded) (simp_all add: of_rat_add)
  then show "near 38 (real_of (spread ?p n)) (real_of p * (1 - real_of p) / real_of n + (real_of wilson_z)\<^sup>2 / (4 * (real_of n)\<^sup>2))" by simp
  show "0 \<le> spread ?p n" unfolding spread_def using cg by simp
  show "real_of (spread ?p n) \<le> 16"
    unfolding spread_def using abs_le_D1 [OF relative_error [OF cg(1)]] v cg by simp
qed

text \<open>The error of the root is the root of the error: about \<open>10\<^sup>-\<^sup>2\<^sup>4\<close>.\<close>

lemma margin_near:
  assumes "1 \<le> n" "0 \<le> p" "p \<le> 1"
  shows "near (10 ^ 27) (real_of (wilson_margin (rounded p) n)) (exact_margin (real_of p) (real_of n))"
    "0 \<le> wilson_margin (rounded p) n" "real_of (wilson_margin (rounded p) n) \<le> 24"
proof -
  let ?S = "spread (rounded p) n" let ?T = "rounded_sqrt ?S" let ?m = "rounded (wilson_z * ?T)"
  let ?s = "real_of p * (1 - real_of p) / real_of n + (real_of wilson_z)\<^sup>2 / (4 * (real_of n)\<^sup>2)"
  note S = spread_near [OF assms] and n = over_n(1) [OF assms(1)] and D = shrink [OF assms(1)]
  have p: "0 \<le> real_of p" "real_of p \<le> 1" using assms real_le_1 by simp_all
  have s0: "0 \<le> ?s" using p n by (intro add_nonneg_nonneg divide_nonneg_nonneg mult_nonneg_nonneg) auto
  have s17: "?s \<le> 17" using S(1,3) unit_error by (auto simp: near_def abs_le_iff)
  have root: "sqrt (real_of ?S) \<le> 4" "sqrt ?s \<le> 5"
    using S(3) s17 by (auto intro!: real_le_lsqrt simp: S(2) s0)
  have "\<bar>sqrt (real_of ?S) - sqrt ?s\<bar> \<le> sqrt \<bar>real_of ?S - ?s\<bar>" using S(2) s0 by (intro sqrt_near) auto
  also have "\<dots> \<le> sqrt ((1 / 10 ^ 23)\<^sup>2)"
    using S(1) by (intro real_sqrt_le_mono) (simp add: near_def unit_error_def power2_eq_square)
  finally have a: "\<bar>sqrt (real_of ?S) - sqrt ?s\<bar> \<le> 1 / 10 ^ 23" by simp
  have "\<bar>real_of ?T - sqrt (real_of ?S)\<bar> \<le> sqrt (real_of ?S) * unit_error"
    using rounded_sqrt_error(1) [OF S(2)] by (simp add: unit_error_def)
  also have "\<dots> \<le> 4 * unit_error" using root unit_error by (intro mult_right_mono) auto
  finally have b: "\<bar>real_of ?T - sqrt (real_of ?S)\<bar> \<le> 4 * unit_error" .
  have T: "0 \<le> ?T" "real_of ?T \<le> 5" using rounded_sqrt_error(2) [OF S(2)] abs_le_D1 [OF b] root unit_error by simp_all
  have "1 / 10 ^ 23 + 4 * unit_error \<le> 3 * 10 ^ 26 * unit_error" by (simp add: unit_error_def)
  then have "near (3 * 10 ^ 26) (real_of ?T) (sqrt ?s)" using a b unfolding near_def by linarith
  then have "near (0 * 5 + 2 * (3 * 10 ^ 26)) (real_of wilson_z * real_of ?T) (real_of wilson_z * sqrt ?s)"
    using T z by (intro near_mult near_refl) auto
  moreover have zT: "real_of (wilson_z * ?T) \<le> 10" "0 \<le> wilson_z * ?T"
    using T z mult_mono [of "real_of wilson_z" 2 "real_of ?T" 5] by (simp_all add: of_rat_mult)
  ultimately have nm: "near (0 * 5 + 2 * (3 * 10 ^ 26) + 10) (real_of ?m) (real_of wilson_z * sqrt ?s)"
    by (intro near_rounded) (simp_all only: of_rat_mult)
  have m: "0 \<le> ?m" "real_of ?m \<le> 12"
    using zT abs_le_D1 [OF relative_error [OF zT(2)]] unit_error mult_mono [of unit_error "1 / 100" "real_of (wilson_z * ?T)" 10] by simp_all
  have d: "real_of (?m / shrink n) \<le> 12" "0 \<le> ?m / shrink n"
    using over_n(2) [OF D(2), of ?m 12] m D(2) by simp_all
  have "\<bar>real_of wilson_z * sqrt ?s\<bar> \<le> 10"
    unfolding abs_mult using z root(2) s0 mult_mono [of "real_of wilson_z" 2 "sqrt ?s" 5] by simp
  then have "near (0 * 5 + 2 * (3 * 10 ^ 26) + 10 + 10 * 18) (real_of (?m / shrink n)) (exact_margin (real_of p) (real_of n))"
    unfolding exact_margin_def Let_def of_rat_divide using nm D n by (intro near_divide) (auto intro: divide_nonneg_nonneg)
  then have "near (0 * 5 + 2 * (3 * 10 ^ 26) + 10 + 10 * 18 + 12) (real_of (rounded (?m / shrink n))) (exact_margin (real_of p) (real_of n))"
    using d by (intro near_rounded)
  moreover have w: "wilson_margin (rounded p) n = rounded (?m / shrink n)"
    by (simp add: wilson_margin_def spread_def shrink_def z2_def Let_def)
  ultimately show "near (10 ^ 27) (real_of (wilson_margin (rounded p) n)) (exact_margin (real_of p) (real_of n))"
    using near_weaken [of "0 * 5 + 2 * (3 * 10 ^ 26) + 10 + 10 * 18 + 12"] by simp
  show "0 \<le> wilson_margin (rounded p) n" unfolding w using d by simp
  show "real_of (wilson_margin (rounded p) n) \<le> 24"
    unfolding w using d abs_le_D1 [OF relative_error [OF d(2)]] unit_error mult_mono [of unit_error 1 "real_of (?m / shrink n)" 12] by simp
qed

section \<open>The bounds\<close>

definition exact_lower :: "real \<Rightarrow> real \<Rightarrow> real" where "exact_lower p n = exact_center p n - exact_margin p n"
definition exact_upper :: "real \<Rightarrow> real \<Rightarrow> real" where "exact_upper p n = exact_center p n + exact_margin p n"

text \<open>A share \<open>q\<close> is at least as far from its end of the interval as the margin is wide.\<close>

lemma margin_le:
  fixes q n w :: real
  assumes "0 < n" "0 \<le> q" "0 \<le> w"
  shows "w * sqrt (q * (1 - q) / n + w\<^sup>2 / (4 * n\<^sup>2)) \<le> q + w\<^sup>2 / (2 * n)"
proof -
  have "w\<^sup>2 * (q * (1 - q) / n + w\<^sup>2 / (4 * n\<^sup>2)) = (q + w\<^sup>2 / (2 * n))\<^sup>2 - q\<^sup>2 * (1 + w\<^sup>2 / n)"
    using assms(1) by (simp add: field_simps power2_eq_square)
  moreover have "0 \<le> q\<^sup>2 * (1 + w\<^sup>2 / n)" using assms by simp
  ultimately have "w\<^sup>2 * (q * (1 - q) / n + w\<^sup>2 / (4 * n\<^sup>2)) \<le> (q + w\<^sup>2 / (2 * n))\<^sup>2" by linarith
  then have "sqrt (w\<^sup>2 * (q * (1 - q) / n + w\<^sup>2 / (4 * n\<^sup>2))) \<le> q + w\<^sup>2 / (2 * n)"
    using assms by (intro real_le_lsqrt) auto
  then show ?thesis using assms(3) by (simp add: real_sqrt_mult)
qed

lemma exact_interval:
  assumes "1 \<le> n" "0 \<le> p" "p \<le> 1"
  shows "0 \<le> exact_lower p n" "exact_upper p n \<le> 1"
proof -
  let ?z = "real_of wilson_z"
  have d: "0 < 1 + ?z\<^sup>2 / n" using assms(1) by (simp add: add_pos_nonneg)
  have l: "?z * sqrt (p * (1 - p) / n + ?z\<^sup>2 / (4 * n\<^sup>2)) \<le> p + ?z\<^sup>2 / (2 * n)" using assms z by (intro margin_le) auto
  have flip: "(1 - p) * (1 - (1 - p)) = p * (1 - p)" and half: "?z\<^sup>2 / n = ?z\<^sup>2 / (2 * n) + ?z\<^sup>2 / (2 * n)" by simp_all
  have "?z * sqrt ((1 - p) * (1 - (1 - p)) / n + ?z\<^sup>2 / (4 * n\<^sup>2)) \<le> (1 - p) + ?z\<^sup>2 / (2 * n)"
    using assms z by (intro margin_le) auto
  then have u: "p + ?z\<^sup>2 / (2 * n) + ?z * sqrt (p * (1 - p) / n + ?z\<^sup>2 / (4 * n\<^sup>2)) \<le> 1 + ?z\<^sup>2 / n"
    unfolding flip using half by linarith
  show "0 \<le> exact_lower p n"
    unfolding exact_lower_def exact_center_def exact_margin_def Let_def diff_divide_distrib [symmetric]
    using l d by (intro divide_nonneg_pos) auto
  show "exact_upper p n \<le> 1"
    unfolding exact_upper_def exact_center_def exact_margin_def Let_def add_divide_distrib [symmetric]
    using u d by (simp add: divide_le_eq)
qed

lemma rounded_nonpos: "x \<le> 0 \<Longrightarrow> rounded x \<le> 0"
proof (cases "x = 0")
  case False
  assume "x \<le> 0"
  let ?s = "(10 :: rat) powi (precision - 1 - leading_exponent \<bar>x\<bar>)"
  have "half_even (x * ?s) \<le> half_even (of_int 0)" using \<open>x \<le> 0\<close> by (intro half_even_mono) (simp add: mult_nonpos_nonneg)
  then have "half_even (x * ?s) \<le> 0" unfolding half_even_int .
  then show ?thesis using False by (simp add: rounded_def Let_def divide_nonpos_nonneg)
qed simp

lemma wilson_bounds_near:
  assumes "1 \<le> trials" "0 \<le> successes" "successes \<le> trials"
    and "wilson_bounds successes trials = (lower, upper)"
  defines "p \<equiv> of_int successes / of_int trials"
  shows "0 \<le> lower" "lower \<le> upper" "upper \<le> 1"
    "near (10 ^ 28) (real_of lower) (exact_lower p (of_int trials))" "near (10 ^ 28) (real_of upper) (exact_upper p (of_int trials))"
proof -
  let ?q = "of_int successes / of_int trials :: rat" and ?n = "of_int trials :: rat"
  let ?c = "wilson_center (rounded ?q) ?n" and ?m = "wilson_margin (rounded ?q) ?n"
  have n: "1 \<le> ?n" and q: "0 \<le> ?q" "?q \<le> 1" using assms(1-3) by auto
  have r: "real_of ?q = p" "real_of ?n = of_int trials" by (simp_all add: p_def of_rat_divide)
  note c = center_near [OF n q, unfolded r] and m = margin_near [OF n q, unfolded r]
  have p: "1 \<le> (of_int trials :: real)" "0 \<le> p" "p \<le> 1" using assms(1-3) by (auto simp: p_def)
  note ex = exact_interval [OF p]
  have b: "lower = max 0 (rounded (?c - ?m))" "upper = min 1 (rounded (?c + ?m))"
    using assms(4) by (simp_all add: wilson_bounds_def Let_def)
  have sum: "0 \<le> rounded (?c + ?m)" using c(2) m(2) by (intro rounded_nonneg add_nonneg_nonneg)
  have low: "rounded (?c - ?m) \<le> 1 \<and> rounded (?c - ?m) \<le> rounded (?c + ?m)"
  proof (cases "0 \<le> ?c - ?m")
    case True
    moreover have "?c - ?m \<le> 1" "?c - ?m \<le> ?c + ?m" using c(3) m(2) by linarith+
    ultimately show ?thesis by (blast intro: rounded_le_1 rounded_mono)
  next
    case False
    then have "rounded (?c - ?m) \<le> 0" by (intro rounded_nonpos) linarith
    then show ?thesis using sum by linarith
  qed
  show "0 \<le> lower" "lower \<le> upper" "upper \<le> 1" unfolding b using low sum by auto
  have nl: "near (200 + 10 ^ 27) (real_of (?c - ?m)) (exact_lower p (of_int trials))"
    and nu: "near (200 + 10 ^ 27) (real_of (?c + ?m)) (exact_upper p (of_int trials))"
    unfolding exact_lower_def exact_upper_def of_rat_diff of_rat_add by (intro near_diff near_add c m)+
  have cm: "real_of (?c + ?m) \<le> 25" "real_of (?c - ?m) \<le> 25"
    unfolding of_rat_add of_rat_diff using add_mono [OF real_le_1 [OF c(3)] m(3)] diff_mono [OF real_le_1 [OF c(3)], of 0 "real_of ?m"] m(2)
    by simp_all
  have "near (200 + 10 ^ 27 + 25) (real_of lower) (exact_lower p (of_int trials))"
  proof (cases "0 \<le> ?c - ?m")
    case True
    then show ?thesis unfolding b using near_rounded [OF nl True cm(2)] by (simp add: max_absorb2)
  next
    case False
    then have "lower = 0" "real_of (?c - ?m) \<le> 0" unfolding b using rounded_nonpos [of "?c - ?m"] by (simp_all add: max_absorb1)
    moreover from this have "exact_lower p (of_int trials) \<le> (200 + 10 ^ 27) * unit_error"
      using abs_le_D2 [OF nl [unfolded near_def]] by linarith
    ultimately show ?thesis using ex(1) unit_error(1) unfolding near_def by simp
  qed
  then show "near (10 ^ 28) (real_of lower) (exact_lower p (of_int trials))" by (rule near_weaken) simp
  have nr: "near (200 + 10 ^ 27 + 25) (real_of (rounded (?c + ?m))) (exact_upper p (of_int trials))"
    using c(2) m(2) by (intro near_rounded [OF nu _ cm(1)]) simp
  have "near (200 + 10 ^ 27 + 25) (real_of upper) (exact_upper p (of_int trials))"
  proof (cases "rounded (?c + ?m) \<le> 1")
    case True
    then show ?thesis unfolding b using nr by (simp add: min_absorb2)
  next
    case False
    then have "upper = 1" "1 \<le> real_of (rounded (?c + ?m))" unfolding b using of_rat_less_eq [of 1 "rounded (?c + ?m)"] by simp_all
    moreover from this have "1 - exact_upper p (of_int trials) \<le> (200 + 10 ^ 27 + 25) * unit_error"
      using abs_le_D1 [OF nr [unfolded near_def]] by linarith
    ultimately show ?thesis using ex(2) unfolding near_def by simp
  qed
  then show "near (10 ^ 28) (real_of upper) (exact_upper p (of_int trials))" by (rule near_weaken) simp
qed

section \<open>What is printed\<close>

lemma millionths_near:
  assumes "0 \<le> x"
  shows "\<bar>of_nat (millionths x) / 10 ^ 6 - real_of x\<bar> \<le> 1 / 2 / 10 ^ 6"
proof -
  let ?y = "x * 10 ^ 6 + 1 / 2"
  have "(of_nat (millionths x) :: rat) = of_int \<lfloor>?y\<rfloor>" using assms by (simp add: millionths_def summary_decimal_places_def)
  then have "(of_nat (millionths x) :: rat) \<le> x * 10 ^ 6 + 1 / 2" "x * 10 ^ 6 + 1 / 2 \<le> of_nat (millionths x) + 1"
    using floor_correct [of ?y] by linarith+
  then have "real_of (of_nat (millionths x)) \<le> real_of (x * 10 ^ 6 + 1 / 2)" "real_of (x * 10 ^ 6 + 1 / 2) \<le> real_of (of_nat (millionths x) + 1)"
    unfolding of_rat_less_eq .
  then show ?thesis by (intro abs_leI) (simp_all add: of_rat_add of_rat_mult of_rat_power of_rat_divide field_simps)
qed

lemma millionths_mono: "x \<le> y \<Longrightarrow> millionths x \<le> millionths y"
  unfolding millionths_def by (intro nat_mono floor_mono add_mono mult_right_mono) auto

lemma millionths_1 [simp]: "millionths 1 = 10 ^ 6"
proof -
  have "\<lfloor>(10 :: rat) ^ 6 + 1 / 2\<rfloor> = 10 ^ 6" by (simp add: floor_eq_iff)
  then show ?thesis by (simp add: millionths_def summary_decimal_places_def)
qed

lemma printed_near:
  assumes "0 \<le> x" "near (10 ^ 28) (real_of x) y"
  shows "\<bar>of_nat (millionths x) / 10 ^ 6 - y\<bar> \<le> 51 / 10 ^ 8"
proof -
  have "10 ^ 28 * unit_error \<le> 1 / 10 ^ 8" by (simp add: unit_error_def)
  then have "\<bar>real_of x - y\<bar> \<le> 1 / 10 ^ 8" using assms(2) unfolding near_def by linarith
  moreover have "(51 / 10 ^ 8 :: real) = 1 / 2 / 10 ^ 6 + 1 / 10 ^ 8" by simp
  ultimately show ?thesis using millionths_near [OF assms(1)] by linarith
qed

text \<open>
  C39: The Wilson interval of a summary is the Wilson interval. \<open>wilson_interval\<close> raises exactly for
  arguments that are not a number of successes among at least one trial. Otherwise the two decimals
  it prints lie between 0 and 1 and are ordered, and each is within 0.51 millionths of the bound of
  the score interval over the real numbers, so no rounding of the fifty-digit arithmetic shows but
  the last one; and the printed rate is as close to the share of successes.
\<close>
theorem wilson_interval_is_exact:
  "case wilson_interval successes trials of
     Inl e \<Rightarrow> exc_name e = ''ValueError'' \<and> (trials < 1 \<or> successes < 0 \<or> trials < successes)
   | Inr interval \<Rightarrow>
       (let p = of_int successes / of_int trials in
        1 \<le> trials \<and> 0 \<le> successes \<and> successes \<le> trials \<and>
        (\<exists>low high share.
           dget interval ''lower'' = PStr (millionths_text low) \<and> dget interval ''upper'' = PStr (millionths_text high) \<and>
           rate successes trials = millionths_text share \<and> low \<le> high \<and> high \<le> 10 ^ 6 \<and>
           \<bar>of_nat low / 10 ^ 6 - exact_lower p (of_int trials)\<bar> \<le> 51 / 10 ^ 8 \<and>
           \<bar>of_nat high / 10 ^ 6 - exact_upper p (of_int trials)\<bar> \<le> 51 / 10 ^ 8 \<and>
           \<bar>of_nat share / 10 ^ 6 - p\<bar> \<le> 51 / 10 ^ 8))"
proof (cases "1 \<le> trials \<and> 0 \<le> successes \<and> successes \<le> trials")
  case False
  then show ?thesis by (auto simp: wilson_interval_def exc_def)
next
  case True
  then have a: "1 \<le> trials" "0 \<le> successes" "successes \<le> trials" by auto
  obtain lower upper where b: "wilson_bounds successes trials = (lower, upper)" by force
  note near = wilson_bounds_near [OF a b]
  let ?p = "of_int successes / of_int trials :: rat"
  have p: "0 \<le> ?p" "?p \<le> 1" "real_of ?p = of_int successes / of_int trials" using a by (auto simp: of_rat_divide)
  have "near (0 + 1) (real_of (rounded ?p)) (real_of ?p)" using p by (intro near_rounded near_refl real_le_1)
  then have share: "near (10 ^ 28) (real_of (rounded ?p)) (of_int successes / of_int trials)" unfolding p(3) by (rule near_weaken) simp
  have "\<exists>low high share. decimal lower = millionths_text low \<and> decimal upper = millionths_text high \<and>
      rate successes trials = millionths_text share \<and> low \<le> high \<and> high \<le> 10 ^ 6 \<and>
      \<bar>of_nat low / 10 ^ 6 - exact_lower (of_int successes / of_int trials) (of_int trials)\<bar> \<le> 51 / 10 ^ 8 \<and>
      \<bar>of_nat high / 10 ^ 6 - exact_upper (of_int successes / of_int trials) (of_int trials)\<bar> \<le> 51 / 10 ^ 8 \<and>
      \<bar>of_nat share / 10 ^ 6 - of_int successes / of_int trials\<bar> \<le> (51 / 10 ^ 8 :: real)"
    using near p(1) share millionths_mono [OF near(2)] millionths_mono [OF near(3)]
    by (intro exI [of _ "millionths lower"] exI [of _ "millionths upper"] exI [of _ "millionths (rounded ?p)"] conjI printed_near)
      (simp_all add: decimal_def rate_def)
  then show ?thesis using True unfolding wilson_interval_def b Let_def by (simp add: dget_def not_less)
qed

theorem wilson_interval_is_exact_witness:
  "\<exists>interval. wilson_interval 3 10 = Inr interval \<and> (\<exists>high. dget interval ''upper'' = PStr (millionths_text high) \<and> high \<le> 10 ^ 6)"
  using wilson_interval_is_exact [of 10 3] by (auto simp: Let_def split: sum.splits)

end
