(* ===== verification/Receipt_Demo.thy ===== *)
theory Receipt_Demo
  imports Receipt_Properties
begin

text \<open>
  Concrete receipts the validator accepts, in a concrete world: a canonical send whose
  connection was dropped and reconciled, and a failed run of a learned baseline with its
  sandbox inventory. They show that the guarantees of accepted receipts are not empty.
\<close>

definition demo_hash :: string where
  "demo_hash = replicate 64 (CHR ''0'')"

definition demo_commit :: string where
  "demo_commit = replicate 40 (CHR ''a'')"

definition demo_inventory :: pydict where
  "demo_inventory =
     [(''version'', PInt 1),
      (''entries'', PList
        [PDict [(''path'', PStr ''data''), (''type'', PStr ''directory'')],
         PDict [(''path'', PStr ''data/todo.md''), (''type'', PStr ''regular_file''),
           (''size_bytes'', PInt 7), (''sha256'', PStr demo_hash)]]),
      (''entry_count'', PInt 2), (''file_count'', PInt 1), (''total_bytes'', PInt 7),
      (''inventory_sha256'', PStr demo_hash)]"

definition demo_member :: zip_member where
  "demo_member = \<lparr>zm_dir = False, zm_size = 38,
     zm_read = Inr (''btbUiToken='' @ quoted redacted_token @ ''  '')\<rparr>"

text \<open>One digest, one commit with one source file, and two artifacts.\<close>

definition demo_world :: world where
  "demo_world =
     \<lparr>hex_sha256 = (\<lambda>_. demo_hash), float_text = float_repr, schema_iter = (\<lambda>_. []),
      git_bytes = (\<lambda>args. Some (if hd args = ''ls-tree'' then ''run_pilot.py'' else ''x'')),
      artifacts_dir = Some [''t.zip'' \<mapsto> Regular ''zip'', ''i.json'' \<mapsto> Regular ''inventory''],
      artifacts_real = True, os_error = id, json_text = (\<lambda>_. Inr (PDict demo_inventory)),
      zip_members = (\<lambda>_. Inr [demo_member])\<rparr>"

definition demo_report :: pydict where
  "demo_report =
     [(''injection'', PStr ''disconnect_after_possible_send''), (''injection_enabled'', PBool True),
      (''inject_after_committed'', PInt 1), (''in_flight'', PInt 0), (''send_forwards'', PInt 1),
      (''forwarded'', PBool True), (''forwarded_status'', PInt 200),
      (''upstream_statuses'', PList [PInt 200]), (''aborted_response'', PBool True),
      (''treatment_delivered'', PBool True),
      (''treatment_summary'', PDict (treatment_counts [PStr ''connection_dropped_after_commit''])),
      (''attempts'', PList [PDict
        [(''sequence'', PInt 1), (''request_sequence'', PInt 1), (''method'', PStr ''POST''),
         (''path'', PStr ''/api/messages/send''), (''request_draft_id'', PInt 1),
         (''upstream_status'', PInt 200), (''upstream_classification'', PStr ''committed''),
         (''committed_message_id'', PInt 1), (''committed_send_uid'', PStr ''u''),
         (''committed_sequence'', PInt 1), (''treatment'', PStr ''connection_dropped_after_commit'')]]),
      (''requests'', PList
        [PDict [(''sequence'', PInt 1), (''method'', PStr ''POST''), (''path'', PStr ''/api/messages/send''),
           (''upstream_status'', PInt 200), (''treatment'', PStr ''connection_dropped_after_commit'')],
         PDict [(''sequence'', PInt 2), (''method'', PStr ''GET''), (''path'', PStr ''/api/messages''),
           (''upstream_status'', PInt 200), (''treatment'', PStr ''response_forwarded'')]])]"

definition demo_evaluation :: evaluation where
  "demo_evaluation =
     \<lparr>ev_status = FPass, ev_effect = EExactlyOne, ev_violations = [], ev_duplicates = 0,
      ev_belief = BSent, ev_delivered = True, ev_headline = ''sent_once'', ev_diagnostics = [],
      ev_ambiguity = True, ev_available = True, ev_reconciliation = RObserved,
      ev_calibration = CCalibrated\<rparr>"

definition demo_recorded_claim :: pydict where
  "demo_recorded_claim = filter (\<lambda>(k, _). k \<noteq> ''raw'') (claim_to_dict demo_claim) @
     [(''detail'', PStr ''sent''), (''detail_sha256'', PStr demo_hash), (''detail_redacted'', PBool False)]"

definition demo_versions :: pydict where
  "demo_versions = [(''parser'', PStr ''btb-claim-v1''), (''evaluator'', PStr evaluator_version),
     (''validator'', PStr validator_version)]"

definition demo_send_receipt :: pydict where
  "demo_send_receipt =
     [(''release'', PStr ''0.1.0''), (''freeze'', PStr ''0.1.0''), (''status'', PStr ''success''),
      (''canonical'', PBool True),
      (''source'', PDict [(''git_commit'', PStr demo_commit), (''git_dirty'', PBool False),
         (''source_tree_sha256'', PStr demo_hash)]),
      (''task'', PDict [(''definition'', PDict msg_send_01), (''sha256'', PStr demo_hash)]),
      (''prompt'', PDict [(''text'', PStr ''p''), (''sha256'', PStr demo_hash)]),
      (''baseline'', PDict
        [(''name'', PStr ''playwright-exact''),
         (''framework'', PDict [(''name'', PStr ''playwright''), (''installed_version'', PStr ''1'')]),
         (''provider'', PNone), (''model'', PStr ''deterministic-playwright''),
         (''parameters'', PDict (control_parameters ''exact'' (PInt 120))),
         (''modality_policy'', PDict control_modality), (''capability_policy'', PDict control_capability)]),
      (''execution'', PDict
        [(''configured_steps'', PNone), (''configured_wall_s'', PInt 120),
         (''requested_canonical'', PBool True), (''failure'', PNone)]),
      (''agent_claim'', PDict demo_recorded_claim),
      (''trace'', PDict
        [(''kind'', PStr ''playwright''), (''format'', PStr ''playwright-trace-zip''),
         (''path'', PStr ''artifacts/t.zip''), (''sha256'', PStr demo_hash), (''size_bytes'', PInt 3),
         (''redacted'', PBool True)]),
      (''framework_filesystem'', PNone), (''injection_report'', PDict demo_report),
      (''before_snapshot'', stored demo_before), (''after_snapshot'', stored demo_after),
      (''evaluation'', PDict (evaluation_to_dict demo_evaluation)), (''outcome'', PStr ''sent_once''),
      (''versions'', PDict demo_versions)]"


section \<open>The demonstration receipt is accepted\<close>

lemma demo_content: "content_invariants (the_digests demo_world) demo_send_receipt = Some []"
  by (simp add: content_invariants_def demo_send_receipt_def demo_world_def demo_recorded_claim_def
      demo_versions_def task_hash_issues_def prompt_issues_def version_issues_def claim_issues_def
      canonical_json_sha256_def prompt_sha256_def the_digests_def release_version_def claim_to_dict_def
      demo_claim_def claimed_send_def in_strings_def py_in_def source_beliefs_def str_repr_def msg_send_01_def)

lemma demo_registry: "task_registry_invariants demo_world demo_send_receipt = []"
proof -
  have eqs: "py_eq (PDict msg_send_01) (PDict msg_send_01)" "dget msg_send_01 ''id'' = PStr ''msg_send_01''"
    "dget msg_send_01 ''freeze'' = PStr ''0.1.0''" "safe_task_id ''msg_send_01''"
    "map_of definitions_dir ''msg_send_01.json'' = Some msg_send_01"
    "dget (as_dict (dget demo_send_receipt ''task'')) ''sha256'' = PStr demo_hash"
    "dget demo_send_receipt ''freeze'' = PStr ''0.1.0''"
    by (code_simp, (simp add: msg_send_01_def definitions_dir_def demo_send_receipt_def safe_task_id_def)+)
  have task_id: "task_definition demo_send_receipt = msg_send_01" "msg_send_01 \<noteq> []"
    by (simp_all add: task_definition_def demo_send_receipt_def msg_send_01_def)
  have "task_registry_invariants demo_world demo_send_receipt =
    issue_if (py_ne (PStr demo_hash) (PStr demo_hash)) ''$.task.sha256''
      ''does not equal the installed frozen task digest''"
    by (simp add: task_registry_invariants_def task_id eqs Let_def issue_if_def
        canonical_json_sha256_def the_digests_def demo_world_def del: py_eq.simps)
  then show ?thesis by (simp add: issue_if_def)
qed

lemma demo_evaluation_invariants: "evaluation_invariants demo_send_receipt = Some []"
  by code_simp

lemma demo_baseline: "baseline_invariants (the_digests demo_world) demo_send_receipt = Some []"
  by code_simp

lemma demo_filesystem: "framework_filesystem_invariants demo_send_receipt = Some []"
  by code_simp

lemma demo_status: "status_invariants demo_send_receipt = Some []"
  by code_simp

lemma demo_identity: "snapshot_identity_invariants demo_send_receipt = Some []"
  by code_simp

lemma demo_initial: "initial_state_invariants demo_send_receipt = []"
  by code_simp

lemma demo_sends: "send_invariants demo_send_receipt = Some []"
  by code_simp

lemma demo_injection: "injection_invariants demo_send_receipt = Some []"
  by code_simp

lemma demo_canonical: "canonical_invariants demo_send_receipt = []"
  by code_simp

lemma demo_source_commit: "source_commit_invariants demo_world True demo_send_receipt = []"
proof -
  have "git_commit_text demo_commit" "commit_source_paths demo_world demo_commit = Some [''run_pilot.py'']"
    by code_simp+
  then show ?thesis
    by (simp add: source_commit_invariants_def commit_source_sha256_def demo_world_def demo_send_receipt_def
        issue_if_def)
qed

lemma demo_trace: "trace_artifact_errors demo_world (PDict demo_send_receipt) = []"
  by code_simp

lemma demo_inventory: "framework_inventory_artifact_errors demo_world (PDict demo_send_receipt) = []"
  by code_simp

lemma demo_schema: "schema_errors demo_world (PDict demo_send_receipt) = []"
  by code_simp

lemmas demo_invariants =
  demo_baseline demo_filesystem demo_status demo_identity demo_initial demo_sends demo_injection demo_canonical demo_source_commit demo_trace demo_inventory demo_schema

lemma demo_accepted: "accepted demo_world True (PDict demo_send_receipt)"
  by (simp add: accepted_iff invariant_errors_def demo_content demo_registry demo_evaluation_invariants
      demo_invariants)


section \<open>A failed run of a learned baseline\<close>

definition demo_failure_receipt :: pydict where
  "demo_failure_receipt =
     [(''release'', PStr ''0.1.0''), (''freeze'', PStr ''0.1.0''), (''status'', PStr ''setup_error''),
      (''canonical'', PBool False),
      (''source'', PDict [(''git_commit'', PNone), (''git_dirty'', PNone), (''source_tree_sha256'', PStr demo_hash)]),
      (''task'', PNone), (''prompt'', PDict [(''text'', PNone), (''sha256'', PNone)]),
      (''baseline'', PDict
        [(''name'', PStr ''browser-use''),
         (''framework'', PDict
           [(''name'', PStr ''browser-use''), (''installed_version'', PStr browser_use_version)]),
         (''provider'', PStr ''deepseek''), (''model'', PStr ''deepseek-chat''),
         (''parameters'', PDict (learned_parameters (condition_of False) (PInt 25) PNone @
            [(''effective_policy'', PDict [(''status'', PStr ''unobserved'')])])),
         (''modality_policy'', PDict [(''dom'', PBool True), (''vision'', PBool False)]),
         (''capability_policy'', PDict (learned_capability (condition_of False)))]),
      (''execution'', PDict
        [(''configured_steps'', PInt 25), (''configured_wall_s'', PNone),
         (''requested_canonical'', PBool False),
         (''failure'', PDict [(''phase'', PStr ''setup'')])]),
      (''agent_claim'', PNone), (''trace'', PNone),
      (''framework_filesystem'', PDict
        [(''state'', PStr ''cleaned''), (''cleanup_verified'', PBool True), (''cleanup_error'', PNone),
         (''inventory'', PDict
           [(''path'', PStr ''artifacts/i.json''), (''sha256'', PStr demo_hash), (''size_bytes'', PInt 9),
            (''entry_count'', PInt 2), (''file_count'', PInt 1), (''total_bytes'', PInt 7),
            (''inventory_sha256'', PStr demo_hash)])]),
      (''injection_report'', PNone), (''before_snapshot'', PNone), (''after_snapshot'', PNone),
      (''evaluation'', PNone), (''outcome'', PNone), (''versions'', PDict demo_versions)]"

lemma failure_invariants:
  "framework_filesystem_invariants demo_failure_receipt = Some []"
  "task_registry_invariants demo_world demo_failure_receipt = []"
  "status_invariants demo_failure_receipt = Some []"
  "snapshot_identity_invariants demo_failure_receipt = Some []"
  "initial_state_invariants demo_failure_receipt = []"
  "send_invariants demo_failure_receipt = Some []"
  "injection_invariants demo_failure_receipt = Some []"
  "evaluation_invariants demo_failure_receipt = Some []"
  "canonical_invariants demo_failure_receipt = []"
  "source_commit_invariants demo_world True demo_failure_receipt = []"
  "trace_artifact_errors demo_world (PDict demo_failure_receipt) = []"
  "schema_errors demo_world (PDict demo_failure_receipt) = []"
  by code_simp+

lemma failure_content: "content_invariants (the_digests demo_world) demo_failure_receipt = Some []"
  by code_simp

lemma failure_baseline: "baseline_invariants (the_digests demo_world) demo_failure_receipt = Some []"
  by code_simp

lemma failure_inventory: "framework_inventory_artifact_errors demo_world (PDict demo_failure_receipt) = []"
  by code_simp

lemma failure_accepted: "accepted demo_world True (PDict demo_failure_receipt)"
  by (simp add: accepted_iff invariant_errors_def failure_content failure_baseline failure_inventory
      failure_invariants)


section \<open>The guarantees at these receipts\<close>

theorem issues_are_canonical_witness:
  "\<exists>inv. invariant_errors demo_world True (PDict demo_send_receipt) = Some inv \<and> inv = []"
  using issues_are_canonical [of demo_world True "PDict demo_send_receipt" "[]"] demo_accepted
  by (auto simp: accepted_def)

theorem accepted_trace_redacted_witness:
  "\<exists>content tokens. trace_zip_tokens demo_world content = Inr tokens \<and> (\<forall>t \<in> set tokens. t = redacted_token)"
proof -
  obtain trace where "dget demo_send_receipt ''trace'' = PDict trace"
    "dget trace ''format'' = PStr ''playwright-trace-zip''"
    by (simp add: demo_send_receipt_def)
  from accepted_trace_redacted [OF demo_accepted _ this]
  show ?thesis by (auto simp: demo_send_receipt_def succeeded_def)
qed

theorem accepted_inventory_bounded_witness:
  "\<exists>entries. dget demo_inventory ''entries'' = PList entries \<and> distinct (map entry_path entries) \<and>
     sum_list (map entry_bytes entries) \<le> 268435456"
proof -
  obtain metadata where
    "dget (as_dict (dget demo_failure_receipt ''framework_filesystem'')) ''inventory'' = PDict metadata"
    by (simp add: demo_failure_receipt_def)
  from accepted_inventory_bounded [OF failure_accepted this]
  show ?thesis by (auto simp: demo_world_def)
qed

theorem accepted_pass_is_one_send_witness:
  "\<exists>subject body. send_contract msg_send_01 subject body \<and> sent_once subject body demo_before demo_after"
proof -
  have before: "prepared (frozen_drafts 1 msg_send_01) = demo_before"
    by (simp add: frozen_drafts_eqs demo_before_def)
  have "claim_recorded demo_recorded_claim demo_claim" by code_simp
  then have run: "receipt_of_run demo_send_receipt msg_send_01 (prepared (frozen_drafts 1 msg_send_01))
      demo_after demo_claim demo_report"
    unfolding before by (simp add: receipt_of_run_def demo_send_receipt_def succeeded_def task_definition_def demo_report_def)
  have "dget demo_send_receipt ''evaluation'' = PDict (evaluation_to_dict demo_evaluation)"
    by (simp add: demo_send_receipt_def)
  moreover have "dget (evaluation_to_dict demo_evaluation) ''functional_status'' = PStr ''pass''" by code_simp
  ultimately show ?thesis
    using accepted_pass_is_one_send [OF demo_accepted demo_wf(2) _ run] unfolding before by blast
qed

theorem accepted_canonical_provenance_witness:
  "\<exists>paths. commit_source_paths demo_world demo_commit = Some paths \<and> paths \<noteq> []"
proof -
  have "dget demo_send_receipt ''canonical'' = PBool True"
    "dget (as_dict (dget demo_send_receipt ''source'')) ''git_commit'' = PStr demo_commit"
    by (simp_all add: demo_send_receipt_def)
  with accepted_canonical_provenance [OF demo_accepted] show ?thesis by auto
qed

theorem unhashable_claim_raises_witness:
  "validate_receipt demo_world False
     (PDict [(''agent_claim'', PDict [(''sourced_from'', PList [])])]) = None"
  using unhashable_claim_raises [of "[(''agent_claim'', PDict [(''sourced_from'', PList [])])]"
      "[(''sourced_from'', PList [])]" demo_world False] by simp

end
