(* ===== verification/Summary_Demo.thy ===== *)
theory Summary_Demo
  imports Summary_Properties Receipt_Demo
begin

text \<open>
  A receipt directory with one accepted receipt of a send run, the plan of that run, and its summary.
\<close>

definition cell_prompt :: string where
  "cell_prompt = (case augment_instruction msg_send_01 ''http://127.0.0.1:8000'' of Inr text \<Rightarrow> text | _ \<Rightarrow> [])"

definition cell_receipt :: pydict where
  "cell_receipt = (''run_id'', PStr ''r'') #
     (''prompt'', PDict [(''text'', PStr cell_prompt), (''sha256'', PStr demo_hash)]) #
     filter (\<lambda>(k, _). k \<noteq> ''prompt'') demo_send_receipt"

definition cell_world :: world where
  "cell_world = demo_world\<lparr>json_text := (\<lambda>_. Inr (PDict cell_receipt))\<rparr>"

definition cell_dir :: layout where
  "cell_dir = ([(''r.json'', File 1 ''receipt'')], Artifacts [(''t.zip'', File 2 ''zip'')])"

definition cell_run :: planned_run where
  "cell_run = \<lparr>pr_ordinal = 1, pr_run_id = ''r'', pr_task = ''msg_send_01'', pr_task_sha256 = demo_hash,
     pr_condition = ''c'', pr_repetition = 1, pr_order = demo_hash\<rparr>"

definition cell_plan :: study_plan where
  "cell_plan = \<lparr>pl_id = ''s'', pl_sha256 = demo_hash, pl_wall = 300,
     pl_source = \<lparr>ps_release = ''0.1.0'', ps_commit = demo_commit, ps_dirty = False, ps_tree = demo_hash, ps_eligible = True\<rparr>,
     pl_runtime = \<lparr>ri_algorithm = runtime_tree_algorithm, ri_package = ''btb'', ri_tree = demo_hash\<rparr>,
     pl_tasks = [\<lparr>tb_id = ''msg_send_01'', tb_sha256 = demo_hash, tb_freeze = ''0.1.0'', tb_steps = 25, tb_wall = 120\<rparr>],
     pl_conditions = [(''c'', \<lparr>cn_baseline = ''playwright-exact'', cn_provider = None,
       cn_model = Some ''deterministic-playwright'', cn_steps = None, cn_framework = ''playwright'', cn_version = ''1''\<rparr>)],
     pl_runs = [cell_run]\<rparr>"

section \<open>The receipt is accepted\<close>

lemma cell_fields: "dget cell_receipt k = (if k = ''run_id'' then PStr ''r''
   else if k = ''prompt'' then PDict [(''text'', PStr cell_prompt), (''sha256'', PStr demo_hash)] else dget demo_send_receipt k)"
  by (simp add: cell_receipt_def demo_send_receipt_def)

lemma cell_digests: "canonical_json_sha256 (the_digests cell_world) v = demo_hash" "prompt_sha256 (the_digests cell_world) s = demo_hash"
  "the_digests (world_at W L) = the_digests W"
  by (simp_all add: canonical_json_sha256_def prompt_sha256_def the_digests_def cell_world_def demo_world_def world_at_def)

lemma starts_with_Cons: "starts_with [] s" "starts_with (x # p) (c # s) \<longleftrightarrow> x = c \<and> starts_with p s" "\<not> starts_with (x # p) []"
  by (auto simp: starts_with_def)

lemma loopback_h: "c \<noteq> CHR ''h'' \<Longrightarrow> loopback_urls (c # s) = loopback_urls s"
  "loopback_urls (CHR ''h'' # s) = (if loopback_url_at (CHR ''h'' # s) then 1 else 0) + loopback_urls s"
  "loopback_url_at (CHR ''h'' # s) \<longleftrightarrow> starts_with (tl loopback_prefix) s \<and>
     (let rest = drop (length loopback_prefix - 1) s; port = takeWhile decimal_digit rest in
      port \<noteq> [] \<and> starts_with ''/'' (drop (length port) rest))"
  by (simp_all add: loopback_url_at_def starts_with_Cons loopback_prefix_def)

lemma cell_identity: "prompt_identity (the_digests cell_world) cell_receipt = Inr (Some (demo_hash, demo_hash))"
proof -
  obtain v where v: "map_of msg_send_01 ''instruction'' = Some v" by (simp add: msg_send_01_def)
  define rest where "rest = py_str v @ '' Operate through the visible page controls only. '' @ answer_contract msg_send_01 @
    '' Do not wrap the final JSON in Markdown.''"
  have "augment_instruction msg_send_01 u = Inr (''Open '' @ u @ ''/ in your browser. Then: '' @ rest)" for u
    unfolding augment_instruction_def rest_def v by (simp only: option.case)
  then have rest: "augment_instruction msg_send_01 ''http://127.0.0.1:<managed-port>'' =
      Inr (''Open http://127.0.0.1:<managed-port>/ in your browser. Then: '' @ rest)"
    "cell_prompt = ''Open http://127.0.0.1:8000/ in your browser. Then: '' @ rest"
    unfolding cell_prompt_def by simp_all
  have "rest \<noteq> []" unfolding rest_def by simp
  have "char_of (34::nat) \<noteq> CHR ''h''" by code_simp
  then have urls: "loopback_urls cell_prompt = 1"
    by (simp add: cell_prompt_def augment_instruction_def answer_contract_def quoted_def Let_def msg_send_01_def loopback_h
        starts_with_Cons loopback_prefix_def decimal_digit_def del: loopback_urls.simps(2))
  have "prompt_parts cell_prompt = Some (''8000'', rest)"
    unfolding rest(2) using \<open>rest \<noteq> []\<close>
    by (simp add: prompt_parts_def starts_with_def loopback_prefix_def prompt_middle_def decimal_digit_def Let_def)
  moreover have "numeral_value ''8000'' = 8000" by code_simp
  ultimately show ?thesis
    using urls rest(1) by (simp add: prompt_identity_def cell_fields cell_digests demo_send_receipt_def Let_def)
qed

lemma cell_content: "content_invariants (the_digests (world_at cell_world cell_dir)) cell_receipt = Some []"
  unfolding cell_digests
  by (simp add: content_invariants_def cell_fields demo_send_receipt_def cell_digests demo_recorded_claim_def
      demo_versions_def task_hash_issues_def prompt_issues_def version_issues_def claim_issues_def
      release_version_def claim_to_dict_def
      demo_claim_def claimed_send_def in_strings_def py_in_def source_beliefs_def str_repr_def msg_send_01_def)

text \<open>Most invariants do not read the two fields that were changed.\<close>

lemma cell_same: "k \<notin> {''run_id'', ''prompt''} \<Longrightarrow> dget cell_receipt k = dget demo_send_receipt k"
  by (simp add: cell_fields)

lemma cell_unchanged:
  "evaluation_invariants cell_receipt = Some []" "framework_filesystem_invariants cell_receipt = Some []"
  "snapshot_identity_invariants cell_receipt = Some []" "initial_state_invariants cell_receipt = []"
  "send_invariants cell_receipt = Some []" "injection_invariants cell_receipt = Some []" "canonical_invariants cell_receipt = []"
proof -
  note same = cell_same [of "''status''", simplified] cell_same [of "''task''", simplified] cell_same [of "''canonical''", simplified]
    cell_same [of "''evaluation''", simplified] cell_same [of "''before_snapshot''", simplified] cell_same [of "''after_snapshot''", simplified]
    cell_same [of "''injection_report''", simplified] cell_same [of "''agent_claim''", simplified] cell_same [of "''source''", simplified]
    cell_same [of "''execution''", simplified] cell_same [of "''baseline''", simplified] cell_same [of "''framework_filesystem''", simplified]
    cell_same [of "''outcome''", simplified] cell_same [of "''freeze''", simplified] cell_same [of "''release''", simplified]
  note defs = succeeded_def task_definition_def
  have "evaluation_invariants cell_receipt = evaluation_invariants demo_send_receipt"
    by (simp only: evaluation_invariants_def expected_evaluation_def defs same)
  then show "evaluation_invariants cell_receipt = Some []" by (simp only: demo_evaluation_invariants)
  have "framework_filesystem_invariants cell_receipt = framework_filesystem_invariants demo_send_receipt"
    by (simp only: framework_filesystem_invariants_def defs same)
  then show "framework_filesystem_invariants cell_receipt = Some []" by (simp only: demo_filesystem)
  show "snapshot_identity_invariants cell_receipt = Some []" by code_simp
  have "initial_state_invariants cell_receipt = initial_state_invariants demo_send_receipt"
    by (simp only: initial_state_invariants_def defs same)
  then show "initial_state_invariants cell_receipt = []" by (simp only: demo_initial)
  have "send_invariants cell_receipt = send_invariants demo_send_receipt"
    by (simp only: send_invariants_def defs same)
  then show "send_invariants cell_receipt = Some []" by (simp only: demo_sends)
  have "injection_invariants cell_receipt = injection_invariants demo_send_receipt"
    by (simp only: injection_invariants_def defs same)
  then show "injection_invariants cell_receipt = Some []" by (simp only: demo_injection)
  have "canonical_invariants cell_receipt = canonical_invariants demo_send_receipt"
    by (simp only: canonical_invariants_def defs same)
  then show "canonical_invariants cell_receipt = []" by (simp only: demo_canonical)
qed

lemma cell_baseline: "baseline_invariants (the_digests (world_at cell_world cell_dir)) cell_receipt = Some []"
  by code_simp

lemma cell_status: "status_invariants cell_receipt = Some []"
  by code_simp

lemma cell_source_commit: "source_commit_invariants (world_at cell_world cell_dir) True cell_receipt = []"
proof -
  have "git_commit_text demo_commit" "commit_source_paths (world_at cell_world cell_dir) demo_commit = Some [''run_pilot.py'']"
    by code_simp+
  moreover have "dget cell_receipt ''canonical'' = PBool True" "dget cell_receipt ''source'' =
      PDict [(''git_commit'', PStr demo_commit), (''git_dirty'', PBool False), (''source_tree_sha256'', PStr demo_hash)]"
    by (simp_all add: cell_fields demo_send_receipt_def)
  moreover have "git_bytes (world_at cell_world cell_dir) = git_bytes demo_world" "hex_sha256 (world_at cell_world cell_dir) x = demo_hash" for x
    by (simp_all add: world_at_def cell_world_def demo_world_def)
  ultimately show ?thesis
    by (simp add: source_commit_invariants_def commit_source_sha256_def issue_if_def) (simp add: demo_world_def)
qed

lemma cell_artifacts: "trace_artifact_errors (world_at cell_world cell_dir) (PDict cell_receipt) = []"
  "framework_inventory_artifact_errors (world_at cell_world cell_dir) (PDict cell_receipt) = []"
  "schema_errors (world_at cell_world cell_dir) (PDict cell_receipt) = []"
proof -
  have parts: "path_parts ''t.zip'' = [''t.zip'']" "safe_artifact_path (PStr ''artifacts/t.zip'') = Some ''t.zip''" by code_simp+
  have r: "read_bounded_artifact (world_at cell_world cell_dir) ''t.zip'' max_trace_artifact_bytes ''trace'' = Inr ''zip''"
    "trace_content_issues (world_at cell_world cell_dir) t ''zip'' = trace_content_issues demo_world t ''zip''"
    "read_bounded_artifact demo_world ''t.zip'' max_trace_artifact_bytes ''trace'' = Inr ''zip''" for t
    by (simp_all add: read_bounded_artifact_def world_at_def cell_world_def cell_dir_def demo_world_def max_trace_artifact_bytes_def
        trace_content_issues_def trace_zip_tokens_def parts)
  obtain trace where trace: "dget demo_send_receipt ''trace'' = PDict trace" "safe_artifact_path (dget trace ''path'') = Some ''t.zip''"
    "succeeded demo_send_receipt"
    by (simp add: demo_send_receipt_def succeeded_def parts)
  have "succeeded cell_receipt" using trace(3) by (simp add: succeeded_def cell_same)
  then show "trace_artifact_errors (world_at cell_world cell_dir) (PDict cell_receipt) = []"
    using demo_trace trace by (simp add: trace_artifact_errors_def cell_same r)
  show "framework_inventory_artifact_errors (world_at cell_world cell_dir) (PDict cell_receipt) = []"
    by (simp add: framework_inventory_artifact_errors_def cell_same) (simp add: demo_send_receipt_def)
  show "schema_errors (world_at cell_world cell_dir) (PDict cell_receipt) = []"
    by (simp add: schema_errors_def world_at_def cell_world_def demo_world_def)
qed

lemma cell_registry: "task_registry_invariants (world_at cell_world cell_dir) cell_receipt = []"
proof -
  have d: "canonical_json_sha256 (the_digests (world_at cell_world cell_dir)) v = demo_hash" "canonical_json_sha256 (the_digests demo_world) v = demo_hash" for v
    by (simp_all add: cell_digests) (simp add: canonical_json_sha256_def the_digests_def demo_world_def)
  have o: "os_error (world_at cell_world cell_dir) = os_error demo_world"
    by (simp add: world_at_def cell_world_def)
  have f: "dget cell_receipt ''task'' = dget demo_send_receipt ''task''" "dget cell_receipt ''freeze'' = dget demo_send_receipt ''freeze''"
    by (simp_all add: cell_fields)
  have "task_registry_invariants (world_at cell_world cell_dir) cell_receipt = task_registry_invariants demo_world demo_send_receipt"
    by (simp only: task_registry_invariants_def task_definition_def d o f)
  then show ?thesis by (simp add: demo_registry)
qed

lemma cell_accepted: "validate_loaded_receipt (world_at cell_world cell_dir) True (PDict cell_receipt) = Some []"
  unfolding accepted_def [symmetric]
  by (simp add: accepted_iff invariant_errors_def cell_content cell_registry cell_unchanged cell_baseline
      cell_status cell_source_commit cell_artifacts)

section \<open>The directory and its summary\<close>

lemma cell_bound: "validate_receipt_binding (world_at cell_world cell_dir) cell_plan cell_run cell_receipt = Inr cell_receipt"
proof -
  have d: "dget msg_send_01 ''id'' = PStr ''msg_send_01''" "dget msg_send_01 ''freeze'' = PStr ''0.1.0''" by code_simp+
  show ?thesis
    by (simp add: validate_receipt_binding_def cell_accepted cell_fields Let_def)
      (simp add: demo_send_receipt_def cell_plan_def receipt_source_def task_and_condition_def of_planned_def cell_run_def
        exactly_bound_def cell_fields cell_digests d observed_condition_def condition_to_dict_def opt_int_def)
qed

lemma cell_validated: "validated_receipts cell_world cell_plan (Some cell_dir) True = Inr [(''r'', cell_receipt)]"
proof -
  have listing: "directory_entries cell_dir = Inr [''artifacts'', ''r.json'']" by code_simp
  have entries: "receipt_entries (planned_ids cell_plan) cell_dir [''artifacts'', ''r.json''] = Inr [(''r'', ''receipt'')]" by code_simp
  have names: "artifact_names cell_receipt = Inr [''t.zip'']" by code_simp
  have match: "artifacts_match (snd cell_dir) [''t.zip''] = Inr ()" by code_simp
  have read: "read_receipt_entry (world_at cell_world cell_dir) name ''receipt'' = Inr cell_receipt" for name
    by (simp add: read_receipt_entry_def world_at_def cell_world_def max_receipt_bytes_def)
  have find: "find (\<lambda>r. pr_run_id r = ''r'') (pl_runs cell_plan) = Some cell_run" by (simp add: cell_plan_def cell_run_def)
  show ?thesis
    by (simp add: validated_receipts_def listing entries read find cell_bound names match cell_fields del: receipt_entries.simps)
      (simp add: planned_ids_def cell_plan_def cell_run_def)
qed

lemma cell_made: "\<exists>cell. summary_cell (the_digests cell_world) ''msg_send_01'' ''c'' [cell_receipt] = Inr cell"
proof -
  obtain signature where signature: "cell_signature cell_receipt ''c'' = Inr signature"
    "dget signature ''baseline'' = dget cell_receipt ''baseline''"
    by (simp add: cell_signature_def cell_fields demo_send_receipt_def)
  obtain baseline framework where "dget cell_receipt ''baseline'' = PDict baseline" "dget baseline ''framework'' = PDict framework"
    by (simp add: cell_fields demo_send_receipt_def)
  moreover have "\<exists>d. metric_data (concat (map true_metrics [cell_receipt])) 1 name = Inr d" for name
    by (simp add: metric_data_def count_true_metrics wilson_interval_def case_prod_beta del: concat.simps list.map)
  then have "metric_data (concat (map true_metrics [cell_receipt])) 1 name = Inr (projr (metric_data (concat (map true_metrics [cell_receipt])) 1 name))" for name
    by (metis sum.sel(2))
  then have "\<exists>ms. map_exc (metric_data (concat (map true_metrics [cell_receipt])) 1) names = Inr ms" for names
    using map_exc_total [of names "metric_data (concat (map true_metrics [cell_receipt])) 1"
        "\<lambda>name. projr (metric_data (concat (map true_metrics [cell_receipt])) 1 name)"] by simp
  ultimately show ?thesis
    by (simp add: summary_cell_def signature cell_identity normalized_hashes_def Let_def del: concat.simps) (metis bind_exc.simps(2))
qed

lemma cell_runs: "runs_of cell_plan (''msg_send_01'', ''c'') = [cell_run]" "cell_keys (pl_runs cell_plan) = [(''msg_send_01'', ''c'')]"
  "receipt_for [(''r'', cell_receipt)] cell_run = cell_receipt"
  by (simp_all add: runs_of_def cell_keys_def cell_plan_def cell_run_def receipt_for_def)

lemma cell_summary:
  obtains data cell where "summary_of_receipts (the_digests cell_world) cell_plan [(''r'', cell_receipt)] = Inr data"
    "summary_cells data = [cell]" "cell_key cell = (''msg_send_01'', ''c'')"
proof -
  obtain cell where cell: "summary_cell (the_digests cell_world) ''msg_send_01'' ''c'' [cell_receipt] = Inr cell" using cell_made by blast
  have r: "indexed_receipt [(''r'', cell_receipt)] cell_run = Inr cell_receipt" by (simp add: indexed_receipt_def cell_run_def)
  have runs: "pl_runs cell_plan = [cell_run]" by (simp add: cell_plan_def)
  have rs: "cell_receipts [(''r'', cell_receipt)] [cell_run] (''msg_send_01'', ''c'') = Inr [cell_receipt]"
    by (simp add: cell_receipts_def r) (simp add: cell_run_def)
  obtain data where data: "summary_of_receipts (the_digests cell_world) cell_plan [(''r'', cell_receipt)] = Inr data"
    "data = summary_data cell_plan 1 [cell] @ [(''summary_sha256'', PStr (canonical_json_sha256 (the_digests cell_world) (PDict (summary_data cell_plan 1 [cell]))))]"
    by (simp add: summary_of_receipts_def cell_runs(2) [unfolded runs] runs r rs cell Let_def)
  then have "summary_cells data = [cell]" by (simp add: summary_cells_def summary_data_def)
  with data(1) show thesis using cell_counted(1) [OF cell] by (rule that)
qed

theorem summary_accounts_for_every_run_witness:
  "\<exists>data cell. summary_cells data = [cell] \<and> dget cell ''denominator'' = PInt 1"
proof -
  obtain data cell where d: "summary_of_receipts (the_digests cell_world) cell_plan [(''r'', cell_receipt)] = Inr data"
    "summary_cells data = [cell]" "cell_key cell = (''msg_send_01'', ''c'')" by (rule cell_summary)
  from summary_accounts_for_every_run [OF d(1)] show ?thesis using d(2,3) by (auto simp: Let_def cell_runs)
qed

theorem summary_passes_are_sends_witness:
  "\<exists>data cell. summary_cells data = [cell] \<and> metric_count cell ''functional_pass'' = 1"
proof -
  obtain data cell where d: "summary_of_receipts (the_digests cell_world) cell_plan [(''r'', cell_receipt)] = Inr data"
    "summary_cells data = [cell]" "cell_key cell = (''msg_send_01'', ''c'')" by (rule cell_summary)
  have "prepared (frozen_drafts 1 msg_send_01) = demo_before" by (simp add: frozen_drafts_eqs demo_before_def)
  moreover have "claim_recorded demo_recorded_claim demo_claim" by code_simp
  ultimately have run: "receipt_of_run cell_receipt msg_send_01 (prepared (frozen_drafts 1 msg_send_01)) demo_after demo_claim demo_report"
    by (simp add: receipt_of_run_def cell_fields demo_send_receipt_def succeeded_def task_definition_def demo_report_def)
  obtain subject body where contract: "send_contract msg_send_01 subject body" "sent_once subject body demo_before demo_after"
    using frozen_send_contracts(1) demo_sent_once by blast
  have success: "attains cell_receipt ''run_success''" by (simp add: attains_simps(1) cell_fields demo_send_receipt_def)
  show ?thesis
    using summary_passes_are_sends [OF cell_validated d(1) _ _ contract(1), where cell = cell and t = 1 and final = "\<lambda>_. demo_after" and claim = "\<lambda>_. demo_claim" and rep = "\<lambda>_. demo_report"]
      d(2,3) run demo_wf(2) contract(2) success
    by (auto simp: cell_runs frozen_drafts_eqs demo_before_def)
qed

theorem control_study_has_no_summary_witness:
  "\<exists>e. summary_of_receipts (the_digests cell_world) cell_plan
     [(''r'', [(''prompt'', PDict [(''text'', PStr (control_procedure ''exact'' ''msg_send_01'' ''http://127.0.0.1:8000''))])])] = Inl e"
  by (rule control_study_has_no_summary [where run = cell_run
        and receipt = "[(''prompt'', PDict [(''text'', PStr (control_procedure ''exact'' ''msg_send_01'' ''http://127.0.0.1:8000''))])]" and behavior = "''exact''" and task_id = "''msg_send_01''"
        and target = "''http://127.0.0.1:8000''" and prompt = "[(''text'', PStr (control_procedure ''exact'' ''msg_send_01'' ''http://127.0.0.1:8000''))]"])
    (simp_all add: cell_plan_def cell_run_def)

end
