(* ===== verification/Spec2Isabelle.thy ===== *)
theory Spec2Isabelle
  imports Fixture_Server Proxy_Receipt Builder_Properties Study_Demo Sandbox_Properties
    Summary_Rates_Properties Summary_Demo
begin

text \<open>
  BrowserTransactionBench measures whether an agent that drives a web mail client in a browser
  commits a send exactly once and says so truthfully when the acknowledgement of the send is
  dropped. This library models its Python program (\<open>src/btb/\<close>) and proves what makes it correct.

  \<^bold>\<open>The program.\<close> A run starts a fixture: a SQLite store behind an HTTP application
  (\<open>app/db.py\<close>, \<open>app/server.py\<close>), prepared by the task runner for one of four frozen tasks
  (\<open>tasks/runner.py\<close>, \<open>tasks/definitions/\<close>). A reverse proxy in front of it drops the connection of
  the configured verified commit and reports every attempt (\<open>harness/inject.py\<close>). The agent ends
  with a claim (\<open>oracle/claim.py\<close>). The evaluator compares the store before and after, the proxy's
  report and the claim, and gives the verdict (\<open>oracle/score.py\<close>). The receipt builder publishes the
  one receipt of the run with its redacted artifacts (\<open>harness/manifest.py\<close>), which an independent
  validator checks without trusting the evaluator (\<open>harness/validate_manifest.py\<close>). A repeated
  study plans a balanced matrix of runs and executes it, one receipt for each run
  (\<open>harness/repetition.py\<close>).

  \<^bold>\<open>Theories.\<close> Each names its source file, and its definitions have the names of the code (a private
  name loses its underscore; a name that another theory has taken gets a prefix, as in
  \<open>v_headline\<close> of the validator).
  \<^item> \<open>BTB_Prelude\<close>, \<open>Py_Value\<close>: shared lemmas; Python values, equality, truth, \<open>str\<close>, JSON rendering.
  \<^item> \<open>Fixture_Db\<close> (\<open>app/db.py\<close>): tables as lists of records, every function of the module, and the
    interleaving of requests as the step relation \<open>fixture_step\<close>: a send reads and writes in two
    steps. The locale \<open>durable_log\<close> (a table that only grows, with unique keys) is interpreted on the
    messages and on the attempts.
  \<^item> \<open>Fixture_Server\<close> (\<open>app/server.py\<close>): the routes with the token guard, as one handler.
  \<^item> \<open>Task_Runner\<close> (\<open>tasks/runner.py\<close> and the frozen JSON files): loading and preparing.
  \<^item> \<open>Inject_Proxy\<close> (\<open>harness/inject.py\<close>): the state under the lock, the operations, the handler
    threads and their steps, the relation \<open>proxy_history\<close> of the states they reach with the sends
    that left no receipt, the report.
  \<^item> \<open>Agent_Claim\<close> (\<open>oracle/claim.py\<close>): strict, control and heuristic claims.
  \<^item> \<open>Oracle_Score\<close> (\<open>oracle/score.py\<close>): the evaluator on dicts. \<open>Score_Tables\<close> has the locale
    \<open>keyed_table\<close>, interpreted on the four tables, which turns the evaluator's operations on dicts
    into facts of the store's records; \<open>Score_Verdicts\<close>, \<open>Score_Properties\<close> and \<open>Score_Histories\<close>
    hold the exact verdicts on all stores and after all histories of sends.
  \<^item> \<open>Receipt_Base\<close>, \<open>Browser_Policy\<close> (with \<open>harness/browser_use_policy.py\<close>), \<open>Receipt_Evidence\<close>,
    \<open>Receipt_Baseline\<close>, \<open>Receipt_Validator\<close>, \<open>Receipt_Artifacts\<close>: the validator, one definition for
    each invariant, in the order of \<open>harness/validate_manifest.py\<close>. A receipt is a Python value, an
    invariant the list of its issues; \<open>None\<close> is an exception. \<open>Receipt_Properties\<close> says what a
    receipt without issues guarantees and \<open>Receipt_Demo\<close> has two accepted receipts.
  \<^item> \<open>Scorer_Validator\<close>: evaluator and validator are two programs for one verdict and agree;
    \<open>Proxy_Receipt\<close>: the reports of the proxy the validator accepts.
  \<^item> \<open>Redaction\<close>, \<open>Receipt_Builder\<close> (\<open>harness/manifest.py\<close>): redaction of text, values and traces,
    source provenance, the builder's record and operations, publication without overwriting, with
    faults before and after the link. \<open>Builder_Properties\<close>: what the builder guarantees.
  \<^item> \<open>Study_Plan\<close> (\<open>harness/repetition.py\<close>, up to \<open>write_plan\<close>): the bindings of a plan, its matrix in
    seeded order, validation and publication. \<open>Study_Properties\<close>: an accepted plan is balanced; the
    locale \<open>rendering\<close> covers a plan as built and as read back from its canonical JSON.
  \<^item> \<open>Run_Provenance\<close> (the first part of \<open>harness/engine.py\<close>): the resolution of a learned baseline, the
    frozen descriptions of the baselines, and the receipt builder of a run.
  \<^item> \<open>Publication\<close> (\<open>harness/repetition.py\<close>): a staged receipt and its artifacts are copied to
    temporaries of the receipt directory and linked to their names, the receipt last; any operation
    of the file system may fail. \<open>Publication_Properties\<close> proves with triples over a view of the
    directory what a commit and its roll back leave, \<open>Publication_Frames\<close> which names each
    operation leaves alone.
  \<^item> \<open>Study_Receipts\<close>, \<open>Study_Run\<close> (\<open>harness/repetition.py\<close>): the receipts of a study are listed,
    validated and bound to their runs; a plan is executed and resumed, every run in a work root of
    its own, with the worker, the clock and the work root as arguments (\<open>parent\<close>, \<open>episode\<close>).
    \<open>Study_Parsing\<close>: the accessors of a built plan; \<open>Study_Run_Properties\<close>: what an attempt and a
    study leave; \<open>Study_Demo\<close>: a study of one run, executed.
  \<^item> \<open>Sandbox\<close> (\<open>harness/browser_use_sandbox.py\<close>): the directory of a learned run, its bounded
    inventory, its removal, and the process group of its worker, which is emptied before the
    inventory. \<open>Sandbox_Properties\<close> has the locale \<open>waiting\<close>, interpreted on the wait for the leader
    and on the wait for the rest of the group.
  \<^item> \<open>Summary_Rates\<close>, \<open>Study_Summary\<close> (\<open>harness/repetition_summary.py\<close>): rates and Wilson intervals
    with the fifty-digit rounding of \<open>decimal\<close>; the cells of a summary and its hash.
    \<open>Summary_Rates_Properties\<close> bounds the error of the arithmetic over the reals,
    \<open>Summary_Properties\<close> says what the counts are, \<open>Summary_Demo\<close> summarises one accepted receipt.

  \<^bold>\<open>What is shown.\<close> The properties are stated in their theories, each under its claim id. In short:
  the store keeps its integrity under all interleavings (\<open>Fixture_Db\<close>); the proxy drops exactly the
  \<open>n\<close>th verified commit, and its receipts are complete at quiescence but for sends whose body makes
  the JSON parser raise what the proxy does not catch (\<open>Inject_Proxy\<close>); verdicts are
  exact and a pass certifies the durable effect (\<open>Score_\<close> theories); the validator rebuilds the same
  evaluation, so an accepted pass is one send (\<open>Scorer_Validator\<close>, \<open>Receipt_Properties\<close>); the builder
  writes at most one receipt, which meets the validator's rules (\<open>Builder_Properties\<close>); secrets do
  not survive redaction (\<open>Redaction\<close>); a plan is balanced and is accepted when read back
  (\<open>Study_Properties\<close>), and a receipt is published last, wholly or not at all as long as the roll
  back itself does not fail (\<open>Publication_Properties\<close>). Executing a plan leaves one receipt for each attempted run, a staged
  one only after a clean end, and the report accounts for every planned run
  (\<open>Study_Run_Properties\<close>). A sandbox inventory is exact, its process group ends, and its recorded
  end is true (\<open>Sandbox_Properties\<close>). A summary counts every planned run once, its passes are sends
  that happened, and its intervals are right to the last printed digit but one unit
  (\<open>Summary_Properties\<close>, \<open>Summary_Rates_Properties\<close>).

  \<^bold>\<open>Parameters and hypotheses.\<close> Code outside the repository is an argument: SHA-256 and the text of
  floats (\<open>digests\<close>), JSON Schema, Git, the ZIP reader, the artifact directory (\<open>world\<close>), the
  environment (\<open>surroundings\<close>), Git and the files of a checkout (\<open>checkout\<close>), faults of the file
  system (\<open>host\<close>), installed versions, JSON parsing. A theorem that relies on such code says so in a
  hypothesis, for instance that a digest is 64 hexadecimal digits or that the Git tree of a clean
  checkout has its files; collision freedom of SHA-256 is never assumed.

  \<^bold>\<open>Bounds.\<close> Python's integers are \<open>int\<close>, its floats rationals: rounding, infinities and NaN are
  not modelled, nor an integer too large for a float. Lengths framed in the source digest are eight
  bytes, big endian. No definition has fuel: recursions are structural or on a list that shrinks, and
  concurrent behaviour is given by step relations.

  \<^bold>\<open>Not modelled.\<close> Text is ASCII, so the Unicode rules of \<open>str\<close> and of regular expressions are
  outside; the names of files in a sandbox are UTF-8, and JSON renders them in both of its forms.
  FastAPI's routing, the parsing of HTTP and JSON text, sockets, SQLite's own files, run
  identifiers, timestamps, and a file system that changes while it is read are outside, too. The
  browser and process side is not modelled: the rest of \<open>harness/engine.py\<close>, \<open>harness/runtime.py\<close>,
  \<open>harness/proxy_serve.py\<close>, \<open>harness/browser_use_worker.py\<close>, \<open>harness/repetition_worker.py\<close>, \<open>baselines/play.py\<close> and \<open>run_pilot.py\<close> mostly start processes and
  call Playwright and browser-use. Of \<open>harness/repetition.py\<close> the supervision of the worker process
  and the command line are outside; of \<open>harness/repetition_summary.py\<close> the rendering and the files.
\<close>

end
